(* ===== verification/Prelude.thy ===== *)
theory Prelude
  imports Main "HOL-Library.Word" "HOL-Library.Monad_Syntax"
begin

text \<open>
  Shared vocabulary of the development: the machine integer types of the C sources, the
  result type of the operations that may leave the ordinary control flow (a guest trap or the
  end of the vmm process), and the generic lemmas on lists, options and words that the
  component theories use.
\<close>

unbundle bit_operations_syntax

type_synonym u8 = "8 word"
type_synonym u16 = "16 word"
type_synonym u32 = "32 word"
type_synonym u64 = "64 word"

named_theorems result_simps \<open>rewriting of the result combinators\<close>

section \<open>Results of vmm operations\<close>

text \<open>
  A C function of the vmm ends in one of three ways. It returns a value; or it raises a guest
  trap: \<open>raise_trap_raw\<close> (\<^verbatim>\<open>vmm/hart_trap.c\<close>) never returns, it jumps to \<open>vmm_entry_point\<close> with the
  state it has built; or the process ends, by a failing \<open>ASSERT\<close> or \<open>__not_reach()\<close>
  (\<^verbatim>\<open>vmm/util.h\<close>), by a guest-requested \<open>exit\<close>, or by a fault of the host processor.
\<close>

datatype vmm_stop =
    Assertion            \<comment> \<open>\<open>ASSERT\<close> / \<open>__not_reach\<close>: \<open>exit(-1)\<close>\<close>
  | Exit nat             \<comment> \<open>an explicit \<open>exit(n)\<close>\<close>
  | Host_fault           \<comment> \<open>divide error or an access outside a host allocation\<close>

datatype ('s, 'a) result = Ret 'a 's | Trap 's | Stop vmm_stop

primrec rbind :: "('s, 'a) result \<Rightarrow> ('a \<Rightarrow> 's \<Rightarrow> ('s, 'b) result) \<Rightarrow> ('s, 'b) result" where
  "rbind (Ret a s) f = f a s"
| "rbind (Trap s) f = Trap s"
| "rbind (Stop e) f = Stop e"

definition rassert :: "bool \<Rightarrow> ('s, 'a) result \<Rightarrow> ('s, 'a) result" where
  "rassert P r = (if P then r else Stop Assertion)"

primrec rstate :: "('s, 'a) result \<Rightarrow> 's option" where
  "rstate (Ret a s) = Some s"
| "rstate (Trap s) = Some s"
| "rstate (Stop e) = None"

primrec rmap :: "('s \<Rightarrow> 't) \<Rightarrow> ('s, 'a) result \<Rightarrow> ('t, 'a) result" where
  "rmap f (Ret a s) = Ret a (f s)"
| "rmap f (Trap s) = Trap (f s)"
| "rmap f (Stop e) = Stop e"

lemma rbind_cong [fundef_cong]:
  "r = r' \<Longrightarrow> (\<And>a s. r' = Ret a s \<Longrightarrow> f a s = g a s) \<Longrightarrow> rbind r f = rbind r' g"
  by (cases r') auto

lemma rbind_eq_Ret [result_simps]:
  "rbind r f = Ret b t \<longleftrightarrow> (\<exists>a s. r = Ret a s \<and> f a s = Ret b t)"
  by (cases r) auto

lemma rbind_eq_Trap [result_simps]:
  "rbind r f = Trap t \<longleftrightarrow> r = Trap t \<or> (\<exists>a s. r = Ret a s \<and> f a s = Trap t)"
  by (cases r) auto

lemma rbind_assoc: "rbind (rbind r f) g = rbind r (\<lambda>a s. rbind (f a s) g)"
  by (cases r) auto

lemma rassert_simps [simp]:
  "rassert True r = r"
  "rassert False r = Stop Assertion"
  by (simp_all add: rassert_def)

lemma rassert_eq_Ret [result_simps]: "rassert P r = Ret a s \<longleftrightarrow> P \<and> r = Ret a s"
  by (simp add: rassert_def)

section \<open>Lists\<close>

text \<open>An array access of the C code on a list; an index outside the list is \<open>None\<close>.\<close>

definition elem_at :: "'a list \<Rightarrow> int \<Rightarrow> 'a option" where
  "elem_at xs i = (if 0 \<le> i \<and> i < int (length xs) then Some (xs ! nat i) else None)"

lemma elem_at_in [simp]: "0 \<le> i \<Longrightarrow> i < int (length xs) \<Longrightarrow> elem_at xs i = Some (xs ! nat i)"
  by (simp add: elem_at_def)

lemma sorted_wrt_insert_at:
  assumes "sorted_wrt P xs" and "p \<le> length xs"
    and "\<And>i. i < p \<Longrightarrow> P (xs ! i) t" and "\<And>i. p \<le> i \<Longrightarrow> i < length xs \<Longrightarrow> P t (xs ! i)"
  shows "sorted_wrt P (take p xs @ t # drop p xs)"
proof -
  have "sorted_wrt P (take p xs @ drop p xs)" using assms(1) by simp
  then have "sorted_wrt P (take p xs)" "sorted_wrt P (drop p xs)"
    "\<forall>x\<in>set (take p xs). \<forall>y\<in>set (drop p xs). P x y"
    by (auto simp only: sorted_wrt_append)
  moreover have "\<forall>x\<in>set (take p xs). P x t"
    using assms(2,3) by (auto simp: in_set_conv_nth)
  moreover have "\<forall>y\<in>set (drop p xs). P t y"
    using assms(2,4) by (auto simp: in_set_conv_nth)
  ultimately show ?thesis by (auto simp: sorted_wrt_append)
qed

section \<open>Words\<close>

lemma ucast_u32_u64_u32 [simp]: "ucast (ucast w :: u64) = w" for w :: u32
  by transfer simp

lemma ucast_u64_succ [simp]: "ucast (ucast w + 1 :: u64) = w + 1" for w :: u32
  by transfer (simp add: take_bit_eq_mod mod_simps)

lemma unat_ucast_u64: "unat (ucast w :: u64) = unat w" for w :: u32
  by transfer simp

lemma bit_u8_beyond [simp]: "8 \<le> n \<Longrightarrow> \<not> bit w n" for w :: u8
  by (auto dest: bit_imp_le_length)

lemma bit_u16_beyond [simp]: "16 \<le> n \<Longrightarrow> \<not> bit w n" for w :: u16
  by (auto dest: bit_imp_le_length)

lemma bit_u32_beyond [simp]: "32 \<le> n \<Longrightarrow> \<not> bit w n" for w :: u32
  by (auto dest: bit_imp_le_length)

lemma word_less_succ: "w \<noteq> - 1 \<Longrightarrow> w < w + 1" for w :: "'a::len word"
  by (metis inc_less_eq_self_iff_eq not_le)

end
