(* ===== verification/Sort_Search.thy ===== *)
theory Sort_Search
  imports Prelude "HOL-Library.Multiset"
begin

text \<open>
  The generic array macros of \<^verbatim>\<open>vmm/sort.h\<close> and \<^verbatim>\<open>vmm/search.h\<close>: bubble sort (\<open>SORT\<close>),
  binary insertion of the last element (\<open>INSERTION_SORT\<close>) and binary search (\<open>SEARCH\<close>).
  They take the name of a comparison function; a comparison returns \<open>None\<close> where the C
  comparator fails an assertion. An access outside the array is \<open>None\<close> too, so a result
  \<open>Some\<close> says that every access was in range.
\<close>

type_synonym 'a comparison = "'a \<Rightarrow> 'a \<Rightarrow> int option"

section \<open>The macros\<close>

text \<open>\<open>SEARCH\<close>: the loop narrows \<open>[idx_low, idx_high]\<close> and tests both ends on each round.\<close>

function search_loop :: "'a comparison \<Rightarrow> 'a list \<Rightarrow> 'a \<Rightarrow> int \<Rightarrow> int \<Rightarrow> nat option option" where
  "search_loop cmp base target idx_low idx_high =
     (if idx_low \<le> idx_high then do {
        elem_low \<leftarrow> elem_at base idx_low;
        elem_high \<leftarrow> elem_at base idx_high;
        c_low \<leftarrow> cmp target elem_low;
        if c_low = 0 then Some (Some (nat idx_low))
        else do {
          c_high \<leftarrow> cmp target elem_high;
          if c_high = 0 then Some (Some (nat idx_high))
          else let idx_mid = (idx_low + idx_high) div 2 in
            if idx_mid = idx_low \<or> idx_mid = idx_high then Some None
            else do {
              elem_mid \<leftarrow> elem_at base idx_mid;
              c_mid \<leftarrow> cmp target elem_mid;
              if c_mid < 0 then search_loop cmp base target idx_low idx_mid
              else search_loop cmp base target idx_mid idx_high
            }
        }
      } else Some None)"
  by pat_completeness auto
termination
  by (relation "measure (\<lambda>(cmp, base, target, lo, hi). nat (hi - lo))") auto

declare search_loop.simps [simp del]

definition SEARCH :: "'a comparison \<Rightarrow> 'a list \<Rightarrow> 'a \<Rightarrow> nat option option" where
  "SEARCH cmp base target = search_loop cmp base target 0 (int (length base) - 1)"

text \<open>
  \<open>INSERTION_SORT\<close>: the last element is the one to insert; the loop finds \<open>__idx_move\<close>, then
  the elements behind it move up by one. \<open>__idx_move\<close> keeps its initial \<open>0\<close> when the loop body
  never runs.
\<close>

function insertion_loop :: "'a comparison \<Rightarrow> 'a list \<Rightarrow> 'a \<Rightarrow> int \<Rightarrow> int \<Rightarrow> int option" where
  "insertion_loop cmp base target idx_low idx_high =
     (if idx_low \<le> idx_high then do {
        elem_low \<leftarrow> elem_at base idx_low;
        elem_high \<leftarrow> elem_at base idx_high;
        c_low \<leftarrow> cmp target elem_low;
        if c_low \<le> 0 then Some idx_low
        else do {
          c_high \<leftarrow> cmp elem_high target;
          if c_high \<le> 0 then Some (idx_high + 1)
          else let idx_mid = (idx_low + idx_high) div 2 in
            if idx_mid = idx_low \<or> idx_mid = idx_high then Some (idx_mid + 1)
            else do {
              elem_mid \<leftarrow> elem_at base idx_mid;
              c_mid \<leftarrow> cmp target elem_mid;
              if c_mid < 0 then insertion_loop cmp base target idx_low idx_mid
              else insertion_loop cmp base target idx_mid idx_high
            }
        }
      } else Some 0)"
  by pat_completeness auto
termination
  by (relation "measure (\<lambda>(cmp, base, target, lo, hi). nat (hi - lo))") auto

declare insertion_loop.simps [simp del]

fun shift_loop :: "'a list \<Rightarrow> nat \<Rightarrow> nat \<Rightarrow> 'a list" where
  "shift_loop base idx idx_move =
     (if idx_move < idx then shift_loop (base[idx := base ! (idx - 1)]) (idx - 1) idx_move
      else base)"

declare shift_loop.simps [simp del]

definition INSERTION_SORT :: "'a comparison \<Rightarrow> 'a list \<Rightarrow> 'a list option" where
  "INSERTION_SORT cmp base =
     (if base = [] then Some []
      else let num = length base; elem_target = base ! (num - 1) in do {
        idx_move \<leftarrow> insertion_loop cmp base elem_target 0 (int num - 2);
        if idx_move < int num - 1
        then Some ((shift_loop base (num - 1) (nat idx_move)) [nat idx_move := elem_target])
        else Some base
      })"

text \<open>\<open>SORT\<close>: bubble sort; \<open>sort_inner\<close> is one pass of the inner loop.\<close>

function sort_inner :: "'a comparison \<Rightarrow> 'a list \<Rightarrow> nat \<Rightarrow> nat \<Rightarrow> 'a list option" where
  "sort_inner cmp base idx_in idx_out =
     (if idx_in < idx_out then do {
        c \<leftarrow> cmp (base ! idx_in) (base ! (idx_in + 1));
        sort_inner cmp
          (if 0 < c then base[idx_in := base ! (idx_in + 1), idx_in + 1 := base ! idx_in] else base)
          (idx_in + 1) idx_out
      } else Some base)"
  by pat_completeness auto
termination
  by (relation "measure (\<lambda>(cmp, base, i, n). n - i)") auto

declare sort_inner.simps [simp del]

primrec sort_outer :: "'a comparison \<Rightarrow> nat \<Rightarrow> 'a list \<Rightarrow> 'a list option" where
  "sort_outer cmp 0 base = Some base"
| "sort_outer cmp (Suc n) base = do {
     base' \<leftarrow> sort_inner cmp base 0 (Suc n);
     sort_outer cmp n base'
   }"

definition SORT :: "'a comparison \<Rightarrow> 'a list \<Rightarrow> 'a list option" where
  "SORT cmp base = sort_outer cmp (length base - 1) base"

section \<open>Binary search\<close>

text \<open>
  What \<open>SEARCH\<close> needs of its input: the comparison of the target with the elements is defined
  and its sign falls from the left to the right of the array.
\<close>

definition probe_monotone :: "'a comparison \<Rightarrow> 'a \<Rightarrow> 'a list \<Rightarrow> bool" where
  "probe_monotone cmp target base \<longleftrightarrow>
     (\<exists>f. (\<forall>i<length base. cmp target (base ! i) = Some (f i)) \<and>
          (\<forall>i j. i \<le> j \<longrightarrow> j < length base \<longrightarrow> sgn (f j) \<le> sgn (f i)))"

lemma search_loop_finds:
  fixes f :: "nat \<Rightarrow> int"
  assumes cmp: "\<And>i. i < length base \<Longrightarrow> cmp target (base ! i) = Some (f i)"
    and mono: "\<And>i j. i \<le> j \<Longrightarrow> j < length base \<Longrightarrow> sgn (f j) \<le> sgn (f i)"
    and "0 \<le> lo" and "hi < int (length base)"
    and "\<forall>i<length base. f i = 0 \<longrightarrow> (\<exists>j. lo \<le> int j \<and> int j \<le> hi \<and> f j = 0)"
  shows "\<exists>r. search_loop cmp base target lo hi = Some r \<and>
           (case r of Some i \<Rightarrow> i < length base \<and> f i = 0 | None \<Rightarrow> \<forall>i<length base. f i \<noteq> 0)"
  using assms(3-5)
proof (induction "nat (hi - lo)" arbitrary: lo hi rule: less_induct)
  case less
  note unfold = search_loop.simps [of cmp base target lo hi]
  let ?mid = "(lo + hi) div 2"
  consider (stop) "hi < lo" | (hit) "lo \<le> hi" "f (nat lo) = 0 \<or> f (nat hi) = 0"
    | (short) "lo \<le> hi" "f (nat lo) \<noteq> 0" "f (nat hi) \<noteq> 0" "?mid = lo \<or> ?mid = hi"
    | (split) "f (nat lo) \<noteq> 0" "f (nat hi) \<noteq> 0" "lo < ?mid" "?mid < hi"
    by fastforce
  then show ?case
  proof cases
    case stop
    with less.prems(3) show ?thesis by (fastforce simp: unfold)
  next
    case hit
    with less.prems(1,2) have "search_loop cmp base target lo hi =
        Some (Some (if f (nat lo) = 0 then nat lo else nat hi))"
      by (auto simp: unfold cmp)
    with hit less.prems(1,2) show ?thesis by (auto simp: nat_less_iff)
  next
    case short
    have "f j \<noteq> 0" if "lo \<le> int j" "int j \<le> hi" for j
    proof -
      have "int j = lo \<or> int j = hi" using short(1,4) that by auto
      with short(2,3) show ?thesis by (metis nat_int)
    qed
    with less.prems(3) have "\<forall>i<length base. f i \<noteq> 0" by blast
    moreover have "search_loop cmp base target lo hi = Some None"
      using short less.prems(1,2) by (simp add: unfold cmp)
    ultimately show ?thesis by simp
  next
    case split
    let ?m = "nat ?mid"
    from split less.prems(1,2) have m: "?m < length base" "0 \<le> ?mid" "?mid < int (length base)" "int ?m = ?mid"
      by auto
    have step: "search_loop cmp base target lo hi =
        (if f ?m < 0 then search_loop cmp base target lo ?mid else search_loop cmp base target ?mid hi)"
      using split less.prems(1,2) m by (simp add: unfold cmp)
    show ?thesis
    proof (cases "f ?m < 0")
      case True
      have "f j \<noteq> 0" if "?mid < int j" "int j \<le> hi" for j
        using mono [of ?m j] True that less.prems(2) by (auto simp: nat_le_iff sgn_if split: if_splits)
      then have "\<forall>i<length base. f i = 0 \<longrightarrow> (\<exists>j. lo \<le> int j \<and> int j \<le> ?mid \<and> f j = 0)"
      proof (intro allI impI)
        fix i assume "i < length base" "f i = 0"
        then obtain j where "lo \<le> int j" "int j \<le> hi" "f j = 0" using less.prems(3) by blast
        then show "\<exists>j. lo \<le> int j \<and> int j \<le> ?mid \<and> f j = 0"
          using \<open>\<And>j. ?mid < int j \<Longrightarrow> int j \<le> hi \<Longrightarrow> f j \<noteq> 0\<close> [of j]
          by (cases "?mid < int j") auto
      qed
      then show ?thesis
        using less.hyps [of ?mid lo] split(3,4) less.prems(1) m(3) True by (simp add: step)
    next
      case False
      have "f j \<noteq> 0 \<or> f ?m = 0" if "int j < ?mid" for j
        using mono [of j ?m] m False that by (auto simp: sgn_if split: if_splits)
      then have "\<forall>i<length base. f i = 0 \<longrightarrow> (\<exists>j. ?mid \<le> int j \<and> int j \<le> hi \<and> f j = 0)"
      proof (intro allI impI)
        fix i assume "i < length base" "f i = 0"
        then obtain j where "lo \<le> int j" "int j \<le> hi" "f j = 0" using less.prems(3) by blast
        then show "\<exists>j. ?mid \<le> int j \<and> int j \<le> hi \<and> f j = 0"
          using \<open>\<And>j. int j < ?mid \<Longrightarrow> f j \<noteq> 0 \<or> f ?m = 0\<close> [of j] m(4) split(4)
          by (intro exI [of _ "if ?mid \<le> int j then j else ?m"]) auto
      qed
      then show ?thesis
        using less.hyps [of hi ?mid] split(3,4) less.prems(2) m(2) False by (simp add: step)
    qed
  qed
qed

lemma SEARCH_finds:
  assumes "probe_monotone cmp target base"
  shows "\<exists>r. SEARCH cmp base target = Some r \<and>
           (case r of Some i \<Rightarrow> i < length base \<and> cmp target (base ! i) = Some 0
                    | None \<Rightarrow> \<forall>i<length base. cmp target (base ! i) \<noteq> Some 0)"
proof -
  from assms obtain f where f: "\<And>i. i < length base \<Longrightarrow> cmp target (base ! i) = Some (f i)"
    and mono: "\<And>i j. i \<le> j \<Longrightarrow> j < length base \<Longrightarrow> sgn (f j) \<le> sgn (f i)"
    unfolding probe_monotone_def by blast
  have "\<forall>i<length base. f i = 0 \<longrightarrow>
      (\<exists>j. 0 \<le> int j \<and> int j \<le> int (length base) - 1 \<and> f j = 0)"
    by force
  then show ?thesis
    using search_loop_finds [of base cmp target f 0 "int (length base) - 1"] f mono
    unfolding SEARCH_def by (fastforce split: option.splits)
qed

section \<open>Comparisons that order their elements\<close>

definition cmp_le :: "'a comparison \<Rightarrow> 'a \<Rightarrow> 'a \<Rightarrow> bool" where
  "cmp_le cmp x y \<longleftrightarrow> (case cmp x y of Some c \<Rightarrow> c \<le> 0 | None \<Rightarrow> False)"

text \<open>
  The contract of a comparison function on a set of elements: it is defined, its sign is
  antisymmetric, and it is transitive. The macros are verified against this contract alone.
\<close>

locale comparator =
  fixes cmp :: "'a \<Rightarrow> 'a \<Rightarrow> int option"
    and carrier :: "'a set"
  assumes cmp_total: "x \<in> carrier \<Longrightarrow> y \<in> carrier \<Longrightarrow> \<exists>c. cmp x y = Some c"
    and cmp_antisym: "x \<in> carrier \<Longrightarrow> y \<in> carrier \<Longrightarrow> cmp x y = Some c \<Longrightarrow> cmp y x = Some d \<Longrightarrow>
          sgn d = - sgn c"
    and cmp_trans: "x \<in> carrier \<Longrightarrow> y \<in> carrier \<Longrightarrow> z \<in> carrier \<Longrightarrow>
          cmp_le cmp x y \<Longrightarrow> cmp_le cmp y z \<Longrightarrow> cmp_le cmp x z"
begin

lemma le_or_ge: "x \<in> carrier \<Longrightarrow> y \<in> carrier \<Longrightarrow> cmp x y = Some c \<Longrightarrow>
  (cmp_le cmp x y \<longleftrightarrow> c \<le> 0) \<and> (cmp_le cmp y x \<longleftrightarrow> 0 \<le> c)"
  using cmp_total [of y x] cmp_antisym [of x y c]
  by (auto simp: cmp_le_def sgn_if split: if_splits)

lemma le_refl: "x \<in> carrier \<Longrightarrow> cmp_le cmp x x"
  using cmp_total [of x x] cmp_antisym [of x x] by (fastforce simp: cmp_le_def sgn_if split: if_splits)

lemma probe_monotone_sorted:
  assumes "sorted_wrt (cmp_le cmp) base" and "set base \<subseteq> carrier" and "target \<in> carrier"
  shows "probe_monotone cmp target base"
proof -
  let ?f = "\<lambda>i. the (cmp target (base ! i))"
  have some: "cmp target (base ! i) = Some (?f i)" if "i < length base" for i
    using cmp_total [of target "base ! i"] assms(2,3) that by (auto simp: subset_iff)
  have "sgn (?f j) \<le> sgn (?f i)" if "i \<le> j" "j < length base" for i j
  proof -
    have car: "base ! i \<in> carrier" "base ! j \<in> carrier" using that assms(2) by auto
    have "cmp_le cmp (base ! i) (base ! j)"
      using that assms(1) car le_refl by (cases "i = j") (auto simp: sorted_wrt_iff_nth_less)
    then have "cmp_le cmp target (base ! i) \<Longrightarrow> cmp_le cmp target (base ! j)"
      "cmp_le cmp (base ! j) target \<Longrightarrow> cmp_le cmp (base ! i) target"
      using cmp_trans car assms(3) by blast+
    moreover have "cmp_le cmp target (base ! i) \<longleftrightarrow> ?f i \<le> 0" "cmp_le cmp (base ! i) target \<longleftrightarrow> 0 \<le> ?f i"
      using le_or_ge [OF assms(3) car(1) some] that by simp_all
    moreover have "cmp_le cmp target (base ! j) \<longleftrightarrow> ?f j \<le> 0" "cmp_le cmp (base ! j) target \<longleftrightarrow> 0 \<le> ?f j"
      using le_or_ge [OF assms(3) car(2) some] that by simp_all
    ultimately show ?thesis by (simp add: sgn_if) linarith
  qed
  then show ?thesis unfolding probe_monotone_def by (intro exI [of _ ?f]) (use some in auto)
qed

lemma insertion_loop_position:
  assumes "n < length base" and sorted: "sorted_wrt (cmp_le cmp) (take n base)"
    and carrier: "set base \<subseteq> carrier" "target \<in> carrier"
    and "0 \<le> lo" and "lo \<le> hi" and "hi < int n"
    and "\<forall>i<n. int i < lo \<longrightarrow> cmp_le cmp (base ! i) target"
    and "\<forall>i<n. hi < int i \<longrightarrow> cmp_le cmp target (base ! i)"
  shows "\<exists>p. insertion_loop cmp base target lo hi = Some p \<and> 0 \<le> p \<and> p \<le> int n \<and>
           (\<forall>i<n. int i < p \<longrightarrow> cmp_le cmp (base ! i) target) \<and>
           (\<forall>i<n. p \<le> int i \<longrightarrow> cmp_le cmp target (base ! i))"
  using assms(5-)
proof (induction "nat (hi - lo)" arbitrary: lo hi rule: less_induct)
  case less
  note unfold = insertion_loop.simps [of cmp base target lo hi]
  let ?mid = "(lo + hi) div 2"
  let ?x = "\<lambda>k. base ! nat k"
  have car: "base ! i \<in> carrier" if "i < length base" for i using that carrier(1) by auto
  have le: "cmp_le cmp (base ! i) (base ! j)" if "i \<le> j" "j < n" for i j
    using sorted that le_refl car assms(1) by (cases "i = j") (auto simp: sorted_wrt_iff_nth_less)
  have below: "\<forall>i<n. int i \<le> k \<longrightarrow> cmp_le cmp (base ! i) target"
    if "0 \<le> k" "k < int n" "cmp_le cmp (?x k) target" for k
  proof (intro allI impI)
    fix i assume i: "i < n" "int i \<le> k"
    have "cmp_le cmp (base ! i) (?x k)" using i that by (intro le) auto
    then show "cmp_le cmp (base ! i) target"
      by (rule cmp_trans [rotated -2]) (use i that assms(1) carrier(2) in \<open>auto intro: car\<close>)
  qed
  have above: "\<forall>i<n. k \<le> int i \<longrightarrow> cmp_le cmp target (base ! i)"
    if "0 \<le> k" "k < int n" "cmp_le cmp target (?x k)" for k
  proof (intro allI impI)
    fix i assume i: "i < n" "k \<le> int i"
    have "cmp_le cmp (?x k) (base ! i)" using i that by (intro le) auto
    then show "cmp_le cmp target (base ! i)"
      by (rule cmp_trans [rotated -1]) (use i that assms(1) carrier(2) in \<open>auto intro: car\<close>)
  qed
  have ends: "0 \<le> lo" "lo < int (length base)" "0 \<le> hi" "hi < int (length base)"
    using less.prems assms(1) by auto
  then have ncar: "?x lo \<in> carrier" "?x hi \<in> carrier" by (auto intro: car)
  obtain cl ch where cl: "cmp target (?x lo) = Some cl" and ch: "cmp (?x hi) target = Some ch"
    using cmp_total carrier(2) ncar by metis
  note cl_le = le_or_ge [OF carrier(2) ncar(1) cl] and ch_le = le_or_ge [OF ncar(2) carrier(2) ch]
  consider (low) "cl \<le> 0" | (high) "0 < cl" "ch \<le> 0" | (short) "0 < cl" "0 < ch" "?mid = lo \<or> ?mid = hi"
    | (split) "0 < cl" "0 < ch" "lo < ?mid" "?mid < hi"
    using less.prems(2) by fastforce
  then show ?case
  proof cases
    case low
    then have "insertion_loop cmp base target lo hi = Some lo"
      using less.prems(2) cl ends by (simp add: unfold)
    moreover have "\<forall>i<n. lo \<le> int i \<longrightarrow> cmp_le cmp target (base ! i)"
      using above [of lo] cl_le low less.prems by simp
    ultimately show ?thesis using less.prems by auto
  next
    case high
    then have "insertion_loop cmp base target lo hi = Some (hi + 1)"
      using less.prems(2) cl ch ends by (simp add: unfold)
    moreover have "\<forall>i<n. int i \<le> hi \<longrightarrow> cmp_le cmp (base ! i) target"
      using below [of hi] ch_le high less.prems by simp
    ultimately show ?thesis using less.prems by auto
  next
    case short
    have "lo \<noteq> hi" using short(1,2) cl_le ch_le by auto
    then have mid: "?mid = lo" "hi = lo + 1" using short(3) less.prems(2) by auto
    have "\<forall>i<n. int i \<le> lo \<longrightarrow> cmp_le cmp (base ! i) target"
      using below [of lo] cl_le short(1) less.prems by simp
    moreover have "\<forall>i<n. hi \<le> int i \<longrightarrow> cmp_le cmp target (base ! i)"
      using above [of hi] ch_le short(2) less.prems by simp
    moreover have "insertion_loop cmp base target lo hi = Some (lo + 1)"
      using mid(1) less.prems(2) cl ch short(1,2) ends by (simp add: unfold)
    ultimately show ?thesis using mid less.prems by auto
  next
    case split
    then have mid: "0 \<le> ?mid" "?mid < int n" "?mid < int (length base)" using less.prems assms(1) by auto
    then have mcar: "?x ?mid \<in> carrier" by (auto intro: car)
    obtain cm where cm: "cmp target (?x ?mid) = Some cm" using cmp_total carrier(2) mcar by metis
    note cm_le = le_or_ge [OF carrier(2) mcar cm]
    have step: "insertion_loop cmp base target lo hi =
        (if cm < 0 then insertion_loop cmp base target lo ?mid else insertion_loop cmp base target ?mid hi)"
      using less.prems(2) split mid cl ch cm ends by (simp add: unfold)
    show ?thesis
    proof (cases "cm < 0")
      case True
      then have "\<forall>i<n. ?mid < int i \<longrightarrow> cmp_le cmp target (base ! i)"
        using above [OF mid(1,2)] cm_le by auto
      then show ?thesis
        using less.hyps [of ?mid lo] less.prems(1,2,4) mid(2) split step True by simp
    next
      case False
      then have "\<forall>i<n. int i < ?mid \<longrightarrow> cmp_le cmp (base ! i) target"
        using below [OF mid(1,2)] cm_le by auto
      then show ?thesis
        using less.hyps [of hi ?mid] less.prems(3,5) mid(1) split step False by simp
    qed
  qed
qed

end

lemma length_shift_loop [simp]: "length (shift_loop base k m) = length base"
  by (induction base k m rule: shift_loop.induct) (subst shift_loop.simps, simp)

lemma nth_shift_loop:
  "k < length base \<Longrightarrow> i < length base \<Longrightarrow>
   shift_loop base k m ! i = (if m < i \<and> i \<le> k then base ! (i - 1) else base ! i)"
proof (induction base k m rule: shift_loop.induct)
  case (1 base k m)
  show ?case
  proof (cases "m < k")
    case True
    then have "shift_loop base k m ! i = shift_loop (base[k := base ! (k - 1)]) (k - 1) m ! i"
      by (subst shift_loop.simps) simp
    also have "\<dots> = (if m < i \<and> i \<le> k - 1 then base[k := base ! (k - 1)] ! (i - 1)
                      else base[k := base ! (k - 1)] ! i)"
      using 1 True by simp
    also have "\<dots> = (if m < i \<and> i \<le> k then base ! (i - 1) else base ! i)"
      using True 1(2,3) by (cases "i = k") (auto simp: nth_list_update)
    finally show ?thesis .
  qed (subst shift_loop.simps, auto)
qed

lemma shift_insert:
  assumes "m < length base"
  shows "(shift_loop base (length base - 1) m)[m := t] = take m base @ t # drop m (butlast base)"
proof (rule nth_equalityI)
  fix i assume "i < length ((shift_loop base (length base - 1) m)[m := t])"
  then show "(shift_loop base (length base - 1) m)[m := t] ! i = (take m base @ t # drop m (butlast base)) ! i"
    using assms by (auto simp: nth_shift_loop nth_list_update nth_append nth_butlast nth_Cons' )
qed (use assms in simp)
context comparator
begin

lemma INSERTION_SORT_sorts:
  assumes "sorted_wrt (cmp_le cmp) (butlast base)" and "set base \<subseteq> carrier"
  shows "\<exists>r. INSERTION_SORT cmp base = Some r \<and> sorted_wrt (cmp_le cmp) r \<and> mset r = mset base"
proof (cases "length base \<le> 1")
  case True
  then have "INSERTION_SORT cmp base = Some base"
    by (cases base) (simp_all add: INSERTION_SORT_def insertion_loop.simps)
  moreover have "sorted_wrt (cmp_le cmp) base" using True by (cases base) auto
  ultimately show ?thesis by simp
next
  case False
  let ?n = "length base - 1" let ?t = "base ! ?n"
  have "base \<noteq> []" using False by auto
  have n: "?n < length base" using False by linarith
  have t: "?t \<in> carrier" using assms(2) False by (auto simp: subset_iff)
  have butlast: "butlast base = take ?n base" by (simp add: butlast_conv_take)
  obtain p where p: "insertion_loop cmp base ?t 0 (int (length base) - 2) = Some p" "0 \<le> p" "p \<le> int ?n"
    and before: "\<forall>i<?n. int i < p \<longrightarrow> cmp_le cmp (base ! i) ?t"
    and behind: "\<forall>i<?n. p \<le> int i \<longrightarrow> cmp_le cmp ?t (base ! i)"
    using insertion_loop_position [of ?n base ?t 0 "int (length base) - 2"] assms False t n
    by (auto simp: butlast)
  let ?r = "take (nat p) base @ ?t # drop (nat p) (butlast base)"
  have ret: "INSERTION_SORT cmp base = Some ?r"
  proof (cases "p < int ?n")
    case True
    then show ?thesis using p \<open>base \<noteq> []\<close> shift_insert [of "nat p" base ?t]
      by (simp add: INSERTION_SORT_def nat_less_iff)
  next
    case False
    then have "p = int ?n" "nat p = ?n" using p(3) by simp_all
    moreover have "take ?n base @ [?t] = base"
      using \<open>base \<noteq> []\<close> by (simp add: take_Suc_conv_app_nth [symmetric])
    moreover have "\<not> int ?n < int (length base) - 1" using n by simp
    ultimately show ?thesis using p \<open>base \<noteq> []\<close> by (simp add: INSERTION_SORT_def Let_def del: of_nat_diff)
  qed
  have "sorted_wrt (cmp_le cmp) (take (nat p) (butlast base) @ ?t # drop (nat p) (butlast base))"
    using before behind p(2,3) assms(1)
    by (intro sorted_wrt_insert_at) (auto simp: nth_butlast nat_le_iff nat_less_iff)
  moreover have "take (nat p) (butlast base) = take (nat p) base"
    using p(3) by (simp add: butlast min_def nat_le_iff)
  moreover have "mset ?r = mset base"
  proof -
    have "mset ?r = mset (take (nat p) (butlast base) @ drop (nat p) (butlast base)) + {#?t#}"
      using \<open>take (nat p) (butlast base) = take (nat p) base\<close> by simp
    also have "\<dots> = mset (butlast base @ [last base])"
      using \<open>base \<noteq> []\<close> by (simp only: append_take_drop_id) (simp add: last_conv_nth)
    finally show ?thesis using \<open>base \<noteq> []\<close> by simp
  qed
  ultimately show ?thesis using ret by simp
qed

text \<open>One bubble pass carries a greatest element of the prefix to its end.\<close>

lemma sort_inner_pass:
  assumes "set base \<subseteq> carrier" and "m < length base" and "k \<le> m"
    and "\<forall>i<k. cmp_le cmp (base ! i) (base ! k)"
  shows "\<exists>r. sort_inner cmp base k m = Some r \<and> mset r = mset base \<and>
           (\<forall>i. m < i \<longrightarrow> i < length base \<longrightarrow> r ! i = base ! i) \<and>
           (\<forall>i<m. cmp_le cmp (r ! i) (r ! m))"
  using assms
proof (induction "m - k" arbitrary: base k)
  case 0
  then show ?case by (auto simp: sort_inner.simps)
next
  case (Suc d)
  then have "k < m" by simp
  have car: "base ! i \<in> carrier" if "i < length base" for i using Suc.prems(1) that by auto
  have k: "base ! k \<in> carrier" "base ! (k + 1) \<in> carrier" using \<open>k < m\<close> Suc.prems(2) by (auto intro: car)
  then obtain c where c: "cmp (base ! k) (base ! (k + 1)) = Some c" using cmp_total by blast
  note c_le = le_or_ge [OF k c]
  define b where "b = (if 0 < c then base[k := base ! (k + 1), k + 1 := base ! k] else base)"
  have [simp]: "length b = length base" by (simp add: b_def)
  have step: "sort_inner cmp base k m = sort_inner cmp b (k + 1) m"
    using \<open>k < m\<close> c by (subst sort_inner.simps) (simp add: b_def)
  have mset: "mset b = mset base" using \<open>k < m\<close> Suc.prems(2) by (simp add: b_def mset_swap)
  then have set: "set b \<subseteq> carrier" using Suc.prems(1) by (metis mset_eq_setD)
  have "cmp_le cmp (b ! i) (b ! (k + 1))" if "i < k + 1" for i
  proof (cases "i = k")
    case True
    then show ?thesis using c_le \<open>k < m\<close> Suc.prems(2) by (auto simp: b_def nth_list_update)
  next
    case False
    then have i: "cmp_le cmp (base ! i) (base ! k)" "base ! i \<in> carrier"
      using Suc.prems(2,4) that \<open>k < m\<close> by (auto intro: car)
    show ?thesis
    proof (cases "0 < c")
      case True
      then show ?thesis using i(1) False that \<open>k < m\<close> Suc.prems(2) by (auto simp: b_def nth_list_update)
    next
      case False
      then have "cmp_le cmp (base ! k) (base ! (k + 1))" using c_le by simp
      then have "cmp_le cmp (base ! i) (base ! (k + 1))" using cmp_trans [OF i(2) k i(1)] by simp
      then show ?thesis using False by (simp add: b_def)
    qed
  qed
  moreover have "d = m - (k + 1)" using Suc.hyps(2) by simp
  ultimately obtain r where "sort_inner cmp b (k + 1) m = Some r" "mset r = mset b"
    "\<forall>i. m < i \<longrightarrow> i < length b \<longrightarrow> r ! i = b ! i" "\<forall>i<m. cmp_le cmp (r ! i) (r ! m)"
    using Suc.hyps(1) [of "k + 1" b] set Suc.prems(2) \<open>k < m\<close> by auto
  then show ?case using step mset \<open>k < m\<close> by (auto simp: b_def nth_list_update)
qed

lemma sort_outer_sorts:
  assumes "set base \<subseteq> carrier" and "m < length base"
    and "\<forall>i j. i < j \<longrightarrow> m < j \<longrightarrow> j < length base \<longrightarrow> cmp_le cmp (base ! i) (base ! j)"
  shows "\<exists>r. sort_outer cmp m base = Some r \<and> mset r = mset base \<and> sorted_wrt (cmp_le cmp) r"
  using assms
proof (induction m arbitrary: base)
  case 0
  then show ?case by (auto simp: sorted_wrt_iff_nth_less)
next
  case (Suc n)
  obtain r where r: "sort_inner cmp base 0 (Suc n) = Some r" "mset r = mset base"
    and rest: "\<forall>i. Suc n < i \<longrightarrow> i < length base \<longrightarrow> r ! i = base ! i"
    and top: "\<forall>i<Suc n. cmp_le cmp (r ! i) (r ! Suc n)"
    using sort_inner_pass [of base "Suc n" 0] Suc.prems(1,2) by auto
  have len: "length r = length base" using r(2) by (metis size_mset)
  have "drop (Suc (Suc n)) r = drop (Suc (Suc n)) base"
    using rest len by (intro nth_equalityI) auto
  moreover have "mset (take (Suc (Suc n)) r @ drop (Suc (Suc n)) r) =
      mset (take (Suc (Suc n)) base @ drop (Suc (Suc n)) base)"
    using r(2) by (simp only: append_take_drop_id)
  ultimately have prefix: "set (take (Suc (Suc n)) r) = set (take (Suc (Suc n)) base)"
    by (metis mset_append add_right_cancel mset_eq_setD)
  have "cmp_le cmp (r ! i) (r ! j)" if ij: "i < j" "n < j" "j < length base" for i j
  proof (cases "Suc n < j")
    case False
    then have "j = Suc n" using ij by simp
    then show ?thesis using top ij by simp
  next
    case True
    show ?thesis
    proof (cases "Suc n < i")
      case True
      then show ?thesis using Suc.prems(3) rest ij by auto
    next
      case False
      then have "r ! i \<in> set (take (Suc (Suc n)) base)"
        unfolding prefix [symmetric] using ij len Suc.prems(2)
        by (auto simp: in_set_conv_nth intro!: exI [of _ i])
      then obtain k where "k < Suc (Suc n)" "r ! i = base ! k" by (auto simp: in_set_conv_nth)
      then show ?thesis using Suc.prems(3) rest ij True by auto
    qed
  qed
  then have "\<exists>r'. sort_outer cmp n r = Some r' \<and> mset r' = mset r \<and> sorted_wrt (cmp_le cmp) r'"
    using Suc.prems(1,2) len mset_eq_setD [OF r(2)] by (intro Suc.IH) auto
  then show ?case using r by auto
qed

lemma SORT_sorts:
  assumes "set base \<subseteq> carrier"
  shows "\<exists>r. SORT cmp base = Some r \<and> mset r = mset base \<and> sorted_wrt (cmp_le cmp) r"
proof (cases base)
  case Nil
  then show ?thesis by (simp add: SORT_def)
next
  case Cons
  then show ?thesis using sort_outer_sorts [of base "length base - 1"] assms by (simp add: SORT_def)
qed

lemma SEARCH_sorted:
  assumes "sorted_wrt (cmp_le cmp) base" and "set base \<subseteq> carrier" and "target \<in> carrier"
  shows "\<exists>r. SEARCH cmp base target = Some r \<and>
           (case r of Some i \<Rightarrow> i < length base \<and> cmp target (base ! i) = Some 0
                    | None \<Rightarrow> \<forall>i<length base. cmp target (base ! i) \<noteq> Some 0)"
  by (rule SEARCH_finds [OF probe_monotone_sorted [OF assms]])

end

end
