(* ===== verification/Pm_Region.thy ===== *)
theory Pm_Region
  imports Sort_Search
begin

text \<open>
  The table of physical memory regions (\<^verbatim>\<open>vmm/pm_region.h\<close>, \<^verbatim>\<open>vmm/pm_region.c\<close>). A region
  maps a half-open interval of guest physical addresses to the callbacks of a device. The
  callback pointers of a region are the constructor that names the device; the table is the
  list of the first \<open>nr_pmr_ops\<close> entries of the array \<open>pmr_ops\<close>.
\<close>

section \<open>Data\<close>

datatype device = Bootrom | Main_memory | Clint_mmio | Plic_mmio | Uart_mmio | Syscon_mmio

record pm_region_operation =
  addr_low :: u32
  addr_high :: u32
  pmr_device :: device

text \<open>\<open>pmr_direct\<close> is set by \<open>ram_init\<close> only.\<close>

definition has_pmr_direct :: "pm_region_operation \<Rightarrow> bool" where
  "has_pmr_direct pmr \<longleftrightarrow> pmr_device pmr = Main_memory"

definition MAX_NR_PM_REGIONS :: nat where
  "MAX_NR_PM_REGIONS = 256"

section \<open>Operations\<close>

text \<open>The debug build of the comparator; \<open>None\<close> is a failing assertion.\<close>

definition pm_region_operation_compare :: "pm_region_operation comparison" where
  "pm_region_operation_compare pmr1 pmr2 =
     (if \<not> addr_low pmr1 \<le> addr_high pmr1 then None
      else if \<not> addr_low pmr2 \<le> addr_high pmr2 then None
      else if addr_high pmr1 \<le> addr_low pmr2 then Some (-1)
      else if addr_high pmr2 \<le> addr_low pmr1 then Some 1
      else if (addr_low pmr1 \<le> addr_low pmr2 \<and> addr_high pmr2 \<le> addr_high pmr1) \<or>
              (addr_low pmr2 \<le> addr_low pmr1 \<and> addr_high pmr1 \<le> addr_high pmr2) then Some 0
      else None)"

text \<open>
  The lookup key is a one-byte region; the fields are 32 bits wide, so both ends of the
  64-bit argument are truncated. The device of the key is never looked at.
\<close>

definition search_target :: "u64 \<Rightarrow> pm_region_operation" where
  "search_target guest_pa =
     \<lparr>addr_low = ucast guest_pa, addr_high = ucast (guest_pa + 1), pmr_device = Bootrom\<rparr>"

definition search_pm_region_callback ::
  "pm_region_operation list \<Rightarrow> u64 \<Rightarrow> pm_region_operation option option" where
  "search_pm_region_callback pmr_ops guest_pa =
     map_option (map_option ((!) pmr_ops))
       (SEARCH pm_region_operation_compare pmr_ops (search_target guest_pa))"

definition register_pm_region_operation ::
  "pm_region_operation list \<Rightarrow> pm_region_operation \<Rightarrow> pm_region_operation list option" where
  "register_pm_region_operation pmr_ops pmr = do {
     found \<leftarrow> search_pm_region_callback pmr_ops (ucast (addr_low pmr));
     if found \<noteq> None then None
     else if \<not> length pmr_ops < MAX_NR_PM_REGIONS then None
     else do {
       pmr_ops' \<leftarrow> SORT pm_region_operation_compare (pmr_ops @ [pmr]);
       found' \<leftarrow> search_pm_region_callback pmr_ops' (ucast (addr_low pmr));
       if found' = None then None else Some pmr_ops'
     }
   }"

section \<open>The table invariant\<close>

definition in_region :: "pm_region_operation \<Rightarrow> u32 \<Rightarrow> bool" where
  "in_region r pa \<longleftrightarrow> addr_low r \<le> pa \<and> pa < addr_high r"

definition region_before :: "pm_region_operation \<Rightarrow> pm_region_operation \<Rightarrow> bool" where
  "region_before r s \<longleftrightarrow> addr_high r \<le> addr_low s"

definition nonempty_region :: "pm_region_operation \<Rightarrow> bool" where
  "nonempty_region r \<longleftrightarrow> addr_low r < addr_high r"

definition disjoint_regions :: "pm_region_operation \<Rightarrow> pm_region_operation \<Rightarrow> bool" where
  "disjoint_regions r s \<longleftrightarrow> region_before r s \<or> region_before s r"

text \<open>The regions are non-empty intervals, in ascending order and disjoint.\<close>

definition wf_regions :: "pm_region_operation list \<Rightarrow> bool" where
  "wf_regions ops \<longleftrightarrow> sorted_wrt region_before ops \<and> list_all nonempty_region ops"

text \<open>A set of regions on which the comparator is a total order; empty if they overlap.\<close>

definition region_carrier :: "pm_region_operation set \<Rightarrow> pm_region_operation set" where
  "region_carrier R =
     (if (\<forall>r\<in>R. nonempty_region r) \<and> (\<forall>r\<in>R. \<forall>s\<in>R. r \<noteq> s \<longrightarrow> disjoint_regions r s) then R else {})"

lemmas region_defs = in_region_def region_before_def nonempty_region_def disjoint_regions_def

lemma region_carrierD:
  "r \<in> region_carrier R \<Longrightarrow> nonempty_region r"
  "r \<in> region_carrier R \<Longrightarrow> s \<in> region_carrier R \<Longrightarrow> r = s \<or> disjoint_regions r s"
  by (auto simp: region_carrier_def split: if_splits)

lemma compare_separate:
  assumes "nonempty_region r" and "nonempty_region s" and "r = s \<or> disjoint_regions r s"
  shows "pm_region_operation_compare r s =
      Some (if r = s then 0 else if region_before r s then -1 else 1)"
  using assms by (auto simp: pm_region_operation_compare_def region_defs)

interpretation pmr_order: comparator pm_region_operation_compare "region_carrier R" for R
proof
  fix x y z :: pm_region_operation and c d :: int
  assume xy: "x \<in> region_carrier R" "y \<in> region_carrier R"
  note ne = region_carrierD(1) [OF xy(1)] region_carrierD(1) [OF xy(2)]
  note cmp_xy = compare_separate [OF ne region_carrierD(2) [OF xy]]
  note cmp_yx = compare_separate [OF ne(2,1) region_carrierD(2) [OF xy(2,1)]]
  show "\<exists>c. pm_region_operation_compare x y = Some c" using cmp_xy by blast
  have "x = y \<or> region_before x y \<noteq> region_before y x"
    using ne region_carrierD(2) [OF xy] by (auto simp: region_defs)
  then show "sgn d = - sgn c"
    if "pm_region_operation_compare x y = Some c" "pm_region_operation_compare y x = Some d"
    using that unfolding cmp_xy cmp_yx by (auto split: if_splits)
  assume z: "z \<in> region_carrier R"
  note nz = region_carrierD(1) [OF z]
  note cmp_yz = compare_separate [OF ne(2) nz region_carrierD(2) [OF xy(2) z]]
  note cmp_xz = compare_separate [OF ne(1) nz region_carrierD(2) [OF xy(1) z]]
  have "region_before x y \<Longrightarrow> region_before y z \<Longrightarrow> region_before x z"
    using ne by (simp add: region_defs)
  then show "cmp_le pm_region_operation_compare x z"
    if "cmp_le pm_region_operation_compare x y" "cmp_le pm_region_operation_compare y z"
    using that unfolding cmp_le_def cmp_xy cmp_yz cmp_xz by (auto split: if_splits)
qed

section \<open>Lookup\<close>

text \<open>
  At the last address the upper end of the key wraps to zero and the assertion of the
  comparator fails as soon as one region is registered.
\<close>

lemma search_target_sel [simp]:
  "addr_low (search_target (ucast pa)) = pa"
  "addr_high (search_target (ucast pa)) = pa + 1" for pa :: u32
  by (simp_all add: search_target_def)

lemma compare_target:
  fixes pa :: u32
  assumes "pa \<noteq> - 1" and "nonempty_region r"
  shows "pm_region_operation_compare (search_target (ucast pa)) r =
      Some (if pa < addr_low r then - 1 else if addr_high r \<le> pa then 1 else 0)"
proof -
  have "pa < pa + 1" "\<And>x. pa < x \<Longrightarrow> pa + 1 \<le> x"
    using word_less_succ [OF assms(1)] inc_le by blast+
  then show ?thesis using assms(2)
    by (auto simp: pm_region_operation_compare_def nonempty_region_def not_less
        dest: inc_le order_le_less_trans)
qed

lemma probe_regions:
  fixes pa :: u32
  assumes "wf_regions ops" and "pa \<noteq> - 1"
  shows "probe_monotone pm_region_operation_compare (search_target (ucast pa)) ops"
proof -
  let ?f = "\<lambda>i. if pa < addr_low (ops ! i) then - 1 else if addr_high (ops ! i) \<le> pa then 1 else (0::int)"
  have ne: "nonempty_region (ops ! i)" if "i < length ops" for i
    using assms(1) that by (simp add: wf_regions_def list_all_length)
  have "sgn (?f j) \<le> sgn (?f i)" if "i \<le> j" "j < length ops" for i j
  proof (cases "i = j")
    case False
    then have "addr_high (ops ! i) \<le> addr_low (ops ! j)"
      using assms(1) that by (simp add: wf_regions_def sorted_wrt_iff_nth_less region_before_def)
    then show ?thesis using ne [of i] ne [of j] that by (auto simp: nonempty_region_def)
  qed simp
  then show ?thesis
    unfolding probe_monotone_def by (intro exI [of _ ?f]) (use ne compare_target [OF assms(2)] in auto)
qed

lemma search_pm_region_found:
  assumes "wf_regions ops" and "pa \<noteq> - 1"
  shows "\<exists>r. search_pm_region_callback ops (ucast pa) = Some r \<and>
           (case r of Some pmr \<Rightarrow> pmr \<in> set ops \<and> in_region pmr pa
                    | None \<Rightarrow> \<forall>pmr\<in>set ops. \<not> in_region pmr pa)"
proof -
  have ne: "nonempty_region r" if "r \<in> set ops" for r
    using assms(1) that by (simp add: wf_regions_def list_all_iff)
  have zero: "pm_region_operation_compare (search_target (ucast pa)) r = Some 0 \<longleftrightarrow> in_region r pa"
    if "r \<in> set ops" for r
    using compare_target [OF assms(2) ne [OF that]] by (auto simp: in_region_def)
  from SEARCH_finds [OF probe_regions [OF assms]] obtain r where
    r: "SEARCH pm_region_operation_compare ops (search_target (ucast pa)) = Some r" and
    hit: "case r of Some i \<Rightarrow> i < length ops \<and> pm_region_operation_compare (search_target (ucast pa)) (ops ! i) = Some 0
            | None \<Rightarrow> \<forall>i<length ops. pm_region_operation_compare (search_target (ucast pa)) (ops ! i) \<noteq> Some 0"
    by blast
  show ?thesis
  proof (cases r)
    case None
    have "\<not> in_region pmr pa" if q: "pmr \<in> set ops" for pmr
    proof -
      from q obtain i where "i < length ops" "pmr = ops ! i" by (auto simp: in_set_conv_nth)
      then show ?thesis using hit None zero [OF q] by simp
    qed
    with r None show ?thesis by (simp add: search_pm_region_callback_def)
  next
    case (Some i)
    with r hit zero [of "ops ! i"] show ?thesis by (simp add: search_pm_region_callback_def)
  qed
qed

lemma region_unique:
  assumes "wf_regions ops" and "r \<in> set ops" and "s \<in> set ops" and "in_region r pa" and "in_region s pa"
  shows "r = s"
proof -
  obtain i j where ij: "i < length ops" "j < length ops" "r = ops ! i" "s = ops ! j"
    using assms(2,3) by (metis in_set_conv_nth)
  have "\<not> i < j" "\<not> j < i"
    using assms(1,4,5) ij
    by (auto simp: wf_regions_def sorted_wrt_iff_nth_less region_defs dest: order_less_le_trans
        order_le_less_trans) (meson leD order_less_le_trans order_trans)+
  then show ?thesis using ij by simp
qed

text \<open>With the table well formed, the lookup returns the one region that holds the address.\<close>

lemma search_pm_region_iff:
  assumes "wf_regions ops" and "pa \<noteq> - 1" and "pmr \<in> set ops" and "in_region pmr pa"
  shows "search_pm_region_callback ops (ucast pa) = Some (Some pmr)"
proof -
  obtain r where r: "search_pm_region_callback ops (ucast pa) = Some r"
    and hit: "case r of Some q \<Rightarrow> q \<in> set ops \<and> in_region q pa | None \<Rightarrow> \<forall>q\<in>set ops. \<not> in_region q pa"
    using search_pm_region_found [OF assms(1,2)] by blast
  with assms(3,4) obtain q where "r = Some q" "q \<in> set ops" "in_region q pa" by (cases r) auto
  with region_unique [OF assms(1) _ assms(3) _ assms(4)] r show ?thesis by simp
qed

lemma search_pm_region_unbacked:
  assumes "wf_regions ops" and "pa \<noteq> - 1" and "\<forall>r\<in>set ops. \<not> in_region r pa"
  shows "search_pm_region_callback ops (ucast pa) = Some None"
  using search_pm_region_found [OF assms(1,2)] assms(3) by (auto split: option.splits)

lemma search_pm_region_last_address:
  assumes "ops \<noteq> []"
  shows "search_pm_region_callback ops (ucast (- 1 :: u32)) = None"
  using assms unfolding search_pm_region_callback_def SEARCH_def
  by (subst search_loop.simps) (simp add: pm_region_operation_compare_def)

section \<open>Registration\<close>

lemma wf_regions_distinct: "wf_regions ops \<Longrightarrow> distinct ops"
  by (induction ops) (fastforce simp: wf_regions_def region_defs)+

lemma wf_regions_disjoint:
  "wf_regions ops \<Longrightarrow> r \<in> set ops \<Longrightarrow> s \<in> set ops \<Longrightarrow> r \<noteq> s \<Longrightarrow> disjoint_regions r s"
  by (induction ops) (auto simp: wf_regions_def disjoint_regions_def)

lemma wf_regions_carrier:
  assumes "distinct ops" and "set ops \<subseteq> region_carrier R" and "sorted_wrt (cmp_le pm_region_operation_compare) ops"
  shows "wf_regions ops"
proof -
  have "region_before x y" if "x \<in> set ops" "y \<in> set ops" "x \<noteq> y" "cmp_le pm_region_operation_compare x y" for x y
  proof -
    have car: "x \<in> region_carrier R" "y \<in> region_carrier R" using that assms(2) by auto
    show ?thesis using that(3,4) compare_separate [OF region_carrierD(1) [OF car(1)]
          region_carrierD(1) [OF car(2)] region_carrierD(2) [OF car]]
      by (simp add: cmp_le_def split: if_splits)
  qed
  then have "sorted_wrt region_before ops"
    using assms(1,3) by (induction ops) auto
  then show ?thesis using assms(2) region_carrierD(1) by (auto simp: wf_regions_def list_all_iff)
qed

lemma register_pm_region_wf:
  assumes wf: "wf_regions ops" and "nonempty_region pmr" and "\<forall>r\<in>set ops. disjoint_regions r pmr"
    and "length ops < MAX_NR_PM_REGIONS"
  shows "\<exists>ops'. register_pm_region_operation ops pmr = Some ops' \<and> wf_regions ops' \<and>
           mset ops' = add_mset pmr (mset ops)"
proof -
  let ?R = "set (ops @ [pmr])"
  have low: "addr_low pmr \<noteq> - 1" using assms(2) by (auto simp: nonempty_region_def)
  have out: "\<forall>r\<in>set ops. \<not> in_region r (addr_low pmr)"
    using assms(2,3) by (auto simp: region_defs)
  have ne: "\<forall>r\<in>?R. nonempty_region r" using wf assms(2) by (auto simp: wf_regions_def list_all_iff)
  moreover have "\<forall>r\<in>?R. \<forall>s\<in>?R. r \<noteq> s \<longrightarrow> disjoint_regions r s"
    using wf_regions_disjoint [OF wf] assms(3) by (auto simp: disjoint_regions_def)
  ultimately have "region_carrier ?R = ?R" by (simp add: region_carrier_def)
  then obtain r where r: "SORT pm_region_operation_compare (ops @ [pmr]) = Some r"
    "mset r = mset (ops @ [pmr])" "sorted_wrt (cmp_le pm_region_operation_compare) r"
    using pmr_order.SORT_sorts [of "ops @ [pmr]" ?R] by auto
  have "pmr \<notin> set ops" using out assms(2) by (auto simp: in_region_def nonempty_region_def)
  then have "distinct r" using r(2) wf_regions_distinct [OF wf]
    by (metis mset_eq_imp_distinct_iff distinct_append distinct_singleton disjoint_insert(1) inf_bot_right list.set(1) list.simps(15))
  moreover have "set r \<subseteq> region_carrier ?R" using r(2) \<open>region_carrier ?R = ?R\<close> by (metis mset_eq_setD order_refl)
  ultimately have "wf_regions r" using r(3) by (rule wf_regions_carrier)
  moreover have "pmr \<in> set r" using r(2) by (metis in_set_conv_decomp mset_eq_setD)
  ultimately have "search_pm_region_callback r (ucast (addr_low pmr)) = Some (Some pmr)"
    using low assms(2) by (intro search_pm_region_iff) (auto simp: in_region_def nonempty_region_def)
  then show ?thesis
    using search_pm_region_unbacked [OF wf low out] r \<open>wf_regions r\<close> assms(4)
    by (simp add: register_pm_region_operation_def)
qed

section \<open>Properties\<close>

text \<open>
  C21. The binary search over the registered regions is the linear scan of the table: for
  every address but the last one of the 32-bit space, the lookup returns the region that
  contains the address, and none when the address is not backed.
\<close>

theorem region_lookup_is_find:
  assumes "wf_regions ops" and "pa \<noteq> - 1"
  shows "search_pm_region_callback ops (ucast pa) = Some (List.find (\<lambda>r. in_region r pa) ops)"
proof (cases "List.find (\<lambda>r. in_region r pa) ops")
  case None
  then have "\<forall>r\<in>set ops. \<not> in_region r pa" by (simp add: find_None_iff)
  then show ?thesis using search_pm_region_unbacked [OF assms] None by simp
next
  case (Some r)
  then have "r \<in> set ops" "in_region r pa" by (auto simp: find_Some_iff)
  then show ?thesis using search_pm_region_iff [OF assms] Some by simp
qed

text \<open>
  C21 at the memory map of a machine with a boot rom, a CLINT and main memory.
\<close>

theorem region_lookup_is_find_witness:
  "let ops = [\<lparr>addr_low = 0, addr_high = 0x10000, pmr_device = Bootrom\<rparr>,
              \<lparr>addr_low = 0x2000000, addr_high = 0x2010000, pmr_device = Clint_mmio\<rparr>,
              \<lparr>addr_low = 0x40000000, addr_high = 0x48000000, pmr_device = Main_memory\<rparr>]
   in wf_regions ops \<and> search_pm_region_callback ops (ucast (0x2000004 :: u32)) = Some (Some (ops ! 1))"
proof -
  define ops where "ops = [\<lparr>addr_low = 0, addr_high = 0x10000, pmr_device = Bootrom\<rparr>,
              \<lparr>addr_low = 0x2000000, addr_high = 0x2010000, pmr_device = Clint_mmio\<rparr>,
              \<lparr>addr_low = 0x40000000, addr_high = 0x48000000, pmr_device = Main_memory\<rparr>]"
  have wf: "wf_regions ops"
    by (simp add: ops_def wf_regions_def region_before_def nonempty_region_def)
  show ?thesis using region_lookup_is_find [OF wf, of "0x2000004"] wf
    by (simp add: ops_def in_region_def)
qed

text \<open>
  Registering a region that is disjoint from the registered ones succeeds, keeps the table
  well formed, and adds exactly that region: afterwards an address of the new region is served
  by it and every other address by the region that served it before.
\<close>

theorem register_then_lookup:
  assumes "wf_regions ops" and "nonempty_region pmr" and "\<forall>r\<in>set ops. disjoint_regions r pmr"
    and "length ops < MAX_NR_PM_REGIONS"
  shows "\<exists>ops'. register_pm_region_operation ops pmr = Some ops' \<and> wf_regions ops' \<and>
           length ops' = length ops + 1 \<and>
           (\<forall>pa. pa \<noteq> - 1 \<longrightarrow> search_pm_region_callback ops' (ucast pa) =
              (if in_region pmr pa then Some (Some pmr) else search_pm_region_callback ops (ucast pa)))"
proof -
  obtain ops' where reg: "register_pm_region_operation ops pmr = Some ops'" and wf': "wf_regions ops'"
    and ms: "mset ops' = add_mset pmr (mset ops)"
    using register_pm_region_wf [OF assms] by blast
  have set': "set ops' = insert pmr (set ops)" using ms by (metis set_mset_add_mset_insert set_mset_mset)
  have len: "length ops' = length ops + 1" using ms by (metis add.commute size_add_mset size_mset plus_1_eq_Suc)
  have "search_pm_region_callback ops' (ucast pa) =
      (if in_region pmr pa then Some (Some pmr) else search_pm_region_callback ops (ucast pa))"
    if pa: "pa \<noteq> - 1" for pa
  proof -
    consider "in_region pmr pa" | q where "\<not> in_region pmr pa" "q \<in> set ops" "in_region q pa"
      | "\<not> in_region pmr pa" "\<forall>q\<in>set ops. \<not> in_region q pa" by blast
    then show ?thesis
    proof cases
      case 1
      then show ?thesis using search_pm_region_iff [OF wf' pa] set' by simp
    next
      case 2
      then show ?thesis
        using search_pm_region_iff [OF wf' pa, of q] search_pm_region_iff [OF assms(1) pa, of q] set' by simp
    next
      case 3
      then show ?thesis
        using search_pm_region_unbacked [OF wf' pa] search_pm_region_unbacked [OF assms(1) pa] set' by simp
    qed
  qed
  then show ?thesis using reg wf' len by blast
qed

text \<open>
  For a CLINT registered after main memory: the table is re-sorted.
\<close>

theorem register_then_lookup_witness:
  "let mem = \<lparr>addr_low = 0x40000000, addr_high = 0x48000000, pmr_device = Main_memory\<rparr>;
       clint = \<lparr>addr_low = 0x2000000, addr_high = 0x2010000, pmr_device = Clint_mmio\<rparr>
   in \<exists>ops'. register_pm_region_operation [mem] clint = Some ops' \<and> wf_regions ops' \<and>
        search_pm_region_callback ops' (ucast (0x40000010 :: u32)) = search_pm_region_callback [mem] (ucast (0x40000010 :: u32))"
proof -
  define mem where "mem = \<lparr>addr_low = 0x40000000, addr_high = 0x48000000, pmr_device = Main_memory\<rparr>"
  define clint where "clint = \<lparr>addr_low = 0x2000000, addr_high = 0x2010000, pmr_device = Clint_mmio\<rparr>"
  have "\<exists>ops'. register_pm_region_operation [mem] clint = Some ops' \<and> wf_regions ops' \<and>
           length ops' = length [mem] + 1 \<and>
           (\<forall>pa. pa \<noteq> - 1 \<longrightarrow> search_pm_region_callback ops' (ucast pa) =
              (if in_region clint pa then Some (Some clint) else search_pm_region_callback [mem] (ucast pa)))"
    by (rule register_then_lookup)
      (simp_all add: mem_def clint_def wf_regions_def nonempty_region_def disjoint_regions_def
        region_before_def MAX_NR_PM_REGIONS_def)
  moreover have "\<not> in_region clint 0x40000010" by (simp add: clint_def in_region_def)
  moreover have "(0x40000010 :: u32) \<noteq> - 1" by simp
  ultimately show ?thesis unfolding mem_def [symmetric] clint_def [symmetric] Let_def by metis
qed

text \<open>
  C39. The last byte of the guest physical space can never be looked up: once a region is
  registered, the upper end of the lookup key wraps to zero, the assertion of the comparator
  fails and the vmm exits, so a guest access to that address ends the machine instead of
  raising an access fault.
\<close>

theorem last_address_stops_vmm:
  assumes "ops \<noteq> []"
  shows "search_pm_region_callback ops 0xffffffff = None"
proof -
  have "(0xffffffff :: u64) = ucast (- 1 :: u32)" by (simp add: unsigned_minus_1_eq_mask mask_eq_exp_minus_1)
  then show ?thesis using search_pm_region_last_address [OF assms] by (simp only:)
qed

text \<open>C39 with one region.\<close>

theorem last_address_stops_vmm_witness:
  "search_pm_region_callback [\<lparr>addr_low = 0, addr_high = 0x10000, pmr_device = Bootrom\<rparr>] 0xffffffff = None"
  by (rule last_address_stops_vmm) simp

end
