(* ===== verification/Hart.thy ===== *)
theory Hart
  imports Pm_Region
begin

text \<open>
  The state of a hart (\<^verbatim>\<open>vmm/hart.h\<close>, \<^verbatim>\<open>vmm/hart_def.h\<close>, \<^verbatim>\<open>vmm/mmu_tlb.h\<close>): the integer registers,
  the program counter, the interrupt and status words, the CSR blobs, the two TLBs and the
  translation cache with its table of program counter mappings.

  The arrays \<open>pc_mappings\<close> and \<open>csrs_base\<close> hold, respectively, the first
  \<open>nr_translated_instructions\<close> items as a list and the blob of every CSR address. The
  translation cache is a map from byte offsets to the block of host code that starts there:
  a block is a template of a translator with the values of its parameters, or the jumper of
  \<^verbatim>\<open>vmm/vmm_trap.S\<close>. The byte sizes of the blocks come from the assembler and are a parameter.
\<close>

section \<open>Constants of hart-def.h\<close>

definition TRANSLATION_CACHE_SIZE :: int where
  "TRANSLATION_CACHE_SIZE = 1024 * 512"

definition MAX_INSTRUCTIONS_TOTRANSLATE :: nat where
  "MAX_INSTRUCTIONS_TOTRANSLATE = 4096"

abbreviation PRIVILEGE_LEVEL_USER :: "2 word" where "PRIVILEGE_LEVEL_USER \<equiv> 0"
abbreviation PRIVILEGE_LEVEL_SUPERVISOR :: "2 word" where "PRIVILEGE_LEVEL_SUPERVISOR \<equiv> 1"
abbreviation PRIVILEGE_LEVEL_MACHINE :: "2 word" where "PRIVILEGE_LEVEL_MACHINE \<equiv> 3"

abbreviation CSR_ADDRESS_MSTATUS :: nat where "CSR_ADDRESS_MSTATUS \<equiv> 0x300"
abbreviation CSR_ADDRESS_MEDELEG :: nat where "CSR_ADDRESS_MEDELEG \<equiv> 0x302"
abbreviation CSR_ADDRESS_MIDELEG :: nat where "CSR_ADDRESS_MIDELEG \<equiv> 0x303"
abbreviation CSR_ADDRESS_MIE :: nat where "CSR_ADDRESS_MIE \<equiv> 0x304"
abbreviation CSR_ADDRESS_MTVEC :: nat where "CSR_ADDRESS_MTVEC \<equiv> 0x305"
abbreviation CSR_ADDRESS_MSCRATCH :: nat where "CSR_ADDRESS_MSCRATCH \<equiv> 0x340"
abbreviation CSR_ADDRESS_MEPC :: nat where "CSR_ADDRESS_MEPC \<equiv> 0x341"
abbreviation CSR_ADDRESS_MCAUSE :: nat where "CSR_ADDRESS_MCAUSE \<equiv> 0x342"
abbreviation CSR_ADDRESS_MTVAL :: nat where "CSR_ADDRESS_MTVAL \<equiv> 0x343"
abbreviation CSR_ADDRESS_MIP :: nat where "CSR_ADDRESS_MIP \<equiv> 0x344"
abbreviation CSR_ADDRESS_SSTATUS :: nat where "CSR_ADDRESS_SSTATUS \<equiv> 0x100"
abbreviation CSR_ADDRESS_SIE :: nat where "CSR_ADDRESS_SIE \<equiv> 0x104"
abbreviation CSR_ADDRESS_STVEC :: nat where "CSR_ADDRESS_STVEC \<equiv> 0x105"
abbreviation CSR_ADDRESS_SSCRATCH :: nat where "CSR_ADDRESS_SSCRATCH \<equiv> 0x140"
abbreviation CSR_ADDRESS_SEPC :: nat where "CSR_ADDRESS_SEPC \<equiv> 0x141"
abbreviation CSR_ADDRESS_SCAUSE :: nat where "CSR_ADDRESS_SCAUSE \<equiv> 0x142"
abbreviation CSR_ADDRESS_STVAL :: nat where "CSR_ADDRESS_STVAL \<equiv> 0x143"
abbreviation CSR_ADDRESS_SIP :: nat where "CSR_ADDRESS_SIP \<equiv> 0x144"
abbreviation CSR_ADDRESS_SATP :: nat where "CSR_ADDRESS_SATP \<equiv> 0x180"
abbreviation CSR_ADDRESS_TIME :: nat where "CSR_ADDRESS_TIME \<equiv> 0xC01"
abbreviation CSR_ADDRESS_TIMEH :: nat where "CSR_ADDRESS_TIMEH \<equiv> 0xC81"

section \<open>Host code blocks\<close>

text \<open>The names (\<open>indicator\<close>) of the translation templates.\<close>

datatype indicator =
    Lui | Auipc | Jal_without_target | Jalr
  | Beq | Bne | Blt | Bltu | Bge | Bgeu
  | Lb | Lbu | Lh | Lhu | Lw | Sb | Sh | Sw
  | Addi | Stli | Stliu | Xori | Ori | Andi | Slli | Srli | Srai
  | Add | Sub | And | Or | Xor | Slt | Sltu | Sll | Srl | Sra
  | Mul | Mulh | Mulhu | Mulhsu | Div | Rem | Divu | Remu
  | Fence | Fence_i
  | Ebreak | Mret | Sret | Sfence_vma | Ecall | Wfi | Csr_instructions | Amo

datatype tc_block = Template indicator "u32 list" | Jumper

record code_layout =
  translation_size :: "indicator \<Rightarrow> int"
  jumper_size :: int

section \<open>Records\<close>

record program_counter_mapping_item =
  guest_pc :: u32
  tc_offset :: u32

record status_control_blob =
  uie :: bool
  sie :: bool
  mie :: bool
  upie :: bool
  spie :: bool
  mpie :: bool
  spp :: "1 word"
  mpp :: "2 word"

text \<open>
  A host pointer to a page table entry is the guest physical address of the entry; the
  pointer to the region is a copy of the region.
\<close>

record tlb_entry =
  va_tag :: u32
  pa_tag :: u32
  page_mask :: u32
  entry_valid :: bool
  level1_pte :: "u32 option"
  level2_pte :: "u32 option"
  tlb_pmr :: "pm_region_operation option"

text \<open>
  \<open>idelegation\<close>, \<open>ienable\<close> and \<open>ipending\<close> are the \<open>dword\<close> views of
  \<open>interrupt_control_blob\<close>; bit \<open>n\<close> is the interrupt with number \<open>n\<close>.
\<close>

record hart =
  registers :: "nat \<Rightarrow> u32"
  pc :: u32
  hart_id :: int
  pc_mappings :: "program_counter_mapping_item list"
  translation_cache :: "int \<Rightarrow> tc_block option"
  translation_cache_ptr :: int
  csr_blob :: "nat \<Rightarrow> u32"
  idelegation :: u32
  ienable :: u32
  ipending :: u32
  status :: status_control_blob
  privilege_level :: "2 word"
  itlb :: "tlb_entry list"
  dtlb :: "tlb_entry list"
  tsc :: u64

text \<open>The hart after \<open>memset\<close> at the start of \<open>hart_init\<close>; the caches are not allocated yet.\<close>

definition zeroed_hart :: hart where
  "zeroed_hart =
     \<lparr>registers = (\<lambda>_. 0), pc = 0, hart_id = 0, pc_mappings = [], translation_cache = (\<lambda>_. None),
      translation_cache_ptr = 0, csr_blob = (\<lambda>_. 0), idelegation = 0, ienable = 0, ipending = 0,
      status = \<lparr>uie = False, sie = False, mie = False, upie = False, spie = False, mpie = False, spp = 0, mpp = 0\<rparr>,
      privilege_level = PRIVILEGE_LEVEL_USER, itlb = [], dtlb = [], tsc = 0\<rparr>"

text \<open>\<open>HART_REG\<close>: the C macro indexes the register file as an array of 32 words.\<close>

definition set_reg :: "nat \<Rightarrow> u32 \<Rightarrow> hart \<Rightarrow> hart" where
  "set_reg i v h = h\<lparr>registers := (registers h)(i := v)\<rparr>"

definition set_csr :: "nat \<Rightarrow> u32 \<Rightarrow> hart \<Rightarrow> hart" where
  "set_csr a v h = h\<lparr>csr_blob := (csr_blob h)(a := v)\<rparr>"

lemma set_reg_sel [simp]:
  "registers (set_reg i v h) = (registers h)(i := v)"
  "pc (set_reg i v h) = pc h" "hart_id (set_reg i v h) = hart_id h"
  "pc_mappings (set_reg i v h) = pc_mappings h" "translation_cache (set_reg i v h) = translation_cache h"
  "translation_cache_ptr (set_reg i v h) = translation_cache_ptr h" "csr_blob (set_reg i v h) = csr_blob h"
  "idelegation (set_reg i v h) = idelegation h" "ienable (set_reg i v h) = ienable h"
  "ipending (set_reg i v h) = ipending h" "status (set_reg i v h) = status h"
  "privilege_level (set_reg i v h) = privilege_level h" "itlb (set_reg i v h) = itlb h"
  "dtlb (set_reg i v h) = dtlb h" "tsc (set_reg i v h) = tsc h"
  by (simp_all add: set_reg_def)

lemma set_csr_sel [simp]:
  "csr_blob (set_csr a v h) = (csr_blob h)(a := v)"
  "registers (set_csr a v h) = registers h"
  "pc (set_csr a v h) = pc h" "hart_id (set_csr a v h) = hart_id h"
  "pc_mappings (set_csr a v h) = pc_mappings h" "translation_cache (set_csr a v h) = translation_cache h"
  "translation_cache_ptr (set_csr a v h) = translation_cache_ptr h"
  "idelegation (set_csr a v h) = idelegation h" "ienable (set_csr a v h) = ienable h"
  "ipending (set_csr a v h) = ipending h" "status (set_csr a v h) = status h"
  "privilege_level (set_csr a v h) = privilege_level h" "itlb (set_csr a v h) = itlb h"
  "dtlb (set_csr a v h) = dtlb h" "tsc (set_csr a v h) = tsc h"
  by (simp_all add: set_csr_def)

section \<open>TLB slots\<close>

abbreviation PAGE_MASK_4K :: u32 where "PAGE_MASK_4K \<equiv> 0xfffff000"
abbreviation PAGE_MASK_4M :: u32 where "PAGE_MASK_4M \<equiv> 0xffc00000"

text \<open>The capacity of a TLB is the length of its array; the macros mask with \<open>cap - 1\<close>.\<close>

definition tlb_cap :: "tlb_entry list \<Rightarrow> u32" where
  "tlb_cap tlb = of_nat (length tlb)"

definition VA_TO_4K_TLB_ENTRY :: "tlb_entry list \<Rightarrow> u32 \<Rightarrow> nat" where
  "VA_TO_4K_TLB_ENTRY tlb va = unat (drop_bit 12 va AND (tlb_cap tlb - 1))"

definition VA_TO_4M_TLB_ENTRY :: "tlb_entry list \<Rightarrow> u32 \<Rightarrow> nat" where
  "VA_TO_4M_TLB_ENTRY tlb va = unat (drop_bit 22 va AND (tlb_cap tlb - 1))"

definition VA_TO_TLB_ENTRY :: "tlb_entry list \<Rightarrow> u32 \<Rightarrow> tlb_entry option" where
  "VA_TO_TLB_ENTRY tlb va =
     (let e = tlb ! VA_TO_4K_TLB_ENTRY tlb va in
      let entry = (if \<not> entry_valid e then tlb ! VA_TO_4M_TLB_ENTRY tlb va else e) in
      if entry_valid entry then Some entry else None)"

text \<open>\<^verbatim>\<open>vmm/mmu_tlb.c\<close>: every entry loses its valid bit, the rest of it stays.\<close>

definition invalidate_tlb :: "tlb_entry list \<Rightarrow> tlb_entry list" where
  "invalidate_tlb tlb = map (\<lambda>entry. entry\<lparr>entry_valid := False\<rparr>) tlb"

text \<open>The capacities are powers of two (\<^verbatim>\<open>vmm/vm.c\<close>), so that the mask selects a slot.\<close>

definition wf_tlb :: "tlb_entry list \<Rightarrow> bool" where
  "wf_tlb tlb \<longleftrightarrow> (\<exists>n. length tlb = 2 ^ n \<and> n < 32)"

lemma tlb_slot_bound:
  assumes "wf_tlb tlb"
  shows "unat (w AND (tlb_cap tlb - 1)) < length tlb"
proof -
  from assms obtain n where n: "length tlb = 2 ^ n" "n < 32" by (auto simp: wf_tlb_def)
  have "tlb_cap tlb = 2 ^ n" using n by (simp add: tlb_cap_def)
  then have m: "tlb_cap tlb - 1 = mask n" by (simp add: mask_eq_exp_minus_1)
  have "w AND mask n = take_bit n w" by (simp add: take_bit_eq_mask and.commute)
  moreover have "unat (take_bit n w) < 2 ^ n" by (simp add: unsigned_take_bit_eq)
  ultimately show ?thesis using m n by simp
qed

lemma tlb_slots [simp]:
  "wf_tlb tlb \<Longrightarrow> VA_TO_4K_TLB_ENTRY tlb va < length tlb"
  "wf_tlb tlb \<Longrightarrow> VA_TO_4M_TLB_ENTRY tlb va < length tlb"
  by (simp_all add: VA_TO_4K_TLB_ENTRY_def VA_TO_4M_TLB_ENTRY_def tlb_slot_bound)

lemma length_invalidate_tlb [simp]: "length (invalidate_tlb tlb) = length tlb"
  by (simp add: invalidate_tlb_def)

lemma invalidate_tlb_miss:
  assumes "wf_tlb tlb"
  shows "VA_TO_TLB_ENTRY (invalidate_tlb tlb) va = None"
proof -
  have eq: "VA_TO_4K_TLB_ENTRY (invalidate_tlb tlb) va = VA_TO_4K_TLB_ENTRY tlb va"
    "VA_TO_4M_TLB_ENTRY (invalidate_tlb tlb) va = VA_TO_4M_TLB_ENTRY tlb va"
    by (simp_all add: VA_TO_4K_TLB_ENTRY_def VA_TO_4M_TLB_ENTRY_def tlb_cap_def)
  show ?thesis unfolding VA_TO_TLB_ENTRY_def eq
    using assms by (simp add: Let_def invalidate_tlb_def)
qed

end
