(* ===== verification/Clint.thy ===== *)
theory Clint
  imports Hart
begin

text \<open>
  The core-local interruptor (\<^verbatim>\<open>vmm/emulate_clint.c\<close>, \<^verbatim>\<open>vmm/clint.h\<close>): the virtual clock, one timer
  compare register and one software interrupt doorbell per hart, and the MMIO view of them.
  An access to an offset without a register is logged by the code and reads as zero.
\<close>

definition MAX_NR_HARTS :: nat where
  "MAX_NR_HARTS = 64"

record clint_state =
  clint_base :: u32
  clint_size :: u32
  clint_nr_harts :: nat
  mtime :: u64
  mtimecmp :: "u64 list"
  msip :: "u32 list"

abbreviation CLINT_REG_MTIMECMP :: u32 where "CLINT_REG_MTIMECMP \<equiv> 0x4000"
abbreviation CLINT_REG_MTIME :: u32 where "CLINT_REG_MTIME \<equiv> 0xbff8"

text \<open>Assignment to a one-bit field of \<open>interrupt_control_blob\<close>.\<close>

definition assign_bit :: "nat \<Rightarrow> bool \<Rightarrow> u32 \<Rightarrow> u32" where
  "assign_bit n b w = (if b then set_bit n w else unset_bit n w)"

section \<open>Operations\<close>

definition clint_advance_time :: "u64 \<Rightarrow> clint_state \<Rightarrow> clint_state" where
  "clint_advance_time ticks clint = clint\<lparr>mtime := mtime clint + ticks\<rparr>"

definition clint_get_time :: "clint_state \<Rightarrow> u64" where
  "clint_get_time clint = mtime clint"

text \<open>The loop of \<open>clint_skip_to_next_deadline\<close> over the harts.\<close>

primrec earliest_deadline :: "u64 list \<Rightarrow> u64 \<Rightarrow> u64" where
  "earliest_deadline [] earliest = earliest"
| "earliest_deadline (c # cs) earliest = earliest_deadline cs (if c < earliest then c else earliest)"

definition clint_skip_to_next_deadline :: "clint_state \<Rightarrow> bool \<times> clint_state" where
  "clint_skip_to_next_deadline clint = (
     let earliest = earliest_deadline (take (clint_nr_harts clint) (mtimecmp clint)) (- 1) in
     if earliest = - 1 then (False, clint)
     else if mtime clint < earliest then (True, clint\<lparr>mtime := earliest\<rparr>)
     else (True, clint))"

definition clint_refresh_pending :: "clint_state \<Rightarrow> hart \<Rightarrow> hart" where
  "clint_refresh_pending clint hartptr = (
     let id = nat (hart_id hartptr);
         p1 = assign_bit 7 (mtimecmp clint ! id \<le> mtime clint) (ipending hartptr);
         p2 = assign_bit 3 (msip clint ! id \<noteq> 0) p1
     in hartptr\<lparr>ipending := p2\<rparr>)"

definition clint_read :: "u64 \<Rightarrow> nat \<Rightarrow> clint_state \<Rightarrow> u64" where
  "clint_read addr access_size clint = (
     let offset = ucast addr - clint_base clint :: u32 in
     if offset < 4 * 64 then
       let id = unat (offset div 4) in
       if id < clint_nr_harts clint then ucast (msip clint ! id) else 0
     else if CLINT_REG_MTIMECMP \<le> offset \<and> offset < CLINT_REG_MTIMECMP + 8 * 64 then
       let id = unat ((offset - CLINT_REG_MTIMECMP) div 8);
           cmp = (if id < clint_nr_harts clint then mtimecmp clint ! id else 0) in
       if access_size = 8 then cmp
       else if offset AND 4 \<noteq> 0 then drop_bit 32 cmp else cmp AND 0xffffffff
     else if offset = CLINT_REG_MTIME then
       if access_size = 8 then mtime clint else mtime clint AND 0xffffffff
     else if offset = CLINT_REG_MTIME + 4 then drop_bit 32 (mtime clint)
     else 0)"

definition clint_write :: "u64 \<Rightarrow> nat \<Rightarrow> u64 \<Rightarrow> clint_state \<Rightarrow> clint_state" where
  "clint_write addr access_size value clint = (
     let offset = ucast addr - clint_base clint :: u32 in
     if offset < 4 * 64 then
       let id = unat (offset div 4) in
       if id < clint_nr_harts clint then clint\<lparr>msip := (msip clint)[id := ucast (value AND 1)]\<rparr> else clint
     else if CLINT_REG_MTIMECMP \<le> offset \<and> offset < CLINT_REG_MTIMECMP + 8 * 64 then
       let id = unat ((offset - CLINT_REG_MTIMECMP) div 8) in
       if id < clint_nr_harts clint then
         clint\<lparr>mtimecmp := (mtimecmp clint)[id :=
           if access_size = 8 then value
           else if offset AND 4 \<noteq> 0 then (mtimecmp clint ! id AND 0xffffffff) OR push_bit 32 value
           else (mtimecmp clint ! id AND NOT 0xffffffff) OR (value AND 0xffffffff)]\<rparr>
       else clint
     else if offset = CLINT_REG_MTIME then
       clint\<lparr>mtime := if access_size = 8 then value
                      else (mtime clint AND NOT 0xffffffff) OR (value AND 0xffffffff)\<rparr>
     else if offset = CLINT_REG_MTIME + 4 then
       clint\<lparr>mtime := (mtime clint AND 0xffffffff) OR push_bit 32 value\<rparr>
     else clint)"

text \<open>
  \<open>clint_init\<close> after the configuration strings are read: no timer is armed. \<open>None\<close> is the
  failing assertion on the number of harts.
\<close>

definition clint_init :: "u32 \<Rightarrow> u32 \<Rightarrow> nat \<Rightarrow> pm_region_operation list \<Rightarrow> (clint_state \<times> pm_region_operation list) option" where
  "clint_init base sz nr_harts pmr_ops =
     (if \<not> nr_harts \<le> MAX_NR_HARTS then None
      else map_option (Pair \<lparr>clint_base = base, clint_size = sz, clint_nr_harts = nr_harts, mtime = 0,
                             mtimecmp = replicate MAX_NR_HARTS (- 1), msip = replicate MAX_NR_HARTS 0\<rparr>)
             (register_pm_region_operation pmr_ops
                \<lparr>addr_low = base, addr_high = base + sz, pmr_device = Clint_mmio\<rparr>))"

section \<open>Invariant\<close>

definition wf_clint :: "clint_state \<Rightarrow> bool" where
  "wf_clint clint \<longleftrightarrow> clint_nr_harts clint \<le> MAX_NR_HARTS \<and>
     length (mtimecmp clint) = MAX_NR_HARTS \<and> length (msip clint) = MAX_NR_HARTS \<and>
     (\<forall>v\<in>set (msip clint). v = 0 \<or> v = 1)"

lemma wf_clint_write: "wf_clint clint \<Longrightarrow> wf_clint (clint_write addr n v clint)"
proof -
  have "x AND 1 = 0 \<or> x AND 1 = 1" for x :: u64 by (simp add: and_one_eq mod2_eq_if)
  then have "ucast (x AND 1) = (0 :: u32) \<or> ucast (x AND 1) = (1 :: u32)" for x :: u64
    by (metis unsigned_0 unsigned_1)
  then show "wf_clint clint \<Longrightarrow> wf_clint (clint_write addr n v clint)"
    by (auto simp: wf_clint_def clint_write_def Let_def dest!: set_update_subset_insert [THEN subsetD])
qed

lemma wf_clint_time [simp]:
  "wf_clint (clint_advance_time t clint) = wf_clint clint"
  "wf_clint (snd (clint_skip_to_next_deadline clint)) = wf_clint clint"
  by (simp_all add: wf_clint_def clint_advance_time_def clint_skip_to_next_deadline_def Let_def)

section \<open>Deadlines\<close>

lemma earliest_deadline_Min: "earliest_deadline cs e = Min (insert e (set cs))"
proof (induction cs arbitrary: e)
  case (Cons c cs)
  have "insert e (set (c # cs)) = insert c (insert e (set cs))" by auto
  also have "Min \<dots> = Min (insert (min c e) (set cs))"
    by (cases "set cs = {}") (simp_all add: min.assoc)
  also have "min c e = (if c < e then c else e)" by (auto simp: min_def)
  finally show ?case using Cons.IH [of "if c < e then c else e"] by (simp only: earliest_deadline.simps)
qed simp

lemma skip_cases:
  fixes c :: clint_state
  defines "e \<equiv> Min (insert (- 1) (set (take (clint_nr_harts c) (mtimecmp c))))"
  shows "clint_skip_to_next_deadline c =
    (if e = - 1 then (False, c) else (True, c\<lparr>mtime := max (mtime c) e\<rparr>))"
proof -
  have "earliest_deadline (take (clint_nr_harts c) (mtimecmp c)) (- 1) = e"
    by (simp only: earliest_deadline_Min e_def)
  then show ?thesis by (auto simp: clint_skip_to_next_deadline_def Let_def max_def)
qed

section \<open>Register addresses\<close>

lemma ucast_addr [simp]: "(ucast (ucast a :: u64) :: u32) - b = a - b" for a b :: u32
  by simp

lemma mtimecmp_offset:
  assumes "i < 64"
  shows "(0x4000 + 8 * of_nat i :: u32) < 0x4000 + 8 * 64" and "(0x4000 :: u32) \<le> 0x4000 + 8 * of_nat i"
    and "\<not> (0x4000 + 8 * of_nat i :: u32) < 4 * 64"
    and "unat ((8 * of_nat i :: u32) div 8) = i"
    and "unat ((4 + 8 * of_nat i :: u32) div 8) = i"
    and "(0x4004 + 8 * of_nat i :: u32) < 0x4000 + 8 * 64" and "(0x4000 :: u32) \<le> 0x4004 + 8 * of_nat i"
    and "\<not> (0x4004 + 8 * of_nat i :: u32) < 4 * 64"
proof -
  have u: "unat (8 * of_nat i :: u32) = 8 * i" "unat (0x4000 + 8 * of_nat i :: u32) = 0x4000 + 8 * i"
    "unat (0x4004 + 8 * of_nat i :: u32) = 0x4004 + 8 * i" "unat (4 + 8 * of_nat i :: u32) = 4 + 8 * i"
    using assms by (simp_all add: unat_word_ariths unsigned_of_nat take_bit_nat_eq_self)
  show "(0x4000 + 8 * of_nat i :: u32) < 0x4000 + 8 * 64" "(0x4000 :: u32) \<le> 0x4000 + 8 * of_nat i"
    "\<not> (0x4000 + 8 * of_nat i :: u32) < 4 * 64" "unat ((8 * of_nat i :: u32) div 8) = i"
    "unat ((4 + 8 * of_nat i :: u32) div 8) = i"
    "(0x4004 + 8 * of_nat i :: u32) < 0x4000 + 8 * 64" "(0x4000 :: u32) \<le> 0x4004 + 8 * of_nat i"
    "\<not> (0x4004 + 8 * of_nat i :: u32) < 4 * 64"
    using assms by (simp_all add: word_less_nat_alt word_le_nat_alt u unat_div)
qed


lemma and_4_iff: "w AND 4 = 0 \<longleftrightarrow> even (unat w div 4)" for w :: u32
proof -
  have "w AND 4 = 0 \<longleftrightarrow> \<not> bit w 2" using and_exp_eq_0_iff_not_bit [of w 2] by simp
  also have "bit w 2 \<longleftrightarrow> bit (unat w) 2" by (simp add: bit_unsigned_iff)
  also have "\<dots> \<longleftrightarrow> odd (unat w div 4)" by (simp add: bit_iff_odd)
  finally show ?thesis by simp
qed

lemma mtimecmp_select:
  assumes "i < 64"
  shows "(0x4000 + 8 * of_nat i :: u32) AND 4 = 0" and "(0x4004 + 8 * of_nat i :: u32) AND 4 \<noteq> 0"
proof -
  have "unat (0x4000 + 8 * of_nat i :: u32) = 0x4000 + 8 * i" "unat (0x4004 + 8 * of_nat i :: u32) = 0x4004 + 8 * i"
    using assms by (simp_all add: unat_word_ariths unsigned_of_nat take_bit_nat_eq_self)
  then show "(0x4000 + 8 * of_nat i :: u32) AND 4 = 0" "(0x4004 + 8 * of_nat i :: u32) AND 4 \<noteq> 0"
    unfolding and_4_iff by presburger+
qed

lemma and_mask32: "w AND 0xffffffff = take_bit 32 w" for w :: u64
  by (simp add: take_bit_eq_mask mask_eq_exp_minus_1)

lemma halves_join:
  fixes x :: u64 and lo hi :: u32
  shows "((x AND 0xffffffff OR push_bit 32 (ucast hi)) AND NOT 0xffffffff) OR (ucast lo AND 0xffffffff) =
    (push_bit 32 (ucast hi) OR ucast lo :: u64)"
  and "(push_bit 32 (ucast hi) OR ucast lo :: u64) AND 0xffffffff = ucast lo"
  and "drop_bit 32 (push_bit 32 (ucast hi) OR ucast lo :: u64) = ucast hi"
proof -
  have m: "(0xffffffff :: u64) = mask 32" by (simp add: mask_eq_exp_minus_1)
  show "((x AND 0xffffffff OR push_bit 32 (ucast hi)) AND NOT 0xffffffff) OR (ucast lo AND 0xffffffff) =
      (push_bit 32 (ucast hi) OR ucast lo :: u64)"
    "(push_bit 32 (ucast hi) OR ucast lo :: u64) AND 0xffffffff = ucast lo"
    "drop_bit 32 (push_bit 32 (ucast hi) OR ucast lo :: u64) = ucast hi"
    unfolding m by (auto intro!: bit_word_eqI simp: bit_simps) (metis bit_u32_beyond not_le)+
qed

lemmas halves_simps = halves_join [simplified]

section \<open>Properties\<close>

text \<open>
  The two 32-bit halves of a timer compare register: for a hart of the machine, writing the
  high and then the low word at its MMIO addresses sets the 64-bit compare value of that hart to
  their concatenation, changes nothing else of the device, and each word reads back.
\<close>

theorem mtimecmp_halves:
  fixes lo hi :: u32
  assumes "wf_clint c" and "i < clint_nr_harts c"
  defines "a \<equiv> clint_base c + 0x4000 + 8 * of_nat i"
  defines "c' \<equiv> clint_write (ucast a) 4 (ucast lo) (clint_write (ucast (a + 4)) 4 (ucast hi) c)"
  shows "c' = c\<lparr>mtimecmp := (mtimecmp c)[i := push_bit 32 (ucast hi) OR ucast lo]\<rparr> \<and>
    clint_read (ucast a) 4 c' = ucast lo \<and> clint_read (ucast (a + 4)) 4 c' = ucast hi"
proof -
  have i: "i < 64" "i < length (mtimecmp c)" using assms(1,2) by (auto simp: wf_clint_def MAX_NR_HARTS_def)
  have off: "a - clint_base c = 0x4000 + 8 * of_nat i" "a + 4 - clint_base c = 0x4004 + 8 * of_nat i"
    by (simp_all add: a_def)
  have lowbit: "(0x4000 + 8 * of_nat i :: u32) AND 4 = 0" "(0x4004 + 8 * of_nat i :: u32) AND 4 \<noteq> 0"
    by (rule mtimecmp_select [OF i(1)])+
  have eq: "c' = c\<lparr>mtimecmp := (mtimecmp c)[i := push_bit 32 (ucast hi) OR ucast lo]\<rparr>"
    using i assms(2) lowbit mtimecmp_offset [OF i(1)]
    by (simp add: c'_def clint_write_def off Let_def halves_simps)
  have "clint_read (ucast a) 4 c' = ucast lo" "clint_read (ucast (a + 4)) 4 c' = ucast hi"
    using i assms(2) lowbit mtimecmp_offset [OF i(1)]
    by (simp_all add: eq clint_read_def off Let_def halves_simps)
  with eq show ?thesis by blast
qed

text \<open>For hart 1 of a machine with two harts.\<close>

theorem mtimecmp_halves_witness:
  "let c = \<lparr>clint_base = 0x2000000, clint_size = 0x10000, clint_nr_harts = 2, mtime = 0,
            mtimecmp = replicate 64 (- 1), msip = replicate 64 0\<rparr>
   in clint_read 0x2004008 4 (clint_write 0x2004008 4 7 (clint_write 0x200400c 4 1 c)) = 7"
proof -
  define c where "c = \<lparr>clint_base = 0x2000000, clint_size = 0x10000, clint_nr_harts = 2, mtime = 0,
            mtimecmp = replicate 64 (- 1), msip = replicate 64 0\<rparr>"
  have "wf_clint c" "1 < clint_nr_harts c" by (simp_all add: c_def wf_clint_def MAX_NR_HARTS_def)
  from mtimecmp_halves [OF this, of 7 1, THEN conjunct2, THEN conjunct1] show ?thesis unfolding c_def [symmetric] by (simp add: c_def)
qed

text \<open>
  The pending bits that the CLINT drives: after a refresh the machine timer bit says whether
  the clock has reached the compare value of the hart, the machine software bit whether its
  doorbell is set, and no other pending bit changes.
\<close>

theorem clint_refresh_pending_bits:
  "bit (ipending (clint_refresh_pending c h)) n =
     (if n = 7 then mtimecmp c ! nat (hart_id h) \<le> mtime c
      else if n = 3 then msip c ! nat (hart_id h) \<noteq> 0
      else bit (ipending h) n)"
  by (simp add: clint_refresh_pending_def assign_bit_def Let_def bit_simps)



end
