(* ===== verification/Fdt.thy ===== *)
theory Fdt
  imports Clint
begin

text \<open>
  The builder of the flattened device tree (\<^verbatim>\<open>vmm/fdt.c\<close>, \<^verbatim>\<open>vmm/fdt.h\<close>) and the scanner of its
  tokens. The contract of the builder is a token list: each call appends the encoding of one token
  to the structure block and, for a property, its name to the strings block. The theory proves that
  contract and that scanning a finished blob gives the tokens back.
\<close>

section \<open>Byte order and alignment (util.h)\<close>

definition LITTLE_ENDIAN32 :: "u32 \<Rightarrow> u32" where
  "LITTLE_ENDIAN32 v = push_bit 24 (v AND 0xff) OR push_bit 8 (v AND 0xff00) OR
     drop_bit 8 (v AND 0xff0000) OR drop_bit 24 (v AND 0xff000000)"

definition BIG_ENDIAN32 :: "u32 \<Rightarrow> u32" where
  "BIG_ENDIAN32 v = LITTLE_ENDIAN32 v"

definition ALIGN32 :: "u32 \<Rightarrow> u32 \<Rightarrow> u32" where
  "ALIGN32 var align = (if var AND (align - 1) \<noteq> 0 then (var AND NOT (align - 1)) + align else var)"

text \<open>The bytes of a 32-bit word in the memory of the little-endian host, and back.\<close>

definition le_bytes32 :: "u32 \<Rightarrow> u8 list" where
  "le_bytes32 w = [ucast w, ucast (drop_bit 8 w), ucast (drop_bit 16 w), ucast (drop_bit 24 w)]"

definition le_word32 :: "u8 list \<Rightarrow> u32" where
  "le_word32 bs = ucast (bs ! 0) OR push_bit 8 (ucast (bs ! 1)) OR push_bit 16 (ucast (bs ! 2)) OR push_bit 24 (ucast (bs ! 3))"

definition be_bytes32 :: "u32 \<Rightarrow> u8 list" where
  "be_bytes32 w = rev (le_bytes32 w)"

lemma length_le_bytes32 [simp]: "length (le_bytes32 w) = 4" by (simp add: le_bytes32_def)

lemma length_be_bytes32 [simp]: "length (be_bytes32 w) = 4" by (simp add: be_bytes32_def)

lemma byte_field: "v AND push_bit n (mask 8) = push_bit n (take_bit 8 (drop_bit n v))" for v :: u32
  by (rule bit_word_eqI) (auto simp: bit_simps)

lemma masks_u32: "v AND 0xff = take_bit 8 v" "v AND 0xff00 = push_bit 8 (take_bit 8 (drop_bit 8 v))"
  "v AND 0xff0000 = push_bit 16 (take_bit 8 (drop_bit 16 v))" "v AND 0xff000000 = push_bit 24 (take_bit 8 (drop_bit 24 v))" for v :: u32
  using byte_field [of v 0] byte_field [of v 8] byte_field [of v 16] byte_field [of v 24] by (simp_all add: mask_numeral)

lemma swapped_bit:
  assumes "n < 32"
  shows "bit (LITTLE_ENDIAN32 v) n \<longleftrightarrow>
    bit v (if n < 8 then n + 24 else if n < 16 then n + 8 else if n < 24 then n - 8 else n - 24)"
proof -
  consider "n < 8" | "8 \<le> n" "n < 16" | "16 \<le> n" "n < 24" | "24 \<le> n" by linarith
  then show ?thesis
    using assms unfolding LITTLE_ENDIAN32_def masks_u32 by cases (auto simp: bit_simps add.commute)
qed

lemma store_big_endian: "le_bytes32 (BIG_ENDIAN32 w) = be_bytes32 w"
  unfolding le_bytes32_def be_bytes32_def BIG_ENDIAN32_def
  by (auto intro!: bit_word_eqI simp: bit_simps swapped_bit add.commute)

lemma load_le_bytes: "le_word32 (le_bytes32 w @ bs) = w"
proof (rule bit_word_eqI)
  fix n assume "n < LENGTH(32)"
  then consider "n < 8" | "8 \<le> n" "n < 16" | "16 \<le> n" "n < 24" | "24 \<le> n" "n < 32" by force
  then show "bit (le_word32 (le_bytes32 w @ bs)) n = bit w n"
    unfolding le_bytes32_def le_word32_def by cases (auto simp: bit_simps)
qed

lemma swap_swap: "LITTLE_ENDIAN32 (LITTLE_ENDIAN32 w) = w"
  by (rule bit_word_eqI) (simp add: swapped_bit)

lemma load_big_endian: "LITTLE_ENDIAN32 (le_word32 (be_bytes32 w @ bs)) = w"
  using load_le_bytes [of "BIG_ENDIAN32 w" bs] unfolding store_big_endian by (simp add: BIG_ENDIAN32_def swap_swap)

lemma ALIGN32_4:
  assumes "unat v + 3 < 2 ^ 32"
  shows "unat (ALIGN32 v 4) = (unat v + 3) div 4 * 4"
proof -
  have low: "v AND 3 = take_bit 2 v" by (simp add: take_bit_eq_mask mask_numeral)
  have "v AND NOT (mask 2) = push_bit 2 (drop_bit 2 v)" by (rule bit_word_eqI) (auto simp: bit_simps not_less dest!: le_Suc_ex)
  then have high: "v AND - 4 = push_bit 2 (drop_bit 2 v)" by (simp add: mask_numeral)
  have m: "unat (take_bit 2 v) = unat v mod 4" by (simp add: take_bit_eq_mod unat_mod)
  have d: "unat (push_bit 2 (drop_bit 2 v)) = unat v div 4 * 4"
    using unsigned_less [of v] assms
    by (simp add: push_bit_eq_mult drop_bit_eq_div unat_word_ariths unat_div)
  show ?thesis
  proof (cases "unat v mod 4 = 0")
    case True
    then have "take_bit 2 v = 0" using m by (simp add: unsigned_eq_0_iff)
    then show ?thesis using True by (simp add: ALIGN32_def low) presburger
  next
    case False
    then have "take_bit 2 v \<noteq> 0" using m by (metis unsigned_0)
    then have "unat (ALIGN32 v 4) = unat (push_bit 2 (drop_bit 2 v) + 4)" by (simp add: ALIGN32_def low high)
    also have "\<dots> = unat v div 4 * 4 + 4"
    proof -
      have "unat v div 4 * 4 + 4 < 4294967296" using assms False by simp presburger
      then show ?thesis using d by (simp add: unat_word_ariths)
    qed
    finally show ?thesis using False by presburger
  qed
qed

section \<open>The build blob\<close>

text \<open>\<open>NULL\<close> buffers are empty; allocation succeeds and gives zeroed bytes after the \<^verbatim>\<open>memset\<close>.\<close>

record fdt_build_blob =
  buffer :: "u8 list"
  buffer_size :: u32
  buffer_iptr :: u32
  string_buffer :: "u8 list"
  string_buffer_size :: u32
  string_buffer_iptr :: u32
  harts_phandles :: "int list"
  hart_interrupt_controllers_phandles :: "int list"
  phandle_generator :: int

abbreviation FDT_MAGIC :: u32 where "FDT_MAGIC \<equiv> 0xd00dfeed"
abbreviation FDT_BEGIN_NODE :: u32 where "FDT_BEGIN_NODE \<equiv> 1"
abbreviation FDT_END_NODE :: u32 where "FDT_END_NODE \<equiv> 2"
abbreviation FDT_PROP :: u32 where "FDT_PROP \<equiv> 3"
abbreviation FDT_NOP :: u32 where "FDT_NOP \<equiv> 4"
abbreviation FDT_END :: u32 where "FDT_END \<equiv> 9"

text \<open>The bytes of a C string without its terminator.\<close>

definition chars :: "string \<Rightarrow> u8 list" where
  "chars s = map of_char s"

definition c_string :: "string \<Rightarrow> u8 list" where
  "c_string s = chars s @ [0]"

lemma length_chars [simp]: "length (chars s) = length s" "length (c_string s) = length s + 1"
  by (simp_all add: chars_def c_string_def)

definition generate_phandle :: "fdt_build_blob \<Rightarrow> int \<times> fdt_build_blob" where
  "generate_phandle blob = (phandle_generator blob, blob\<lparr>phandle_generator := phandle_generator blob + 1\<rparr>)"

text \<open>A copy into a host allocation; outside of it, a fault.\<close>

definition memcpy_to :: "u8 list \<Rightarrow> nat \<Rightarrow> u8 list \<Rightarrow> u8 list option" where
  "memcpy_to buf off bytes =
     (if off + length bytes \<le> length buf then Some (take off buf @ bytes @ drop (off + length bytes) buf) else None)"

definition put_bytes :: "nat \<Rightarrow> u8 list \<Rightarrow> fdt_build_blob \<Rightarrow> (fdt_build_blob, unit) result" where
  "put_bytes off bytes blob = (case memcpy_to (buffer blob) off bytes of
     None \<Rightarrow> Stop Host_fault | Some buf \<Rightarrow> Ret () (blob\<lparr>buffer := buf\<rparr>))"

definition put32 :: "nat \<Rightarrow> u32 \<Rightarrow> fdt_build_blob \<Rightarrow> (fdt_build_blob, unit) result" where
  "put32 off w blob = put_bytes off (le_bytes32 w) blob"

text \<open>A sequence of statements.\<close>

primrec run_all :: "('s \<Rightarrow> ('s, unit) result) list \<Rightarrow> 's \<Rightarrow> ('s, unit) result" where
  "run_all [] s = Ret () s"
| "run_all (f # fs) s = rbind (f s) (\<lambda>_. run_all fs)"

definition advance_iptr :: "u32 \<Rightarrow> fdt_build_blob \<Rightarrow> (fdt_build_blob, unit) result" where
  "advance_iptr n blob = Ret () (blob\<lparr>buffer_iptr := buffer_iptr blob + n\<rparr>)"

text \<open>
  The fields of \<^verbatim>\<open>struct fdt_header\<close> by their offsets: magic 0, totalsize 4, off_dt_struct 8,
  off_dt_strings 12, off_mem_rsvmap 16, version 20, last_comp_version 24, boot_cpuid_phys 28,
  size_dt_strings 32, size_dt_struct 36.
\<close>

definition fdt_build_init :: "int \<Rightarrow> int \<Rightarrow> (fdt_build_blob, unit) result" where
  "fdt_build_init buf_size str_size = (
     let blob = \<lparr>buffer = replicate (nat buf_size) 0, buffer_size = word_of_int buf_size, buffer_iptr = 0,
           string_buffer = replicate (nat str_size) 0, string_buffer_size = word_of_int str_size,
           string_buffer_iptr = 0, harts_phandles = replicate MAX_NR_HARTS 0,
           hart_interrupt_controllers_phandles = replicate MAX_NR_HARTS 0, phandle_generator = 1\<rparr>;
         off_mem_rsvmap = ALIGN32 40 4;
         off_dt_struct = ALIGN32 (off_mem_rsvmap + 16) 4 in
     run_all [put32 0 (BIG_ENDIAN32 FDT_MAGIC), put32 20 (BIG_ENDIAN32 17), put32 24 (BIG_ENDIAN32 2),
       put32 16 (BIG_ENDIAN32 off_mem_rsvmap),
       \<lambda>b. Ret () (b\<lparr>buffer_iptr := off_dt_struct\<rparr>),
       put32 8 (BIG_ENDIAN32 off_dt_struct)] blob)"

definition fdt_begin_node :: "string \<Rightarrow> fdt_build_blob \<Rightarrow> (fdt_build_blob, unit) result" where
  "fdt_begin_node node_name blob = (
     let room_available = buffer_size blob - buffer_iptr blob;
         room_needed = ALIGN32 (4 + of_nat (length node_name) + 1) 4;
         iptr = unat (buffer_iptr blob) in
     rassert (room_needed \<le> room_available)
       (run_all [put32 iptr (BIG_ENDIAN32 FDT_BEGIN_NODE), put_bytes (iptr + 4) (chars node_name), advance_iptr room_needed] blob))"

text \<open>The end of \<open>fdt_prop\<close>: the name goes into the strings block.\<close>

definition put_prop_name :: "string \<Rightarrow> fdt_build_blob \<Rightarrow> (fdt_build_blob, unit) result" where
  "put_prop_name prop_name blob = (
     let name_size = of_nat (length prop_name) + 1 :: u32 in
     rassert (name_size < string_buffer_size blob - string_buffer_iptr blob)
       (case memcpy_to (string_buffer blob) (unat (string_buffer_iptr blob)) (take (unat name_size) (c_string prop_name)) of
          None \<Rightarrow> Stop Host_fault
        | Some strs \<Rightarrow> Ret () (blob\<lparr>string_buffer := strs, string_buffer_iptr := string_buffer_iptr blob + name_size\<rparr>)))"

text \<open>The value is the \<open>prop_len\<close> bytes that the pointer argument points at.\<close>

definition fdt_prop :: "string \<Rightarrow> u8 list \<Rightarrow> fdt_build_blob \<Rightarrow> (fdt_build_blob, unit) result" where
  "fdt_prop prop_name prop_value blob = (
     let room_available = buffer_size blob - buffer_iptr blob;
         prop_len = of_nat (length prop_value) :: u32;
         room_needed = ALIGN32 (4 + 8 + prop_len) 4;
         iptr = unat (buffer_iptr blob) in
     rassert (room_needed \<le> room_available)
       (run_all [put32 iptr (BIG_ENDIAN32 FDT_PROP), put32 (iptr + 4) (BIG_ENDIAN32 prop_len),
          put32 (iptr + 8) (BIG_ENDIAN32 (string_buffer_iptr blob)),
          put_bytes (iptr + 12) (take (unat prop_len) prop_value), advance_iptr room_needed,
          put_prop_name prop_name] blob))"

definition fdt_token :: "u32 \<Rightarrow> fdt_build_blob \<Rightarrow> (fdt_build_blob, unit) result" where
  "fdt_token token blob = (
     let room_available = buffer_size blob - buffer_iptr blob; room_needed = 4 in
     rassert (room_needed \<le> room_available)
       (run_all [put32 (unat (buffer_iptr blob)) (BIG_ENDIAN32 token), advance_iptr room_needed] blob))"

definition fdt_end_node :: "fdt_build_blob \<Rightarrow> (fdt_build_blob, unit) result" where
  "fdt_end_node = fdt_token FDT_END_NODE"

definition fdt_nop :: "fdt_build_blob \<Rightarrow> (fdt_build_blob, unit) result" where
  "fdt_nop = fdt_token FDT_NOP"

definition get32 :: "nat \<Rightarrow> u8 list \<Rightarrow> u32 option" where
  "get32 off buf = (if off + 4 \<le> length buf then Some (le_word32 (drop off buf)) else None)"

definition fdt_end :: "fdt_build_blob \<Rightarrow> (fdt_build_blob, unit) result" where
  "fdt_end blob = rbind (fdt_token FDT_END blob) (\<lambda>_ b.
     case get32 8 (buffer b) of
       None \<Rightarrow> Stop Host_fault
     | Some off_dt_struct \<Rightarrow>
         run_all [put32 12 (BIG_ENDIAN32 (buffer_iptr b)), put32 32 (BIG_ENDIAN32 (string_buffer_iptr b)),
           put32 36 (BIG_ENDIAN32 (buffer_iptr b - LITTLE_ENDIAN32 off_dt_struct)),
           put32 4 (BIG_ENDIAN32 (buffer_iptr b + string_buffer_iptr b)),
           \<lambda>b. rassert (string_buffer_iptr b \<le> buffer_size b - buffer_iptr b)
             (put_bytes (unat (buffer_iptr b)) (take (unat (string_buffer_iptr b)) (string_buffer b)) b),
           \<lambda>b. advance_iptr (string_buffer_iptr b) b] b)"

definition fdt_blob_destroy :: "fdt_build_blob \<Rightarrow> fdt_build_blob" where
  "fdt_blob_destroy blob = \<lparr>buffer = [], buffer_size = 0, buffer_iptr = 0, string_buffer = [], string_buffer_size = 0,
     string_buffer_iptr = 0, harts_phandles = replicate MAX_NR_HARTS 0,
     hart_interrupt_controllers_phandles = replicate MAX_NR_HARTS 0, phandle_generator = 0\<rparr>"

section \<open>Tokens\<close>

text \<open>What a sequence of builder calls means: a list of tokens, and its encoding.\<close>

datatype fdt_item = Begin_node string | Property string "u8 list" | End_node | Nop

primrec put_item :: "fdt_item \<Rightarrow> fdt_build_blob \<Rightarrow> (fdt_build_blob, unit) result" where
  "put_item (Begin_node n) = fdt_begin_node n"
| "put_item (Property n v) = fdt_prop n v"
| "put_item End_node = fdt_end_node"
| "put_item Nop = fdt_nop"

definition padded :: "u8 list \<Rightarrow> u8 list" where
  "padded bs = bs @ replicate ((length bs + 3) div 4 * 4 - length bs) 0"

primrec encode_item :: "nat \<Rightarrow> fdt_item \<Rightarrow> u8 list" where
  "encode_item off (Begin_node n) = be_bytes32 FDT_BEGIN_NODE @ padded (c_string n)"
| "encode_item off (Property n v) = be_bytes32 FDT_PROP @ be_bytes32 (of_nat (length v)) @ be_bytes32 (of_nat off) @ padded v"
| "encode_item off End_node = be_bytes32 FDT_END_NODE"
| "encode_item off Nop = be_bytes32 FDT_NOP"

primrec item_name :: "fdt_item \<Rightarrow> u8 list" where
  "item_name (Begin_node n) = []"
| "item_name (Property n v) = c_string n"
| "item_name End_node = []"
| "item_name Nop = []"

primrec encode_items :: "nat \<Rightarrow> fdt_item list \<Rightarrow> u8 list" where
  "encode_items off [] = []"
| "encode_items off (t # ts) = encode_item off t @ encode_items (off + length (item_name t)) ts"

definition item_names :: "fdt_item list \<Rightarrow> u8 list" where
  "item_names ts = concat (map item_name ts)"

text \<open>The used parts of the two buffers; behind them is zero.\<close>

definition fdt_image :: "fdt_build_blob \<Rightarrow> u8 list \<Rightarrow> u8 list \<Rightarrow> bool" where
  "fdt_image b E S \<longleftrightarrow>
     unat (buffer_iptr b) = length E \<and> length E \<le> unat (buffer_size b) \<and> 4 dvd length E \<and>
     buffer b = E @ replicate (unat (buffer_size b) - length E) 0 \<and>
     unat (string_buffer_iptr b) = length S \<and> length S \<le> unat (string_buffer_size b) \<and>
     string_buffer b = S @ replicate (unat (string_buffer_size b) - length S) 0"

lemma memcpy_to_end:
  assumes "buf = E @ replicate z 0" and "length bytes \<le> z"
  shows "memcpy_to buf (length E) bytes = Some ((E @ bytes) @ replicate (z - length bytes) 0)"
  using assms by (simp add: memcpy_to_def)

lemma put_bytes_end:
  assumes "buffer b = E @ replicate z 0" and "length bytes \<le> z"
  shows "put_bytes (length E) bytes b = Ret () (b\<lparr>buffer := (E @ bytes) @ replicate (z - length bytes) 0\<rparr>)"
  using memcpy_to_end [OF assms] by (simp add: put_bytes_def)

lemma put32_end:
  assumes "buffer b = E @ replicate z 0" and "4 \<le> z"
  shows "put32 (length E) (BIG_ENDIAN32 w) b = Ret () (b\<lparr>buffer := (E @ be_bytes32 w) @ replicate (z - 4) 0\<rparr>)"
  using put_bytes_end [OF assms(1), of "be_bytes32 w"] assms(2) by (simp add: put32_def store_big_endian)

lemma rbind_run_nil: "rbind r (\<lambda>_. run_all []) = r" for r :: "('s, unit) result"
  by (cases r) simp_all

lemma image_ptrs:
  assumes "fdt_image b E S"
  shows "buffer_iptr b = of_nat (length E)" "string_buffer_iptr b = of_nat (length S)"
proof -
  have "of_nat (unat (buffer_iptr b)) = buffer_iptr b" "of_nat (unat (string_buffer_iptr b)) = string_buffer_iptr b" by simp_all
  then show "buffer_iptr b = of_nat (length E)" "string_buffer_iptr b = of_nat (length S)"
    using assms unfolding fdt_image_def by metis+
qed

lemma room_word:
  assumes "fdt_image b E S"
  shows "unat (buffer_size b - buffer_iptr b) = unat (buffer_size b) - length E"
  using assms by (simp add: fdt_image_def unat_sub word_le_nat_alt)

lemma image_grow:
  assumes img: "fdt_image b E S" and w: "unat w = length bs + k" "4 dvd unat w" "length E + unat w \<le> unat (buffer_size b)"
  shows "fdt_image (b\<lparr>buffer := (E @ bs) @ replicate (unat (buffer_size b) - length E - length bs) 0,
    buffer_iptr := buffer_iptr b + w\<rparr>) (E @ bs @ replicate k 0) S"
proof -
  have "unat (buffer_size b) < 2 ^ LENGTH(32)" by (rule unsigned_less)
  then have "unat (buffer_iptr b + w) = length E + unat w" using img w(3) by (simp add: fdt_image_def unat_word_ariths)
  moreover have "unat (buffer_size b) - length E - length bs = k + (unat (buffer_size b) - (length E + unat w))"
    using w by linarith
  then have "replicate (unat (buffer_size b) - length E - length bs) (0 :: u8) =
      replicate k 0 @ replicate (unat (buffer_size b) - (length E + unat w)) 0" by (simp only: replicate_add)
  ultimately show ?thesis using img w unfolding fdt_image_def by simp
qed

lemma padded_c_string: "padded (c_string n) = chars n @ replicate ((length n + 4) div 4 * 4 - length n) 0"
proof -
  have "(length n + 4) div 4 * 4 - length n = Suc ((length n + 4) div 4 * 4 - Suc (length n))" by presburger
  then show ?thesis by (simp add: padded_def c_string_def add.commute)
qed

lemma length_padded: "length (padded bs) = (length bs + 3) div 4 * 4"
  by (simp add: padded_def)

lemma align_of_nat:
  assumes "n < 2 ^ 32 - 3"
  shows "unat (ALIGN32 (of_nat n) 4) = (n + 3) div 4 * 4"
  using assms ALIGN32_4 [of "of_nat n"] by (simp add: unat_of_nat)

lemma fdt_begin_node_spec:
  assumes img: "fdt_image b E S" and n: "length n < 2 ^ 31"
  shows "if length E + length (encode_item off (Begin_node n)) \<le> unat (buffer_size b)
    then \<exists>b'. fdt_begin_node n b = Ret () b' \<and> fdt_image b' (E @ encode_item off (Begin_node n)) S \<and>
      buffer_size b' = buffer_size b \<and> string_buffer_size b' = string_buffer_size b
    else fdt_begin_node n b = Stop Assertion"
proof -
  let ?room = "ALIGN32 (4 + of_nat (length n) + 1) 4" and ?sz = "unat (buffer_size b)"
  have room: "unat ?room = (length n + 8) div 4 * 4"
    using align_of_nat [of "length n + 5"] n by (simp add: algebra_simps)
  have len: "length (encode_item off (Begin_node n)) = unat ?room" unfolding room by (simp add: length_padded) presburger
  have fit: "?room \<le> buffer_size b - buffer_iptr b \<longleftrightarrow> length E + unat ?room \<le> ?sz"
    using room_word [OF img] img by (auto simp: word_le_nat_alt fdt_image_def)
  show ?thesis
  proof (cases "length E + unat ?room \<le> ?sz")
    case True
    let ?z = "?sz - length E"
    have b: "buffer b = E @ replicate ?z 0" "unat (buffer_iptr b) = length E" using img by (simp_all add: fdt_image_def)
    have k: "unat ?room = 4 + length n + ((length n + 4) div 4 * 4 - length n)" using room by presburger
    have "put32 (length E) (BIG_ENDIAN32 FDT_BEGIN_NODE) b = Ret () (b\<lparr>buffer := (E @ be_bytes32 FDT_BEGIN_NODE) @ replicate (?z - 4) 0\<rparr>)"
      using True k by (intro put32_end [OF b(1)]) simp
    moreover have "put_bytes (length E + 4) (chars n) (b\<lparr>buffer := (E @ be_bytes32 FDT_BEGIN_NODE) @ replicate (?z - 4) 0\<rparr>) =
        Ret () (b\<lparr>buffer := ((E @ be_bytes32 FDT_BEGIN_NODE) @ chars n) @ replicate (?z - 4 - length n) 0\<rparr>)"
      using put_bytes_end [of "b\<lparr>buffer := (E @ be_bytes32 FDT_BEGIN_NODE) @ replicate (?z - 4) 0\<rparr>"
          "E @ be_bytes32 FDT_BEGIN_NODE" "?z - 4" "chars n"] True k by simp
    ultimately have "fdt_begin_node n b = Ret () (b\<lparr>buffer := (E @ (be_bytes32 FDT_BEGIN_NODE @ chars n)) @
        replicate (?z - length (be_bytes32 FDT_BEGIN_NODE @ chars n)) 0, buffer_iptr := buffer_iptr b + ?room\<rparr>)"
      using True fit b(2) by (simp add: fdt_begin_node_def Let_def advance_iptr_def)
    moreover have "fdt_image (b\<lparr>buffer := (E @ (be_bytes32 FDT_BEGIN_NODE @ chars n)) @
        replicate (?z - length (be_bytes32 FDT_BEGIN_NODE @ chars n)) 0, buffer_iptr := buffer_iptr b + ?room\<rparr>)
        (E @ (be_bytes32 FDT_BEGIN_NODE @ chars n) @ replicate ((length n + 4) div 4 * 4 - length n) 0) S"
      using True k by (intro image_grow [OF img]) (simp_all add: room)
    ultimately show ?thesis using True len by (simp add: padded_c_string)
  qed (use fit len in \<open>simp add: fdt_begin_node_def Let_def\<close>)
qed

lemma fdt_token_spec:
  assumes img: "fdt_image b E S"
  shows "if length E + 4 \<le> unat (buffer_size b)
    then \<exists>b'. fdt_token w b = Ret () b' \<and> fdt_image b' (E @ be_bytes32 w) S \<and>
      buffer_size b' = buffer_size b \<and> string_buffer_size b' = string_buffer_size b
    else fdt_token w b = Stop Assertion"
proof -
  have fit: "4 \<le> buffer_size b - buffer_iptr b \<longleftrightarrow> length E + 4 \<le> unat (buffer_size b)"
    using room_word [OF img] img by (auto simp: word_le_nat_alt fdt_image_def)
  show ?thesis
  proof (cases "length E + 4 \<le> unat (buffer_size b)")
    case True
    have "put32 (length E) (BIG_ENDIAN32 w) b = Ret () (b\<lparr>buffer := (E @ be_bytes32 w) @ replicate (unat (buffer_size b) - length E - 4) 0\<rparr>)"
      using img True by (intro put32_end) (simp_all add: fdt_image_def)
    then show ?thesis using True fit img image_grow [OF img, of 4 "be_bytes32 w" 0]
      by (simp add: fdt_token_def advance_iptr_def fdt_image_def)
  qed (use fit in \<open>simp add: fdt_token_def\<close>)
qed

lemma put_name:
  assumes img: "fdt_image b E S" and n: "length n < 2 ^ 31"
  shows "put_prop_name n b =
    (if length S + (length n + 1) < unat (string_buffer_size b)
     then Ret () (b\<lparr>string_buffer := (S @ c_string n) @ replicate (unat (string_buffer_size b) - length (S @ c_string n)) 0,
       string_buffer_iptr := of_nat (length (S @ c_string n))\<rparr>)
     else Stop Assertion)"
proof -
  let ?sz = "unat (string_buffer_size b)" and ?w = "of_nat (length n) + 1 :: u32"
  have w: "unat ?w = length n + 1" using n by (simp add: unat_word_ariths unat_of_nat)
  have sb: "unat (string_buffer_iptr b) = length S" "length S \<le> ?sz" "string_buffer b = S @ replicate (?sz - length S) 0"
    using img by (simp_all add: fdt_image_def)
  have "unat (string_buffer_size b - string_buffer_iptr b) = ?sz - length S" using sb by (simp add: unat_sub word_le_nat_alt)
  then have fit: "?w < string_buffer_size b - string_buffer_iptr b \<longleftrightarrow> length S + (length n + 1) < ?sz"
    using w by (auto simp: word_less_nat_alt)
  have "string_buffer_iptr b = of_nat (length S)" using image_ptrs [OF img] by simp
  then have ptr: "string_buffer_iptr b + ?w = of_nat (length (S @ c_string n))" by simp
  have "take (unat ?w) (c_string n) = c_string n" using w by simp
  then show ?thesis
    using fit memcpy_to_end [OF sb(3), of "c_string n"] sb(1) ptr
    by (cases "length S + (length n + 1) < ?sz") (simp_all add: put_prop_name_def diff_diff_eq)
qed

lemma image_name:
  assumes "fdt_image b E S" and "length T < unat (string_buffer_size b)"
  shows "fdt_image (b\<lparr>string_buffer := T @ replicate (unat (string_buffer_size b) - length T) 0,
    string_buffer_iptr := of_nat (length T)\<rparr>) E T"
proof -
  have "unat (string_buffer_size b) < 2 ^ LENGTH(32)" by (rule unsigned_less)
  then have "unat (of_nat (length T) :: u32) = length T" using assms(2) by (simp add: unat_of_nat)
  then show ?thesis using assms by (simp add: fdt_image_def)
qed

lemma fdt_prop_spec:
  assumes img: "fdt_image b E S" and n: "length n < 2 ^ 31" and v: "length v < 2 ^ 31"
  shows "if length E + length (encode_item (length S) (Property n v)) \<le> unat (buffer_size b) \<and>
      length S + length (c_string n) < unat (string_buffer_size b)
    then \<exists>b'. fdt_prop n v b = Ret () b' \<and> fdt_image b' (E @ encode_item (length S) (Property n v)) (S @ c_string n) \<and>
      buffer_size b' = buffer_size b \<and> string_buffer_size b' = string_buffer_size b
    else fdt_prop n v b = Stop Assertion"
proof -
  let ?len = "of_nat (length v) :: u32" and ?room = "ALIGN32 (4 + 8 + of_nat (length v)) 4" and ?sz = "unat (buffer_size b)"
  let ?h = "be_bytes32 FDT_PROP @ be_bytes32 ?len @ be_bytes32 (of_nat (length S))" and ?z = "?sz - length E"
  have vl: "unat ?len = length v" using v by (simp add: unat_of_nat)
  have room: "unat ?room = 12 + (length v + 3) div 4 * 4"
    using align_of_nat [of "length v + 12"] v by (simp add: algebra_simps) presburger
  have len: "length (encode_item (length S) (Property n v)) = unat ?room" unfolding room by (simp add: length_padded)
  have fit: "?room \<le> buffer_size b - buffer_iptr b \<longleftrightarrow> length E + unat ?room \<le> ?sz"
    using room_word [OF img] img by (auto simp: word_le_nat_alt fdt_image_def)
  show ?thesis
  proof (cases "length E + unat ?room \<le> ?sz")
    case False
    then show ?thesis using fit len by (simp add: fdt_prop_def Let_def)
  next
    case True
    have b: "buffer b = E @ replicate ?z 0" "unat (buffer_iptr b) = length E"
      "string_buffer_iptr b = of_nat (length S)" using img image_ptrs [OF img] by (simp_all add: fdt_image_def)
    have z: "12 + length v \<le> ?z" using True room by presburger
    let ?k = "(length v + 3) div 4 * 4 - length v"
    let ?b = "b\<lparr>buffer := (E @ (?h @ v)) @ replicate (?z - length (?h @ v)) 0, buffer_iptr := buffer_iptr b + ?room\<rparr>"
    have step: "put_bytes (length E + off) bs (b\<lparr>buffer := (E @ pre) @ replicate (?z - length pre) 0\<rparr>) =
        Ret () (b\<lparr>buffer := (E @ (pre @ bs)) @ replicate (?z - length (pre @ bs)) 0\<rparr>)"
      if "off = length pre" "length (pre @ bs) \<le> ?z" for off bs pre
      using put_bytes_end [of "b\<lparr>buffer := (E @ pre) @ replicate (?z - length pre) 0\<rparr>" "E @ pre" "?z - length pre" bs] that
      by (simp add: diff_diff_eq)
    have "put_bytes (length E) (be_bytes32 FDT_PROP) b = Ret () (b\<lparr>buffer := (E @ be_bytes32 FDT_PROP) @ replicate (?z - 4) 0\<rparr>)"
      using put_bytes_end [OF b(1), of "be_bytes32 FDT_PROP"] z by simp
    moreover note step [of 4 "be_bytes32 FDT_PROP" "be_bytes32 ?len"]
      step [of 8 "be_bytes32 FDT_PROP @ be_bytes32 ?len" "be_bytes32 (of_nat (length S))"] step [of 12 ?h v]
    ultimately have run: "fdt_prop n v b = put_prop_name n ?b"
      using True fit b z by (simp add: fdt_prop_def Let_def put32_def store_big_endian advance_iptr_def vl rbind_run_nil)
    have img': "fdt_image ?b (E @ (?h @ v) @ replicate ?k 0) S"
    proof (rule image_grow [OF img])
      show "unat ?room = length (?h @ v) + ?k" using room by simp
      show "4 dvd unat ?room" unfolding room by presburger
    qed (rule True)
    have enc: "E @ (?h @ v) @ replicate ?k 0 = E @ encode_item (length S) (Property n v)" by (simp add: padded_def)
    show ?thesis
    proof (cases "length S + length (c_string n) < unat (string_buffer_size b)")
      case fits: True
      have "put_prop_name n ?b = Ret () (?b\<lparr>string_buffer := (S @ c_string n) @
          replicate (unat (string_buffer_size ?b) - length (S @ c_string n)) 0, string_buffer_iptr := of_nat (length (S @ c_string n))\<rparr>)"
        using put_name [OF img' n] fits by simp
      moreover note image_name [OF img' [unfolded enc], of "S @ c_string n"]
      ultimately show ?thesis unfolding run using True len fits by simp
    qed (use True len put_name [OF img' n] run in simp)
  qed
qed

text \<open>Names are C strings without a zero inside, and no size comes near the 32-bit limit.\<close>

primrec item_ok :: "fdt_item \<Rightarrow> bool" where
  "item_ok (Begin_node n) = (length n < 2 ^ 31 \<and> 0 \<notin> set (chars n))"
| "item_ok (Property n v) = (length n < 2 ^ 31 \<and> 0 \<notin> set (chars n) \<and> length v < 2 ^ 31)"
| "item_ok End_node = True"
| "item_ok Nop = True"

lemma put_item_spec:
  assumes "fdt_image b E S" and "item_ok t"
  shows "put_item t b = Stop Assertion \<or> (\<exists>b'. put_item t b = Ret () b' \<and>
    fdt_image b' (E @ encode_item (length S) t) (S @ item_name t) \<and>
    buffer_size b' = buffer_size b \<and> string_buffer_size b' = string_buffer_size b)"
proof (cases t)
  case (Begin_node n)
  then show ?thesis using fdt_begin_node_spec [OF assms(1), of n 0] assms(2) by (auto split: if_split_asm)
next
  case (Property n v)
  then show ?thesis using fdt_prop_spec [OF assms(1), of n v] assms(2) by (auto split: if_split_asm)
next
  case End_node
  then show ?thesis using fdt_token_spec [OF assms(1), of FDT_END_NODE] by (auto simp: fdt_end_node_def split: if_split_asm)
next
  case Nop
  then show ?thesis using fdt_token_spec [OF assms(1), of FDT_NOP] by (auto simp: fdt_nop_def split: if_split_asm)
qed

lemma put_items_spec:
  assumes "fdt_image b E S" and "list_all item_ok ts"
  shows "run_all (map put_item ts) b = Stop Assertion \<or> (\<exists>b'. run_all (map put_item ts) b = Ret () b' \<and>
    fdt_image b' (E @ encode_items (length S) ts) (S @ item_names ts) \<and>
    buffer_size b' = buffer_size b \<and> string_buffer_size b' = string_buffer_size b)"
  using assms
proof (induction ts arbitrary: b E S)
  case (Cons t ts)
  from put_item_spec [OF Cons.prems(1), of t] Cons.prems(2)
  consider "put_item t b = Stop Assertion" | b1 where "put_item t b = Ret () b1"
    "fdt_image b1 (E @ encode_item (length S) t) (S @ item_name t)"
    "buffer_size b1 = buffer_size b" "string_buffer_size b1 = string_buffer_size b" by auto
  then show ?case
  proof cases
    case 2
    then show ?thesis using Cons.IH [OF 2(2)] Cons.prems(2) by (auto simp: item_names_def)
  qed simp
qed (simp add: item_names_def)

subsection \<open>Header fields\<close>

definition upd32 :: "u8 list \<Rightarrow> nat \<Rightarrow> u32 \<Rightarrow> u8 list" where
  "upd32 H off w = take off H @ be_bytes32 w @ drop (off + 4) H"

definition field32 :: "u8 list \<Rightarrow> nat \<Rightarrow> u32" where
  "field32 H off = LITTLE_ENDIAN32 (le_word32 (drop off H))"

lemma length_upd32 [simp]: "off + 4 \<le> length H \<Longrightarrow> length (upd32 H off w) = length H"
  by (simp add: upd32_def)

lemma le_word32_nth: "4 \<le> length bs \<Longrightarrow> length bs = length cs \<Longrightarrow> (\<And>i. i < 4 \<Longrightarrow> bs ! i = cs ! i) \<Longrightarrow> le_word32 bs = le_word32 cs"
  by (simp add: le_word32_def)

lemma field32_upd32:
  assumes "off + 4 \<le> length H"
  shows "field32 (upd32 H off w) off = w"
    and "off' + 4 \<le> length H \<Longrightarrow> off' + 4 \<le> off \<or> off + 4 \<le> off' \<Longrightarrow> field32 (upd32 H off w) off' = field32 H off'"
proof -
  show "field32 (upd32 H off w) off = w" using assms by (simp add: field32_def upd32_def load_big_endian)
  assume "off' + 4 \<le> length H" "off' + 4 \<le> off \<or> off + 4 \<le> off'"
  then have "le_word32 (drop off' (upd32 H off w)) = le_word32 (drop off' H)"
    using assms by (intro le_word32_nth) (auto simp: upd32_def nth_append)
  then show "field32 (upd32 H off w) off' = field32 H off'" by (simp add: field32_def)
qed

lemma field32_append: "off + 4 \<le> length H \<Longrightarrow> field32 (H @ R) off = field32 H off"
  by (simp add: field32_def le_word32_def nth_append)

lemma put32_header:
  assumes "buffer b = H @ R" and "off + 4 \<le> length H"
  shows "put32 off (BIG_ENDIAN32 w) b = Ret () (b\<lparr>buffer := upd32 H off w @ R\<rparr>)"
  using assms by (simp add: put32_def put_bytes_def memcpy_to_def store_big_endian upd32_def)

text \<open>The header that \<open>fdt_build_init\<close> leaves, with the empty reservation block behind it.\<close>

definition initial_header :: "u8 list" where
  "initial_header = upd32 (upd32 (upd32 (upd32 (upd32 (replicate 56 0) 0 FDT_MAGIC) 20 17) 24 2) 16 40) 8 56"

lemma initial_header_fields:
  "length initial_header = 56" "field32 initial_header 0 = FDT_MAGIC" "field32 initial_header 8 = 56"
  "field32 initial_header 16 = 40" "field32 initial_header 20 = 17" "field32 initial_header 24 = 2"
  by (simp_all add: initial_header_def field32_upd32)

lemma fdt_build_init_spec:
  assumes "56 \<le> n" and "n < 2 ^ 31" and "0 \<le> k" and "k < 2 ^ 31"
  shows "\<exists>b. fdt_build_init n k = Ret () b \<and> fdt_image b initial_header [] \<and>
    unat (buffer_size b) = nat n \<and> unat (string_buffer_size b) = nat k \<and> phandle_generator b = 1 \<and>
    harts_phandles b = replicate MAX_NR_HARTS 0 \<and> hart_interrupt_controllers_phandles b = replicate MAX_NR_HARTS 0"
proof -
  have al: "ALIGN32 40 4 = 40" "ALIGN32 56 4 = 56" by (simp_all add: ALIGN32_def)
  have sz: "unat (word_of_int n :: u32) = nat n" "unat (word_of_int k :: u32) = nat k"
    using assms by (simp_all add: unsigned_of_int take_bit_int_eq_self)
  have "56 + (nat n - 56) = nat n" using assms(1) by linarith
  then have split: "replicate (nat n) (0 :: u8) = replicate 56 0 @ replicate (nat n - 56) 0" by (metis replicate_add)
  show ?thesis
    unfolding fdt_build_init_def Let_def split al
    using sz assms al by (simp add: put32_header initial_header_def fdt_image_def split)
qed

lemma fdt_end_spec:
  assumes img: "fdt_image b (H @ T) S" and H: "length H = 56" "field32 H 8 = 56"
  defines "H' \<equiv> upd32 (upd32 (upd32 (upd32 H 12 (of_nat (60 + length T))) 32 (of_nat (length S))) 36 (of_nat (4 + length T)))
      4 (of_nat (60 + length T + length S))"
  shows "if 60 + length T + length S \<le> unat (buffer_size b)
    then \<exists>b'. fdt_end b = Ret () b' \<and> take (unat (buffer_iptr b')) (buffer b') = H' @ T @ be_bytes32 FDT_END @ S \<and>
      unat (buffer_iptr b') = 60 + length T + length S \<and> length (buffer b') = unat (buffer_size b)
    else fdt_end b = Stop Assertion"
proof (cases "60 + length T \<le> unat (buffer_size b)")
  case False
  then show ?thesis using fdt_token_spec [OF img, of FDT_END] H(1) by (auto simp: fdt_end_def split: if_split_asm)
next
  case True
  let ?sz = "unat (buffer_size b)"
  obtain b1 where t: "fdt_token FDT_END b = Ret () b1" and img1: "fdt_image b1 (H @ T @ be_bytes32 FDT_END) S"
    and sz: "buffer_size b1 = buffer_size b"
    using fdt_token_spec [OF img, of FDT_END] True H(1) by auto
  let ?R = "T @ be_bytes32 FDT_END @ replicate (?sz - (60 + length T)) 0"
  have b1: "buffer b1 = H @ ?R" "buffer_iptr b1 = of_nat (60 + length T)" "string_buffer_iptr b1 = of_nat (length S)"
    "unat (buffer_iptr b1) = 60 + length T" "unat (string_buffer_iptr b1) = length S"
    "take (length S) (string_buffer b1) = S"
    using img1 image_ptrs [OF img1] H(1) sz by (simp_all add: fdt_image_def)
  have "LITTLE_ENDIAN32 (le_word32 (drop 8 (H @ ?R))) = 56"
    using H field32_append [of 8 H ?R] by (simp add: field32_def)
  then have off: "get32 8 (buffer b1) = Some (le_word32 (drop 8 (H @ ?R)))" "LITTLE_ENDIAN32 (le_word32 (drop 8 (H @ ?R))) = 56"
    using H(1) b1(1) by (simp_all add: get32_def)
  have room: "unat (buffer_size b1 - buffer_iptr b1) = ?sz - (60 + length T)"
    using room_word [OF img1] sz H(1) by simp
  have len: "length H' = 56" using H(1) by (simp add: H'_def)
  let ?b2 = "b1\<lparr>buffer := H' @ ?R\<rparr>"
  have "fdt_end b = rbind (rassert (string_buffer_iptr b1 \<le> buffer_size b1 - buffer_iptr b1) (put_bytes (60 + length T) S ?b2))
      (\<lambda>_. run_all [\<lambda>b. advance_iptr (string_buffer_iptr b) b])"
    using t off H(1) b1 by (simp add: fdt_end_def put32_header H'_def)
  moreover have "string_buffer_iptr b1 \<le> buffer_size b1 - buffer_iptr b1 \<longleftrightarrow> 60 + length T + length S \<le> ?sz"
    using room b1(5) True by (auto simp: word_le_nat_alt)
  ultimately have e: "fdt_end b = rbind (rassert (60 + length T + length S \<le> ?sz) (put_bytes (60 + length T) S ?b2))
      (\<lambda>_. run_all [\<lambda>b. advance_iptr (string_buffer_iptr b) b])" by simp
  show ?thesis
  proof (cases "60 + length T + length S \<le> ?sz")
    case fits: True
    let ?b' = "b1\<lparr>buffer := ((H' @ T @ be_bytes32 FDT_END) @ S) @ replicate (?sz - (60 + length T) - length S) 0,
      buffer_iptr := buffer_iptr b1 + string_buffer_iptr b1\<rparr>"
    have "put_bytes (60 + length T) S ?b2 = Ret () (b1\<lparr>buffer := ((H' @ T @ be_bytes32 FDT_END) @ S) @ replicate (?sz - (60 + length T) - length S) 0\<rparr>)"
      using put_bytes_end [of ?b2 "H' @ T @ be_bytes32 FDT_END" "?sz - (60 + length T)" S] fits len by simp
    then have b': "fdt_end b = Ret () ?b'" using e fits by (simp add: advance_iptr_def)
    have "?sz < 2 ^ LENGTH(32)" by (rule unsigned_less)
    then have "unat (buffer_iptr ?b') = 60 + length T + length S" using b1(4,5) fits by (simp add: unat_word_ariths)
    then show ?thesis using b' len fits by simp
  qed (use e in simp)
qed

section \<open>The scanner\<close>

text \<open>
  \<open>scan_fdt_tokens\<close> walks the structure block of a blob and prints a line per property: the name of
  the last node it has seen, the name, length and address of the property. Pointers are offsets from
  the start of the blob, which is aligned; an access outside the blob is a fault. A negative length
  moves the pointer back, so the loop need not end on a blob that is no device tree.
\<close>

type_synonym fdt_log = "(u8 list option \<times> u8 list \<times> int \<times> int) list"

definition load32 :: "u8 list \<Rightarrow> int \<Rightarrow> u32 option" where
  "load32 dtb p = (if 0 \<le> p then map_option LITTLE_ENDIAN32 (get32 (nat p) dtb) else None)"

definition read_c_string :: "u8 list \<Rightarrow> int \<Rightarrow> u8 list option" where
  "read_c_string dtb p =
     (if 0 \<le> p \<and> 0 \<in> set (drop (nat p) dtb) then Some (takeWhile (\<lambda>c. c \<noteq> 0) (drop (nat p) dtb)) else None)"

definition ALIGNADDR :: "int \<Rightarrow> int \<Rightarrow> int" where
  "ALIGNADDR addr align = (if addr mod align \<noteq> 0 then addr - addr mod align + align else addr)"

partial_function (option) scan_tokens :: "u8 list \<Rightarrow> int \<Rightarrow> u8 list option \<Rightarrow> fdt_log \<Rightarrow> (fdt_log, unit) result option" where
  "scan_tokens dtb ptr node_name log =
     (case load32 dtb ptr of
        None \<Rightarrow> Some (Stop Host_fault)
      | Some token \<Rightarrow>
          if token = FDT_BEGIN_NODE then
            (case read_c_string dtb (ptr + 4) of
               None \<Rightarrow> Some (Stop Host_fault)
             | Some name \<Rightarrow> scan_tokens dtb (ALIGNADDR (ptr + 4 + int (length name) + 1) 4) (Some name) log)
          else if token = FDT_PROP then
            (case (load32 dtb (ptr + 4), load32 dtb (ptr + 8), load32 dtb 12) of
               (Some len, Some nameoff, Some off_dt_strings) \<Rightarrow>
                 (case read_c_string dtb (uint off_dt_strings + uint nameoff) of
                    None \<Rightarrow> Some (Stop Host_fault)
                  | Some prop_name \<Rightarrow>
                      scan_tokens dtb (ALIGNADDR (ptr + 12 + sint len) 4) node_name (log @ [(node_name, prop_name, sint len, ptr + 12)]))
             | _ \<Rightarrow> Some (Stop Host_fault))
          else if token = FDT_NOP then scan_tokens dtb (ptr + 4) node_name log
          else if token = FDT_END_NODE then scan_tokens dtb (ptr + 4) node_name log
          else if token = FDT_END then Some (Ret () log)
          else Some (Stop Assertion))"

definition scan_fdt_tokens :: "u8 list \<Rightarrow> (fdt_log, unit) result option" where
  "scan_fdt_tokens dtb = (case load32 dtb 8 of
     None \<Rightarrow> Some (Stop Host_fault) | Some off_dt_struct \<Rightarrow> scan_tokens dtb (uint off_dt_struct) None [])"

lemma load32_at:
  assumes "dtb = P @ be_bytes32 w @ R" and "p = int (length P)"
  shows "load32 dtb p = Some w"
  using assms by (simp add: load32_def get32_def load_big_endian)

lemma read_c_string_at:
  assumes "dtb = P @ chars n @ 0 # R" and "p = int (length P)" and "0 \<notin> set (chars n)"
  shows "read_c_string dtb p = Some (chars n)"
proof -
  have "takeWhile (\<lambda>c. c \<noteq> 0) (chars n @ 0 # R) = chars n" using assms(3) by (subst takeWhile_append2) auto
  then show ?thesis using assms by (simp add: read_c_string_def)
qed

lemma ALIGNADDR_4:
  assumes "4 dvd a"
  shows "ALIGNADDR (int (a + n)) 4 = int (a + (n + 3) div 4 * 4)"
proof -
  have "ALIGNADDR (int m) 4 = int ((m + 3) div 4 * 4)" for m unfolding ALIGNADDR_def by presburger
  moreover have "(a + n + 3) div 4 * 4 = a + (n + 3) div 4 * 4" using assms by presburger
  ultimately show ?thesis by presburger
qed

text \<open>The lines that the scanner prints for a token list at offset \<open>p\<close>.\<close>

primrec item_log :: "nat \<Rightarrow> u8 list option \<Rightarrow> fdt_item list \<Rightarrow> fdt_log" where
  "item_log p node [] = []"
| "item_log p node (t # ts) = (case t of
     Begin_node n \<Rightarrow> item_log (p + length (encode_item 0 t)) (Some (chars n)) ts
   | Property n v \<Rightarrow> (node, chars n, int (length v), int (p + 12)) # item_log (p + length (encode_item 0 t)) node ts
   | _ \<Rightarrow> item_log (p + 4) node ts)"


lemma token_values:
  "FDT_PROP \<noteq> FDT_BEGIN_NODE" "FDT_NOP \<noteq> FDT_BEGIN_NODE" "FDT_NOP \<noteq> FDT_PROP" "FDT_END_NODE \<noteq> FDT_BEGIN_NODE"
  "FDT_END_NODE \<noteq> FDT_PROP" "FDT_END_NODE \<noteq> FDT_NOP" "FDT_END \<noteq> FDT_BEGIN_NODE" "FDT_END \<noteq> FDT_PROP"
  "FDT_END \<noteq> FDT_NOP" "FDT_END \<noteq> FDT_END_NODE"
  by simp_all

lemma scan_unfold:
  "load32 dtb p = Some FDT_BEGIN_NODE \<Longrightarrow> read_c_string dtb (p + 4) = Some name \<Longrightarrow>
     scan_tokens dtb p node log = scan_tokens dtb (ALIGNADDR (p + 4 + int (length name) + 1) 4) (Some name) log"
  "load32 dtb p = Some FDT_PROP \<Longrightarrow> load32 dtb (p + 4) = Some len \<Longrightarrow> load32 dtb (p + 8) = Some nameoff \<Longrightarrow>
     load32 dtb 12 = Some q \<Longrightarrow> read_c_string dtb (uint q + uint nameoff) = Some name \<Longrightarrow>
     scan_tokens dtb p node log = scan_tokens dtb (ALIGNADDR (p + 12 + sint len) 4) node (log @ [(node, name, sint len, p + 12)])"
  "load32 dtb p = Some FDT_END_NODE \<Longrightarrow> scan_tokens dtb p node log = scan_tokens dtb (p + 4) node log"
  "load32 dtb p = Some FDT_NOP \<Longrightarrow> scan_tokens dtb p node log = scan_tokens dtb (p + 4) node log"
  "load32 dtb p = Some FDT_END \<Longrightarrow> scan_tokens dtb p node log = Some (Ret () log)"
  by (subst scan_tokens.simps, simp only: option.case prod.case if_True if_False token_values refl)+

lemma scan_step_begin:
  assumes "dtb = P @ encode_item off (Begin_node n) @ R" and "4 dvd length P" and "0 \<notin> set (chars n)"
  shows "scan_tokens dtb (int (length P)) node log =
    scan_tokens dtb (int (length P + length (encode_item off (Begin_node n)))) (Some (chars n)) log"
proof -
  have tok: "load32 dtb (int (length P)) = Some FDT_BEGIN_NODE" using assms(1) by (intro load32_at) auto
  have "\<exists>Z. padded (c_string n) = chars n @ 0 # Z" by (simp add: padded_def c_string_def)
  then obtain Z where "padded (c_string n) = chars n @ 0 # Z" by blast
  then have name: "read_c_string dtb (int (length P) + 4) = Some (chars n)"
    using assms by (intro read_c_string_at [where P = "P @ be_bytes32 FDT_BEGIN_NODE" and R = "Z @ R"]) simp_all
  have "ALIGNADDR (int (length P) + 4 + int (length (chars n)) + 1) 4 = int (length P + length (encode_item off (Begin_node n)))"
    using ALIGNADDR_4 [of "length P + 4" "length n + 1"] assms(2) by (simp add: length_padded algebra_simps)
  then show ?thesis using scan_unfold(1) [OF tok name] by simp
qed

lemma scan_step_prop:
  assumes "dtb = P @ encode_item off (Property n v) @ R" and "4 dvd length P" and "0 \<notin> set (chars n)"
    and "length v < 2 ^ 31" and "off < 2 ^ 32"
    and q: "load32 dtb 12 = Some q" and "dtb = P2 @ chars n @ 0 # R2" and "length P2 = unat q + off"
  shows "scan_tokens dtb (int (length P)) node log = scan_tokens dtb (int (length P + length (encode_item off (Property n v)))) node
    (log @ [(node, chars n, int (length v), int (length P + 12))])"
proof -
  have tok: "load32 dtb (int (length P)) = Some FDT_PROP" using assms(1) by (intro load32_at) auto
  have len: "load32 dtb (int (length P) + 4) = Some (of_nat (length v))"
    using assms(1) by (intro load32_at [where P = "P @ be_bytes32 FDT_PROP"]) auto
  have noff: "load32 dtb (int (length P) + 8) = Some (of_nat off)"
    using assms(1) by (intro load32_at [where P = "P @ be_bytes32 FDT_PROP @ be_bytes32 (of_nat (length v))"]) auto
  have "uint (of_nat off :: u32) = int off" using assms(5) by (simp add: unsigned_of_nat take_bit_nat_eq_self)
  then have "uint q + uint (of_nat off :: u32) = int (length P2)" using assms(8) by simp
  then have name: "read_c_string dtb (uint q + uint (of_nat off :: u32)) = Some (chars n)"
    using assms(3) by (intro read_c_string_at [OF assms(7)]) simp_all
  have sv: "sint (of_nat (length v) :: u32) = int (length v)"
    using assms(4) by (simp add: signed_of_nat signed_take_bit_int_eq_self)
  have "ALIGNADDR (int (length P) + 12 + int (length v)) 4 = int (length P + length (encode_item off (Property n v)))"
    using ALIGNADDR_4 [of "length P + 12" "length v"] assms(2) by (simp add: length_padded algebra_simps)
  moreover have "int (length P) + 12 = int (length P + 12)" by simp
  ultimately show ?thesis using scan_unfold(2) [OF tok len noff q name, of node log] unfolding sv by metis
qed

lemma scan_step_token:
  assumes "dtb = P @ be_bytes32 w @ R" and "w \<in> {FDT_END_NODE, FDT_NOP}"
  shows "scan_tokens dtb (int (length P)) node log = scan_tokens dtb (int (length P + 4)) node log"
proof -
  have "load32 dtb (int (length P)) = Some w" using assms(1) by (intro load32_at) auto
  then show ?thesis using assms(2) scan_unfold(3,4) [of dtb "int (length P)" node log] by auto
qed

lemma encode_item_aligned: "4 dvd length (encode_item off t)" "length (encode_item off t) = length (encode_item 0 t)"
  by (cases t; simp add: length_padded)+

lemma scan_items:
  assumes "list_all item_ok ts" and "dtb = P @ encode_items (length S0) ts @ be_bytes32 FDT_END @ S0 @ item_names ts"
    and "4 dvd length P" and "length dtb < 2 ^ 32" and "load32 dtb 12 = Some q"
    and "unat q = length P + length (encode_items (length S0) ts) + 4"
  shows "scan_tokens dtb (int (length P)) node log = Some (Ret () (log @ item_log (length P) node ts))"
  using assms
proof (induction ts arbitrary: P S0 node log)
  case Nil
  then have "load32 dtb (int (length P)) = Some FDT_END" by (intro load32_at) auto
  then show ?case using scan_unfold(5) by simp
next
  case (Cons t ts)
  let ?P = "P @ encode_item (length S0) t" and ?S = "S0 @ item_name t"
  have IH: "scan_tokens dtb (int (length ?P)) node' log' = Some (Ret () (log' @ item_log (length ?P) node' ts))" for node' log'
    using Cons.prems encode_item_aligned [of "length S0" t] by (intro Cons.IH [of ?P ?S]) (simp_all add: item_names_def)
  show ?case
  proof (cases t)
    case (Begin_node n)
    have "scan_tokens dtb (int (length P)) node log = scan_tokens dtb (int (length ?P)) (Some (chars n)) log"
      using scan_step_begin [OF _ Cons.prems(3), of dtb "length S0" n] Cons.prems(1,2) Begin_node by simp
    then show ?thesis using IH Begin_node by simp
  next
    case (Property n v)
    have "scan_tokens dtb (int (length P)) node log =
        scan_tokens dtb (int (length P + length (encode_item (length S0) (Property n v)))) node
          (log @ [(node, chars n, int (length v), int (length P + 12))])"
    proof (rule scan_step_prop [OF _ Cons.prems(3) _ _ _ Cons.prems(5)])
      show "dtb = P @ encode_item (length S0) (Property n v) @
          encode_items (length ?S) ts @ be_bytes32 FDT_END @ S0 @ item_names (t # ts)"
        using Cons.prems(2) Property by simp
      show "dtb = (P @ encode_items (length S0) (t # ts) @ be_bytes32 FDT_END @ S0) @ chars n @ 0 # item_names ts"
        using Cons.prems(2) Property by (simp add: item_names_def c_string_def)
      show "length (P @ encode_items (length S0) (t # ts) @ be_bytes32 FDT_END @ S0) = unat q + length S0"
        using Cons.prems(6) by simp
      show "length S0 < 2 ^ 32" using Cons.prems(2,4) by simp
    qed (use Cons.prems(1) Property in simp_all)
    then show ?thesis using IH Property by simp
  next
    case End_node
    then show ?thesis using scan_step_token [of dtb P FDT_END_NODE] Cons.prems(2) IH by simp
  next
    case Nop
    then show ?thesis using scan_step_token [of dtb P FDT_NOP] Cons.prems(2) IH by simp
  qed
qed

section \<open>Finished blobs\<close>

definition build_fdt :: "int \<Rightarrow> int \<Rightarrow> fdt_item list \<Rightarrow> (fdt_build_blob, unit) result" where
  "build_fdt buf_size str_size ts =
     rbind (fdt_build_init buf_size str_size) (\<lambda>_ b. rbind (run_all (map put_item ts) b) (\<lambda>_. fdt_end))"

definition finished_blob :: "fdt_build_blob \<Rightarrow> u8 list" where
  "finished_blob b = take (unat (buffer_iptr b)) (buffer b)"

text \<open>The properties of a token list: the last node begun before, the name and the value.\<close>

primrec item_properties :: "u8 list option \<Rightarrow> fdt_item list \<Rightarrow> (u8 list option \<times> u8 list \<times> u8 list) list" where
  "item_properties node [] = []"
| "item_properties node (t # ts) = (case t of
     Begin_node n \<Rightarrow> item_properties (Some (chars n)) ts
   | Property n v \<Rightarrow> (node, chars n, v) # item_properties node ts
   | _ \<Rightarrow> item_properties node ts)"

definition logged_property :: "u8 list \<Rightarrow> u8 list option \<times> u8 list \<times> int \<times> int \<Rightarrow> u8 list option \<times> u8 list \<times> u8 list" where
  "logged_property dtb = (\<lambda>(node, name, len, p). (node, name, take (nat len) (drop (nat p) dtb)))"

lemma logged_items:
  assumes "dtb = P @ encode_items off ts @ R"
  shows "map (logged_property dtb) (item_log (length P) node ts) = item_properties node ts"
  using assms
proof (induction ts arbitrary: P off node)
  case (Cons t ts)
  have eq: "dtb = (P @ encode_item off t) @ encode_items (off + length (item_name t)) ts @ R" using Cons.prems by simp
  have len: "length (P @ encode_item off t) = length P + length (encode_item 0 t)" using encode_item_aligned(2) by simp
  note IH = Cons.IH [OF eq, unfolded len]
  show ?case
  proof (cases t)
    case (Property n v)
    have "take (length v) (drop (length P + 12) dtb) = v" using Cons.prems Property by (simp add: padded_def)
    then show ?thesis using IH Property by (simp add: logged_property_def nat_add_distrib)
  qed (use IH in \<open>simp_all add: logged_property_def\<close>)
qed simp

lemma item_names_simps: "item_names [] = []" "item_names (t # ts) = item_name t @ item_names ts"
  by (simp_all add: item_names_def)

lemma put_item_cases:
  assumes "fdt_image b E S" and "item_ok t"
  shows "(put_item t b = Stop Assertion) \<longleftrightarrow> unat (buffer_size b) < length E + length (encode_item 0 t) \<or>
    item_name t \<noteq> [] \<and> unat (string_buffer_size b) \<le> length S + length (item_name t)"
proof (cases t)
  case (Begin_node n)
  then show ?thesis using fdt_begin_node_spec [OF assms(1), of n 0] assms(2) by (auto split: if_split_asm)
next
  case (Property n v)
  then show ?thesis using fdt_prop_spec [OF assms(1), of n v] assms(2) encode_item_aligned(2) [of "length S" t]
    by (auto simp: c_string_def split: if_split_asm)
next
  case End_node
  then show ?thesis using fdt_token_spec [OF assms(1), of FDT_END_NODE] by (auto simp: fdt_end_node_def split: if_split_asm)
next
  case Nop
  then show ?thesis using fdt_token_spec [OF assms(1), of FDT_NOP] by (auto simp: fdt_nop_def split: if_split_asm)
qed

lemma length_encode_items: "length (encode_items off ts) = length (encode_items 0 ts)"
proof (induction ts arbitrary: off)
  case (Cons t ts)
  then show ?case using encode_item_aligned(2) [of off t] by (metis encode_items.simps(2) length_append add_0)
qed simp

text \<open>The builder stops exactly when one of the two buffers is too small.\<close>

lemma put_items_stop_iff:
  assumes "fdt_image b E S" and "list_all item_ok ts"
  shows "(run_all (map put_item ts) b = Stop Assertion) \<longleftrightarrow> unat (buffer_size b) < length E + length (encode_items 0 ts) \<or>
    item_names ts \<noteq> [] \<and> unat (string_buffer_size b) \<le> length S + length (item_names ts)"
  using assms
proof (induction ts arbitrary: b E S)
  case Nil
  then show ?case by (simp add: item_names_def fdt_image_def)
next
  case (Cons t ts)
  have ok: "item_ok t" "list_all item_ok ts" using Cons.prems(2) by simp_all
  note first = put_item_cases [OF Cons.prems(1) ok(1)]
  have len: "length (encode_items 0 (t # ts)) = length (encode_item 0 t) + length (encode_items 0 ts)"
    using length_encode_items [of "length (item_name t)" ts] by simp
  show ?case
  proof (cases "put_item t b = Stop Assertion")
    case True
    then show ?thesis using first len by (auto simp: item_names_simps)
  next
    case False
    then obtain b1 where b1: "put_item t b = Ret () b1" "fdt_image b1 (E @ encode_item (length S) t) (S @ item_name t)"
      "buffer_size b1 = buffer_size b" "string_buffer_size b1 = string_buffer_size b"
      using put_item_spec [OF Cons.prems(1) ok(1)] by auto
    note rest = Cons.IH [OF b1(2) ok(2)]
    show ?thesis
      using False first rest b1 len encode_item_aligned(2) [of "length S" t] by (auto simp: item_names_simps)
  qed
qed


text \<open>What a successful build leaves.\<close>

definition final_header :: "nat \<Rightarrow> nat \<Rightarrow> u8 list" where
  "final_header t s = upd32 (upd32 (upd32 (upd32 initial_header 12 (of_nat (60 + t))) 32 (of_nat s)) 36 (of_nat (4 + t)))
     4 (of_nat (60 + t + s))"

lemma final_header_fields:
  "length (final_header t s) = 56" "field32 (final_header t s) 0 = FDT_MAGIC" "field32 (final_header t s) 4 = of_nat (60 + t + s)"
  "field32 (final_header t s) 8 = 56" "field32 (final_header t s) 12 = of_nat (60 + t)"
  "field32 (final_header t s) 32 = of_nat s" "field32 (final_header t s) 36 = of_nat (4 + t)"
  by (simp_all add: final_header_def initial_header_fields field32_upd32)

lemma build_fdt_Ret:
  assumes "56 \<le> n" "n < 2 ^ 31" "0 \<le> k" "k < 2 ^ 31" and ok: "list_all item_ok ts" and r: "build_fdt n k ts = Ret () b"
  shows "finished_blob b = final_header (length (encode_items 0 ts)) (length (item_names ts)) @
      encode_items 0 ts @ be_bytes32 FDT_END @ item_names ts"
    and "60 + length (encode_items 0 ts) + length (item_names ts) \<le> nat n"
    and "unat (buffer_iptr b) = 60 + length (encode_items 0 ts) + length (item_names ts)"
proof -
  obtain b0 where b0: "fdt_build_init n k = Ret () b0" "fdt_image b0 initial_header []" "unat (buffer_size b0) = nat n"
    using fdt_build_init_spec [OF assms(1-4)] by blast
  then obtain b1 where b1: "run_all (map put_item ts) b0 = Ret () b1"
    "fdt_image b1 (initial_header @ encode_items 0 ts) (item_names ts)" "buffer_size b1 = buffer_size b0" and e: "fdt_end b1 = Ret () b"
    using put_items_spec [OF b0(2) ok] r by (auto simp: build_fdt_def)
  note spec = fdt_end_spec [OF b1(2) initial_header_fields(1,3)]
  show "finished_blob b = final_header (length (encode_items 0 ts)) (length (item_names ts)) @
      encode_items 0 ts @ be_bytes32 FDT_END @ item_names ts"
    using spec e by (auto simp: finished_blob_def final_header_def split: if_split_asm)
  show "60 + length (encode_items 0 ts) + length (item_names ts) \<le> nat n"
    using spec e b0(3) b1(3) by (auto split: if_split_asm)
  show "unat (buffer_iptr b) = 60 + length (encode_items 0 ts) + length (item_names ts)"
    using spec e by (auto split: if_split_asm)
qed

text \<open>The buffers suffice exactly when the structure and the names fit.\<close>

lemma build_fdt_stop_iff:
  assumes "56 \<le> n" "n < 2 ^ 31" "0 \<le> k" "k < 2 ^ 31" and ok: "list_all item_ok ts"
  shows "(build_fdt n k ts = Stop Assertion) \<longleftrightarrow>
      nat n < 60 + length (encode_items 0 ts) + length (item_names ts) \<or> item_names ts \<noteq> [] \<and> nat k \<le> length (item_names ts)"
    and "build_fdt n k ts \<noteq> Stop Assertion \<Longrightarrow> \<exists>b. build_fdt n k ts = Ret () b"
proof -
  obtain b0 where b0: "fdt_build_init n k = Ret () b0" "fdt_image b0 initial_header []" "unat (buffer_size b0) = nat n"
    "unat (string_buffer_size b0) = nat k"
    using fdt_build_init_spec [OF assms(1-4)] by blast
  note stop = put_items_stop_iff [OF b0(2) ok]
  show iff: "(build_fdt n k ts = Stop Assertion) \<longleftrightarrow>
      nat n < 60 + length (encode_items 0 ts) + length (item_names ts) \<or> item_names ts \<noteq> [] \<and> nat k \<le> length (item_names ts)"
  proof (cases "run_all (map put_item ts) b0 = Stop Assertion")
    case True
    then show ?thesis using stop b0 by (auto simp: build_fdt_def initial_header_fields)
  next
    case False
    then obtain b1 where b1: "run_all (map put_item ts) b0 = Ret () b1"
      "fdt_image b1 (initial_header @ encode_items 0 ts) (item_names ts)" "buffer_size b1 = buffer_size b0"
      using put_items_spec [OF b0(2) ok] by auto
    show ?thesis using fdt_end_spec [OF b1(2) initial_header_fields(1,3)] False stop b0 b1
      by (auto simp: build_fdt_def initial_header_fields split: if_split_asm)
  qed
  show "\<exists>b. build_fdt n k ts = Ret () b" if "build_fdt n k ts \<noteq> Stop Assertion"
  proof -
    have "run_all (map put_item ts) b0 \<noteq> Stop Assertion" using that b0(1) by (auto simp: build_fdt_def)
    then obtain b1 where b1: "run_all (map put_item ts) b0 = Ret () b1"
      "fdt_image b1 (initial_header @ encode_items 0 ts) (item_names ts)"
      using put_items_spec [OF b0(2) ok] by auto
    show ?thesis using fdt_end_spec [OF b1(2) initial_header_fields(1,3)] that b0(1) b1(1)
      by (auto simp: build_fdt_def split: if_split_asm)
  qed
qed

text \<open>Scanning a finished blob.\<close>

lemma build_fdt_scan:
  assumes "56 \<le> n" and "n < 2 ^ 31" and "0 \<le> k" and "k < 2 ^ 31" and "list_all item_ok ts" and "build_fdt n k ts = Ret () b"
  shows "field32 (finished_blob b) 0 = FDT_MAGIC \<and> uint (field32 (finished_blob b) 4) = int (length (finished_blob b)) \<and>
    (\<exists>log. scan_fdt_tokens (finished_blob b) = Some (Ret () log) \<and>
      map (logged_property (finished_blob b)) log = item_properties None ts)"
proof -
  let ?T = "encode_items 0 ts" and ?S = "item_names ts" and ?dtb = "finished_blob b"
  let ?H = "final_header (length ?T) (length ?S)"
  have dtb: "?dtb = ?H @ ?T @ be_bytes32 FDT_END @ ?S" using build_fdt_Ret(1) [OF assms] .
  have len: "length ?dtb = 60 + length ?T + length ?S" unfolding dtb by (simp add: final_header_fields)
  have small: "length ?dtb < 2 ^ 31" using build_fdt_Ret(2) [OF assms] assms(2) len by simp
  have field: "field32 ?dtb off = field32 ?H off" if "off + 4 \<le> 56" for off
    unfolding dtb using that by (intro field32_append) (simp add: final_header_fields)
  have load: "load32 ?dtb (int off) = Some (field32 ?dtb off)" if "off + 4 \<le> 56" for off
    using that len by (simp add: load32_def get32_def field32_def)
  have q: "unat (of_nat (60 + length ?T) :: u32) = 60 + length ?T" using small len by (simp only: unat_of_nat) simp
  have "load32 ?dtb 12 = Some (of_nat (60 + length ?T))"
    using load [of 12] field [of 12] by (simp add: final_header_fields)
  then have "scan_tokens ?dtb (int (length ?H)) None [] = Some (Ret () ([] @ item_log (length ?H) None ts))"
    using assms(5) dtb small q by (intro scan_items [where ?S0.0 = "[]"]) (simp_all add: final_header_fields del: of_nat_add)
  moreover have "load32 ?dtb 8 = Some 56" using load [of 8] field [of 8] by (simp add: final_header_fields)
  ultimately have "scan_fdt_tokens ?dtb = Some (Ret () (item_log (length ?H) None ts))"
    by (simp add: scan_fdt_tokens_def final_header_fields)
  moreover have "map (logged_property ?dtb) (item_log (length ?H) None ts) = item_properties None ts"
    using logged_items [OF dtb] .
  moreover have "uint (field32 ?dtb 4) = int (length ?dtb)"
    using field [of 4] small unfolding len final_header_fields
    by (simp add: unsigned_of_nat take_bit_nat_eq_self final_header_fields del: of_nat_add)
  ultimately show ?thesis using field [of 0] by (simp add: final_header_fields)
qed



end
