(* ===== verification/Address_Order.thy ===== *)
theory Address_Order
  imports Sort_Search
begin

text \<open>
  Two tables of the vmm are ordered by the sign of the 32-bit difference of two addresses, the
  program counter mappings (\<open>comparing_mapping_item\<close>, \<^verbatim>\<open>vmm/hart.c\<close>) and the breakpoints
  (\<open>addr_cmp\<close>, \<^verbatim>\<open>vmm/debug_breakpoint.c\<close>). This theory has what they share. The difference
  orders the addresses of a window of half the address space, and of no larger set.
\<close>

definition addr_diff :: "u32 \<Rightarrow> u32 \<Rightarrow> int" where
  "addr_diff a b = sint (a - b)"

text \<open>Distance of an address from the base of a window.\<close>

definition in_window :: "u32 \<Rightarrow> u32 \<Rightarrow> bool" where
  "in_window b a \<longleftrightarrow> uint (a - b) < 2 ^ 31"

lemma addr_diff_window:
  assumes "in_window b x" and "in_window b y"
  shows "addr_diff x y = uint (x - b) - uint (y - b)"
proof -
  let ?p = "uint (x - b)" and ?q = "uint (y - b)"
  have "sint (word_of_int i :: u32) = signed_take_bit 31 i" for i by transfer simp
  moreover have "x - y = word_of_int (?p - ?q)" by simp
  ultimately have "sint (x - y) = signed_take_bit 31 (?p - ?q)" by metis
  moreover have "0 \<le> ?p" "?p < 2 ^ 31" "0 \<le> ?q" "?q < 2 ^ 31" using assms by (simp_all add: in_window_def)
  then have "signed_take_bit 31 (?p - ?q) = ?p - ?q" by (intro signed_take_bit_int_eq_self) linarith+
  ultimately show ?thesis by (simp add: addr_diff_def)
qed

lemma addr_diff_0_iff [simp]: "addr_diff x y = 0 \<longleftrightarrow> x = y"
  by (simp add: addr_diff_def signed_eq_0_iff)

text \<open>A table sorted by the difference of an address component.\<close>

definition key_cmp :: "('a \<Rightarrow> u32) \<Rightarrow> 'a comparison" where
  "key_cmp key x y = Some (addr_diff (key x) (key y))"

interpretation addr_order: comparator "key_cmp key" "{x. in_window b (key x)}" for key b
proof
  fix x y z :: 'a and c d :: int
  assume xy: "x \<in> {x. in_window b (key x)}" "y \<in> {x. in_window b (key x)}"
  show "\<exists>c. key_cmp key x y = Some c" by (simp add: key_cmp_def)
  have diff: "addr_diff (key x) (key y) = uint (key x - b) - uint (key y - b)"
    "addr_diff (key y) (key x) = uint (key y - b) - uint (key x - b)"
    using xy by (simp_all add: addr_diff_window)
  show "sgn d = - sgn c" if "key_cmp key x y = Some c" "key_cmp key y x = Some d"
    using that diff by (auto simp: key_cmp_def sgn_if)
  assume z: "z \<in> {x. in_window b (key x)}"
  show "cmp_le (key_cmp key) x z" if "cmp_le (key_cmp key) x y" "cmp_le (key_cmp key) y z"
    using that xy z by (simp add: cmp_le_def key_cmp_def addr_diff_window)
qed

text \<open>
  Whatever the order, the macros stay inside the array and return when the comparison is
  total: insertion permutes the table.
\<close>

lemma SEARCH_total:
  assumes "\<And>x y. cmp x y \<noteq> None"
  shows "\<exists>r. SEARCH cmp base t = Some r \<and>
     (\<forall>i. r = Some i \<longrightarrow> i < length base \<and> cmp t (base ! i) = Some 0)"
proof -
  have "0 \<le> lo \<Longrightarrow> hi < int (length base) \<Longrightarrow> \<exists>r. search_loop cmp base t lo hi = Some r \<and>
     (\<forall>i. r = Some i \<longrightarrow> i < length base \<and> cmp t (base ! i) = Some 0)" for lo hi
  proof (induction "nat (hi - lo)" arbitrary: lo hi rule: less_induct)
    case less
    let ?mid = "(lo + hi) div 2"
    show ?case
    proof (cases "lo \<le> hi")
      case True
      obtain c where c: "cmp t (base ! nat lo) = Some c" using assms by blast
      obtain d where d: "cmp t (base ! nat hi) = Some d" using assms by blast
      obtain e where e: "cmp t (base ! nat ?mid) = Some e" using assms by blast
      have mid: "lo \<le> ?mid" "?mid \<le> hi" using True by linarith+
      have lo': "nat (?mid - lo) < nat (hi - lo)" "nat (hi - ?mid) < nat (hi - lo)"
        if "?mid \<noteq> lo" "?mid \<noteq> hi" using that mid by linarith+
      show ?thesis
      proof (cases "c = 0 \<or> d = 0 \<or> ?mid = lo \<or> ?mid = hi")
        case True
        then show ?thesis using \<open>lo \<le> hi\<close> less.prems c d
          by (subst search_loop.simps) (auto simp: Let_def)
      next
        case False
        then have "search_loop cmp base t lo hi =
            (if e < 0 then search_loop cmp base t lo ?mid else search_loop cmp base t ?mid hi)"
          using \<open>lo \<le> hi\<close> less.prems c d e mid by (subst search_loop.simps) (simp add: Let_def)
        then show ?thesis using False less.hyps [of ?mid lo] less.hyps [of hi ?mid] lo' mid less.prems
          by simp
      qed
    next
      case False
      then show ?thesis by (subst search_loop.simps) simp
    qed
  qed
  then show ?thesis by (simp add: SEARCH_def)
qed

lemma insertion_loop_total:
  assumes "\<And>x y. cmp x y \<noteq> None" and "0 \<le> lo" and "hi + 1 < int (length base)" and "base \<noteq> []"
  shows "\<exists>p. insertion_loop cmp base t lo hi = Some p \<and> 0 \<le> p \<and> p < int (length base)"
  using assms(2,3)
proof (induction "nat (hi - lo)" arbitrary: lo hi rule: less_induct)
  case less
  let ?mid = "(lo + hi) div 2"
  show ?case
  proof (cases "lo \<le> hi")
    case True
    obtain c where c: "cmp t (base ! nat lo) = Some c" using assms(1) by blast
    obtain d where d: "cmp (base ! nat hi) t = Some d" using assms(1) by blast
    obtain e where e: "cmp t (base ! nat ?mid) = Some e" using assms(1) by blast
    have mid: "lo \<le> ?mid" "?mid \<le> hi" using True by linarith+
    show ?thesis
    proof (cases "c \<le> 0 \<or> d \<le> 0 \<or> ?mid = lo \<or> ?mid = hi")
      case True
      then show ?thesis using \<open>lo \<le> hi\<close> less.prems c d
        by (subst insertion_loop.simps) (auto simp: Let_def)
    next
      case False
      then have "insertion_loop cmp base t lo hi =
          (if e < 0 then insertion_loop cmp base t lo ?mid else insertion_loop cmp base t ?mid hi)"
        using \<open>lo \<le> hi\<close> less.prems c d e mid by (subst insertion_loop.simps) (simp add: Let_def)
      moreover have "nat (?mid - lo) < nat (hi - lo)" "nat (hi - ?mid) < nat (hi - lo)"
        using False mid by linarith+
      ultimately show ?thesis using less.hyps [of ?mid lo] less.hyps [of hi ?mid] mid less.prems
        by simp
    qed
  next
    case False
    then show ?thesis using assms(4) by (subst insertion_loop.simps) simp
  qed
qed

lemma INSERTION_SORT_total:
  assumes "\<And>x y. cmp x y \<noteq> None"
  shows "\<exists>r. INSERTION_SORT cmp base = Some r \<and> mset r = mset base"
proof (cases "base = []")
  case False
  let ?n = "length base - 1" and ?t = "base ! (length base - 1)"
  obtain p where p: "insertion_loop cmp base ?t 0 (int (length base) - 2) = Some p" "0 \<le> p"
    "p < int (length base)"
    using insertion_loop_total [where cmp = cmp and lo = 0 and hi = "int (length base) - 2" and base = base and t = ?t] assms False by auto
  show ?thesis
  proof (cases "p < int (length base) - 1")
    case True
    let ?r = "take (nat p) base @ ?t # drop (nat p) (butlast base)"
    have "INSERTION_SORT cmp base = Some ?r"
      using True p False shift_insert [of "nat p" base ?t] by (simp add: INSERTION_SORT_def Let_def)
    moreover have "take (nat p) base = take (nat p) (butlast base)"
      using True p(2) by (simp add: take_butlast)
    then have "mset ?r = mset (butlast base @ [?t])"
      by (metis append_take_drop_id mset_append union_mset_add_mset_right mset.simps(2) append.right_neutral mset_append union_commute add_mset_add_single mset_single_iff)
    moreover have "butlast base @ [?t] = base" using False by (metis append_butlast_last_id last_conv_nth)
    ultimately show ?thesis by (metis (no_types))
  next
    case False
    then show ?thesis using p \<open>base \<noteq> []\<close> by (simp add: INSERTION_SORT_def Let_def)
  qed
qed (simp add: INSERTION_SORT_def)

end
