(* ===== verification/Translation_Cache.thy ===== *)
theory Translation_Cache
  imports Hart Address_Order
begin

text \<open>
  The translation cache (\<^verbatim>\<open>vmm/hart.c\<close>, \<^verbatim>\<open>vmm/hart.h\<close>) and the macros through which every
  translator uses it, \<open>PRECHECK_TRANSLATION_CACHE\<close> and \<open>COMMIT_TRANSLATION\<close>
  (\<^verbatim>\<open>vmm/translation.h\<close>).

  The contract of the cache is a partial map from guest addresses to host code (\<open>cached\<close>):
  committing a translation extends the map at one address, flushing empties it. The theory
  proves that contract for the sorted mapping table, whose order is the sign of a 32-bit
  difference, on the condition under which it holds: the cached addresses lie in one half of
  the address space.
\<close>

section \<open>Operations of hart.c and hart.h\<close>

definition flush_translation_cache :: "hart \<Rightarrow> hart" where
  "flush_translation_cache hart_instance =
     hart_instance\<lparr>pc_mappings := [], translation_cache_ptr := 0\<rparr>"

definition unoccupied_cache_size :: "code_layout \<Rightarrow> hart \<Rightarrow> int" where
  "unoccupied_cache_size L hart_instance =
     (if length (pc_mappings hart_instance) < MAX_INSTRUCTIONS_TOTRANSLATE
      then TRANSLATION_CACHE_SIZE - translation_cache_ptr hart_instance - jumper_size L
      else 0)"

definition comparing_mapping_item :: "program_counter_mapping_item comparison" where
  "comparing_mapping_item = key_cmp guest_pc"

text \<open>
  Copying \<open>len\<close> bytes to offset \<open>p\<close> destroys the blocks that start inside the destination.
\<close>

definition tc_memcpy :: "(int \<Rightarrow> tc_block option) \<Rightarrow> int \<Rightarrow> int \<Rightarrow> tc_block \<Rightarrow> int \<Rightarrow> tc_block option" where
  "tc_memcpy tc p len block =
     (\<lambda>q. if q = p then Some block else if p < q \<and> q < p + len then None else tc q)"

definition add_translation_item ::
  "code_layout \<Rightarrow> hart \<Rightarrow> u32 \<Rightarrow> tc_block \<Rightarrow> int \<Rightarrow> (hart, int) result" where
  "add_translation_item L hart_instance guest_instruction_address block block_length =
     (if unoccupied_cache_size L hart_instance < block_length then Ret (- 1) hart_instance
      else if MAX_INSTRUCTIONS_TOTRANSLATE \<le> length (pc_mappings hart_instance) then Ret (- 2) hart_instance
      else
        let ptr = translation_cache_ptr hart_instance;
            item = \<lparr>guest_pc = guest_instruction_address, tc_offset = word_of_int ptr\<rparr>;
            h = hart_instance\<lparr>translation_cache := tc_memcpy (translation_cache hart_instance) ptr block_length block,
                              translation_cache_ptr := ptr + block_length\<rparr>
        in case INSERTION_SORT comparing_mapping_item (pc_mappings hart_instance @ [item]) of
             None \<Rightarrow> Stop Host_fault
           | Some mappings \<Rightarrow> Ret 0 (h\<lparr>pc_mappings := mappings\<rparr>))"

definition search_translation_item :: "hart \<Rightarrow> u32 \<Rightarrow> program_counter_mapping_item option" where
  "search_translation_item hart_instance guest_instruction_address =
     (case SEARCH comparing_mapping_item (pc_mappings hart_instance)
             \<lparr>guest_pc = guest_instruction_address, tc_offset = 0\<rparr> of
        Some (Some i) \<Rightarrow> Some (pc_mappings hart_instance ! i)
      | _ \<Rightarrow> None)"

section \<open>Macros of translation.h\<close>

record prefetch_blob =
  next_instruction_to_fetch :: u32
  is_to_stop :: bool
  is_flushable :: bool
  opaque :: hart

text \<open>The result says whether the translator goes on (\<open>True\<close>) or returns at once.\<close>

definition PRECHECK_TRANSLATION_CACHE ::
  "code_layout \<Rightarrow> indicator \<Rightarrow> prefetch_blob \<Rightarrow> prefetch_blob \<times> bool" where
  "PRECHECK_TRANSLATION_CACHE L ind blob =
     (if unoccupied_cache_size L (opaque blob) < translation_size L ind then
        if is_flushable blob
        then (blob\<lparr>opaque := flush_translation_cache (opaque blob), is_flushable := False\<rparr>, True)
        else (blob\<lparr>is_to_stop := True\<rparr>, False)
      else (blob\<lparr>is_flushable := False\<rparr>, True))"

text \<open>
  The block is copied with the placeholder parameters of \<open>PARAM32\<close>; the parameters are then
  written at the end of the block that the lookup of the address returns. When that is not a
  block of the same template, the words land in the code of another block.
\<close>

definition commit_params :: "indicator \<Rightarrow> u32 list \<Rightarrow> program_counter_mapping_item \<Rightarrow> hart \<Rightarrow> (hart, unit) result" where
  "commit_params ind params item h =
     (case translation_cache h (uint (tc_offset item)) of
        Some (Template ind' _) \<Rightarrow>
          if ind' = ind
          then Ret () (h\<lparr>translation_cache := (translation_cache h)(uint (tc_offset item) \<mapsto> Template ind params)\<rparr>)
          else Stop Host_fault
      | _ \<Rightarrow> Stop Host_fault)"

definition COMMIT_TRANSLATION ::
  "code_layout \<Rightarrow> indicator \<Rightarrow> u32 list \<Rightarrow> hart \<Rightarrow> u32 \<Rightarrow> (hart, unit) result" where
  "COMMIT_TRANSLATION L ind params hart_instance instruction_linear_addr =
     rbind (add_translation_item L hart_instance instruction_linear_addr
              (Template ind (replicate (length params) 0xcccccccc)) (translation_size L ind))
       (\<lambda>rc h. rassert (rc = 0)
          (case search_translation_item h instruction_linear_addr of
             None \<Rightarrow> Stop Assertion
           | Some item \<Rightarrow> rassert (guest_pc item = instruction_linear_addr) (commit_params ind params item h)))"

section \<open>The contract: a partial map from guest addresses to host code\<close>

definition cached :: "hart \<Rightarrow> u32 \<Rightarrow> tc_block option" where
  "cached h a = (case search_translation_item h a of
     None \<Rightarrow> None | Some item \<Rightarrow> translation_cache h (uint (tc_offset item)))"

definition wf_layout :: "code_layout \<Rightarrow> bool" where
  "wf_layout L \<longleftrightarrow> 0 < jumper_size L \<and>
     (\<forall>ind. 0 < translation_size L ind \<and> translation_size L ind + jumper_size L \<le> TRANSLATION_CACHE_SIZE)"

definition item_code :: "code_layout \<Rightarrow> hart \<Rightarrow> program_counter_mapping_item \<Rightarrow> bool" where
  "item_code L h item \<longleftrightarrow> (case translation_cache h (uint (tc_offset item)) of
     Some (Template ind _) \<Rightarrow> uint (tc_offset item) + translation_size L ind \<le> translation_cache_ptr h
   | _ \<Rightarrow> False)"

text \<open>
  The cache invariant for addresses in the window at \<open>b\<close>: the table is sorted and holds each
  address once, and every item points at a template that ends below the fill pointer.
\<close>

definition wf_cache :: "code_layout \<Rightarrow> u32 \<Rightarrow> hart \<Rightarrow> bool" where
  "wf_cache L b h \<longleftrightarrow>
     0 \<le> translation_cache_ptr h \<and> translation_cache_ptr h \<le> TRANSLATION_CACHE_SIZE \<and>
     length (pc_mappings h) \<le> MAX_INSTRUCTIONS_TOTRANSLATE \<and>
     sorted_wrt (cmp_le comparing_mapping_item) (pc_mappings h) \<and>
     distinct (map guest_pc (pc_mappings h)) \<and>
     (\<forall>item\<in>set (pc_mappings h). in_window b (guest_pc item) \<and> item_code L h item)"

lemma cmp_item [simp]:
  "comparing_mapping_item x y = Some (addr_diff (guest_pc x) (guest_pc y))"
  by (simp add: comparing_mapping_item_def key_cmp_def)

lemma find_key_iff:
  assumes "distinct (map f xs)"
  shows "List.find (\<lambda>x. f x = a) xs = Some x \<longleftrightarrow> x \<in> set xs \<and> f x = a"
  using assms by (induction xs) force+

lemma find_key_mset:
  assumes "mset xs = mset ys" and "distinct (map f ys)"
  shows "List.find (\<lambda>x. f x = a) xs = List.find (\<lambda>x. f x = a) ys"
proof -
  have "distinct (map f xs)" using assms by (metis mset_eq_imp_distinct_iff mset_map)
  moreover have "set xs = set ys" using assms(1) by (metis mset_eq_setD)
  ultimately show ?thesis using find_key_iff [OF assms(2), of a] find_key_iff [of f xs a]
    by (metis not_Some_eq)
qed

lemma search_item_find:
  assumes "wf_cache L b h"
  shows "search_translation_item h a = List.find (\<lambda>item. guest_pc item = a) (pc_mappings h)"
proof -
  let ?xs = "pc_mappings h" and ?t = "\<lparr>guest_pc = a, tc_offset = 0\<rparr>"
  have dist: "distinct (map guest_pc ?xs)" using assms by (simp add: wf_cache_def)
  obtain r where r: "SEARCH comparing_mapping_item ?xs ?t = Some r"
    and sound: "\<And>i. r = Some i \<Longrightarrow> i < length ?xs \<and> guest_pc (?xs ! i) = a"
    using SEARCH_total [where cmp = comparing_mapping_item and base = ?xs and t = ?t] by auto
  show ?thesis
  proof (cases r)
    case (Some i)
    then have "List.find (\<lambda>item. guest_pc item = a) ?xs = Some (?xs ! i)"
      using sound [OF Some] by (subst find_key_iff [OF dist]) simp
    then show ?thesis using r Some by (simp add: search_translation_item_def)
  next
    case None
    have False if "item \<in> set ?xs" "guest_pc item = a" for item
    proof -
      have win: "set ?xs \<subseteq> {x. in_window b (guest_pc x)}" "?t \<in> {x. in_window b (guest_pc x)}"
        using assms that by (auto simp: wf_cache_def)
      have "\<forall>i<length ?xs. comparing_mapping_item ?t (?xs ! i) \<noteq> Some 0"
        using addr_order.SEARCH_sorted [OF _ win] assms r None
        by (auto simp: wf_cache_def comparing_mapping_item_def)
      then show False using that by (auto simp: in_set_conv_nth)
    qed
    then have "List.find (\<lambda>item. guest_pc item = a) ?xs = None" by (auto simp: find_None_iff)
    then show ?thesis using r None by (simp add: search_translation_item_def)
  qed
qed

lemma flush_wf [simp]: "wf_cache L b (flush_translation_cache h)"
  by (simp add: wf_cache_def flush_translation_cache_def TRANSLATION_CACHE_SIZE_def)

lemma cached_flush [simp]: "cached (flush_translation_cache h) a = None"
proof -
  have "search_translation_item (flush_translation_cache h) a = None"
    by (subst search_item_find [OF flush_wf]) (simp add: flush_translation_cache_def)
  then show ?thesis by (simp add: cached_def)
qed

lemma found_item:
  assumes "wf_cache L b h" and "search_translation_item h a = Some item"
  shows "item \<in> set (pc_mappings h)" and "guest_pc item = a" and "item_code L h item"
proof -
  have "distinct (map guest_pc (pc_mappings h))" using assms(1) by (simp add: wf_cache_def)
  from find_key_iff [OF this] show "item \<in> set (pc_mappings h)" "guest_pc item = a"
    using assms by (simp_all add: search_item_find)
  then show "item_code L h item" using assms(1) by (simp add: wf_cache_def)
qed

lemma cached_None_iff:
  assumes "wf_cache L b h"
  shows "cached h a = None \<longleftrightarrow> search_translation_item h a = None"
proof (cases "search_translation_item h a")
  case (Some item)
  then show ?thesis using found_item(3) [OF assms Some]
    by (auto simp: cached_def item_code_def split: option.splits)
qed (simp add: cached_def)

lemma find_append_None:
  "List.find P xs = None \<Longrightarrow> List.find P (xs @ ys) = List.find P ys"
  by (induction xs) (auto split: if_splits)

lemma find_snoc_other: "\<not> P y \<Longrightarrow> List.find P (xs @ [y]) = List.find P xs"
  by (induction xs) auto

lemma tc_memcpy_at [simp]: "tc_memcpy tc p len block p = Some block"
  by (simp add: tc_memcpy_def)

lemma tc_memcpy_patch:
  "(tc_memcpy tc p len block)(p \<mapsto> block') = tc_memcpy tc p len block'"
  by (rule ext) (simp add: tc_memcpy_def)

text \<open>The state that a successful commit leaves, up to the order of the table.\<close>

definition committed :: "code_layout \<Rightarrow> indicator \<Rightarrow> u32 list \<Rightarrow> hart \<Rightarrow> program_counter_mapping_item list \<Rightarrow> hart" where
  "committed L ind params h mappings =
     h\<lparr>pc_mappings := mappings,
       translation_cache :=
         tc_memcpy (translation_cache h) (translation_cache_ptr h) (translation_size L ind) (Template ind params),
       translation_cache_ptr := translation_cache_ptr h + translation_size L ind\<rparr>"

definition new_item :: "hart \<Rightarrow> u32 \<Rightarrow> program_counter_mapping_item" where
  "new_item h a = \<lparr>guest_pc = a, tc_offset = word_of_int (translation_cache_ptr h)\<rparr>"

lemma new_item_sel [simp]:
  "guest_pc (new_item h a) = a" "tc_offset (new_item h a) = word_of_int (translation_cache_ptr h)"
  by (simp_all add: new_item_def)

text \<open>The room that the precheck of the macros establishes.\<close>

definition has_room :: "code_layout \<Rightarrow> indicator \<Rightarrow> hart \<Rightarrow> bool" where
  "has_room L ind h \<longleftrightarrow> translation_size L ind \<le> unoccupied_cache_size L h"

lemma has_roomD:
  assumes "wf_layout L" and "has_room L ind h"
  shows "length (pc_mappings h) < MAX_INSTRUCTIONS_TOTRANSLATE"
    and "translation_cache_ptr h + translation_size L ind + jumper_size L \<le> TRANSLATION_CACHE_SIZE"
    and "0 < translation_size L ind"
  using assms by (auto simp: wf_layout_def has_room_def unoccupied_cache_size_def split: if_splits)
    (metis not_less)+

lemma ptr_word:
  assumes "wf_cache L b h"
  shows "uint (word_of_int (translation_cache_ptr h) :: u32) = translation_cache_ptr h"
  using assms by (simp add: wf_cache_def TRANSLATION_CACHE_SIZE_def unsigned_of_int take_bit_int_eq_self)

lemma item_code_below:
  assumes "wf_layout L" and "item_code L h item"
  shows "uint (tc_offset item) < translation_cache_ptr h"
proof -
  obtain ind where "uint (tc_offset item) + translation_size L ind \<le> translation_cache_ptr h"
    using assms(2) by (auto simp: item_code_def split: option.splits tc_block.splits)
  moreover have "0 < translation_size L ind" using assms(1) by (simp add: wf_layout_def)
  ultimately show ?thesis by linarith
qed

lemma committed_wf:
  assumes L: "wf_layout L" and wf: "wf_cache L b h" and a: "in_window b a" "search_translation_item h a = None"
    and room: "has_room L ind h"
    and ms: "mset mappings = mset (pc_mappings h @ [new_item h a])"
    and sorted: "sorted_wrt (cmp_le comparing_mapping_item) mappings"
  shows "wf_cache L b (committed L ind params h mappings)"
proof -
  let ?h = "committed L ind params h mappings" and ?p = "translation_cache_ptr h"
  note room = has_roomD [OF L room]
  have set: "set mappings = insert (new_item h a) (set (pc_mappings h))" using ms
    by (metis mset_eq_setD set_append Un_insert_right list.simps(15) empty_set sup_bot.right_neutral)
  have "a \<notin> guest_pc ` set (pc_mappings h)"
    using a(2) by (auto simp: search_item_find [OF wf] find_None_iff)
  then have "distinct (map guest_pc (pc_mappings h @ [new_item h a]))"
    using wf by (simp add: wf_cache_def)
  then have dist: "distinct (map guest_pc mappings)" using ms by (metis mset_eq_imp_distinct_iff mset_map)
  have len: "length mappings = length (pc_mappings h) + 1" using ms
    by (metis length_append_singleton size_mset Suc_eq_plus1)
  have code: "item_code L ?h item" if "item \<in> set mappings" for item
  proof (cases "item = new_item h a")
    case True
    then show ?thesis using ptr_word [OF wf] by (simp add: item_code_def committed_def tc_memcpy_def)
  next
    case False
    then have "item_code L h item" using that set wf by (auto simp: wf_cache_def)
    moreover from this have "uint (tc_offset item) < ?p" by (rule item_code_below [OF L])
    ultimately show ?thesis using room(3)
      by (auto simp: item_code_def committed_def tc_memcpy_def split: option.splits tc_block.splits)
  qed
  have "\<forall>item\<in>set mappings. in_window b (guest_pc item)" using set wf a(1) by (auto simp: wf_cache_def)
  moreover have "0 \<le> ?p + translation_size L ind" "?p + translation_size L ind \<le> TRANSLATION_CACHE_SIZE"
  proof -
    have "0 \<le> ?p" "0 < jumper_size L" using wf L by (simp_all add: wf_cache_def wf_layout_def)
    then show "0 \<le> ?p + translation_size L ind" "?p + translation_size L ind \<le> TRANSLATION_CACHE_SIZE"
      using room by linarith+
  qed
  ultimately show ?thesis
    using sorted dist len room(1) code by (simp add: wf_cache_def committed_def)
qed

lemma cached_committed:
  assumes L: "wf_layout L" and wf: "wf_cache L b h" and a: "in_window b a" "search_translation_item h a = None"
    and room: "has_room L ind h"
    and ms: "mset mappings = mset (pc_mappings h @ [new_item h a])"
    and wf': "wf_cache L b (committed L ind params h mappings)"
  shows "search_translation_item (committed L ind params h mappings) a = Some (new_item h a)"
    and "cached (committed L ind params h mappings) = (cached h)(a \<mapsto> Template ind params)"
proof -
  let ?h = "committed L ind params h mappings"
  have dist: "distinct (map guest_pc mappings)" using wf' by (simp add: wf_cache_def committed_def)
  then have dist': "distinct (map guest_pc (pc_mappings h @ [new_item h a]))"
    using ms by (metis mset_eq_imp_distinct_iff mset_map)
  have find: "search_translation_item ?h c = List.find (\<lambda>item. guest_pc item = c) (pc_mappings h @ [new_item h a])" for c
    unfolding search_item_find [OF wf'] using find_key_mset [OF ms dist'] by (simp add: committed_def)
  show found: "search_translation_item ?h a = Some (new_item h a)"
    unfolding find using a(2) by (simp add: search_item_find [OF wf] find_append_None)
  show "cached ?h = (cached h)(a \<mapsto> Template ind params)"
  proof
    fix c
    show "cached ?h c = ((cached h)(a \<mapsto> Template ind params)) c"
    proof (cases "c = a")
      case True
      then show ?thesis using found ptr_word [OF wf] by (simp add: cached_def committed_def tc_memcpy_def)
    next
      case False
      have "List.find (\<lambda>item. guest_pc item = c) (pc_mappings h @ [new_item h a]) =
          List.find (\<lambda>item. guest_pc item = c) (pc_mappings h)"
        using False by (simp add: find_snoc_other)
      then have same: "search_translation_item ?h c = search_translation_item h c"
        by (simp add: find search_item_find [OF wf])
      show ?thesis
      proof (cases "search_translation_item h c")
        case (Some item)
        then have "uint (tc_offset item) < translation_cache_ptr h"
          using found_item(3) [OF wf] item_code_below [OF L] by blast
        then show ?thesis using Some same False by (simp add: cached_def committed_def tc_memcpy_def)
      qed (use same False in \<open>simp add: cached_def\<close>)
    qed
  qed
qed

lemma COMMIT_TRANSLATION_ok:
  assumes L: "wf_layout L" and wf: "wf_cache L b h" and a: "in_window b a" "cached h a = None"
    and room: "has_room L ind h"
  shows "\<exists>mappings. COMMIT_TRANSLATION L ind params h a = Ret () (committed L ind params h mappings) \<and>
           mset mappings = mset (pc_mappings h @ [new_item h a]) \<and>
           wf_cache L b (committed L ind params h mappings) \<and>
           cached (committed L ind params h mappings) = (cached h)(a \<mapsto> Template ind params)"
proof -
  let ?base = "pc_mappings h @ [new_item h a]" and ?q = "replicate (length params) (0xcccccccc :: u32)"
  have free: "search_translation_item h a = None" using a(2) cached_None_iff [OF wf] by simp
  have win: "set ?base \<subseteq> {x. in_window b (guest_pc x)}" using wf a(1) by (auto simp: wf_cache_def)
  obtain m where m: "INSERTION_SORT comparing_mapping_item ?base = Some m"
    "sorted_wrt (cmp_le comparing_mapping_item) m" "mset m = mset ?base"
    using addr_order.INSERTION_SORT_sorts [of guest_pc ?base b] win wf
    by (auto simp: wf_cache_def comparing_mapping_item_def)
  note wf' = committed_wf [OF L wf a(1) free room m(3,2)]
  note found = cached_committed [OF L wf a(1) free room m(3) wf']
  have add: "add_translation_item L h a (Template ind ?q) (translation_size L ind) =
      Ret 0 (committed L ind ?q h m)"
    using has_roomD [OF L room] room m(1)
    by (simp add: add_translation_item_def has_room_def committed_def new_item_def Let_def not_less)
  have "commit_params ind params (new_item h a) (committed L ind ?q h m) = Ret () (committed L ind params h m)"
    using ptr_word [OF wf] by (simp add: commit_params_def committed_def tc_memcpy_patch)
  then have "COMMIT_TRANSLATION L ind params h a = Ret () (committed L ind params h m)"
    using found(1) by (simp add: COMMIT_TRANSLATION_def add)
  then show ?thesis using m(3) wf' found(2) by blast
qed

section \<open>Examples\<close>

text \<open>A layout for examples, and a sequence of commits of one-parameter blocks.\<close>

definition example_layout :: code_layout where
  "example_layout = \<lparr>translation_size = (\<lambda>_. 128), jumper_size = 12\<rparr>"

definition commit_all :: "code_layout \<Rightarrow> u32 list \<Rightarrow> hart \<Rightarrow> (hart, unit) result" where
  "commit_all L addrs h =
     fold (\<lambda>a r. rbind r (\<lambda>_ h'. COMMIT_TRANSLATION L Fence [a] h' a)) addrs (Ret () h)"

lemma wf_layout_example: "wf_layout example_layout"
  by (simp add: example_layout_def wf_layout_def TRANSLATION_CACHE_SIZE_def)

lemmas cache_evaluation =
  COMMIT_TRANSLATION_def add_translation_item_def search_translation_item_def commit_params_def
  unoccupied_cache_size_def tc_memcpy_def flush_translation_cache_def addr_diff_def example_layout_def
  INSERTION_SORT_def insertion_loop.simps shift_loop.simps SEARCH_def search_loop.simps elem_at_def Let_def
  MAX_INSTRUCTIONS_TOTRANSLATE_def TRANSLATION_CACHE_SIZE_def

section \<open>The contract as an interface\<close>

text \<open>
  What the translators rely on: a map from keys to code that grows by one binding per commit
  and is emptied by a flush. The lemmas of the locale are what a sequence of commits gives.
\<close>

locale code_map =
  fixes lookup :: "'s \<Rightarrow> 'k \<Rightarrow> 'v option"
    and code :: "'c \<Rightarrow> 'v"
    and commit :: "'k \<Rightarrow> 'c \<Rightarrow> 's \<Rightarrow> ('s, unit) result"
    and flush :: "'s \<Rightarrow> 's"
    and inv :: "'s \<Rightarrow> bool"
    and accepts :: "'k \<Rightarrow> 'c \<Rightarrow> 's \<Rightarrow> bool"
  assumes commit_lookup: "inv s \<Longrightarrow> accepts k v s \<Longrightarrow> lookup s k = None \<Longrightarrow>
      \<exists>s'. commit k v s = Ret () s' \<and> inv s' \<and> lookup s' = (lookup s)(k \<mapsto> code v)"
    and flush_inv: "inv (flush s)"
    and flush_lookup: "lookup (flush s) = Map.empty"
begin

lemma commit_adds_binding:
  assumes "inv s" and "accepts k v s" and "lookup s k = None"
  shows "\<exists>s'. commit k v s = Ret () s' \<and> inv s' \<and> dom (lookup s') = insert k (dom (lookup s)) \<and>
           (\<forall>k'. lookup s k' \<noteq> None \<longrightarrow> lookup s' k' = lookup s k')"
  using commit_lookup [OF assms] assms(3) by auto

lemma commit_two_keys:
  assumes "inv s" and "accepts k v s" and "lookup s k = None" and "k \<noteq> k'" and "lookup s k' = None"
    and "\<And>s'. commit k v s = Ret () s' \<Longrightarrow> accepts k' v' s'"
  shows "\<exists>s'. rbind (commit k v s) (\<lambda>_. commit k' v') = Ret () s' \<and> inv s' \<and>
           lookup s' = (lookup s)(k \<mapsto> code v, k' \<mapsto> code v')"
proof -
  obtain s1 where s1: "commit k v s = Ret () s1" "inv s1" "lookup s1 = (lookup s)(k \<mapsto> code v)"
    using commit_lookup [OF assms(1-3)] by blast
  then show ?thesis using commit_lookup [OF s1(2) assms(6) [OF s1(1)]] assms(4,5) by auto
qed

end

text \<open>The sorted mapping table provides the contract for the addresses of one window.\<close>

interpretation tc: code_map
  cached "case_prod Template" "\<lambda>a v h. COMMIT_TRANSLATION L (fst v) (snd v) h a" flush_translation_cache "wf_cache L b"
  "\<lambda>a v h. wf_layout L \<and> in_window b a \<and> has_room L (fst v) h" for L b
proof
  fix s :: hart and k :: u32 and v :: "indicator \<times> u32 list"
  assume "wf_cache L b s" "wf_layout L \<and> in_window b k \<and> has_room L (fst v) s" "cached s k = None"
  then show "\<exists>s'. COMMIT_TRANSLATION L (fst v) (snd v) s k = Ret () s' \<and> wf_cache L b s' \<and>
      cached s' = (cached s)(k \<mapsto> case_prod Template v)"
    using COMMIT_TRANSLATION_ok [of L b s k "fst v" "snd v"] by (auto simp: case_prod_beta)
qed auto

section \<open>Properties\<close>

text \<open>
  C15. Committing a translation is a map update: with room in the cache and the address not yet
  cached, the copy into the cache, the sorted insertion, the lookup and the patching of the
  parameters together extend the map from guest addresses to host code by exactly the new
  block, leave the code of every other address as it was, and keep the cache invariant.
\<close>

theorem commit_refines_map_update:
  assumes "wf_layout L" and "wf_cache L b h" and "in_window b a" and "cached h a = None" and "has_room L ind h"
  shows "\<exists>h'. COMMIT_TRANSLATION L ind params h a = Ret () h' \<and> wf_cache L b h' \<and>
           cached h' = (cached h)(a \<mapsto> Template ind params)"
  using tc.commit_lookup [where v = "(ind, params)"] assms by simp

text \<open>C15 on an empty cache.\<close>

theorem commit_refines_map_update_witness:
  "\<exists>h'. COMMIT_TRANSLATION example_layout Lui [5, 1] zeroed_hart 0x10000 = Ret () h' \<and>
     cached h' = [0x10000 \<mapsto> Template Lui [5, 1]]"
proof -
  have flushed: "flush_translation_cache zeroed_hart = zeroed_hart"
    by (simp add: flush_translation_cache_def zeroed_hart_def)
  have empty: "cached zeroed_hart = Map.empty" using cached_flush [of zeroed_hart] unfolding flushed by (intro ext)
  have "wf_cache example_layout 0 zeroed_hart" using flush_wf [of example_layout 0 zeroed_hart] unfolding flushed .
  moreover have "in_window 0 0x10000" by (simp add: in_window_def)
  moreover have "has_room example_layout Lui zeroed_hart"
    by (simp add: has_room_def unoccupied_cache_size_def example_layout_def zeroed_hart_def
        TRANSLATION_CACHE_SIZE_def MAX_INSTRUCTIONS_TOTRANSLATE_def)
  ultimately show ?thesis
    using commit_refines_map_update [OF wf_layout_example, of 0 zeroed_hart "0x10000" Lui "[5, 1]"] empty by auto
qed


end
