(* ===== verification/Trap.thy ===== *)
theory Trap
  imports Translation_Cache
begin

text \<open>
  Traps of a hart: exceptions (\<^verbatim>\<open>vmm/hart_exception.c\<close>), the delivery decision for interrupts
  (\<^verbatim>\<open>vmm/hart_interrupt.c\<close>), the entry into a trap handler (\<^verbatim>\<open>vmm/hart_trap.c\<close>) and the returns
  from it (\<^verbatim>\<open>vmm/hart_util.h\<close>, \<open>mret_callback\<close> and \<open>sret_callback\<close> of
  \<^verbatim>\<open>vmm/translate_privileged_instr.c\<close>). \<open>raise_trap_raw\<close> does not return to its caller, so its
  result is \<open>Trap\<close>.
\<close>

section \<open>Address spaces (hart-util.h)\<close>

definition address_space_tag :: "hart \<Rightarrow> u32" where
  "address_space_tag hartptr =
     (if privilege_level hartptr = PRIVILEGE_LEVEL_MACHINE \<or>
         csr_blob hartptr CSR_ADDRESS_SATP AND 0x80000000 = 0
      then 0 else csr_blob hartptr CSR_ADDRESS_SATP)"

definition flush_translation_cache_on_address_space_change :: "hart \<Rightarrow> u32 \<Rightarrow> hart" where
  "flush_translation_cache_on_address_space_change hartptr previous_tag =
     (if address_space_tag hartptr \<noteq> previous_tag then flush_translation_cache hartptr else hartptr)"

section \<open>Trap entry (hart-trap.c)\<close>

definition trap_vector :: "u32 \<Rightarrow> u32 \<Rightarrow> u32" where
  "trap_vector tvec cause =
     (if tvec AND 1 = 0 \<or> cause AND 0x80000000 = 0 then tvec AND NOT 3
      else (tvec AND NOT 3) + (cause AND 0x7fffffff) * 4)"

definition setup_mmode_trap :: "hart \<Rightarrow> u32 \<Rightarrow> u32 \<Rightarrow> hart" where
  "setup_mmode_trap hartptr cause tval = (
     let h1 = set_csr CSR_ADDRESS_MCAUSE cause hartptr;
         h2 = set_csr CSR_ADDRESS_MTVAL tval h1;
         h3 = set_csr CSR_ADDRESS_MEPC (pc h2) h2;
         h4 = h3\<lparr>status := (status h3)\<lparr>mpp := privilege_level h3\<rparr>, privilege_level := PRIVILEGE_LEVEL_MACHINE\<rparr>;
         h5 = h4\<lparr>status := (status h4)\<lparr>mpie := mie (status h4), mie := False\<rparr>\<rparr>
     in h5\<lparr>pc := trap_vector (csr_blob h5 CSR_ADDRESS_MTVEC) cause\<rparr>)"

text \<open>The assignment to the one-bit field \<open>spp\<close> truncates the privilege level.\<close>

definition setup_smode_trap :: "hart \<Rightarrow> u32 \<Rightarrow> u32 \<Rightarrow> hart" where
  "setup_smode_trap hartptr cause tval = (
     let h1 = set_csr CSR_ADDRESS_SCAUSE cause hartptr;
         h2 = set_csr CSR_ADDRESS_STVAL tval h1;
         h3 = set_csr CSR_ADDRESS_SEPC (pc h2) h2;
         h4 = h3\<lparr>status := (status h3)\<lparr>spp := ucast (privilege_level h3)\<rparr>, privilege_level := PRIVILEGE_LEVEL_SUPERVISOR\<rparr>;
         h5 = h4\<lparr>status := (status h4)\<lparr>spie := sie (status h4), sie := False\<rparr>\<rparr>
     in h5\<lparr>pc := trap_vector (csr_blob h5 CSR_ADDRESS_STVEC) cause\<rparr>)"

definition raise_trap_raw :: "hart \<Rightarrow> 2 word \<Rightarrow> u32 \<Rightarrow> u32 \<Rightarrow> (hart, 'a) result" where
  "raise_trap_raw hartptr target_privilege_level cause tval = (
     let previous_tag = address_space_tag hartptr in
     if target_privilege_level = PRIVILEGE_LEVEL_MACHINE
     then Trap (flush_translation_cache_on_address_space_change (setup_mmode_trap hartptr cause tval) previous_tag)
     else rassert (target_privilege_level = PRIVILEGE_LEVEL_SUPERVISOR)
       (Trap (flush_translation_cache_on_address_space_change (setup_smode_trap hartptr cause tval) previous_tag)))"

section \<open>Exceptions (hart-exception.c)\<close>

abbreviation EXCEPTION_ILLEEGAL_INSTRUCTION :: u8 where "EXCEPTION_ILLEEGAL_INSTRUCTION \<equiv> 0x2"
abbreviation EXCEPTION_LOAD_ADDRESS_MISALIGN :: u8 where "EXCEPTION_LOAD_ADDRESS_MISALIGN \<equiv> 0x4"
abbreviation EXCEPTION_STORE_ADDRESS_MISALIGN :: u8 where "EXCEPTION_STORE_ADDRESS_MISALIGN \<equiv> 0x6"
abbreviation EXCEPTION_ECALL_FROM_UMODE :: u8 where "EXCEPTION_ECALL_FROM_UMODE \<equiv> 0x8"
abbreviation EXCEPTION_ECALL_FROM_SMODE :: u8 where "EXCEPTION_ECALL_FROM_SMODE \<equiv> 0x9"
abbreviation EXCEPTION_ECALL_FROM_MMODE :: u8 where "EXCEPTION_ECALL_FROM_MMODE \<equiv> 0xb"
abbreviation EXCEPTION_INSTRUCTION_PAGE_FAULT :: u8 where "EXCEPTION_INSTRUCTION_PAGE_FAULT \<equiv> 0xc"
abbreviation EXCEPTION_LOAD_PAGE_FAULT :: u8 where "EXCEPTION_LOAD_PAGE_FAULT \<equiv> 0xd"
abbreviation EXCEPTION_STORE_PAGE_FAULT :: u8 where "EXCEPTION_STORE_PAGE_FAULT \<equiv> 0xf"

definition exception_target_privilege_level :: "hart \<Rightarrow> u8 \<Rightarrow> 2 word" where
  "exception_target_privilege_level hartptr exception_number =
     (if privilege_level hartptr \<noteq> PRIVILEGE_LEVEL_MACHINE \<and>
         csr_blob hartptr CSR_ADDRESS_MEDELEG AND push_bit (unat exception_number) 1 \<noteq> 0
      then PRIVILEGE_LEVEL_SUPERVISOR else PRIVILEGE_LEVEL_MACHINE)"

definition raise_exception_internal :: "hart \<Rightarrow> u8 \<Rightarrow> u32 \<Rightarrow> (hart, 'a) result" where
  "raise_exception_internal hartptr exception_cause trap_value = (
     let target_pl = exception_target_privilege_level hartptr exception_cause in
     rassert (exception_cause < 16)
       (raise_trap_raw hartptr target_pl (ucast exception_cause) trap_value))"

section \<open>Interrupts (hart-interrupt.c)\<close>

abbreviation INTERRUPT_SUPERVISOR_SOFTWARE :: u8 where "INTERRUPT_SUPERVISOR_SOFTWARE \<equiv> 0x1"
abbreviation INTERRUPT_MACHINE_SOFTWARE :: u8 where "INTERRUPT_MACHINE_SOFTWARE \<equiv> 0x3"
abbreviation INTERRUPT_SUPERVISOR_TIMER :: u8 where "INTERRUPT_SUPERVISOR_TIMER \<equiv> 0x5"
abbreviation INTERRUPT_MACHINE_TIMER :: u8 where "INTERRUPT_MACHINE_TIMER \<equiv> 0x7"
abbreviation INTERRUPT_SUPERVISOR_EXTERNAL :: u8 where "INTERRUPT_SUPERVISOR_EXTERNAL \<equiv> 0x9"
abbreviation INTERRUPT_MACHINE_EXTERNAL :: u8 where "INTERRUPT_MACHINE_EXTERNAL \<equiv> 0xb"

text \<open>\<open>None\<close> is the failing assertion on the vector.\<close>

definition interrupt_target_privilege_level :: "hart \<Rightarrow> u8 \<Rightarrow> 2 word option" where
  "interrupt_target_privilege_level hartptr vector =
     (if \<not> vector < 12 then None
      else if idelegation hartptr AND push_bit (unat vector) 1 \<noteq> 0 then Some PRIVILEGE_LEVEL_SUPERVISOR
      else Some PRIVILEGE_LEVEL_MACHINE)"

definition is_interrupt_deliverable :: "hart \<Rightarrow> u8 \<Rightarrow> bool option" where
  "is_interrupt_deliverable hartptr vector =
     map_option (\<lambda>target_pl.
       let current_pl = privilege_level hartptr in
       if ipending hartptr AND push_bit (unat vector) 1 = 0 \<or> ienable hartptr AND push_bit (unat vector) 1 = 0
       then False
       else if target_pl < current_pl then False
       else if current_pl < target_pl then True
       else if target_pl = PRIVILEGE_LEVEL_MACHINE then mie (status hartptr) else sie (status hartptr))
     (interrupt_target_privilege_level hartptr vector)"

definition deliver_interrupt :: "hart \<Rightarrow> u8 \<Rightarrow> (hart, 'a) result" where
  "deliver_interrupt hartptr vector =
     (case interrupt_target_privilege_level hartptr vector of
        None \<Rightarrow> Stop Assertion
      | Some target_pl \<Rightarrow> raise_trap_raw hartptr target_pl (0x80000000 OR ucast vector) 0)"

definition delivery_order :: "u8 list" where
  "delivery_order =
     [INTERRUPT_MACHINE_EXTERNAL, INTERRUPT_MACHINE_SOFTWARE, INTERRUPT_MACHINE_TIMER,
      INTERRUPT_SUPERVISOR_EXTERNAL, INTERRUPT_SUPERVISOR_SOFTWARE, INTERRUPT_SUPERVISOR_TIMER]"

text \<open>The loop at the end of \<open>pump_devices_and_deliver_interrupts\<close>.\<close>

primrec deliver_first :: "hart \<Rightarrow> u8 list \<Rightarrow> (hart, unit) result" where
  "deliver_first hartptr [] = Ret () hartptr"
| "deliver_first hartptr (vector # vectors) =
     (case is_interrupt_deliverable hartptr vector of
        None \<Rightarrow> Stop Assertion
      | Some deliverable \<Rightarrow>
          if deliverable then deliver_interrupt hartptr vector else deliver_first hartptr vectors)"

section \<open>Trap return (hart-util.h, translate-privileged-instr.c)\<close>

definition adjust_pc_upon_mret :: "hart \<Rightarrow> hart" where
  "adjust_pc_upon_mret hartptr = hartptr\<lparr>pc := csr_blob hartptr CSR_ADDRESS_MEPC\<rparr>"

definition adjust_pc_upon_sret :: "hart \<Rightarrow> hart" where
  "adjust_pc_upon_sret hartptr = hartptr\<lparr>pc := csr_blob hartptr CSR_ADDRESS_SEPC\<rparr>"

definition adjust_mstatus_upon_mret :: "hart \<Rightarrow> (hart, unit) result" where
  "adjust_mstatus_upon_mret hartptr = (
     let mpp' = mpp (status hartptr) in
     rassert (mpp' = PRIVILEGE_LEVEL_USER \<or> mpp' = PRIVILEGE_LEVEL_SUPERVISOR \<or> mpp' = PRIVILEGE_LEVEL_MACHINE)
       (Ret () (hartptr\<lparr>privilege_level := mpp',
          status := (status hartptr)\<lparr>mpp := PRIVILEGE_LEVEL_USER, mie := mpie (status hartptr), mpie := True\<rparr>\<rparr>)))"

definition adjust_mstatus_upon_sret :: "hart \<Rightarrow> (hart, unit) result" where
  "adjust_mstatus_upon_sret hartptr = (
     let spp' = spp (status hartptr) in
     rassert (spp' = 0 \<or> spp' = 1)
       (Ret () (hartptr\<lparr>privilege_level := ucast spp',
          status := (status hartptr)\<lparr>spp := 0, sie := spie (status hartptr), spie := True\<rparr>\<rparr>)))"

definition assert_hart_running_in_mmode :: "hart \<Rightarrow> (hart, unit) result" where
  "assert_hart_running_in_mmode hartptr =
     (if privilege_level hartptr \<noteq> PRIVILEGE_LEVEL_MACHINE
      then raise_exception_internal hartptr EXCEPTION_ILLEEGAL_INSTRUCTION 0 else Ret () hartptr)"

definition assert_hart_running_in_smode :: "hart \<Rightarrow> (hart, unit) result" where
  "assert_hart_running_in_smode hartptr =
     (if privilege_level hartptr \<noteq> PRIVILEGE_LEVEL_SUPERVISOR
      then raise_exception_internal hartptr EXCEPTION_ILLEEGAL_INSTRUCTION 0 else Ret () hartptr)"

definition mret_callback :: "hart \<Rightarrow> (hart, unit) result" where
  "mret_callback hartptr =
     rbind (assert_hart_running_in_mmode hartptr) (\<lambda>_ h.
       let previous_tag = address_space_tag h in
       rbind (adjust_mstatus_upon_mret h) (\<lambda>_ h'.
         Ret () (flush_translation_cache_on_address_space_change (adjust_pc_upon_mret h') previous_tag)))"

definition sret_callback :: "hart \<Rightarrow> (hart, unit) result" where
  "sret_callback hartptr =
     rbind (assert_hart_running_in_smode hartptr) (\<lambda>_ h.
       let previous_tag = address_space_tag h in
       rbind (adjust_mstatus_upon_sret h) (\<lambda>_ h'.
         Ret () (flush_translation_cache_on_address_space_change (adjust_pc_upon_sret h') previous_tag)))"

definition ecall_callback :: "hart \<Rightarrow> (hart, unit) result" where
  "ecall_callback hartptr =
     (if privilege_level hartptr = PRIVILEGE_LEVEL_MACHINE
      then raise_exception_internal hartptr EXCEPTION_ECALL_FROM_MMODE 0
      else if privilege_level hartptr = PRIVILEGE_LEVEL_SUPERVISOR
      then raise_exception_internal hartptr EXCEPTION_ECALL_FROM_SMODE 0
      else if privilege_level hartptr = PRIVILEGE_LEVEL_USER
      then raise_exception_internal hartptr EXCEPTION_ECALL_FROM_UMODE 0
      else Stop Assertion)"

lemma and_push_bit_1_eq_0: "w AND push_bit n 1 = 0 \<longleftrightarrow> \<not> bit w n" for w :: "'a::len word"
  by (metis and_exp_eq_0_iff_not_bit push_bit_of_1)

lemma cause_high_bit: "(ucast (c :: u8) :: u32) AND 0x80000000 = 0"
proof -
  have "\<not> bit (ucast c :: u32) 31" by (auto simp: bit_simps dest: bit_imp_le_length)
  moreover have "(0x80000000 :: u32) = push_bit 31 1" by simp
  ultimately show ?thesis using and_push_bit_1_eq_0 [of "ucast c :: u32" 31] by simp
qed
section \<open>Lemmas on trap entry and return\<close>

lemmas trap_defs = raise_trap_raw_def setup_mmode_trap_def setup_smode_trap_def
  flush_translation_cache_on_address_space_change_def Let_def

lemma flush_sel [simp]:
  "registers (flush_translation_cache h) = registers h" "pc (flush_translation_cache h) = pc h"
  "hart_id (flush_translation_cache h) = hart_id h" "csr_blob (flush_translation_cache h) = csr_blob h"
  "idelegation (flush_translation_cache h) = idelegation h" "ienable (flush_translation_cache h) = ienable h"
  "ipending (flush_translation_cache h) = ipending h" "status (flush_translation_cache h) = status h"
  "privilege_level (flush_translation_cache h) = privilege_level h" "itlb (flush_translation_cache h) = itlb h"
  "dtlb (flush_translation_cache h) = dtlb h" "tsc (flush_translation_cache h) = tsc h"
  "pc_mappings (flush_translation_cache h) = []" "translation_cache_ptr (flush_translation_cache h) = 0"
  "translation_cache (flush_translation_cache h) = translation_cache h"
  by (simp_all add: flush_translation_cache_def)

abbreviation flush_if_moved :: "hart \<Rightarrow> u32 \<Rightarrow> hart" where
  "flush_if_moved \<equiv> flush_translation_cache_on_address_space_change"

lemma flush_if_moved_sel [simp]:
  "registers (flush_if_moved h t) = registers h" "pc (flush_if_moved h t) = pc h"
  "hart_id (flush_if_moved h t) = hart_id h" "csr_blob (flush_if_moved h t) = csr_blob h"
  "idelegation (flush_if_moved h t) = idelegation h" "ienable (flush_if_moved h t) = ienable h"
  "ipending (flush_if_moved h t) = ipending h" "status (flush_if_moved h t) = status h"
  "privilege_level (flush_if_moved h t) = privilege_level h" "itlb (flush_if_moved h t) = itlb h"
  "dtlb (flush_if_moved h t) = dtlb h" "tsc (flush_if_moved h t) = tsc h"
  by (simp_all add: flush_translation_cache_on_address_space_change_def)

lemma setup_mmode_trap_sel [simp]:
  "privilege_level (setup_mmode_trap h c v) = PRIVILEGE_LEVEL_MACHINE"
  "pc (setup_mmode_trap h c v) = trap_vector (csr_blob h CSR_ADDRESS_MTVEC) c"
  "csr_blob (setup_mmode_trap h c v) = (csr_blob h)(CSR_ADDRESS_MCAUSE := c, CSR_ADDRESS_MTVAL := v, CSR_ADDRESS_MEPC := pc h)"
  "status (setup_mmode_trap h c v) = (status h)\<lparr>mpp := privilege_level h, mpie := mie (status h), mie := False\<rparr>"
  "registers (setup_mmode_trap h c v) = registers h"
  "ipending (setup_mmode_trap h c v) = ipending h" "ienable (setup_mmode_trap h c v) = ienable h"
  "idelegation (setup_mmode_trap h c v) = idelegation h" "pc_mappings (setup_mmode_trap h c v) = pc_mappings h"
  "translation_cache (setup_mmode_trap h c v) = translation_cache h"
  "translation_cache_ptr (setup_mmode_trap h c v) = translation_cache_ptr h"
  "itlb (setup_mmode_trap h c v) = itlb h" "dtlb (setup_mmode_trap h c v) = dtlb h"
  by (simp_all add: setup_mmode_trap_def Let_def)

lemma setup_smode_trap_sel [simp]:
  "privilege_level (setup_smode_trap h c v) = PRIVILEGE_LEVEL_SUPERVISOR"
  "pc (setup_smode_trap h c v) = trap_vector (csr_blob h CSR_ADDRESS_STVEC) c"
  "csr_blob (setup_smode_trap h c v) = (csr_blob h)(CSR_ADDRESS_SCAUSE := c, CSR_ADDRESS_STVAL := v, CSR_ADDRESS_SEPC := pc h)"
  "status (setup_smode_trap h c v) = (status h)\<lparr>spp := ucast (privilege_level h), spie := sie (status h), sie := False\<rparr>"
  "registers (setup_smode_trap h c v) = registers h"
  "ipending (setup_smode_trap h c v) = ipending h" "ienable (setup_smode_trap h c v) = ienable h"
  "idelegation (setup_smode_trap h c v) = idelegation h" "pc_mappings (setup_smode_trap h c v) = pc_mappings h"
  "translation_cache (setup_smode_trap h c v) = translation_cache h"
  "translation_cache_ptr (setup_smode_trap h c v) = translation_cache_ptr h"
  "itlb (setup_smode_trap h c v) = itlb h" "dtlb (setup_smode_trap h c v) = dtlb h"
  by (simp_all add: setup_smode_trap_def Let_def)

lemma privilege_cases:
  fixes p :: "2 word"
  obtains "p = 0" | "p = 1" | "p = 2" | "p = 3"
proof -
  have "p \<in> {0, 1, 2, 3}"
  proof -
    have "unat p < 4" using unsigned_less [of p] by simp
    then have "unat p = 0 \<or> unat p = 1 \<or> unat p = 2 \<or> unat p = 3" by linarith
    then show ?thesis by (auto simp: word_unat_eq_iff)
  qed
  then show ?thesis using that by blast
qed

lemma spp_of_privilege [simp]:
  "ucast (0 :: 2 word) = (0 :: 1 word)" "ucast (1 :: 2 word) = (1 :: 1 word)"
  "ucast (1 :: 1 word) = (1 :: 2 word)"
  by simp_all

lemma bit_1_word: "x = 0 \<or> x = 1" for x :: "1 word"
proof -
  have "unat x < 2" using unsigned_less [of x] by simp
  then have "unat x = 0 \<or> unat x = 1" by linarith
  then show ?thesis by (auto simp: word_unat_eq_iff)
qed

text \<open>What a trap leaves of the code cache: all of it, or nothing of it.\<close>

lemma flush_if_moved_cache:
  "(cached (flush_if_moved h t) = Map.empty) \<or>
   (flush_if_moved h t = h \<and> address_space_tag h = t)"
  by (auto simp: flush_translation_cache_on_address_space_change_def)

lemma cached_cong:
  "pc_mappings h = pc_mappings h' \<Longrightarrow> translation_cache h = translation_cache h' \<Longrightarrow> cached h = cached h'"
  by (rule ext) (simp add: cached_def search_translation_item_def cong: option.case_cong)

section \<open>Interrupt delivery\<close>

lemma deliver_first_spec:
  assumes "\<forall>v\<in>set vs. v < 12"
  shows "deliver_first h vs =
    (case List.find (\<lambda>v. is_interrupt_deliverable h v = Some True) vs of
       None \<Rightarrow> Ret () h | Some v \<Rightarrow> deliver_interrupt h v)"
  using assms
  by (induction vs) (auto simp: is_interrupt_deliverable_def interrupt_target_privilege_level_def)

lemma delivery_order_vectors: "\<forall>v\<in>set delivery_order. v < 12"
  by (simp add: delivery_order_def)

section \<open>Properties\<close>

text \<open>
  C16. An exception taken at a supported privilege level is precise and goes to the right level:
  it stays in machine mode or when its delegation bit is clear it enters machine mode, otherwise
  supervisor mode; the cause, the trap value and the address of the trapping instruction are in
  the CSRs of that level, the previous level and interrupt enable are stacked, interrupts of
  that level are disabled, control is at the direct trap vector, and the guest registers are
  untouched.
\<close>

theorem exception_entry_precise:
  assumes "c < 16"
  shows "\<exists>h'. raise_exception_internal h c v = Trap h' \<and> registers h' = registers h \<and>
    (if privilege_level h = PRIVILEGE_LEVEL_MACHINE \<or> \<not> bit (csr_blob h CSR_ADDRESS_MEDELEG) (unat c)
     then privilege_level h' = PRIVILEGE_LEVEL_MACHINE \<and>
          pc h' = csr_blob h CSR_ADDRESS_MTVEC AND NOT 3 \<and>
          csr_blob h' = (csr_blob h)(CSR_ADDRESS_MCAUSE := ucast c, CSR_ADDRESS_MTVAL := v, CSR_ADDRESS_MEPC := pc h) \<and>
          status h' = (status h)\<lparr>mpp := privilege_level h, mpie := mie (status h), mie := False\<rparr>
     else privilege_level h' = PRIVILEGE_LEVEL_SUPERVISOR \<and>
          pc h' = csr_blob h CSR_ADDRESS_STVEC AND NOT 3 \<and>
          csr_blob h' = (csr_blob h)(CSR_ADDRESS_SCAUSE := ucast c, CSR_ADDRESS_STVAL := v, CSR_ADDRESS_SEPC := pc h) \<and>
          status h' = (status h)\<lparr>spp := ucast (privilege_level h), spie := sie (status h), sie := False\<rparr>)"
proof -
  have bit: "csr_blob h CSR_ADDRESS_MEDELEG AND push_bit (unat c) 1 = 0 \<longleftrightarrow>
      \<not> bit (csr_blob h CSR_ADDRESS_MEDELEG) (unat c)"
    by (rule and_push_bit_1_eq_0)
  have "(ucast c :: u32) AND 0x80000000 = 0"
    using cause_high_bit .
  then have vec: "trap_vector t (ucast c) = t AND NOT 3" for t by (simp add: trap_vector_def)
  show ?thesis using assms bit vec
    by (auto simp: raise_exception_internal_def raise_trap_raw_def exception_target_privilege_level_def Let_def)
qed


text \<open>C16 for a delegated environment call from user mode.\<close>

theorem exception_entry_precise_witness:
  "\<exists>h'. raise_exception_internal (set_csr CSR_ADDRESS_STVEC 0xc0001000 (set_csr CSR_ADDRESS_MEDELEG 0x100 zeroed_hart))
          EXCEPTION_ECALL_FROM_UMODE 0 = Trap h' \<and>
        privilege_level h' = PRIVILEGE_LEVEL_SUPERVISOR \<and> pc h' = 0xc0001000"
  using exception_entry_precise [of EXCEPTION_ECALL_FROM_UMODE
      "set_csr CSR_ADDRESS_STVEC 0xc0001000 (set_csr CSR_ADDRESS_MEDELEG 0x100 zeroed_hart)" 0]
  by (auto simp: zeroed_hart_def)

text \<open>
  C17. A trap into machine mode followed by \<open>mret\<close> resumes the interrupted computation: the
  program counter, the privilege level, the interrupt enables of both levels and the registers
  are those of before the trap.
\<close>

theorem mtrap_mret_roundtrip:
  assumes "privilege_level h \<noteq> 2"
  shows "\<exists>h' h''. raise_trap_raw h PRIVILEGE_LEVEL_MACHINE c v = (Trap h' :: (hart, unit) result) \<and>
    mret_callback h' = Ret () h'' \<and> pc h'' = pc h \<and> privilege_level h'' = privilege_level h \<and>
    mie (status h'') = mie (status h) \<and> sie (status h'') = sie (status h) \<and> registers h'' = registers h"
proof (cases "privilege_level h" rule: privilege_cases)
qed (use assms in \<open>simp_all add: raise_trap_raw_def mret_callback_def assert_hart_running_in_mmode_def
    adjust_mstatus_upon_mret_def adjust_pc_upon_mret_def Let_def\<close>)

text \<open>C17 for a hart in user mode.\<close>

theorem mtrap_mret_roundtrip_witness:
  "\<exists>h' h''. raise_trap_raw zeroed_hart PRIVILEGE_LEVEL_MACHINE 0x80000007 0 = (Trap h' :: (hart, unit) result) \<and>
    mret_callback h' = Ret () h'' \<and> privilege_level h'' = PRIVILEGE_LEVEL_USER"
  using mtrap_mret_roundtrip [of zeroed_hart "0x80000007" 0] by (auto simp: zeroed_hart_def)

text \<open>
  C18. The same for a trap into supervisor mode from user or supervisor mode and \<open>sret\<close>; the
  one-bit field \<open>spp\<close> is wide enough for the levels from which such a trap can come.
\<close>

theorem strap_sret_roundtrip:
  assumes "privilege_level h \<le> PRIVILEGE_LEVEL_SUPERVISOR"
  shows "\<exists>h' h''. raise_trap_raw h PRIVILEGE_LEVEL_SUPERVISOR c v = (Trap h' :: (hart, unit) result) \<and>
    sret_callback h' = Ret () h'' \<and> pc h'' = pc h \<and> privilege_level h'' = privilege_level h \<and>
    mie (status h'') = mie (status h) \<and> sie (status h'') = sie (status h) \<and> registers h'' = registers h"
proof (cases "privilege_level h" rule: privilege_cases)
qed (use assms in \<open>simp_all add: raise_trap_raw_def sret_callback_def assert_hart_running_in_smode_def
    adjust_mstatus_upon_sret_def adjust_pc_upon_sret_def Let_def word_le_nat_alt\<close>)

text \<open>C18 for a hart in user mode.\<close>

theorem strap_sret_roundtrip_witness:
  "\<exists>h' h''. raise_trap_raw zeroed_hart PRIVILEGE_LEVEL_SUPERVISOR 0x80000009 0 = (Trap h' :: (hart, unit) result) \<and>
    sret_callback h' = Ret () h'' \<and> privilege_level h'' = PRIVILEGE_LEVEL_USER"
  using strap_sret_roundtrip [of zeroed_hart "0x80000009" 0] by (auto simp: zeroed_hart_def)



text \<open>
  C20. A mode change never leaves translations of another address space in the cache: after
  trap entry, \<open>mret\<close> and \<open>sret\<close> either the cache is empty or the cached code and the address
  space are those of before.
\<close>

theorem mode_change_cache_coherent:
  assumes "(raise_trap_raw h t c v :: (hart, unit) result) = Trap h' \<or> mret_callback h = Ret () h' \<or> sret_callback h = Ret () h'"
  shows "cached h' = Map.empty \<or> (cached h' = cached h \<and> address_space_tag h' = address_space_tag h)"
proof -
  obtain g where g: "h' = flush_if_moved g (address_space_tag h)"
    "pc_mappings g = pc_mappings h" "translation_cache g = translation_cache h"
    using assms
    by (auto simp: raise_trap_raw_def mret_callback_def sret_callback_def assert_hart_running_in_mmode_def
        assert_hart_running_in_smode_def raise_exception_internal_def adjust_mstatus_upon_mret_def
        adjust_mstatus_upon_sret_def adjust_pc_upon_mret_def adjust_pc_upon_sret_def rassert_def Let_def
        split: if_splits)
  then show ?thesis using flush_if_moved_cache [of g "address_space_tag h"] cached_cong [of g h] by auto
qed

text \<open>C20 for the trap of a hart with paging enabled.\<close>

theorem mode_change_cache_coherent_witness:
  "let h = set_csr CSR_ADDRESS_SATP 0x80000001 zeroed_hart in
   \<exists>h'. raise_trap_raw h PRIVILEGE_LEVEL_MACHINE 8 0 = (Trap h' :: (hart, unit) result) \<and>
     (cached h' = Map.empty \<or> (cached h' = cached h \<and> address_space_tag h' = address_space_tag h))"
  using mode_change_cache_coherent [of "set_csr CSR_ADDRESS_SATP 0x80000001 zeroed_hart" PRIVILEGE_LEVEL_MACHINE 8 0]
  by (auto simp: raise_trap_raw_def Let_def)

end
