(* ===== verification/Plic.thy ===== *)
theory Plic
  imports Clint
begin

text \<open>
  The platform-level interrupt controller (\<^verbatim>\<open>vmm/emulate_plic.c\<close>, \<^verbatim>\<open>vmm/plic.h\<close>): 32 sources, of
  which source 0 means "no interrupt", and two contexts per hart.
\<close>

definition PLIC_NR_SOURCES :: nat where
  "PLIC_NR_SOURCES = 32"

definition PLIC_MAX_CONTEXTS :: nat where
  "PLIC_MAX_CONTEXTS = MAX_NR_HARTS * 2"

definition PLIC_IRQ_UART0 :: nat where
  "PLIC_IRQ_UART0 = 10"

definition PLIC_CONTEXT_MACHINE :: "int \<Rightarrow> nat" where
  "PLIC_CONTEXT_MACHINE i = nat (i * 2 + 0)"

definition PLIC_CONTEXT_SUPERVISOR :: "int \<Rightarrow> nat" where
  "PLIC_CONTEXT_SUPERVISOR i = nat (i * 2 + 1)"

record plic_state =
  plic_base :: u32
  plic_size :: u32
  nr_contexts :: nat
  phandle :: int
  priority :: "u32 list"
  asserted :: u32
  pending :: u32
  claimed :: u32
  enable :: "u32 list"
  threshold :: "u32 list"

section \<open>Operations\<close>

text \<open>\<open>None\<close> is the failing assertion on the source number.\<close>

definition plic_set_pending :: "nat \<Rightarrow> bool \<Rightarrow> plic_state \<Rightarrow> plic_state option" where
  "plic_set_pending source is_asserted plic =
     (if \<not> (0 < source \<and> source < PLIC_NR_SOURCES) then None
      else if is_asserted
      then Some (plic\<lparr>asserted := asserted plic OR push_bit source 1, pending := pending plic OR push_bit source 1\<rparr>)
      else Some (plic\<lparr>asserted := asserted plic AND NOT (push_bit source 1),
                      pending := pending plic AND NOT (push_bit source 1)\<rparr>))"

primrec best_source_loop :: "plic_state \<Rightarrow> nat \<Rightarrow> u32 \<Rightarrow> nat list \<Rightarrow> nat \<times> u32 \<Rightarrow> nat \<times> u32" where
  "best_source_loop plic context candidates [] best = best"
| "best_source_loop plic context candidates (source # sources) best =
     best_source_loop plic context candidates sources
       (if candidates AND push_bit source 1 = 0 then best
        else if priority plic ! source \<le> threshold plic ! context then best
        else if snd best < priority plic ! source then (source, priority plic ! source)
        else best)"

definition plic_best_source :: "plic_state \<Rightarrow> nat \<Rightarrow> nat" where
  "plic_best_source plic context = (
     let candidates = pending plic AND NOT (claimed plic) AND enable plic ! context in
     fst (best_source_loop plic context candidates [1..<PLIC_NR_SOURCES] (0, 0)))"

definition plic_refresh_pending :: "plic_state \<Rightarrow> hart \<Rightarrow> hart" where
  "plic_refresh_pending plic hartptr = (
     let mcontext = PLIC_CONTEXT_MACHINE (hart_id hartptr);
         scontext = PLIC_CONTEXT_SUPERVISOR (hart_id hartptr);
         p1 = assign_bit 11 (plic_best_source plic mcontext \<noteq> 0) (ipending hartptr);
         p2 = assign_bit 9 (plic_best_source plic scontext \<noteq> 0) p1
     in hartptr\<lparr>ipending := p2\<rparr>)"

definition plic_claim :: "plic_state \<Rightarrow> nat \<Rightarrow> u32 \<times> plic_state" where
  "plic_claim plic context = (
     let source = plic_best_source plic context in
     (of_nat source, if source \<noteq> 0 then plic\<lparr>claimed := claimed plic OR push_bit source 1\<rparr> else plic))"

definition plic_complete :: "u32 \<Rightarrow> plic_state \<Rightarrow> plic_state" where
  "plic_complete source plic =
     (if source = 0 \<or> 32 \<le> source then plic
      else let b = push_bit (unat source) 1;
               p1 = plic\<lparr>claimed := claimed plic AND NOT b\<rparr>
           in if asserted p1 AND b \<noteq> 0 then p1\<lparr>pending := pending p1 OR b\<rparr>
              else p1\<lparr>pending := pending p1 AND NOT b\<rparr>)"

abbreviation PLIC_REG_PENDING_BASE :: u32 where "PLIC_REG_PENDING_BASE \<equiv> 0x1000"
abbreviation PLIC_REG_ENABLE_BASE :: u32 where "PLIC_REG_ENABLE_BASE \<equiv> 0x2000"
abbreviation PLIC_REG_ENABLE_STRIDE :: u32 where "PLIC_REG_ENABLE_STRIDE \<equiv> 0x80"
abbreviation PLIC_REG_CONTEXT_BASE :: u32 where "PLIC_REG_CONTEXT_BASE \<equiv> 0x200000"
abbreviation PLIC_REG_CONTEXT_STRIDE :: u32 where "PLIC_REG_CONTEXT_STRIDE \<equiv> 0x1000"

definition plic_mmio_read :: "u64 \<Rightarrow> nat \<Rightarrow> plic_state \<Rightarrow> u64 \<times> plic_state" where
  "plic_mmio_read addr access_size plic = (
     let offset = ucast addr - plic_base plic :: u32;
         done = (\<lambda>val. (ucast (val :: u32), plic)) in
     if offset < 4 * 32 then done (priority plic ! unat (offset div 4))
     else if PLIC_REG_PENDING_BASE \<le> offset \<and> offset < PLIC_REG_ENABLE_BASE then
       done (if offset = PLIC_REG_PENDING_BASE then pending plic else 0)
     else if PLIC_REG_ENABLE_BASE \<le> offset \<and> offset < PLIC_REG_CONTEXT_BASE then
       let context = unat ((offset - PLIC_REG_ENABLE_BASE) div PLIC_REG_ENABLE_STRIDE);
           word = ((offset - PLIC_REG_ENABLE_BASE) mod PLIC_REG_ENABLE_STRIDE) div 4 in
       done (if context < nr_contexts plic \<and> word = 0 then enable plic ! context else 0)
     else if PLIC_REG_CONTEXT_BASE \<le> offset then
       let context = unat ((offset - PLIC_REG_CONTEXT_BASE) div PLIC_REG_CONTEXT_STRIDE);
           reg = (offset - PLIC_REG_CONTEXT_BASE) mod PLIC_REG_CONTEXT_STRIDE in
       if context < nr_contexts plic then
         if reg = 0 then done (threshold plic ! context)
         else if reg = 4 then (case plic_claim plic context of (val, plic') \<Rightarrow> (ucast val, plic'))
         else done 0
       else done 0
     else done 0)"

definition plic_mmio_write :: "u64 \<Rightarrow> nat \<Rightarrow> u64 \<Rightarrow> plic_state \<Rightarrow> plic_state" where
  "plic_mmio_write addr access_size value plic = (
     let offset = ucast addr - plic_base plic :: u32 in
     if offset < 4 * 32 then
       if offset div 4 \<noteq> 0 then plic\<lparr>priority := (priority plic)[unat (offset div 4) := ucast value]\<rparr> else plic
     else if PLIC_REG_PENDING_BASE \<le> offset \<and> offset < PLIC_REG_ENABLE_BASE then plic
     else if PLIC_REG_ENABLE_BASE \<le> offset \<and> offset < PLIC_REG_CONTEXT_BASE then
       let context = unat ((offset - PLIC_REG_ENABLE_BASE) div PLIC_REG_ENABLE_STRIDE);
           word = ((offset - PLIC_REG_ENABLE_BASE) mod PLIC_REG_ENABLE_STRIDE) div 4 in
       if context < nr_contexts plic \<and> word = 0
       then plic\<lparr>enable := (enable plic)[context := ucast value]\<rparr> else plic
     else if PLIC_REG_CONTEXT_BASE \<le> offset then
       let context = unat ((offset - PLIC_REG_CONTEXT_BASE) div PLIC_REG_CONTEXT_STRIDE);
           reg = (offset - PLIC_REG_CONTEXT_BASE) mod PLIC_REG_CONTEXT_STRIDE in
       if context < nr_contexts plic then
         if reg = 0 then plic\<lparr>threshold := (threshold plic)[context := ucast value]\<rparr>
         else if reg = 4 then plic_complete (ucast value) plic
         else plic
       else plic
     else plic)"

definition plic_init :: "u32 \<Rightarrow> u32 \<Rightarrow> nat \<Rightarrow> pm_region_operation list \<Rightarrow> (plic_state \<times> pm_region_operation list) option" where
  "plic_init base sz nr_harts pmr_ops =
     (if \<not> nr_harts * 2 \<le> PLIC_MAX_CONTEXTS then None
      else map_option (Pair \<lparr>plic_base = base, plic_size = sz, nr_contexts = nr_harts * 2, phandle = 0,
             priority = replicate PLIC_NR_SOURCES 0, asserted = 0, pending = 0, claimed = 0,
             enable = replicate PLIC_MAX_CONTEXTS 0, threshold = replicate PLIC_MAX_CONTEXTS 0\<rparr>)
           (register_pm_region_operation pmr_ops
              \<lparr>addr_low = base, addr_high = base + sz, pmr_device = Plic_mmio\<rparr>))"

section \<open>Invariant\<close>

text \<open>
  The arrays have their declared sizes, source 0 has priority zero and is never driven, and the
  pending word is the level driven by the devices.
\<close>

definition wf_plic :: "plic_state \<Rightarrow> bool" where
  "wf_plic plic \<longleftrightarrow> nr_contexts plic \<le> PLIC_MAX_CONTEXTS \<and> length (priority plic) = PLIC_NR_SOURCES \<and>
     length (enable plic) = PLIC_MAX_CONTEXTS \<and> length (threshold plic) = PLIC_MAX_CONTEXTS \<and>
     priority plic ! 0 = 0 \<and> \<not> bit (pending plic) 0 \<and> pending plic = asserted plic"

text \<open>The contract of the arbitration: which sources a context may see.\<close>

definition eligible :: "plic_state \<Rightarrow> nat \<Rightarrow> nat \<Rightarrow> bool" where
  "eligible plic context source \<longleftrightarrow> 0 < source \<and> source < PLIC_NR_SOURCES \<and> bit (pending plic) source \<and>
     \<not> bit (claimed plic) source \<and> bit (enable plic ! context) source \<and>
     threshold plic ! context < priority plic ! source"

lemmas and_push_bit_eq_0 = and_exp_eq_0_iff_not_bit

lemma best_source_loop_append:
  "best_source_loop plic ctx cand (xs @ ys) best =
     best_source_loop plic ctx cand ys (best_source_loop plic ctx cand xs best)"
  by (induction xs arbitrary: best) simp_all

text \<open>What the loop has found after the sources below \<open>n\<close>.\<close>

definition best_below :: "plic_state \<Rightarrow> nat \<Rightarrow> nat \<Rightarrow> nat \<times> u32 \<Rightarrow> bool" where
  "best_below plic ctx n best \<longleftrightarrow> (case best of (r, p) \<Rightarrow>
     p = (if r = 0 then 0 else priority plic ! r) \<and> (r \<noteq> 0 \<longrightarrow> eligible plic ctx r \<and> r < n) \<and>
     (\<forall>s<n. eligible plic ctx s \<longrightarrow> r \<noteq> 0 \<and> priority plic ! s \<le> p \<and> (priority plic ! s = p \<longrightarrow> r \<le> s)))"

lemma best_source_loop_spec:
  assumes "n \<le> PLIC_NR_SOURCES" and "0 < n"
    and cand: "cand = pending plic AND NOT (claimed plic) AND enable plic ! ctx"
  shows "best_below plic ctx n (best_source_loop plic ctx cand [Suc 0..<n] (0, 0))"
  using assms(1,2)
proof (induction n)
  case (Suc n)
  show ?case
  proof (cases "n = 0")
    case True
    then show ?thesis by (simp add: best_below_def eligible_def)
  next
    case False
    obtain r p where rp: "best_source_loop plic ctx cand [Suc 0..<n] (0, 0) = (r, p)" by fastforce
    have IH: "best_below plic ctx n (r, p)" using Suc False rp by simp
    have n: "0 < n" "n < PLIC_NR_SOURCES" using Suc.prems False by auto
    then have el: "eligible plic ctx n \<longleftrightarrow>
        cand AND push_bit n 1 \<noteq> 0 \<and> \<not> priority plic ! n \<le> threshold plic ! ctx"
      by (auto simp: eligible_def and_push_bit_eq_0 cand bit_simps PLIC_NR_SOURCES_def not_le)
    have step: "best_source_loop plic ctx cand [Suc 0..<Suc n] (0, 0) =
        (if eligible plic ctx n \<and> p < priority plic ! n then (n, priority plic ! n) else (r, p))"
      using n(1) by (simp add: best_source_loop_append rp el)
    have pos: "0 < priority plic ! n" if "eligible plic ctx n"
      using that by (auto simp: eligible_def word_gt_0)
    show ?thesis
    proof (cases "eligible plic ctx n \<and> p < priority plic ! n")
      case True
      then show ?thesis unfolding step using IH n(1)
        by (auto simp: best_below_def less_Suc_eq dest: order_le_less_trans)
    next
      case False
      then have "eligible plic ctx n \<longrightarrow> r \<noteq> 0 \<and> priority plic ! n \<le> p" using IH pos
        by (auto simp: best_below_def not_less split: if_splits)
      then show ?thesis unfolding step using False IH
        by (auto simp: best_below_def less_Suc_eq)
    qed
  qed
qed simp

lemma plic_best_source_below:
  "best_below plic ctx PLIC_NR_SOURCES
     (best_source_loop plic ctx (pending plic AND NOT (claimed plic) AND enable plic ! ctx) [Suc 0..<PLIC_NR_SOURCES] (0, 0))"
  by (rule best_source_loop_spec) (simp_all add: PLIC_NR_SOURCES_def)

lemma plic_best_source_cases:
  obtains (none) "plic_best_source plic ctx = 0" "\<And>s. \<not> eligible plic ctx s"
  | (best) r where "plic_best_source plic ctx = r" "r \<noteq> 0" "eligible plic ctx r"
      "\<And>s. eligible plic ctx s \<Longrightarrow> priority plic ! s \<le> priority plic ! r"
      "\<And>s. eligible plic ctx s \<Longrightarrow> priority plic ! s = priority plic ! r \<Longrightarrow> r \<le> s"
proof -
  obtain r p where rp: "best_source_loop plic ctx (pending plic AND NOT (claimed plic) AND enable plic ! ctx)
      [Suc 0..<PLIC_NR_SOURCES] (0, 0) = (r, p)" by fastforce
  have r: "plic_best_source plic ctx = r" using rp by (simp add: plic_best_source_def Let_def)
  have lt: "s < PLIC_NR_SOURCES" if "eligible plic ctx s" for s using that by (simp add: eligible_def)
  have "best_below plic ctx PLIC_NR_SOURCES (r, p)" using plic_best_source_below [of plic ctx] rp by simp
  then show ?thesis using r lt none best [of r]
    by (cases "r = 0") (auto simp: best_below_def)
qed

lemma best_source_eligible: "plic_best_source plic ctx \<noteq> 0 \<Longrightarrow> eligible plic ctx (plic_best_source plic ctx)"
  by (cases rule: plic_best_source_cases [of plic ctx]) auto

section \<open>Invariant preservation\<close>

lemma wf_plic_set_pending:
  assumes "wf_plic plic" and "0 < source" and "source < PLIC_NR_SOURCES"
  shows "\<exists>plic'. plic_set_pending source b plic = Some plic' \<and> wf_plic plic' \<and>
     pending plic' = (if b then set_bit source (pending plic) else unset_bit source (pending plic))"
  using assms by (auto simp: plic_set_pending_def wf_plic_def bit_simps set_bit_eq_or unset_bit_eq_and_not push_bit_of_1)

lemma wf_plic_claim: "wf_plic plic \<Longrightarrow> wf_plic (snd (plic_claim plic ctx))"
  by (auto simp: plic_claim_def wf_plic_def Let_def)

lemma wf_plic_update:
  assumes "wf_plic plic"
  shows "i \<noteq> 0 \<Longrightarrow> wf_plic (plic\<lparr>priority := (priority plic)[i := v]\<rparr>)"
    and "wf_plic (plic\<lparr>enable := (enable plic)[i := v]\<rparr>)"
    and "wf_plic (plic\<lparr>threshold := (threshold plic)[i := v]\<rparr>)"
  using assms by (auto simp: wf_plic_def)

lemma wf_plic_complete:
  assumes "wf_plic plic"
  shows "wf_plic (plic_complete s plic)" and "pending (plic_complete s plic) = pending plic"
proof -
  have "asserted plic OR push_bit n 1 = asserted plic" if "asserted plic AND push_bit n 1 \<noteq> 0" for n
    using that by (intro bit_word_eqI) (auto simp: and_push_bit_eq_0 bit_simps)
  moreover have "asserted plic AND NOT (push_bit n 1) = asserted plic" if "asserted plic AND push_bit n 1 = 0" for n
    using that by (intro bit_word_eqI) (auto simp: and_push_bit_eq_0 bit_simps)
  ultimately show "pending (plic_complete s plic) = pending plic" "wf_plic (plic_complete s plic)"
    using assms by (auto simp: plic_complete_def wf_plic_def Let_def)
qed

lemma wf_plic_mmio:
  assumes "wf_plic plic"
  shows "wf_plic (snd (plic_mmio_read addr n plic))" and "wf_plic (plic_mmio_write addr n v plic)"
proof -
  show "wf_plic (snd (plic_mmio_read addr n plic))"
    using assms wf_plic_claim [OF assms] by (simp add: plic_mmio_read_def Let_def case_prod_beta)
  show "wf_plic (plic_mmio_write addr n v plic)"
    using assms by (simp add: plic_mmio_write_def Let_def wf_plic_update wf_plic_complete(1) unat_eq_zero)
qed

section \<open>Properties\<close>

text \<open>
  C26. Arbitration: the source that a context sees is none when no source is pending, unclaimed,
  enabled for the context and above its threshold; otherwise it is such a source, none has a
  higher priority, and among equals it is the one with the lowest number.
\<close>

theorem plic_arbitration:
  "if plic_best_source plic ctx = 0 then \<forall>s. \<not> eligible plic ctx s
   else eligible plic ctx (plic_best_source plic ctx) \<and>
     (\<forall>s. eligible plic ctx s \<longrightarrow>
        priority plic ! s < priority plic ! plic_best_source plic ctx \<or>
        priority plic ! s = priority plic ! plic_best_source plic ctx \<and> plic_best_source plic ctx \<le> s)"
  by (cases rule: plic_best_source_cases [of plic ctx]) (auto simp: order_le_less)

definition example_plic :: plic_state where
  "example_plic = \<lparr>plic_base = 0xc000000, plic_size = 0x4000000, nr_contexts = 2, phandle = 1,
     priority = (replicate 32 0)[3 := 1, 7 := 2, 10 := 2], asserted = 0x488, pending = 0x488, claimed = 0,
     enable = replicate 128 0xffffffff, threshold = replicate 128 0\<rparr>"

text \<open>C26 with sources 3, 7 and 10 pending: 7 wins over 10, which has the same priority.\<close>

theorem plic_arbitration_witness:
  "plic_best_source example_plic 0 = 7 \<and> eligible example_plic 0 7"
proof -
  have "plic_best_source example_plic 0 = 7"
    by code_simp
  then show ?thesis using plic_arbitration [of example_plic 0] by simp
qed

text \<open>
  C27. The claim and complete protocol: claiming returns the arbitrated source and takes it, and
  only it, out of the contention in every context; completing it brings the controller back to
  the state before the claim, so a level that is still driven fires again.
\<close>

theorem plic_claim_complete:
  assumes "wf_plic plic" and "plic_claim plic ctx = (s, plic')" and "s \<noteq> 0"
  shows "unat s = plic_best_source plic ctx \<and>
    (\<forall>c. \<not> eligible plic' c (unat s) \<and> (\<forall>t. t \<noteq> unat s \<longrightarrow> eligible plic' c t = eligible plic c t)) \<and>
    plic_complete s plic' = plic"
proof -
  let ?r = "plic_best_source plic ctx"
  have "?r \<noteq> 0" using assms(2,3) by (cases "?r = 0") (auto simp: plic_claim_def Let_def)
  then have r: "?r \<noteq> 0" "eligible plic ctx ?r" using best_source_eligible by simp_all
  then have lt: "?r < 32" by (simp add: eligible_def PLIC_NR_SOURCES_def)
  have s: "s = of_nat ?r" and plic': "plic' = plic\<lparr>claimed := claimed plic OR push_bit ?r 1\<rparr>"
    using assms(2) r by (auto simp: plic_claim_def Let_def)
  have u: "unat s = ?r" using lt by (simp add: s unsigned_of_nat take_bit_nat_eq_self)
  have others: "\<forall>c. \<not> eligible plic' c (unat s) \<and> (\<forall>t. t \<noteq> unat s \<longrightarrow> eligible plic' c t = eligible plic c t)"
    using lt by (auto simp: u plic' eligible_def bit_simps)
  have "claimed plic' AND NOT (push_bit ?r 1) = claimed plic"
    using r(2) by (intro bit_word_eqI) (auto simp: plic' bit_simps eligible_def)
  moreover have "\<not> 32 \<le> s" using lt by (simp add: word_le_nat_alt u)
  moreover have "asserted plic AND push_bit ?r 1 \<noteq> 0" "pending plic OR push_bit ?r 1 = pending plic"
    using r(2) assms(1) by (auto simp: and_exp_eq_0_iff_not_bit eligible_def wf_plic_def bit_simps intro!: bit_word_eqI)
  ultimately have "plic_complete s plic' = plic"
    using assms(3) by (simp add: plic_complete_def u Let_def plic')
  with u others show ?thesis by blast
qed

text \<open>C27 for the example.\<close>

theorem plic_claim_complete_witness:
  "\<exists>s plic'. plic_claim example_plic 0 = (s, plic') \<and> s \<noteq> 0 \<and> plic_complete s plic' = example_plic"
proof -
  have b: "plic_best_source example_plic 0 = 7"
    by code_simp
  have "wf_plic example_plic"
    by (simp add: wf_plic_def example_plic_def PLIC_NR_SOURCES_def PLIC_MAX_CONTEXTS_def MAX_NR_HARTS_def)
  moreover obtain s plic' where c: "plic_claim example_plic 0 = (s, plic')" by fastforce
  moreover have "s \<noteq> 0" using c b by (simp add: plic_claim_def Let_def)
  ultimately show ?thesis using plic_claim_complete [of example_plic 0 s plic'] by blast
qed

end
