(* ===== verification/Uart.thy ===== *)
theory Uart
  imports Plic
begin

text \<open>
  The NS16550 console (\<^verbatim>\<open>vmm/emulate_uart.c\<close>). The receive fifo is a ring buffer of 256 bytes, of
  which 255 can be in use. The host terminal is a parameter: \<open>uart_poll_input\<close> takes the bytes
  that \<open>poll\<close> and \<open>read\<close> deliver, the empty list when there are none; the bytes written to the
  host are appended to \<open>console_output\<close>.
\<close>

section \<open>Bounded queues\<close>

text \<open>
  The contract of the fifo: a queue of bounded length over an abstraction function. A push onto
  a full queue drops the byte; a pop of an empty queue returns a fixed value and changes nothing.
\<close>

locale bounded_queue =
  fixes inv :: "'q \<Rightarrow> bool"
    and contents :: "'q \<Rightarrow> 'a list"
    and capacity :: nat
    and default :: 'a
    and push :: "'a \<Rightarrow> 'q \<Rightarrow> 'q"
    and pop :: "'q \<Rightarrow> 'a \<times> 'q"
  assumes inv_push: "inv q \<Longrightarrow> inv (push x q)"
    and inv_pop: "inv q \<Longrightarrow> inv (snd (pop q))"
    and bounded: "inv q \<Longrightarrow> length (contents q) \<le> capacity"
    and contents_push: "inv q \<Longrightarrow> contents (push x q) =
          (if length (contents q) < capacity then contents q @ [x] else contents q)"
    and contents_pop: "inv q \<Longrightarrow> (fst (pop q), contents (snd (pop q))) =
          (case contents q of [] \<Rightarrow> (default, []) | x # xs \<Rightarrow> (x, xs))"
begin

text \<open>Pushing a sequence of bytes and popping as many as are stored.\<close>

fun pops :: "nat \<Rightarrow> 'q \<Rightarrow> 'a list \<times> 'q" where
  "pops 0 q = ([], q)"
| "pops (Suc n) q = (case pop q of (x, q') \<Rightarrow> case pops n q' of (xs, q'') \<Rightarrow> (x # xs, q''))"

lemma pushes:
  "inv q \<Longrightarrow> inv (fold push xs q) \<and> contents (fold push xs q) = take capacity (contents q @ xs)"
proof (induction xs arbitrary: q)
  case Nil
  then show ?case using bounded by simp
next
  case (Cons x xs)
  have "take capacity (contents (push x q) @ xs) = take capacity (contents q @ x # xs)"
  proof (cases "length (contents q) < capacity")
    case False
    then have "length (contents q) = capacity" using bounded [OF Cons.prems] by simp
    then show ?thesis using contents_push [OF Cons.prems] by simp
  qed (simp add: contents_push [OF Cons.prems])
  then show ?case using Cons.IH [OF inv_push [OF Cons.prems]] by simp
qed

lemma pops_contents:
  "inv q \<Longrightarrow> n \<le> length (contents q) \<Longrightarrow>
     fst (pops n q) = take n (contents q) \<and> contents (snd (pops n q)) = drop n (contents q) \<and> inv (snd (pops n q))"
proof (induction n arbitrary: q)
  case (Suc n)
  obtain x q' where p: "pop q = (x, q')" by fastforce
  obtain y ys where ys: "contents q = y # ys" using Suc.prems(2) by (cases "contents q") auto
  have "x = y" "contents q' = ys" "inv q'"
    using contents_pop [OF Suc.prems(1)] inv_pop [OF Suc.prems(1)] p ys by auto
  then show ?case using Suc.IH [of q'] Suc.prems(2) p ys by (simp add: case_prod_beta)
qed simp

text \<open>First in, first out: what is pushed onto an empty queue comes out in order.\<close>

lemma fifo:
  assumes "inv q" and "contents q = []" and "length xs \<le> capacity"
  shows "fst (pops (length xs) (fold push xs q)) = xs"
  using pushes [OF assms(1), of xs] pops_contents [of "fold push xs q" "length xs"] assms(2,3) by simp

end

section \<open>State and registers\<close>

definition UART_RX_FIFO_SIZE :: nat where
  "UART_RX_FIFO_SIZE = 256"

record uart_state =
  ier :: u8
  lcr :: u8
  mcr :: u8
  fcr :: u8
  scr :: u8
  dll :: u8
  dlm :: u8
  rx_fifo :: "u8 list"
  rx_head :: nat
  rx_tail :: nat
  console_attached :: bool
  escape_armed :: bool
  console_output :: "u8 list"

abbreviation UART_16550_BASE :: u32 where "UART_16550_BASE \<equiv> 0x10000000"
abbreviation UART_ESCAPE_CHAR :: u8 where "UART_ESCAPE_CHAR \<equiv> 0x01"

section \<open>The receive fifo\<close>

definition uart_rx_empty :: "uart_state \<Rightarrow> bool" where
  "uart_rx_empty uart \<longleftrightarrow> rx_head uart = rx_tail uart"

definition uart_rx_push :: "u8 \<Rightarrow> uart_state \<Rightarrow> uart_state" where
  "uart_rx_push ch uart = (
     let next = (rx_tail uart + 1) mod UART_RX_FIFO_SIZE in
     if next = rx_head uart then uart
     else uart\<lparr>rx_fifo := (rx_fifo uart)[rx_tail uart := ch], rx_tail := next\<rparr>)"

definition uart_rx_pop :: "uart_state \<Rightarrow> u8 \<times> uart_state" where
  "uart_rx_pop uart =
     (if uart_rx_empty uart then (0, uart)
      else (rx_fifo uart ! rx_head uart, uart\<lparr>rx_head := (rx_head uart + 1) mod UART_RX_FIFO_SIZE\<rparr>))"

definition wf_uart :: "uart_state \<Rightarrow> bool" where
  "wf_uart uart \<longleftrightarrow> length (rx_fifo uart) = UART_RX_FIFO_SIZE \<and>
     rx_head uart < UART_RX_FIFO_SIZE \<and> rx_tail uart < UART_RX_FIFO_SIZE"

text \<open>The bytes between head and tail, in the order in which the guest reads them.\<close>

definition rx_contents :: "uart_state \<Rightarrow> u8 list" where
  "rx_contents uart =
     (if rx_head uart \<le> rx_tail uart then drop (rx_head uart) (take (rx_tail uart) (rx_fifo uart))
      else drop (rx_head uart) (rx_fifo uart) @ take (rx_tail uart) (rx_fifo uart))"

lemma mod_256_cases: "i < 256 \<Longrightarrow> Suc i mod 256 = (if i = 255 then 0 else Suc i)" for i :: nat
  by auto

lemma take_Suc_update: "n < length xs \<Longrightarrow> take (Suc n) (xs[n := x]) = take n xs @ [x]"
  by (simp add: take_Suc_conv_app_nth)

lemma rx_contents_push:
  assumes "wf_uart q"
  shows "rx_contents (uart_rx_push x q) =
      (if length (rx_contents q) < UART_RX_FIFO_SIZE - 1 then rx_contents q @ [x] else rx_contents q)"
proof -
  have b: "rx_head q < 256" "rx_tail q < 256" "length (rx_fifo q) = 256"
    using assms by (simp_all add: wf_uart_def UART_RX_FIFO_SIZE_def)
  note defs = rx_contents_def uart_rx_push_def UART_RX_FIFO_SIZE_def Let_def mod_256_cases
  show ?thesis
  proof (cases "rx_head q \<le> rx_tail q")
    case True
    show ?thesis
    proof (cases "rx_tail q = 255")
      case True
      have "rx_fifo q ! 255 # [] = drop 255 (rx_fifo q)" using b(3) by (simp add: Cons_nth_drop_Suc [symmetric])
      moreover have "(rx_fifo q)[255 := x] = take 255 (rx_fifo q) @ [x]" using b(3) take_Suc_update [of 255 "rx_fifo q" x] by simp
      ultimately show ?thesis using True b by (auto simp: defs)
    next
      case False
      then show ?thesis using True b take_Suc_update [of "rx_tail q" "rx_fifo q" x] by (auto simp: defs)
    qed
  next
    case False
    then have "rx_tail q \<noteq> 255" using b by auto
    then show ?thesis using False b take_Suc_update [of "rx_tail q" "rx_fifo q" x] by (auto simp: defs)
  qed
qed

lemma rx_contents_pop:
  assumes "wf_uart q"
  shows "(fst (uart_rx_pop q), rx_contents (snd (uart_rx_pop q))) =
      (case rx_contents q of [] \<Rightarrow> (0, []) | x # xs \<Rightarrow> (x, xs))"
proof -
  have b: "rx_head q < 256" "rx_tail q < 256" "length (rx_fifo q) = 256"
    using assms by (simp_all add: wf_uart_def UART_RX_FIFO_SIZE_def)
  note defs = rx_contents_def uart_rx_pop_def uart_rx_empty_def UART_RX_FIFO_SIZE_def Let_def mod_256_cases
  consider "rx_head q = rx_tail q" | "rx_head q < rx_tail q" | "rx_tail q < rx_head q" by linarith
  then show ?thesis
  proof cases
    case 2
    then have "rx_contents q = rx_fifo q ! rx_head q # drop (Suc (rx_head q)) (take (rx_tail q) (rx_fifo q))"
      using b by (simp add: rx_contents_def Cons_nth_drop_Suc [symmetric])
    then show ?thesis using 2 b by (auto simp: defs)
  next
    case 3
    then have "rx_contents q = rx_fifo q ! rx_head q # drop (Suc (rx_head q)) (rx_fifo q) @ take (rx_tail q) (rx_fifo q)"
      using b by (simp add: rx_contents_def Cons_nth_drop_Suc [symmetric])
    then show ?thesis using 3 b by (auto simp: defs)
  qed (simp add: defs)
qed

interpretation rx: bounded_queue wf_uart rx_contents "UART_RX_FIFO_SIZE - 1" 0 uart_rx_push uart_rx_pop
proof
  fix q :: uart_state and x :: u8
  assume wf: "wf_uart q"
  then have b: "rx_head q < 256" "rx_tail q < 256" "length (rx_fifo q) = 256"
    by (simp_all add: wf_uart_def UART_RX_FIFO_SIZE_def)
  show "wf_uart (uart_rx_push x q)" "wf_uart (snd (uart_rx_pop q))"
    using wf by (auto simp: wf_uart_def uart_rx_push_def uart_rx_pop_def UART_RX_FIFO_SIZE_def Let_def)
  show "length (rx_contents q) \<le> UART_RX_FIFO_SIZE - 1"
    using b by (auto simp: rx_contents_def UART_RX_FIFO_SIZE_def)
  show "rx_contents (uart_rx_push x q) =
      (if length (rx_contents q) < UART_RX_FIFO_SIZE - 1 then rx_contents q @ [x] else rx_contents q)"
    by (rule rx_contents_push [OF wf])
  show "(fst (uart_rx_pop q), rx_contents (snd (uart_rx_pop q))) =
      (case rx_contents q of [] \<Rightarrow> (0, []) | x # xs \<Rightarrow> (x, xs))"
    by (rule rx_contents_pop [OF wf])
qed


section \<open>Console input\<close>

text \<open>
  The loop of \<open>uart_poll_input\<close> over the bytes read. The escape character followed by \<open>x\<close>
  ends the process.
\<close>

primrec uart_feed :: "u8 list \<Rightarrow> uart_state \<Rightarrow> (uart_state, unit) result" where
  "uart_feed [] uart = Ret () uart"
| "uart_feed (ch # buf) uart =
     (if escape_armed uart then
        let uart' = uart\<lparr>escape_armed := False\<rparr> in
        if ch = 0x78 then Stop (Exit 0)
        else if ch = UART_ESCAPE_CHAR then uart_feed buf (uart_rx_push UART_ESCAPE_CHAR uart')
        else uart_feed buf (uart_rx_push ch uart')
      else if ch = UART_ESCAPE_CHAR then uart_feed buf (uart\<lparr>escape_armed := True\<rparr>)
      else uart_feed buf (uart_rx_push ch uart))"

definition uart_poll_input :: "u8 list \<Rightarrow> uart_state \<Rightarrow> (uart_state, unit) result" where
  "uart_poll_input buf uart = (if \<not> console_attached uart then Ret () uart else uart_feed buf uart)"

section \<open>Interrupt line\<close>

definition uart_interrupt_pending :: "uart_state \<Rightarrow> bool" where
  "uart_interrupt_pending uart \<longleftrightarrow>
     (ier uart AND 0x01 \<noteq> 0 \<and> \<not> uart_rx_empty uart) \<or> ier uart AND 0x02 \<noteq> 0"

definition uart_refresh_interrupt :: "uart_state \<Rightarrow> plic_state \<Rightarrow> plic_state option" where
  "uart_refresh_interrupt uart plic = plic_set_pending PLIC_IRQ_UART0 (uart_interrupt_pending uart) plic"

section \<open>Registers\<close>

definition uart_register_read :: "u32 \<Rightarrow> uart_state \<Rightarrow> u8 \<times> uart_state" where
  "uart_register_read reg uart =
     (if reg = 0 then if lcr uart AND 0x80 \<noteq> 0 then (dll uart, uart) else uart_rx_pop uart
      else if reg = 1 then (if lcr uart AND 0x80 \<noteq> 0 then dlm uart else ier uart, uart)
      else if reg = 2 then
        (0xc0 OR (if ier uart AND 0x01 \<noteq> 0 \<and> \<not> uart_rx_empty uart then 0x04
                  else if ier uart AND 0x02 \<noteq> 0 then 0x02 else 0x01), uart)
      else if reg = 3 then (lcr uart, uart)
      else if reg = 4 then (mcr uart, uart)
      else if reg = 5 then (0x40 OR 0x20 OR (if \<not> uart_rx_empty uart then 0x01 else 0), uart)
      else if reg = 6 then (0x10 OR 0x20 OR 0x80, uart)
      else if reg = 7 then (scr uart, uart)
      else (0, uart))"

definition uart_mmio_read :: "u64 \<Rightarrow> nat \<Rightarrow> uart_state \<Rightarrow> plic_state \<Rightarrow> (u64 \<times> uart_state \<times> plic_state) option" where
  "uart_mmio_read addr access_size uart plic =
     (case uart_register_read (ucast addr - UART_16550_BASE) uart of
        (val, uart') \<Rightarrow> map_option (\<lambda>plic'. (ucast val, uart', plic')) (uart_refresh_interrupt uart' plic))"

definition uart_register_write :: "u32 \<Rightarrow> u8 \<Rightarrow> uart_state \<Rightarrow> uart_state" where
  "uart_register_write reg val uart =
     (if reg = 0 then
        if lcr uart AND 0x80 \<noteq> 0 then uart\<lparr>dll := val\<rparr>
        else uart\<lparr>console_output := console_output uart @ [val]\<rparr>
      else if reg = 1 then
        if lcr uart AND 0x80 \<noteq> 0 then uart\<lparr>dlm := val\<rparr> else uart\<lparr>ier := val AND 0x0f\<rparr>
      else if reg = 2 then
        let uart' = uart\<lparr>fcr := val\<rparr> in
        if val AND 0x2 \<noteq> 0 then uart'\<lparr>rx_head := 0, rx_tail := 0\<rparr> else uart'
      else if reg = 3 then uart\<lparr>lcr := val\<rparr>
      else if reg = 4 then uart\<lparr>mcr := val\<rparr>
      else if reg = 7 then uart\<lparr>scr := val\<rparr>
      else uart)"

definition uart_mmio_write ::
  "u64 \<Rightarrow> nat \<Rightarrow> u64 \<Rightarrow> uart_state \<Rightarrow> plic_state \<Rightarrow> (uart_state \<times> plic_state) option" where
  "uart_mmio_write addr access_size value uart plic =
     (if access_size \<noteq> 1 then Some (uart, plic)
      else let uart' = uart_register_write (ucast addr - UART_16550_BASE) (ucast value) uart in
           map_option (Pair uart') (uart_refresh_interrupt uart' plic))"

text \<open>\<open>uart_init\<close>; whether a terminal could be attached is a parameter.\<close>

definition uart_init :: "bool \<Rightarrow> pm_region_operation list \<Rightarrow> (uart_state \<times> pm_region_operation list) option" where
  "uart_init attached pmr_ops =
     map_option (Pair \<lparr>ier = 0, lcr = 0, mcr = 0, fcr = 0, scr = 0, dll = 0x03, dlm = 0,
         rx_fifo = replicate UART_RX_FIFO_SIZE 0, rx_head = 0, rx_tail = 0,
         console_attached = attached, escape_armed = False, console_output = []\<rparr>)
       (register_pm_region_operation pmr_ops
          \<lparr>addr_low = UART_16550_BASE, addr_high = UART_16550_BASE + 0x100, pmr_device = Uart_mmio\<rparr>)"

lemma wf_uart_registers:
  assumes "wf_uart uart"
  shows "wf_uart (snd (uart_register_read reg uart))" and "wf_uart (uart_register_write reg v uart)"
  using assms rx.inv_pop [OF assms]
  by (simp_all add: uart_register_read_def uart_register_write_def Let_def)
    (simp_all add: wf_uart_def UART_RX_FIFO_SIZE_def)

text \<open>
  What the escape processing lets through: \<open>None\<close> when the input ends the process, otherwise
  the bytes for the guest and whether an escape is still open.
\<close>

fun unescape :: "bool \<Rightarrow> u8 list \<Rightarrow> (u8 list \<times> bool) option" where
  "unescape armed [] = Some ([], armed)"
| "unescape True (ch # buf) =
     (if ch = 0x78 then None else map_option (apfst ((#) ch)) (unescape False buf))"
| "unescape False (ch # buf) =
     (if ch = UART_ESCAPE_CHAR then unescape True buf else map_option (apfst ((#) ch)) (unescape False buf))"

lemma uart_rx_push_sel [simp]:
  "escape_armed (uart_rx_push ch uart) = escape_armed uart"
  "console_attached (uart_rx_push ch uart) = console_attached uart"
  by (simp_all add: uart_rx_push_def Let_def)

lemma push_escape [simp]:
  "(uart_rx_push ch uart)\<lparr>escape_armed := b\<rparr> = uart_rx_push ch (uart\<lparr>escape_armed := b\<rparr>)"
  by (simp add: uart_rx_push_def Let_def)

lemma fold_push_escape [simp]:
  "(fold uart_rx_push xs uart)\<lparr>escape_armed := b\<rparr> = fold uart_rx_push xs (uart\<lparr>escape_armed := b\<rparr>)"
  by (induction xs arbitrary: uart) simp_all

lemma uart_feed_unescape:
  "uart_feed buf uart =
     (case unescape (escape_armed uart) buf of
        None \<Rightarrow> Stop (Exit 0)
      | Some (bytes, armed) \<Rightarrow> Ret () ((fold uart_rx_push bytes uart)\<lparr>escape_armed := armed\<rparr>))"
proof (induction "escape_armed uart" buf arbitrary: uart rule: unescape.induct)
  case (2 ch buf)
  then show ?case by (auto simp: Let_def split: option.splits)
next
  case (3 ch buf)
  then show ?case by (auto simp: Let_def split: option.splits)
qed simp_all

lemma fold_push_sel [simp]:
  "escape_armed (fold uart_rx_push xs uart) = escape_armed uart"
  "console_attached (fold uart_rx_push xs uart) = console_attached uart"
  by (induction xs arbitrary: uart) simp_all

lemma rx_contents_escape [simp]:
  "rx_contents (uart\<lparr>escape_armed := b\<rparr>) = rx_contents uart"
  "wf_uart (uart\<lparr>escape_armed := b\<rparr>) = wf_uart uart"
  by (simp_all add: rx_contents_def wf_uart_def)

lemma rx_empty_iff: "wf_uart uart \<Longrightarrow> uart_rx_empty uart \<longleftrightarrow> rx_contents uart = []"
  by (auto simp: uart_rx_empty_def rx_contents_def wf_uart_def)

section \<open>Properties\<close>


definition example_uart :: uart_state where
  "example_uart = \<lparr>ier = 1, lcr = 0, mcr = 0, fcr = 0, scr = 0, dll = 3, dlm = 0,
     rx_fifo = replicate 256 0, rx_head = 255, rx_tail = 255, console_attached = True,
     escape_armed = False, console_output = []\<rparr>"


text \<open>
  The receive registers: with the divisor latch closed, a read of the data register returns
  and removes the oldest stored byte (zero and nothing when there is none), the line status
  register says whether a byte is stored, and after either read the interrupt line of the UART at
  the PLIC is driven exactly when an enabled condition holds in the new state.
\<close>

theorem uart_receive_registers:
  assumes "wf_uart uart" and "wf_plic plic" and "lcr uart AND 0x80 = 0"
  shows "(\<exists>uart' plic'. uart_mmio_read 0x10000000 1 uart plic =
      Some (case rx_contents uart of [] \<Rightarrow> 0 | x # _ \<Rightarrow> ucast x, uart', plic') \<and>
      rx_contents uart' = tl (rx_contents uart) \<and> wf_uart uart' \<and> wf_plic plic' \<and>
      bit (pending plic') PLIC_IRQ_UART0 = uart_interrupt_pending uart') \<and>
    (\<exists>v plic'. uart_mmio_read 0x10000005 1 uart plic = Some (v, uart, plic') \<and>
      (bit v 0 \<longleftrightarrow> rx_contents uart \<noteq> []) \<and>
      bit (pending plic') PLIC_IRQ_UART0 = uart_interrupt_pending uart)"
proof -
  have line: "\<exists>plic'. uart_refresh_interrupt u plic = Some plic' \<and> wf_plic plic' \<and>
      bit (pending plic') PLIC_IRQ_UART0 = uart_interrupt_pending u" for u
    using wf_plic_set_pending [OF assms(2), of PLIC_IRQ_UART0 "uart_interrupt_pending u"]
    by (auto simp: uart_refresh_interrupt_def PLIC_IRQ_UART0_def PLIC_NR_SOURCES_def bit_simps)
  let ?p = "uart_rx_pop uart"
  have "fst ?p = (case rx_contents uart of [] \<Rightarrow> 0 | x # _ \<Rightarrow> x)" "rx_contents (snd ?p) = tl (rx_contents uart)"
    using rx.contents_pop [OF assms(1)] by (auto split: list.splits)
  then have pop: "\<exists>uart' plic'. uart_mmio_read 0x10000000 1 uart plic =
      Some (case rx_contents uart of [] \<Rightarrow> 0 | x # _ \<Rightarrow> ucast x, uart', plic') \<and>
      rx_contents uart' = tl (rx_contents uart) \<and> wf_uart uart' \<and> wf_plic plic' \<and>
      bit (pending plic') PLIC_IRQ_UART0 = uart_interrupt_pending uart'"
    using line [of "snd ?p"] rx.inv_pop [OF assms(1)] assms(3)
    by (auto simp: uart_mmio_read_def uart_register_read_def case_prod_beta split: list.splits)
  have "\<exists>v plic'. uart_mmio_read 0x10000005 1 uart plic = Some (v, uart, plic') \<and>
      (bit v 0 \<longleftrightarrow> rx_contents uart \<noteq> []) \<and>
      bit (pending plic') PLIC_IRQ_UART0 = uart_interrupt_pending uart"
    using line [of uart] rx_empty_iff [OF assms(1)]
    by (auto simp: uart_mmio_read_def uart_register_read_def bit_simps)
  with pop show ?thesis by blast
qed

text \<open>For an empty queue.\<close>

theorem uart_receive_registers_witness:
  "\<exists>plic'. uart_mmio_read 0x10000005 1 example_uart example_plic = Some (0x60, example_uart, plic') \<and>
     \<not> bit (pending plic') PLIC_IRQ_UART0"
proof -
  have "wf_uart example_uart" "lcr example_uart AND 0x80 = 0"
    by (simp_all add: example_uart_def wf_uart_def UART_RX_FIFO_SIZE_def)
  moreover have "wf_plic example_plic"
    by (simp add: wf_plic_def example_plic_def PLIC_NR_SOURCES_def PLIC_MAX_CONTEXTS_def MAX_NR_HARTS_def)
  ultimately show ?thesis using uart_receive_registers [of example_uart example_plic]
    by (auto simp: uart_mmio_read_def uart_register_read_def uart_rx_empty_def uart_interrupt_pending_def example_uart_def)
qed

end
