(* ===== verification/Memory.thy ===== *)
theory Memory
  imports Pm_Region
begin

text \<open>
  Memory backed by a host allocation: main memory (\<^verbatim>\<open>vmm/emulate_ram.c\<close>), the boot rom
  (\<^verbatim>\<open>vmm/emulate_rom.c\<close>) and the power switch (\<^verbatim>\<open>vmm/emulate_syscon.c\<close>). A host allocation is a
  function from offsets to bytes with its size; the host is little-endian. An access outside
  the allocation is undefined behaviour of the C code, modelled by \<open>Stop Host_fault\<close>.
\<close>

section \<open>Little-endian access\<close>

primrec le_read :: "nat \<Rightarrow> (nat \<Rightarrow> u8) \<Rightarrow> nat \<Rightarrow> u64" where
  "le_read 0 m a = 0"
| "le_read (Suc n) m a = ucast (m a) OR push_bit 8 (le_read n m (Suc a))"

primrec le_write :: "nat \<Rightarrow> u64 \<Rightarrow> (nat \<Rightarrow> u8) \<Rightarrow> nat \<Rightarrow> nat \<Rightarrow> u8" where
  "le_write 0 v m a = m"
| "le_write (Suc n) v m a = le_write n (drop_bit 8 v) (m(a := ucast v)) (Suc a)"

lemma le_write_frame: "b < a \<or> a + n \<le> b \<Longrightarrow> le_write n v m a b = m b"
  by (induction n arbitrary: v m a) auto

lemma le_read_cong: "(\<And>i. a \<le> i \<Longrightarrow> i < a + n \<Longrightarrow> m i = m' i) \<Longrightarrow> le_read n m a = le_read n m' a"
  by (induction n arbitrary: a) auto

lemma le_read_write: "le_read n (le_write n v m a) a = take_bit (8 * n) v"
proof (induction n arbitrary: v m a)
  case (Suc n)
  have "le_write n (drop_bit 8 v) (m(a := ucast v)) (Suc a) a = ucast v"
    by (simp add: le_write_frame)
  then have "le_read (Suc n) (le_write (Suc n) v m a) a =
      ucast (ucast v :: u8) OR push_bit 8 (take_bit (8 * n) (drop_bit 8 v))"
    by (simp add: Suc.IH)
  also have "\<dots> = take_bit (8 * Suc n) v"
    by (rule bit_word_eqI) (auto simp: bit_simps)
  finally show ?case .
qed simp

lemma le_read_frame:
  "a + n \<le> b \<or> b + k \<le> a \<Longrightarrow> le_read n (le_write k v m b) a = le_read n m a"
  by (rule le_read_cong) (auto intro!: le_write_frame)

declare le_read.simps(2) [simp del] le_write.simps(2) [simp del]

section \<open>Host allocations\<close>

record host_memory =
  mem_bytes :: "nat \<Rightarrow> u8"
  mem_size :: nat

definition host_load :: "u64 \<Rightarrow> nat \<Rightarrow> host_memory \<Rightarrow> (host_memory, u64) result" where
  "host_load off access_size mem =
     (if access_size \<notin> {1, 2, 4, 8} then Stop Assertion
      else if unat off + access_size \<le> mem_size mem
      then Ret (le_read access_size (mem_bytes mem) (unat off)) mem
      else Stop Host_fault)"

definition host_store :: "u64 \<Rightarrow> nat \<Rightarrow> u64 \<Rightarrow> host_memory \<Rightarrow> (host_memory, unit) result" where
  "host_store off access_size value mem =
     (if access_size \<notin> {1, 2, 4, 8} then Stop Assertion
      else if unat off + access_size \<le> mem_size mem
      then Ret () (mem\<lparr>mem_bytes := le_write access_size value (mem_bytes mem) (unat off)\<rparr>)
      else Stop Host_fault)"

section \<open>Main memory (emulate-ram.c)\<close>

definition ram_read :: "u64 \<Rightarrow> nat \<Rightarrow> pm_region_operation \<Rightarrow> host_memory \<Rightarrow> (host_memory, u64) result" where
  "ram_read addr access_size pmr mem = host_load (addr - ucast (addr_low pmr)) access_size mem"

definition ram_write :: "u64 \<Rightarrow> nat \<Rightarrow> u64 \<Rightarrow> pm_region_operation \<Rightarrow> host_memory \<Rightarrow> (host_memory, unit) result" where
  "ram_write addr access_size value pmr mem =
     host_store (addr - ucast (addr_low pmr)) access_size value mem"

section \<open>Boot rom (emulate-rom.c)\<close>

definition bootrom_read :: "u64 \<Rightarrow> nat \<Rightarrow> pm_region_operation \<Rightarrow> host_memory \<Rightarrow> (host_memory, u64) result" where
  "bootrom_read addr access_size pmr mem =
     (if ucast (addr_high pmr) < addr + of_nat access_size then Ret 0 mem
      else host_load (addr - ucast (addr_low pmr)) access_size mem)"

definition bootrom_write :: "u64 \<Rightarrow> nat \<Rightarrow> u64 \<Rightarrow> pm_region_operation \<Rightarrow> host_memory \<Rightarrow> (host_memory, unit) result" where
  "bootrom_write addr access_size value pmr mem =
     (if ucast (addr_high pmr) < addr + of_nat access_size then Ret () mem
      else host_store (addr - ucast (addr_low pmr)) access_size value mem)"

section \<open>Power switch (emulate-syscon.c)\<close>

definition syscon_read :: "u64 \<Rightarrow> nat \<Rightarrow> u64" where
  "syscon_read addr access_size = 0"

definition syscon_write :: "u64 \<Rightarrow> nat \<Rightarrow> u64 \<Rightarrow> vmm_stop option" where
  "syscon_write addr access_size value = (
     let command = ucast (value AND 0xffff) :: u32; argument = ucast (drop_bit 16 value) :: u32 in
     if command = 0x5555 then Some (Exit 0)
     else if command = 0x3333 then Some (Exit (if argument \<noteq> 0 then unat argument else 1))
     else if command = 0x7777 then Some (Exit 0)
     else None)"

section \<open>The memory contract\<close>

text \<open>
  What the rest of the vmm relies on for memory: inside the valid addresses a load returns the
  bytes of the last store there, and a store leaves the loads of other addresses alone.
\<close>

locale byte_memory =
  fixes load :: "u64 \<Rightarrow> nat \<Rightarrow> 's \<Rightarrow> ('s, u64) result"
    and store :: "u64 \<Rightarrow> nat \<Rightarrow> u64 \<Rightarrow> 's \<Rightarrow> ('s, unit) result"
    and valid :: "u64 \<Rightarrow> nat \<Rightarrow> 's \<Rightarrow> bool"
  assumes load_ret: "valid a n s \<Longrightarrow> \<exists>v. load a n s = Ret v s"
    and store_ret: "valid a n s \<Longrightarrow> \<exists>s'. store a n v s = Ret () s'"
    and valid_store: "store a n v s = Ret () s' \<Longrightarrow> valid b k s' = valid b k s"
    and load_store: "valid a n s \<Longrightarrow> store a n v s = Ret () s' \<Longrightarrow> load a n s' = Ret (take_bit (8 * n) v) s'"
    and load_frame: "valid a n s \<Longrightarrow> valid b k s \<Longrightarrow> store b k v s = Ret () s' \<Longrightarrow>
          unat a + n \<le> unat b \<or> unat b + k \<le> unat a \<Longrightarrow>
          \<exists>w. load a n s = Ret w s \<and> load a n s' = Ret w s'"
begin

lemma store_store_load:
  assumes "valid a n s" and "valid b k s" and "unat a + n \<le> unat b \<or> unat b + k \<le> unat a"
  shows "\<exists>s'. rbind (store a n v s) (\<lambda>_. store b k w) = Ret () s' \<and>
    load a n s' = Ret (take_bit (8 * n) v) s' \<and> load b k s' = Ret (take_bit (8 * k) w) s'"
proof -
  obtain s1 where s1: "store a n v s = Ret () s1" using store_ret [OF assms(1)] by blast
  have v: "valid a n s1" "valid b k s1" using valid_store [OF s1] assms by simp_all
  obtain s2 where s2: "store b k w s1 = Ret () s2" using store_ret [OF v(2)] by blast
  show ?thesis using load_frame [OF v s2 assms(3)] load_store [OF assms(1) s1] load_store [OF v(2) s2] s1 s2
    by auto
qed

end

text \<open>The addresses of a region that its allocation backs.\<close>

definition backed :: "pm_region_operation \<Rightarrow> u64 \<Rightarrow> nat \<Rightarrow> host_memory \<Rightarrow> bool" where
  "backed pmr a n mem \<longleftrightarrow> n \<in> {1, 2, 4, 8} \<and> unat (addr_low pmr) \<le> unat a \<and>
     unat a + n \<le> unat (addr_high pmr) \<and> unat (addr_high pmr) - unat (addr_low pmr) \<le> mem_size mem"

lemma backed_offset:
  assumes "backed pmr a n mem"
  shows "unat (a - ucast (addr_low pmr)) = unat a - unat (addr_low pmr)"
    and "unat (a - ucast (addr_low pmr)) + n \<le> mem_size mem"
    and "\<not> ucast (addr_high pmr) < a + of_nat n"
proof -
  have low: "unat (ucast (addr_low pmr) :: u64) = unat (addr_low pmr)"
    and high: "unat (ucast (addr_high pmr) :: u64) = unat (addr_high pmr)" by (simp_all add: unat_ucast_u64)
  show off: "unat (a - ucast (addr_low pmr)) = unat a - unat (addr_low pmr)"
    using assms low by (subst unat_sub) (simp_all add: backed_def word_le_nat_alt)
  then show "unat (a - ucast (addr_low pmr)) + n \<le> mem_size mem"
    using assms unfolding backed_def by linarith
  have "unat (addr_high pmr) < 2 ^ 32" using unsigned_less [of "addr_high pmr"] by simp
  then have "unat (a + of_nat n) = unat a + n"
    using assms by (auto simp: backed_def unat_word_ariths)
  then show "\<not> ucast (addr_high pmr) < a + of_nat n"
    using assms high by (simp add: word_less_nat_alt backed_def)
qed

interpretation ram: byte_memory
  "\<lambda>a n. ram_read a n pmr" "\<lambda>a n v. ram_write a n v pmr" "backed pmr" for pmr
proof
  fix a b v :: u64 and n k :: nat and s s' :: host_memory
  show "backed pmr b k s' = backed pmr b k s" if "ram_write a n v pmr s = Ret () s'"
    using that by (auto simp: ram_write_def host_store_def backed_def split: if_splits)
  assume a: "backed pmr a n s"
  note off = backed_offset [OF a]
  have n: "n \<in> {1, 2, 4, 8}" using a by (simp add: backed_def)
  show "\<exists>v. ram_read a n pmr s = Ret v s" "\<exists>s'. ram_write a n v pmr s = Ret () s'"
    using n off(2) by (auto simp: ram_read_def ram_write_def host_load_def host_store_def)
  show "ram_read a n pmr s' = Ret (take_bit (8 * n) v) s'" if "ram_write a n v pmr s = Ret () s'"
    using that n off(2)
    by (auto simp: ram_read_def ram_write_def host_load_def host_store_def le_read_write split: if_splits)
  assume b: "backed pmr b k s"
  note offb = backed_offset [OF b]
  show "\<exists>w. ram_read a n pmr s = Ret w s \<and> ram_read a n pmr s' = Ret w s'"
    if "ram_write b k v pmr s = Ret () s'" "unat a + n \<le> unat b \<or> unat b + k \<le> unat a"
  proof -
    have "unat (addr_low pmr) \<le> unat a" "unat (addr_low pmr) \<le> unat b" using a b by (auto simp: backed_def)
    then have d: "unat (a - ucast (addr_low pmr)) + n \<le> unat (b - ucast (addr_low pmr)) \<or>
        unat (b - ucast (addr_low pmr)) + k \<le> unat (a - ucast (addr_low pmr))"
      using that(2) unfolding off(1) offb(1) by linarith
    show ?thesis using that(1) n off(2) le_read_frame [OF d]
      by (auto simp: ram_read_def ram_write_def host_load_def host_store_def split: if_splits)
  qed
qed

lemma bootrom_is_ram:
  assumes "backed pmr a n mem"
  shows "bootrom_read a n pmr mem = ram_read a n pmr mem"
    and "bootrom_write a n v pmr mem = ram_write a n v pmr mem"
  using backed_offset(3) [OF assms] by (simp_all add: bootrom_read_def bootrom_write_def ram_read_def ram_write_def)

interpretation rom: byte_memory
  "\<lambda>a n. bootrom_read a n pmr" "\<lambda>a n v. bootrom_write a n v pmr" "backed pmr" for pmr
proof
  fix a b v :: u64 and n k :: nat and s s' :: host_memory
  show vs: "backed pmr b k s' = backed pmr b k s" if "bootrom_write a n v pmr s = Ret () s'" for a b n k
    using that by (auto simp: bootrom_write_def host_store_def backed_def split: if_splits)
  assume a: "backed pmr a n s"
  note eq = bootrom_is_ram [OF a]
  show "\<exists>v. bootrom_read a n pmr s = Ret v s" "\<exists>s'. bootrom_write a n v pmr s = Ret () s'"
    unfolding eq by (rule ram.load_ret [OF a], rule ram.store_ret [OF a])
  show "bootrom_read a n pmr s' = Ret (take_bit (8 * n) v) s'" if w: "bootrom_write a n v pmr s = Ret () s'"
  proof -
    have "backed pmr a n s'" using vs [OF w] a by simp
    then show ?thesis using ram.load_store [OF a] w unfolding eq by (simp add: bootrom_is_ram)
  qed
  assume b: "backed pmr b k s"
  show "\<exists>w. bootrom_read a n pmr s = Ret w s \<and> bootrom_read a n pmr s' = Ret w s'"
    if w: "bootrom_write b k v pmr s = Ret () s'" and d: "unat a + n \<le> unat b \<or> unat b + k \<le> unat a"
  proof -
    have "backed pmr a n s'" using vs [OF w] a by simp
    then show ?thesis using ram.load_frame [OF a b _ d] w bootrom_is_ram [OF b] by (simp add: eq bootrom_is_ram)
  qed
qed

end
