(* ===== verification/Machine.thy ===== *)
theory Machine
  imports Trap Uart Memory
begin

text \<open>
  The state of the virtual machine with its running hart, the dispatch of physical accesses to
  the devices through the region table, and the device pump of \<^verbatim>\<open>vmm/hart_interrupt.c\<close>. The
  bytes that the host terminal delivers are a queue of what each \<open>read\<close> returns.
\<close>

section \<open>State\<close>

record address_reservation_item =
  resv_addr :: u32
  resv_valid :: bool
  resv_hartid :: u8

record machine =
  cpu :: hart
  regions :: "pm_region_operation list"
  main_mem :: host_memory
  bootrom :: host_memory
  clint_dev :: clint_state
  plic_dev :: plic_state
  uart_dev :: uart_state
  terminal_input :: "u8 list list"
  reservations :: "address_reservation_item list"
  next_pointer :: nat
  breakpoints :: "u32 list"
  poll_countdown :: u32
  ticks_per_translation_unit :: u64

text \<open>An operation of the hart as an operation of the machine.\<close>

definition on_cpu :: "(hart \<Rightarrow> (hart, 'a) result) \<Rightarrow> machine \<Rightarrow> (machine, 'a) result" where
  "on_cpu f m = rmap (\<lambda>h. m\<lparr>cpu := h\<rparr>) (f (cpu m))"

lemma rmap_eq_Ret [result_simps]: "rmap f r = Ret a t \<longleftrightarrow> (\<exists>s. r = Ret a s \<and> t = f s)"
  by (cases r) auto

lemma rmap_eq_Trap [result_simps]: "rmap f r = Trap t \<longleftrightarrow> (\<exists>s. r = Trap s \<and> t = f s)"
  by (cases r) auto

text \<open>\<open>HART_REG\<close> on the running hart.\<close>

abbreviation HART_REG :: "machine \<Rightarrow> u8 \<Rightarrow> u32" where
  "HART_REG m i \<equiv> registers (cpu m) (unat i)"

definition set_hart_reg :: "u8 \<Rightarrow> u32 \<Rightarrow> machine \<Rightarrow> machine" where
  "set_hart_reg i v m = m\<lparr>cpu := set_reg (unat i) v (cpu m)\<rparr>"

section \<open>Access to a region\<close>

definition pmr_read :: "pm_region_operation \<Rightarrow> u64 \<Rightarrow> nat \<Rightarrow> machine \<Rightarrow> (machine, u64) result" where
  "pmr_read pmr addr access_size m =
     (case pmr_device pmr of
        Main_memory \<Rightarrow> rmap (\<lambda>mem. m\<lparr>main_mem := mem\<rparr>) (ram_read addr access_size pmr (main_mem m))
      | Bootrom \<Rightarrow> rmap (\<lambda>mem. m\<lparr>bootrom := mem\<rparr>) (bootrom_read addr access_size pmr (bootrom m))
      | Clint_mmio \<Rightarrow> Ret (clint_read addr access_size (clint_dev m)) m
      | Plic_mmio \<Rightarrow> (case plic_mmio_read addr access_size (plic_dev m) of (v, plic) \<Rightarrow> Ret v (m\<lparr>plic_dev := plic\<rparr>))
      | Uart_mmio \<Rightarrow> (case uart_mmio_read addr access_size (uart_dev m) (plic_dev m) of
                         None \<Rightarrow> Stop Assertion
                       | Some (v, uart, plic) \<Rightarrow> Ret v (m\<lparr>uart_dev := uart, plic_dev := plic\<rparr>))
      | Syscon_mmio \<Rightarrow> Ret (syscon_read addr access_size) m)"

definition pmr_write :: "pm_region_operation \<Rightarrow> u64 \<Rightarrow> nat \<Rightarrow> u64 \<Rightarrow> machine \<Rightarrow> (machine, unit) result" where
  "pmr_write pmr addr access_size value m =
     (case pmr_device pmr of
        Main_memory \<Rightarrow> rmap (\<lambda>mem. m\<lparr>main_mem := mem\<rparr>) (ram_write addr access_size value pmr (main_mem m))
      | Bootrom \<Rightarrow> rmap (\<lambda>mem. m\<lparr>bootrom := mem\<rparr>) (bootrom_write addr access_size value pmr (bootrom m))
      | Clint_mmio \<Rightarrow> Ret () (m\<lparr>clint_dev := clint_write addr access_size value (clint_dev m)\<rparr>)
      | Plic_mmio \<Rightarrow> Ret () (m\<lparr>plic_dev := plic_mmio_write addr access_size value (plic_dev m)\<rparr>)
      | Uart_mmio \<Rightarrow> (case uart_mmio_write addr access_size value (uart_dev m) (plic_dev m) of
                         None \<Rightarrow> Stop Assertion
                       | Some (uart, plic) \<Rightarrow> Ret () (m\<lparr>uart_dev := uart, plic_dev := plic\<rparr>))
      | Syscon_mmio \<Rightarrow> (case syscon_write addr access_size value of None \<Rightarrow> Ret () m | Some e \<Rightarrow> Stop e))"

section \<open>The device pump (hart-interrupt.c)\<close>

definition set_ticks_per_translation_unit :: "u64 \<Rightarrow> machine \<Rightarrow> (machine, unit) result" where
  "set_ticks_per_translation_unit ticks m =
     rassert (0 < ticks) (Ret () (m\<lparr>ticks_per_translation_unit := ticks\<rparr>))"

definition CONSOLE_POLL_INTERVAL :: u32 where
  "CONSOLE_POLL_INTERVAL = 4096"

text \<open>
  One poll of the host terminal takes the next element of \<open>terminal_input\<close>; a terminal that
  is not attached is not read.
\<close>

definition poll_console :: "machine \<Rightarrow> (machine, unit) result" where
  "poll_console m =
     (case (console_attached (uart_dev m), terminal_input m) of
        (True, buf # rest) \<Rightarrow>
          rmap (\<lambda>uart. m\<lparr>uart_dev := uart, terminal_input := rest\<rparr>) (uart_poll_input buf (uart_dev m))
      | _ \<Rightarrow> rmap (\<lambda>uart. m\<lparr>uart_dev := uart\<rparr>) (uart_poll_input [] (uart_dev m)))"

text \<open>The countdown is compared before it is decremented, and wraps.\<close>

definition refresh_device_interrupts :: "machine \<Rightarrow> (machine, unit) result" where
  "refresh_device_interrupts m =
     rbind (if poll_countdown m = 0 then poll_console (m\<lparr>poll_countdown := CONSOLE_POLL_INTERVAL\<rparr>)
            else Ret () (m\<lparr>poll_countdown := poll_countdown m - 1\<rparr>))
       (\<lambda>_ m1. case uart_refresh_interrupt (uart_dev m1) (plic_dev m1) of
           None \<Rightarrow> Stop Assertion
         | Some plic \<Rightarrow>
             Ret () (m1\<lparr>plic_dev := plic,
                        cpu := plic_refresh_pending plic (clint_refresh_pending (clint_dev m1) (cpu m1))\<rparr>))"

definition pump_devices_and_deliver_interrupts :: "machine \<Rightarrow> (machine, unit) result" where
  "pump_devices_and_deliver_interrupts m =
     rbind (refresh_device_interrupts
              (m\<lparr>clint_dev := clint_advance_time (ticks_per_translation_unit m) (clint_dev m)\<rparr>))
       (\<lambda>_. on_cpu (\<lambda>h. deliver_first h delivery_order))"

text \<open>The loop of \<open>hart_idle\<close>, with the number of rounds left; \<open>usleep\<close> has no effect on the state.\<close>

primrec hart_idle_loop :: "nat \<Rightarrow> machine \<Rightarrow> (machine, unit) result" where
  "hart_idle_loop 0 m = Ret () m"
| "hart_idle_loop (Suc n) m =
     rbind (poll_console m) (\<lambda>_ m1.
       rbind (refresh_device_interrupts m1) (\<lambda>_ m2.
         if ipending (cpu m2) AND ienable (cpu m2) \<noteq> 0 then Ret () m2
         else hart_idle_loop n (m2\<lparr>clint_dev := snd (clint_skip_to_next_deadline (clint_dev m2))\<rparr>)))"

definition hart_idle :: "machine \<Rightarrow> (machine, unit) result" where
  "hart_idle = hart_idle_loop 64"

section \<open>Invariant of the devices\<close>

definition wf_devices :: "machine \<Rightarrow> bool" where
  "wf_devices m \<longleftrightarrow> wf_regions (regions m) \<and> wf_clint (clint_dev m) \<and> wf_plic (plic_dev m) \<and> wf_uart (uart_dev m)"

lemma uart_line_wf:
  assumes "wf_plic plic"
  shows "\<exists>plic'. uart_refresh_interrupt uart plic = Some plic' \<and> wf_plic plic' \<and>
    bit (pending plic') PLIC_IRQ_UART0 = uart_interrupt_pending uart"
  using wf_plic_set_pending [OF assms, of PLIC_IRQ_UART0 "uart_interrupt_pending uart"]
  by (auto simp: uart_refresh_interrupt_def PLIC_IRQ_UART0_def PLIC_NR_SOURCES_def bit_simps)

lemma uart_mmio_wf:
  assumes "wf_uart uart" and "wf_plic plic"
  shows "\<exists>v uart' plic'. uart_mmio_read addr n uart plic = Some (v, uart', plic') \<and> wf_uart uart' \<and> wf_plic plic'"
    and "\<exists>uart' plic'. uart_mmio_write addr n v uart plic = Some (uart', plic') \<and> wf_uart uart' \<and> wf_plic plic'"
proof -
  let ?r = "uart_register_read (ucast addr - UART_16550_BASE) uart"
  show "\<exists>v uart' plic'. uart_mmio_read addr n uart plic = Some (v, uart', plic') \<and> wf_uart uart' \<and> wf_plic plic'"
    using uart_line_wf [OF assms(2), of "snd ?r"] wf_uart_registers(1) [OF assms(1)]
    by (auto simp: uart_mmio_read_def case_prod_beta)
  show "\<exists>uart' plic'. uart_mmio_write addr n v uart plic = Some (uart', plic') \<and> wf_uart uart' \<and> wf_plic plic'"
    using uart_line_wf [OF assms(2), of "uart_register_write (ucast addr - UART_16550_BASE) (ucast v) uart"]
      wf_uart_registers(2) [OF assms(1)] assms
    by (auto simp: uart_mmio_write_def Let_def)
qed

lemma wf_devices_main_mem [simp]: "wf_devices (m\<lparr>main_mem := x\<rparr>) = wf_devices m"
  "wf_devices (m\<lparr>bootrom := x\<rparr>) = wf_devices m" "wf_devices (m\<lparr>cpu := h\<rparr>) = wf_devices m"
  by (simp_all add: wf_devices_def)

lemma pmr_access_wf:
  assumes "wf_devices m"
  shows "pmr_read pmr a n m = Ret v m' \<Longrightarrow> wf_devices m' \<and> cpu m' = cpu m \<and> regions m' = regions m"
    and "pmr_write pmr a n w m = Ret u m' \<Longrightarrow> wf_devices m' \<and> cpu m' = cpu m \<and> regions m' = regions m"
proof -
  have d: "wf_clint (clint_dev m)" "wf_plic (plic_dev m)" "wf_uart (uart_dev m)" "wf_regions (regions m)"
    using assms by (simp_all add: wf_devices_def)
  show "pmr_read pmr a n m = Ret v m' \<Longrightarrow> wf_devices m' \<and> cpu m' = cpu m \<and> regions m' = regions m"
    using assms uart_mmio_wf(1) [OF d(3,2), of a n] wf_plic_mmio(1) [OF d(2), of a n]
    by (cases "pmr_device pmr")
      (auto simp: pmr_read_def result_simps case_prod_beta, auto simp: wf_devices_def)
  show "pmr_write pmr a n w m = Ret u m' \<Longrightarrow> wf_devices m' \<and> cpu m' = cpu m \<and> regions m' = regions m"
    using assms uart_mmio_wf(2) [OF d(3,2), of a n w] wf_plic_mmio(2) [OF d(2), of a n w] wf_clint_write [OF d(1), of a n w]
    by (cases "pmr_device pmr")
      (auto simp: pmr_write_def result_simps split: option.splits, auto simp: wf_devices_def)
qed

end
