(* ===== verification/Device_Tree.thy ===== *)
theory Device_Tree
  imports Fdt Machine
begin

text \<open>
  The device tree of the machine (\<^verbatim>\<open>vmm/fdt.c\<close> and the \<^verbatim>\<open>build_*_fdt_node\<close> functions of the devices):
  one function per node, in the order of the code, on the build blob. What the nodes say comes from
  the \<^verbatim>\<open>struct virtual_machine\<close>, the configuration and the devices. The configuration is a lookup
  function (the parser \<^verbatim>\<open>ini.c\<close> is a third-party library), and so is the size of a file of the host.
\<close>

section \<open>Formatting and parsing of numbers\<close>

text \<open>The digits of \<^verbatim>\<open>printf\<close>'s \<^verbatim>\<open>%x\<close> and \<^verbatim>\<open>%d\<close>.\<close>

definition digit :: "nat \<Rightarrow> char" where
  "digit d = ''0123456789abcdef'' ! d"

function digits :: "nat \<Rightarrow> nat \<Rightarrow> string" where
  "digits base n = (if base < 2 \<or> n < base then [digit n] else digits base (n div base) @ [digit (n mod base)])"
  by pat_completeness auto
termination
  by (relation "measure snd") auto

declare digits.simps [simp del]

definition hex :: "u32 \<Rightarrow> string" where
  "hex w = digits 16 (unat w)"

definition decimal :: "int \<Rightarrow> string" where
  "decimal i = (if i < 0 then CHR ''-'' # digits 10 (nat (- i)) else digits 10 (nat i))"

text \<open>\<^verbatim>\<open>strtol(s, NULL, base)\<close> for bases 10 and 16: blanks, a sign, for base 16 an optional prefix, digits.\<close>

definition digit_value :: "char \<Rightarrow> nat option" where
  "digit_value c = (let n = of_char c :: nat in
     if 48 \<le> n \<and> n \<le> 57 then Some (n - 48)
     else if 97 \<le> n \<and> n \<le> 122 then Some (n - 87)
     else if 65 \<le> n \<and> n \<le> 90 then Some (n - 55) else None)"

fun parse_digits :: "nat \<Rightarrow> int \<Rightarrow> string \<Rightarrow> int" where
  "parse_digits base acc [] = acc"
| "parse_digits base acc (c # cs) = (case digit_value c of
     Some d \<Rightarrow> if d < base then parse_digits base (acc * int base + int d) cs else acc
   | None \<Rightarrow> acc)"

definition is_digit :: "nat \<Rightarrow> char \<Rightarrow> bool" where
  "is_digit base c = (case digit_value c of Some d \<Rightarrow> d < base | None \<Rightarrow> False)"

definition skip_prefix :: "nat \<Rightarrow> string \<Rightarrow> string" where
  "skip_prefix base s = (case s of
     z # x # d # cs \<Rightarrow> if base = 16 \<and> z = CHR ''0'' \<and> (x = CHR ''x'' \<or> x = CHR ''X'') \<and> is_digit base d then d # cs else s
   | _ \<Rightarrow> s)"

definition strtol :: "string \<Rightarrow> nat \<Rightarrow> int" where
  "strtol s base = (
     let t = dropWhile (\<lambda>c. of_char c \<in> {9, 10, 11, 12, 13, 32 :: nat}) s;
         (neg, u) = (case t of c # cs \<Rightarrow> if c = CHR ''-'' then (True, cs) else if c = CHR ''+'' then (False, cs) else (False, t) | [] \<Rightarrow> (False, t));
         v = parse_digits base 0 (skip_prefix base u);
         r = (if neg then - v else v) in
     max (- (2 ^ 63)) (min (2 ^ 63 - 1) r))"

section \<open>The virtual machine (vm.h)\<close>

record virtual_machine =
  nr_harts :: int
  boot_hart :: int
  harts :: "hart list"
  main_mem_size :: int
  main_mem_base :: int
  main_mem_host :: host_memory
  bootrom_size :: int
  bootrom_base :: int
  bootrom_host :: host_memory
  ini_config :: "string \<Rightarrow> string \<Rightarrow> string option"

definition hart_by_id :: "virtual_machine \<Rightarrow> int \<Rightarrow> (hart \<Rightarrow> ('s, 'a) result) \<Rightarrow> ('s, 'a) result" where
  "hart_by_id vm i f = rassert (0 \<le> i \<and> i < nr_harts vm) (case elem_at (harts vm) i of None \<Rightarrow> Stop Host_fault | Some h \<Rightarrow> f h)"

text \<open>The optional reader of a configuration entry, with the assertion that it is there.\<close>

definition ini_need :: "virtual_machine \<Rightarrow> string \<Rightarrow> string \<Rightarrow> (string \<Rightarrow> ('s, 'a) result) \<Rightarrow> ('s, 'a) result" where
  "ini_need vm sec key f = (case ini_config vm sec key of None \<Rightarrow> Stop Assertion | Some s \<Rightarrow> f s)"

section \<open>Nodes\<close>

text \<open>An array of 32-bit cells in big-endian order.\<close>

definition cells :: "u32 list \<Rightarrow> u8 list" where
  "cells ws = concat (map (\<lambda>w. le_bytes32 (BIG_ENDIAN32 w)) ws)"

type_synonym fdt_step = "fdt_build_blob \<Rightarrow> (fdt_build_blob, unit) result"

definition build_memory_fdt_node :: "virtual_machine \<Rightarrow> fdt_step" where
  "build_memory_fdt_node vm = run_all
     [fdt_begin_node (''memory@'' @ hex (word_of_int (main_mem_base vm))),
      fdt_prop ''device_type'' (c_string ''memory''),
      fdt_prop ''reg'' (cells [0, word_of_int (main_mem_base vm), 0, word_of_int (main_mem_size vm)]),
      fdt_end_node]"

definition build_bootrom_fdt_node :: "virtual_machine \<Rightarrow> fdt_step" where
  "build_bootrom_fdt_node vm blob =
     ini_need vm ''rom'' ''rom_start'' (\<lambda>rom_start_string. ini_need vm ''rom'' ''rom_size'' (\<lambda>rom_size_string.
       let rom_start = word_of_int (strtol rom_start_string 16); rom_size = word_of_int (strtol rom_size_string 16) in
       run_all
         [fdt_begin_node (''bootrom@'' @ hex rom_start),
          fdt_prop ''device_type'' (c_string ''bootrom''),
          fdt_prop ''compatible'' (c_string ''zelda 16MB flash''),
          fdt_prop ''reg'' (cells [0, rom_start, 0, rom_size]),
          fdt_end_node] blob))"

definition build_core_node :: "virtual_machine \<Rightarrow> nat \<Rightarrow> fdt_step" where
  "build_core_node vm idx blob = hart_by_id vm (int idx) (\<lambda>hart_ptr.
     rbind (fdt_begin_node (''core'' @ decimal (hart_id hart_ptr)) blob) (\<lambda>_ b.
       let (phandle, b1) = generate_phandle b in
       if idx < length (harts_phandles b1) then
         run_all [fdt_prop ''cpu'' (cells [word_of_int phandle]), fdt_end_node]
           (b1\<lparr>harts_phandles := (harts_phandles b1)[idx := phandle]\<rparr>)
       else Stop Host_fault))"

definition build_hart_node :: "virtual_machine \<Rightarrow> nat \<Rightarrow> fdt_step" where
  "build_hart_node vm idx blob = hart_by_id vm (int idx) (\<lambda>hart_ptr.
     rbind (run_all
       [fdt_begin_node (''cpu@'' @ decimal (hart_id hart_ptr)),
        \<lambda>b. fdt_prop ''phandle'' (cells [word_of_int (harts_phandles b ! idx)]) b,
        fdt_prop ''device_type'' (c_string ''cpu''),
        fdt_prop ''status'' (c_string ''okay''),
        fdt_prop ''compatible'' (c_string ''riscv''),
        fdt_prop ''riscv,isa'' (c_string ''rv32ima''),
        fdt_prop ''mmu-type'' (c_string ''riscv,sv32''),
        fdt_prop ''reg'' (cells [word_of_int (hart_id hart_ptr)]),
        fdt_begin_node ''interrupt-controller'',
        fdt_prop ''#interrupt-cells'' (cells [1]),
        fdt_prop ''interrupt-controller'' []] blob) (\<lambda>_ b.
       let (phandle, b1) = generate_phandle b in
       if idx < length (hart_interrupt_controllers_phandles b1) then
         run_all
           [fdt_prop ''phandle'' (cells [word_of_int phandle]),
            fdt_prop ''compatible'' (c_string ''riscv,cpu-intc''),
            fdt_end_node, fdt_end_node]
           (b1\<lparr>hart_interrupt_controllers_phandles := (hart_interrupt_controllers_phandles b1)[idx := phandle]\<rparr>)
       else Stop Host_fault))"

definition CLINT_TIMEBASE_FREQUENCY :: u32 where
  "CLINT_TIMEBASE_FREQUENCY = 10000000"

definition build_cpu_fdt_node :: "virtual_machine \<Rightarrow> fdt_step" where
  "build_cpu_fdt_node vm = run_all (
     [fdt_begin_node ''cpus'',
      fdt_prop ''#address-cells'' (cells [1]),
      fdt_prop ''#size-cells'' (cells [0]),
      fdt_prop ''timebase-frequency'' (cells [CLINT_TIMEBASE_FREQUENCY]),
      fdt_begin_node ''cpu-map'',
      fdt_begin_node ''cluster0''] @
     map (build_core_node vm) [0..<nat (nr_harts vm)] @
     [fdt_end_node, fdt_end_node] @
     map (build_hart_node vm) [0..<nat (nr_harts vm)] @
     [fdt_end_node])"

text \<open>Two interrupts per hart, as pairs of the phandle of its interrupt controller and a number.\<close>

definition interrupt_extended :: "virtual_machine \<Rightarrow> u32 \<Rightarrow> u32 \<Rightarrow> fdt_build_blob \<Rightarrow> u8 list" where
  "interrupt_extended vm first second blob =
     concat (map (\<lambda>idx. let phandle = word_of_int (hart_interrupt_controllers_phandles blob ! idx) in
       cells [phandle, first, phandle, second]) [0..<nat (nr_harts vm)])"

text \<open>
  The local array has room for \<open>MAX_NR_HARTS\<close> harts; a negative number of harts makes the length of
  the property larger than any buffer.
\<close>

definition put_interrupt_extended :: "virtual_machine \<Rightarrow> u32 \<Rightarrow> u32 \<Rightarrow> fdt_step" where
  "put_interrupt_extended vm first second blob =
     (if nr_harts vm < 0 then Stop Assertion
      else if nr_harts vm \<le> int MAX_NR_HARTS
      then fdt_prop ''interrupts-extended'' (interrupt_extended vm first second blob) blob
      else Stop Host_fault)"

definition build_clint_fdt_node :: "virtual_machine \<Rightarrow> clint_state \<Rightarrow> fdt_step" where
  "build_clint_fdt_node vm clint = run_all
     [fdt_begin_node (''clint@'' @ hex (clint_base clint)),
      fdt_prop ''reg'' (cells [0, clint_base clint, 0, clint_size clint]),
      fdt_prop ''compatible'' (c_string ''riscv,clint0''),
      put_interrupt_extended vm 3 7,
      fdt_end_node]"

definition build_plic_fdt_node :: "virtual_machine \<Rightarrow> plic_state \<Rightarrow> fdt_step" where
  "build_plic_fdt_node vm plic = run_all
     [fdt_begin_node (''plic@'' @ hex (plic_base plic)),
      fdt_prop ''phandle'' (cells [word_of_int (phandle plic)]),
      fdt_prop ''compatible'' (c_string ''riscv,plic0''),
      fdt_prop ''interrupt-controller'' [],
      fdt_prop ''#interrupt-cells'' (cells [1]),
      fdt_prop ''#address-cells'' (cells [0]),
      fdt_prop ''riscv,ndev'' (cells [of_nat PLIC_NR_SOURCES - 1]),
      fdt_prop ''reg'' (cells [0, plic_base plic, 0, plic_size plic]),
      put_interrupt_extended vm 0xb 9,
      fdt_end_node]"

definition plic_reserve_phandle :: "plic_state \<Rightarrow> fdt_build_blob \<Rightarrow> plic_state \<times> fdt_build_blob" where
  "plic_reserve_phandle plic blob = (let (ph, b) = generate_phandle blob in (plic\<lparr>phandle := ph\<rparr>, b))"

definition build_uart_fdt_node :: "plic_state \<Rightarrow> fdt_step" where
  "build_uart_fdt_node plic = run_all
     [fdt_begin_node (''uart@'' @ hex UART_16550_BASE),
      fdt_prop ''interrupts'' (cells [of_nat PLIC_IRQ_UART0]),
      fdt_prop ''interrupt-parent'' (cells [word_of_int (phandle plic)]),
      fdt_prop ''clock-frequency'' (cells [0x00384000]),
      fdt_prop ''reg-shift'' (cells [0]),
      fdt_prop ''reg-io-width'' (cells [1]),
      fdt_prop ''compatible'' (c_string ''ns16550a''),
      fdt_prop ''reg'' (cells [0, UART_16550_BASE, 0, 0x100]),
      fdt_end_node]"

abbreviation syscon_base :: u32 where "syscon_base \<equiv> 0x00400000"
abbreviation syscon_size :: u32 where "syscon_size \<equiv> 0x1000"

definition build_syscon_fdt_node :: fdt_step where
  "build_syscon_fdt_node = run_all
     [fdt_begin_node (''test@'' @ hex syscon_base),
      fdt_prop ''compatible'' (c_string ''sifive,test0''),
      fdt_prop ''reg'' (cells [0, syscon_base, 0, syscon_size]),
      fdt_end_node]"

definition build_soc_fdt_node :: "virtual_machine \<Rightarrow> clint_state \<Rightarrow> plic_state \<Rightarrow> fdt_step" where
  "build_soc_fdt_node vm clint plic = run_all
     [fdt_begin_node ''soc'',
      fdt_prop ''#address-cells'' (cells [2]),
      fdt_prop ''#size-cells'' (cells [2]),
      fdt_prop ''compatible'' (c_string ''simple-bus''),
      fdt_prop ''ranges'' [],
      build_clint_fdt_node vm clint,
      build_plic_fdt_node vm plic,
      build_syscon_fdt_node,
      fdt_end_node]"

definition build_chosen_fdt_node :: "virtual_machine \<Rightarrow> (string \<Rightarrow> int) \<Rightarrow> fdt_step" where
  "build_chosen_fdt_node vm image_file_size blob =
     ini_need vm ''image'' ''bootarg'' (\<lambda>bootarg.
       run_all (
         [fdt_begin_node ''chosen''] @
         (case (ini_config vm ''image'' ''initrd'', ini_config vm ''image'' ''initrd_load_base'') of
            (Some initrd_path, Some initrd_load_base_string) \<Rightarrow>
              (let initrd_start = word_of_int (strtol initrd_load_base_string 16);
                   initrd_end = initrd_start + word_of_int (image_file_size initrd_path) in
               [fdt_prop ''linux,initrd-end'' (cells [initrd_end]),
                fdt_prop ''linux,initrd-start'' (cells [initrd_start])])
          | _ \<Rightarrow> []) @
         [fdt_prop ''bootargs'' (c_string bootarg),
          fdt_prop ''stdout-path'' (c_string (''/uart@'' @ hex 0x10000000)),
          fdt_end_node]) blob)"

abbreviation ZELDA_ROM_BASE :: int where "ZELDA_ROM_BASE \<equiv> 0"
abbreviation ZELDA_ROM_MIN_SIZE :: int where "ZELDA_ROM_MIN_SIZE \<equiv> 0x400000"
abbreviation ZELDA_DTB_ADDRESS :: int where "ZELDA_DTB_ADDRESS \<equiv> 0x1000"
abbreviation ZELDA_DTB_MAX_SIZE :: u32 where "ZELDA_DTB_MAX_SIZE \<equiv> 0x2000"
abbreviation ZELDA_BOOT_INFO_ADDRESS :: int where "ZELDA_BOOT_INFO_ADDRESS \<equiv> 0x3000"
abbreviation ZELDA_BOOT_INFO_MAGIC :: u32 where "ZELDA_BOOT_INFO_MAGIC \<equiv> 0x5a424f49"

text \<open>A copy of bytes into a host allocation.\<close>

definition host_memcpy :: "int \<Rightarrow> u8 list \<Rightarrow> host_memory \<Rightarrow> host_memory option" where
  "host_memcpy off bytes mem =
     (if 0 \<le> off \<and> nat off + length bytes \<le> mem_size mem
      then Some (mem\<lparr>mem_bytes := (\<lambda>i. if nat off \<le> i \<and> i < nat off + length bytes then bytes ! (i - nat off) else mem_bytes mem i)\<rparr>)
      else None)"

text \<open>\<open>fdt_init\<close> up to the finished blob; dumping it to a file has no effect on the machine.\<close>

definition build_device_tree :: "virtual_machine \<Rightarrow> (string \<Rightarrow> int) \<Rightarrow> clint_state \<Rightarrow> plic_state \<Rightarrow> fdt_step" where
  "build_device_tree vm image_file_size clint plic = run_all
     [fdt_begin_node '''',
      fdt_prop ''#address-cells'' (cells [2]),
      fdt_prop ''#size-cells'' (cells [2]),
      fdt_prop ''compatible'' (c_string ''riscv-virtio''),
      fdt_prop ''model'' (c_string ''riscv-virtio,qemu''),
      build_bootrom_fdt_node vm,
      build_chosen_fdt_node vm image_file_size,
      build_uart_fdt_node plic,
      build_memory_fdt_node vm,
      build_cpu_fdt_node vm,
      build_soc_fdt_node vm clint plic,
      fdt_end_node,
      fdt_end]"

definition fdt_init :: "virtual_machine \<Rightarrow> (string \<Rightarrow> int) \<Rightarrow> clint_state \<Rightarrow> plic_state \<Rightarrow> (fdt_build_blob, plic_state \<times> host_memory) result" where
  "fdt_init vm image_file_size clint plic =
     rbind (fdt_build_init 8192 1024) (\<lambda>_ b0.
       let (plic', b1) = plic_reserve_phandle plic b0 in
       rbind (build_device_tree vm image_file_size clint plic' b1) (\<lambda>_ b.
         rassert (buffer_iptr b \<le> ZELDA_DTB_MAX_SIZE)
           (rassert (bootrom_base vm = ZELDA_ROM_BASE \<and> ZELDA_ROM_MIN_SIZE \<le> bootrom_size vm)
             (case host_memcpy (ZELDA_DTB_ADDRESS - bootrom_base vm) (finished_blob b) (bootrom_host vm) of
                None \<Rightarrow> Stop Host_fault
              | Some mem \<Rightarrow> Ret (plic', mem) b))))"

section \<open>The number of harts\<close>

text \<open>Every property puts its name in the strings block, also one that is there already.\<close>

definition names_used :: "fdt_build_blob \<Rightarrow> nat \<Rightarrow> (fdt_build_blob, 'a) result \<Rightarrow> bool" where
  "names_used b k r \<longleftrightarrow> (case r of
     Ret _ b' \<Rightarrow> string_buffer_iptr b \<le> string_buffer_size b \<longrightarrow>
       unat (string_buffer_iptr b) + k \<le> unat (string_buffer_iptr b') \<and> string_buffer_iptr b' \<le> string_buffer_size b' \<and>
       string_buffer_size b' = string_buffer_size b
   | Trap _ \<Rightarrow> False
   | Stop _ \<Rightarrow> True)"

definition uses_names :: "fdt_step \<Rightarrow> nat \<Rightarrow> bool" where
  "uses_names f k \<longleftrightarrow> (\<forall>b. names_used b k (f b))"

lemma names_used_simps [simp]:
  "names_used b k (Stop e)" "names_used b k (rassert P r) = (P \<longrightarrow> names_used b k r)"
  by (simp_all add: names_used_def rassert_def)

lemma names_used_Ret:
  "string_buffer_iptr b' = string_buffer_iptr b \<Longrightarrow> string_buffer_size b' = string_buffer_size b \<Longrightarrow> names_used b 0 (Ret u b')"
  by (simp add: names_used_def)

lemma names_used_bind:
  assumes "names_used b k r" and "\<And>a b'. names_used b' m (f a b')"
  shows "names_used b (k + m) (rbind r f)"
proof (cases r)
  case (Ret a b1)
  then show ?thesis using assms(1) assms(2) [of b1 a] by (cases "f a b1") (auto simp: names_used_def)
qed (use assms(1) in \<open>simp_all add: names_used_def\<close>)

lemma uses_names_nil: "uses_names (run_all []) 0"
  by (simp add: uses_names_def names_used_Ret)

lemma uses_names_cons:
  assumes "uses_names f k" and "uses_names (run_all fs) m"
  shows "uses_names (run_all (f # fs)) (k + m)"
  using assms unfolding uses_names_def run_all.simps by (intro allI names_used_bind) auto

lemma run_all_append: "run_all (fs @ gs) b = rbind (run_all fs b) (\<lambda>_. run_all gs)"
proof (induction fs arbitrary: b)
  case (Cons f fs)
  then show ?case by (cases "f b") simp_all
qed simp

lemma uses_names_append:
  assumes "uses_names (run_all fs) k" and "uses_names (run_all gs) m"
  shows "uses_names (run_all (fs @ gs)) (k + m)"
  using assms unfolding uses_names_def run_all_append by (intro allI names_used_bind) auto

lemma uses_names_map:
  assumes "\<And>x. uses_names (f x) k"
  shows "uses_names (run_all (map f xs)) (length xs * k)"
proof (induction xs)
  case (Cons x xs)
  show ?case using uses_names_cons [OF assms [of x] Cons] unfolding list.map length_Cons mult_Suc .
qed (simp add: uses_names_def names_used_Ret)

lemma uses_names_put: "uses_names (put32 off w) 0" "uses_names (put_bytes off bs) 0" "uses_names (advance_iptr n) 0"
  by (auto simp: uses_names_def put32_def put_bytes_def advance_iptr_def names_used_Ret split: option.split)

lemma uses_names_run0: "list_all (\<lambda>f. uses_names f 0) fs \<Longrightarrow> uses_names (run_all fs) 0"
proof (induction fs)
  case (Cons f fs)
  then have "uses_names (run_all (f # fs)) (0 + 0)" by (intro uses_names_cons) simp_all
  then show ?case unfolding add_0 .
qed (simp add: uses_names_def names_used_Ret)

lemma uses_names_node: "uses_names (fdt_begin_node n) 0" "uses_names (fdt_token w) 0" "uses_names fdt_end_node 0"
proof -
  have run: "names_used b 0 (run_all fs b)" if "list_all (\<lambda>f. uses_names f 0) fs" for fs b
    using uses_names_run0 [OF that] by (simp add: uses_names_def)
  show "uses_names (fdt_begin_node n) 0"
    unfolding uses_names_def fdt_begin_node_def Let_def names_used_simps by (intro allI impI run) (simp add: uses_names_put)
  show token: "uses_names (fdt_token w) 0" for w
    unfolding uses_names_def fdt_token_def Let_def names_used_simps by (intro allI impI run) (simp add: uses_names_put)
  show "uses_names fdt_end_node 0" unfolding fdt_end_node_def by (rule token)
qed

lemma uses_names_put_name:
  assumes "length n < 2 ^ 31"
  shows "uses_names (put_prop_name n) (length n + 1)"
  unfolding uses_names_def put_prop_name_def Let_def names_used_simps
proof (intro allI impI)
  fix b :: fdt_build_blob
  let ?w = "of_nat (length n) + 1 :: u32"
  assume a: "?w < string_buffer_size b - string_buffer_iptr b"
  have w: "unat ?w = length n + 1" using assms by (simp add: unat_word_ariths unat_of_nat)
  have "unat (string_buffer_iptr b + ?w) = unat (string_buffer_iptr b) + (length n + 1) \<and>
      string_buffer_iptr b + ?w \<le> string_buffer_size b" if le: "string_buffer_iptr b \<le> string_buffer_size b"
  proof -
    have "unat (string_buffer_size b) < 2 ^ LENGTH(32)" by (rule unsigned_less)
    moreover have "length n + 1 < unat (string_buffer_size b) - unat (string_buffer_iptr b)"
      using a le w by (simp add: word_less_nat_alt unat_sub)
    ultimately show ?thesis using w by (simp add: unat_word_ariths word_le_nat_alt)
  qed
  then show "names_used b (length n + 1) (case memcpy_to (string_buffer b) (unat (string_buffer_iptr b)) (take (unat ?w) (c_string n)) of
      None \<Rightarrow> Stop Host_fault
    | Some strs \<Rightarrow> Ret () (b\<lparr>string_buffer := strs, string_buffer_iptr := string_buffer_iptr b + ?w\<rparr>))"
    by (auto simp: names_used_def split: option.split)
qed

lemma uses_names_prop:
  assumes "length n < 2 ^ 31"
  shows "uses_names (fdt_prop n v) (length n + 1)"
proof -
  have "uses_names (run_all ([put32 a x, put32 a1 x1, put32 a2 x2, put_bytes a3 bs, advance_iptr r] @ [put_prop_name n]))
      (0 + (length n + 1 + 0))" for a x a1 x1 a2 x2 a3 bs r
    by (intro uses_names_append uses_names_run0 uses_names_cons uses_names_nil uses_names_put_name assms) (simp add: uses_names_put)
  then show ?thesis unfolding uses_names_def fdt_prop_def Let_def names_used_simps by auto
qed

lemma names_used_le: "names_used b k r \<Longrightarrow> m \<le> k \<Longrightarrow> names_used b m r"
  by (auto simp: names_used_def split: result.splits)

lemma uses_names_le: "uses_names f k \<Longrightarrow> m \<le> k \<Longrightarrow> uses_names f m"
  unfolding uses_names_def by (blast intro: names_used_le)

lemmas uses_names_rules = uses_names_cons uses_names_append uses_names_map uses_names_nil uses_names_node uses_names_prop

lemma static_nodes:
  "uses_names (build_memory_fdt_node vm) 16" "uses_names (build_uart_fdt_node plic) 82" "uses_names build_syscon_fdt_node 15"
  unfolding build_memory_fdt_node_def build_uart_fdt_node_def build_syscon_fdt_node_def
  by (rule uses_names_le, (rule uses_names_rules | simp)+)+

lemma names_used_need:
  "(\<And>s. names_used b k (f s)) \<Longrightarrow> names_used b k (ini_need vm sec key f)"
  "(\<And>h. names_used b k (g h)) \<Longrightarrow> names_used b k (hart_by_id vm i g)"
  by (simp_all add: ini_need_def hart_by_id_def split: option.split)

lemma names_used_run: "uses_names (run_all fs) k \<Longrightarrow> names_used b k (run_all fs b)"
  by (simp add: uses_names_def)

text \<open>Drawing a phandle leaves the strings block alone.\<close>

lemma names_used_after:
  assumes "uses_names f k" and "string_buffer_iptr b' = string_buffer_iptr b" and "string_buffer_size b' = string_buffer_size b"
  shows "names_used b k (f b')"
proof -
  have "names_used b' k (f b')" using assms(1) by (simp add: uses_names_def)
  then show ?thesis unfolding names_used_def assms(2,3) .
qed

lemma bootrom_node: "uses_names (build_bootrom_fdt_node vm) 27"
  unfolding uses_names_def build_bootrom_fdt_node_def Let_def
  by (intro allI names_used_need names_used_run) (rule uses_names_le, (rule uses_names_rules | simp)+)

lemma uses_names_initrd:
  "uses_names (run_all (case x of (Some p, Some q) \<Rightarrow> [fdt_prop ''linux,initrd-end'' (f p q), fdt_prop ''linux,initrd-start'' (g p q)] | _ \<Rightarrow> [])) 0"
proof -
  have "uses_names (run_all [fdt_prop ''linux,initrd-end'' (f p q), fdt_prop ''linux,initrd-start'' (g p q)]) 0" for p q
    by (rule uses_names_le, (rule uses_names_rules | simp)+)
  then show ?thesis by (auto intro: uses_names_nil split: prod.split option.split)
qed

lemma chosen_node: "uses_names (build_chosen_fdt_node vm image_file_size) 21"
  unfolding uses_names_def build_chosen_fdt_node_def Let_def
  by (intro allI names_used_need names_used_run)
    (rule uses_names_le, (rule uses_names_initrd uses_names_rules | simp)+)

lemma names_used_guard:
  assumes "uses_names (run_all fs) k" and "string_buffer_iptr b' = string_buffer_iptr b" and "string_buffer_size b' = string_buffer_size b"
  shows "names_used b k (if P then run_all fs b' else Stop e)"
  using names_used_after [OF assms] by simp

lemma core_node: "uses_names (build_core_node vm i) 4"
  unfolding uses_names_def build_core_node_def generate_phandle_def Let_def prod.case
  by (intro allI names_used_need, rule names_used_le, rule names_used_bind,
      rule uses_names_node [unfolded uses_names_def, rule_format], rule names_used_guard)
    (rule uses_names_rules | simp)+

lemma uses_names_prop_of:
  assumes "length n < 2 ^ 31"
  shows "uses_names (\<lambda>b. fdt_prop n (v b) b) (length n + 1)"
  using uses_names_prop [OF assms] by (simp add: uses_names_def)

lemma hart_node: "uses_names (build_hart_node vm i) 118"
  unfolding uses_names_def build_hart_node_def generate_phandle_def Let_def prod.case
  by (intro allI names_used_need, rule names_used_le, rule names_used_bind, rule names_used_run)
    (rule names_used_guard uses_names_prop_of uses_names_rules | simp)+

lemma cpu_node: "uses_names (build_cpu_fdt_node vm) (46 + 122 * nat (nr_harts vm))"
  unfolding build_cpu_fdt_node_def
  by (rule uses_names_le, (rule uses_names_rules core_node hart_node | simp)+)

lemma interrupts_prop: "uses_names (put_interrupt_extended vm x y) 20"
proof -
  have "uses_names (\<lambda>b. fdt_prop ''interrupts-extended'' (interrupt_extended vm x y b) b) 20"
    by (rule uses_names_le, rule uses_names_prop_of) simp_all
  then show ?thesis by (simp add: uses_names_def put_interrupt_extended_def)
qed

lemma device_nodes:
  "uses_names (build_clint_fdt_node vm clint) 35" "uses_names (build_plic_fdt_node vm plic) 107"
  unfolding build_clint_fdt_node_def build_plic_fdt_node_def
  by (rule uses_names_le, (rule uses_names_rules interrupts_prop | simp)+)+

lemma soc_node: "uses_names (build_soc_fdt_node vm clint plic) 202"
  unfolding build_soc_fdt_node_def
  by (rule uses_names_le, (rule uses_names_rules device_nodes static_nodes | simp)+)

lemma uses_names_end: "uses_names fdt_end 0"
proof -
  have run: "uses_names (run_all [put32 a x, put32 b y, put32 c z, put32 d w,
      \<lambda>b. rassert (string_buffer_iptr b \<le> buffer_size b - buffer_iptr b)
        (put_bytes (unat (buffer_iptr b)) (take (unat (string_buffer_iptr b)) (string_buffer b)) b),
      \<lambda>b. advance_iptr (string_buffer_iptr b) b]) 0" for a b c d x y z w
    using uses_names_put by (intro uses_names_run0) (simp add: uses_names_def)
  have "names_used b (0 + 0) (fdt_end b)" for b
    unfolding fdt_end_def
    by (rule names_used_bind, rule uses_names_node(2) [unfolded uses_names_def, rule_format])
      (auto simp del: run_all.simps split: option.split intro: names_used_run [OF run])
  then show ?thesis by (simp add: uses_names_def)
qed

lemma device_tree_names: "uses_names (build_device_tree vm image_file_size clint plic) (438 + 122 * nat (nr_harts vm))"
  unfolding build_device_tree_def
  by (rule uses_names_le, (rule uses_names_rules bootrom_node chosen_node static_nodes cpu_node soc_node uses_names_end | simp)+)


text \<open>
  C40. The strings block of 1024 bytes bounds the number of harts: with five or more, \<open>fdt_init\<close> never
  returns, although the interrupt controllers and the phandle arrays have room for \<open>MAX_NR_HARTS\<close>.
\<close>

theorem device_tree_hart_limit:
  assumes "4 < nr_harts vm"
  shows "\<exists>e. fdt_init vm image_file_size clint plic = Stop e"
proof -
  obtain b0 where b0: "fdt_build_init 8192 1024 = Ret () b0" "fdt_image b0 initial_header []" "unat (string_buffer_size b0) = 1024"
    using fdt_build_init_spec [of 8192 1024] by auto
  let ?b1 = "snd (plic_reserve_phandle plic b0)" and ?plic = "fst (plic_reserve_phandle plic b0)"
  have b1: "string_buffer_iptr ?b1 = 0" "string_buffer_size ?b1 = string_buffer_size b0"
    using b0(2) by (simp_all add: plic_reserve_phandle_def generate_phandle_def fdt_image_def unsigned_eq_0_iff)
  let ?r = "build_device_tree vm image_file_size clint ?plic ?b1"
  have "names_used ?b1 (438 + 122 * nat (nr_harts vm)) ?r"
    using device_tree_names by (simp add: uses_names_def)
  moreover have "1024 < 438 + 122 * nat (nr_harts vm)" using assms by linarith
  ultimately have "\<exists>e. ?r = Stop e"
    using b1 b0(3) by (auto simp: names_used_def word_le_nat_alt split: result.splits)
  then show ?thesis
    using b0(1) by (auto simp: fdt_init_def split: prod.split)
qed

text \<open>C40 for a machine with five harts, 512 bytes of memory and a configuration that names the ROM.\<close>

theorem device_tree_hart_limit_witness:
  "\<exists>e. fdt_init \<lparr>nr_harts = 5, boot_hart = 0, harts = map (\<lambda>i. zeroed_hart\<lparr>hart_id := int i\<rparr>) [0..<5],
      main_mem_size = 512, main_mem_base = 0x80000000, main_mem_host = \<lparr>mem_bytes = \<lambda>_. 0, mem_size = 512\<rparr>,
      bootrom_size = 0x400000, bootrom_base = 0, bootrom_host = \<lparr>mem_bytes = \<lambda>_. 0, mem_size = 0x400000\<rparr>,
      ini_config = (\<lambda>sec key. if key = ''rom_size'' then Some ''0x400000'' else Some ''0'')\<rparr>
    (\<lambda>_. 0)
    \<lparr>clint_base = 0x2000000, clint_size = 0x10000, clint_nr_harts = 5, mtime = 0,
      mtimecmp = replicate 5 (- 1), msip = replicate 5 0\<rparr>
    \<lparr>plic_base = 0xc000000, plic_size = 0x4000000, nr_contexts = 10, phandle = 0, priority = [], asserted = 0,
      pending = 0, claimed = 0, enable = [], threshold = []\<rparr> = Stop e"
  by (rule device_tree_hart_limit) simp

end
