(* ===== verification/Tree_Contents.thy ===== *)
theory Tree_Contents
  imports Device_Tree
begin

text \<open>
  What the device tree of a machine says: the abstract tree, and the proof that \<open>fdt_init\<close> leaves its
  flattening in the boot rom. The builder draws phandles while it writes, so the proof separates the
  phandle fields of the blob (its view) from the two buffers.
\<close>

section \<open>The tree\<close>

datatype dt_node = Dt_node string "(string \<times> u8 list) list" "dt_node list"

primrec flatten_dt :: "dt_node \<Rightarrow> fdt_item list" where
  "flatten_dt (Dt_node n ps cs) = Begin_node n # map (\<lambda>(p, v). Property p v) ps @ concat (map flatten_dt cs) @ [End_node]"

definition reg64 :: "u32 \<Rightarrow> u32 \<Rightarrow> string \<times> u8 list" where
  "reg64 base len = (''reg'', cells [0, base, 0, len])"

definition bootrom_tree :: "u32 \<Rightarrow> u32 \<Rightarrow> dt_node" where
  "bootrom_tree base len = Dt_node (''bootrom@'' @ hex base)
     [(''device_type'', c_string ''bootrom''), (''compatible'', c_string ''zelda 16MB flash''), reg64 base len] []"

definition chosen_tree :: "(u32 \<times> u32) option \<Rightarrow> string \<Rightarrow> dt_node" where
  "chosen_tree initrd bootarg = Dt_node ''chosen''
     ((case initrd of None \<Rightarrow> [] | Some (start, stop) \<Rightarrow> [(''linux,initrd-end'', cells [stop]), (''linux,initrd-start'', cells [start])]) @
      [(''bootargs'', c_string bootarg), (''stdout-path'', c_string (''/uart@'' @ hex 0x10000000))]) []"

definition uart_tree :: "u32 \<Rightarrow> dt_node" where
  "uart_tree plic_ph = Dt_node (''uart@'' @ hex UART_16550_BASE)
     [(''interrupts'', cells [of_nat PLIC_IRQ_UART0]), (''interrupt-parent'', cells [plic_ph]),
      (''clock-frequency'', cells [0x00384000]), (''reg-shift'', cells [0]), (''reg-io-width'', cells [1]),
      (''compatible'', c_string ''ns16550a''), reg64 UART_16550_BASE 0x100] []"

definition memory_tree :: "u32 \<Rightarrow> u32 \<Rightarrow> dt_node" where
  "memory_tree base len = Dt_node (''memory@'' @ hex base) [(''device_type'', c_string ''memory''), reg64 base len] []"

definition core_tree :: "int \<Rightarrow> u32 \<Rightarrow> dt_node" where
  "core_tree hid ph = Dt_node (''core'' @ decimal hid) [(''cpu'', cells [ph])] []"

definition hart_tree :: "int \<Rightarrow> u32 \<Rightarrow> u32 \<Rightarrow> dt_node" where
  "hart_tree hid ph intc_ph = Dt_node (''cpu@'' @ decimal hid)
     [(''phandle'', cells [ph]), (''device_type'', c_string ''cpu''), (''status'', c_string ''okay''),
      (''compatible'', c_string ''riscv''), (''riscv,isa'', c_string ''rv32ima''), (''mmu-type'', c_string ''riscv,sv32''),
      (''reg'', cells [word_of_int hid])]
     [Dt_node ''interrupt-controller''
        [(''#interrupt-cells'', cells [1]), (''interrupt-controller'', []), (''phandle'', cells [intc_ph]),
         (''compatible'', c_string ''riscv,cpu-intc'')] []]"

text \<open>The interrupt controller has phandle 1, then come the harts and their local controllers.\<close>

definition hart_phandle :: "nat \<Rightarrow> u32" where
  "hart_phandle i = of_nat (2 + i)"

definition intc_phandle :: "nat \<Rightarrow> nat \<Rightarrow> u32" where
  "intc_phandle n i = of_nat (2 + n + i)"

definition cpus_tree :: "int list \<Rightarrow> dt_node" where
  "cpus_tree ids = (let n = length ids in Dt_node ''cpus''
     [(''#address-cells'', cells [1]), (''#size-cells'', cells [0]), (''timebase-frequency'', cells [CLINT_TIMEBASE_FREQUENCY])]
     (Dt_node ''cpu-map'' [] [Dt_node ''cluster0'' [] (map (\<lambda>i. core_tree (ids ! i) (hart_phandle i)) [0..<n])] #
      map (\<lambda>i. hart_tree (ids ! i) (hart_phandle i) (intc_phandle n i)) [0..<n]))"

definition interrupts_of :: "nat \<Rightarrow> u32 \<Rightarrow> u32 \<Rightarrow> string \<times> u8 list" where
  "interrupts_of n first second =
     (''interrupts-extended'', concat (map (\<lambda>i. cells [intc_phandle n i, first, intc_phandle n i, second]) [0..<n]))"

definition soc_tree :: "nat \<Rightarrow> clint_state \<Rightarrow> plic_state \<Rightarrow> dt_node" where
  "soc_tree n clint plic = Dt_node ''soc''
     [(''#address-cells'', cells [2]), (''#size-cells'', cells [2]), (''compatible'', c_string ''simple-bus''), (''ranges'', [])]
     [Dt_node (''clint@'' @ hex (clint_base clint))
        [reg64 (clint_base clint) (clint_size clint), (''compatible'', c_string ''riscv,clint0''), interrupts_of n 3 7] [],
      Dt_node (''plic@'' @ hex (plic_base plic))
        [(''phandle'', cells [1]), (''compatible'', c_string ''riscv,plic0''), (''interrupt-controller'', []),
         (''#interrupt-cells'', cells [1]), (''#address-cells'', cells [0]), (''riscv,ndev'', cells [of_nat PLIC_NR_SOURCES - 1]),
         reg64 (plic_base plic) (plic_size plic), interrupts_of n 0xb 9] [],
      Dt_node (''test@'' @ hex syscon_base) [(''compatible'', c_string ''sifive,test0''), reg64 syscon_base syscon_size] []]"

text \<open>The entries of the configuration that the tree depends on.\<close>

definition initrd_of :: "virtual_machine \<Rightarrow> (string \<Rightarrow> int) \<Rightarrow> (u32 \<times> u32) option" where
  "initrd_of vm image_file_size = (case (ini_config vm ''image'' ''initrd'', ini_config vm ''image'' ''initrd_load_base'') of
     (Some path, Some base) \<Rightarrow>
       Some (word_of_int (strtol base 16), word_of_int (strtol base 16) + word_of_int (image_file_size path))
   | _ \<Rightarrow> None)"

definition device_tree :: "virtual_machine \<Rightarrow> (string \<Rightarrow> int) \<Rightarrow> clint_state \<Rightarrow> plic_state \<Rightarrow> dt_node" where
  "device_tree vm image_file_size clint plic = Dt_node ''''
     [(''#address-cells'', cells [2]), (''#size-cells'', cells [2]), (''compatible'', c_string ''riscv-virtio''),
      (''model'', c_string ''riscv-virtio,qemu'')]
     [bootrom_tree (word_of_int (strtol (the (ini_config vm ''rom'' ''rom_start'')) 16))
        (word_of_int (strtol (the (ini_config vm ''rom'' ''rom_size'')) 16)),
      chosen_tree (initrd_of vm image_file_size) (the (ini_config vm ''image'' ''bootarg'')),
      uart_tree 1,
      memory_tree (word_of_int (main_mem_base vm)) (word_of_int (main_mem_size vm)),
      cpus_tree (map hart_id (harts vm)),
      soc_tree (length (harts vm)) clint plic]"

section \<open>Phandles aside\<close>

type_synonym phandles = "int list \<times> int list \<times> int"

definition view :: "fdt_build_blob \<Rightarrow> phandles" where
  "view b = (harts_phandles b, hart_interrupt_controllers_phandles b, phandle_generator b)"

definition with_view :: "phandles \<Rightarrow> fdt_build_blob \<Rightarrow> fdt_build_blob" where
  "with_view v b = (case v of (hp, ip, g) \<Rightarrow>
     b\<lparr>harts_phandles := hp, hart_interrupt_controllers_phandles := ip, phandle_generator := g\<rparr>)"

lemma view_simps [simp]:
  "view (with_view v b) = v" "with_view (view b) b = b" "with_view w (with_view v b) = with_view w b"
  by (simp_all add: view_def with_view_def split: prod.split)

lemma with_view_sel [simp]:
  "buffer (with_view v b) = buffer b" "buffer_size (with_view v b) = buffer_size b" "buffer_iptr (with_view v b) = buffer_iptr b"
  "string_buffer (with_view v b) = string_buffer b" "string_buffer_size (with_view v b) = string_buffer_size b"
  "string_buffer_iptr (with_view v b) = string_buffer_iptr b"
  by (simp_all add: with_view_def split: prod.split)

lemma with_view_update [simp]:
  "(with_view v b)\<lparr>buffer := x\<rparr> = with_view v (b\<lparr>buffer := x\<rparr>)"
  "(with_view v b)\<lparr>buffer_iptr := y\<rparr> = with_view v (b\<lparr>buffer_iptr := y\<rparr>)"
  "(with_view v b)\<lparr>string_buffer := x, string_buffer_iptr := y\<rparr> = with_view v (b\<lparr>string_buffer := x, string_buffer_iptr := y\<rparr>)"
  by (simp_all add: with_view_def split: prod.split)

text \<open>A step that neither reads nor writes phandles, and does not unwind.\<close>

definition blind :: "fdt_step \<Rightarrow> bool" where
  "blind f \<longleftrightarrow> (\<forall>v b. f (with_view v b) = rmap (with_view v) (f b)) \<and> (\<forall>b t. f b \<noteq> Trap t)"

lemma blindD:
  "blind f \<Longrightarrow> f (with_view v b) = rmap (with_view v) (f b)" "blind f \<Longrightarrow> f b \<noteq> Trap t"
  unfolding blind_def by blast+

lemma blind_view: "blind f \<Longrightarrow> f b = Ret u b' \<Longrightarrow> view b' = view b"
  using blindD(1) [of f "view b" b] by simp (metis view_simps(1))

lemma blind_run:
  assumes "list_all blind fs"
  shows "blind (run_all fs)"
  using assms
proof (induction fs)
  case (Cons f fs)
  then have f: "blind f" and fs: "blind (run_all fs)" by simp_all
  have "rbind (f (with_view v b)) (\<lambda>_. run_all fs) = rmap (with_view v) (rbind (f b) (\<lambda>_. run_all fs))" for v b
    using blindD(1) [OF f, of v b] blindD(1) [OF fs, of v] by (cases "f b") simp_all
  moreover have "rbind (f b) (\<lambda>_. run_all fs) \<noteq> Trap t" for b t
    using blindD(2) [OF f, of b] blindD(2) [OF fs] by (cases "f b") auto
  ultimately show ?case by (simp add: blind_def)
qed (simp add: blind_def)

lemma blind_put: "blind (put32 off w)" "blind (put_bytes off bs)" "blind (advance_iptr n)" "blind (put_prop_name n')"
  by (auto simp: blind_def put32_def put_bytes_def advance_iptr_def put_prop_name_def Let_def rassert_def split: option.split)

text \<open>A step whose body depends on the buffers only.\<close>

lemma blind_body:
  assumes "\<And>b. blind (f b)" and "\<And>v b. f (with_view v b) = f b"
  shows "blind (\<lambda>b. f b b)"
  using assms by (simp add: blind_def)

lemma blind_assert: "blind f \<Longrightarrow> blind (\<lambda>b. rassert P (f b))"
  by (simp add: blind_def rassert_def)

lemma blind_token: "blind (fdt_token w)"
proof -
  have "blind (\<lambda>b. (\<lambda>b0 b. rassert (4 \<le> buffer_size b0 - buffer_iptr b0)
      (run_all [put32 (unat (buffer_iptr b0)) (BIG_ENDIAN32 w), advance_iptr 4] b)) b b)"
    by (rule blind_body) (auto intro!: blind_assert blind_run simp: blind_put simp del: run_all.simps)
  then show ?thesis by (simp add: fdt_token_def [abs_def] Let_def)
qed

lemma blind_begin: "blind (fdt_begin_node n)"
proof -
  have "blind (\<lambda>b. (\<lambda>b0 b. rassert (ALIGN32 (4 + of_nat (length n) + 1) 4 \<le> buffer_size b0 - buffer_iptr b0)
      (run_all [put32 (unat (buffer_iptr b0)) (BIG_ENDIAN32 FDT_BEGIN_NODE), put_bytes (unat (buffer_iptr b0) + 4) (chars n),
        advance_iptr (ALIGN32 (4 + of_nat (length n) + 1) 4)] b)) b b)"
    by (rule blind_body) (auto intro!: blind_assert blind_run simp: blind_put simp del: run_all.simps)
  then show ?thesis unfolding fdt_begin_node_def [abs_def] Let_def .
qed

lemma blind_prop: "blind (fdt_prop n v)"
proof -
  let ?len = "of_nat (length v) :: u32"
  have "blind (\<lambda>b. (\<lambda>b0 b. rassert (ALIGN32 (4 + 8 + ?len) 4 \<le> buffer_size b0 - buffer_iptr b0)
      (run_all [put32 (unat (buffer_iptr b0)) (BIG_ENDIAN32 FDT_PROP), put32 (unat (buffer_iptr b0) + 4) (BIG_ENDIAN32 ?len),
          put32 (unat (buffer_iptr b0) + 8) (BIG_ENDIAN32 (string_buffer_iptr b0)),
          put_bytes (unat (buffer_iptr b0) + 12) (take (unat ?len) v), advance_iptr (ALIGN32 (4 + 8 + ?len) 4),
          put_prop_name n] b)) b b)"
    by (rule blind_body) (auto intro!: blind_assert blind_run simp: blind_put simp del: run_all.simps)
  then show ?thesis unfolding fdt_prop_def [abs_def] Let_def .
qed

lemma blind_items: "blind (run_all (map put_item ts))"
proof (rule blind_run)
  have "blind (put_item t)" for t
    by (cases t) (simp_all add: blind_begin blind_prop blind_token fdt_end_node_def fdt_nop_def)
  then show "list_all blind (map put_item ts)" by (simp add: list_all_iff)
qed

lemma blind_end: "blind fdt_end"
proof -
  have tail: "blind (\<lambda>b. rassert (string_buffer_iptr b \<le> buffer_size b - buffer_iptr b)
        (put_bytes (unat (buffer_iptr b)) (take (unat (string_buffer_iptr b)) (string_buffer b)) b))"
      "blind (\<lambda>b. advance_iptr (string_buffer_iptr b) b)"
    by (auto simp: blind_def put_bytes_def advance_iptr_def rassert_def split: option.split)
  let ?hdr = "\<lambda>b0 off. run_all [put32 12 (BIG_ENDIAN32 (buffer_iptr b0)), put32 32 (BIG_ENDIAN32 (string_buffer_iptr b0)),
           put32 36 (BIG_ENDIAN32 (buffer_iptr b0 - LITTLE_ENDIAN32 off)),
           put32 4 (BIG_ENDIAN32 (buffer_iptr b0 + string_buffer_iptr b0)),
           \<lambda>b. rassert (string_buffer_iptr b \<le> buffer_size b - buffer_iptr b)
             (put_bytes (unat (buffer_iptr b)) (take (unat (string_buffer_iptr b)) (string_buffer b)) b),
           \<lambda>b. advance_iptr (string_buffer_iptr b) b]"
  have hdr: "blind (?hdr b0 off)" for b0 off by (rule blind_run) (simp add: blind_put tail)
  let ?rest = "\<lambda>b0 b. case get32 8 (buffer b0) of None \<Rightarrow> Stop Host_fault | Some off \<Rightarrow> ?hdr b0 off b"
  have rest: "blind (\<lambda>b. ?rest b b)"
  proof (rule blind_body [where f = ?rest])
    show "blind (?rest b0)" for b0 
    proof (cases "get32 8 (buffer b0)")
      case None
      then show ?thesis by (simp add: blind_def)
    next
      case (Some off)
      then show ?thesis using hdr by (simp del: run_all.simps)
    qed
  qed (simp only: with_view_sel)
  have "fdt_end = run_all [fdt_token FDT_END, \<lambda>b. ?rest b b]"
    unfolding fdt_end_def [abs_def] run_all.simps(2) [abs_def] rbind_run_nil by (rule refl)
  then show ?thesis using blind_run [of "[fdt_token FDT_END, \<lambda>b. ?rest b b]"] blind_token rest by simp
qed

section \<open>Steps as items\<close>

text \<open>A step that writes the items \<open>ts\<close> and leaves the phandles \<open>v\<close>.\<close>

definition writes :: "fdt_build_blob \<Rightarrow> (fdt_build_blob, unit) result \<Rightarrow> fdt_item list \<Rightarrow> phandles \<Rightarrow> bool" where
  "writes b r ts v \<longleftrightarrow> r = rmap (with_view v) (run_all (map put_item ts) b)"

lemma writes_items: "writes b (run_all (map put_item ts) b) ts (view b)"
  unfolding writes_def using blindD(1) [OF blind_items, of ts "view b" b] by simp

lemma writes_bind:
  assumes r: "writes b r ts v" and f: "\<And>b'. view b' = v \<Longrightarrow> writes b' (f b') us w"
  shows "writes b (rbind r (\<lambda>_. f)) (ts @ us) w"
proof (cases "run_all (map put_item ts) b")
  case (Ret u b1)
  have "f (with_view v b1) = rmap (with_view w) (run_all (map put_item us) (with_view v b1))"
    using f [of "with_view v b1"] by (simp add: writes_def)
  also have "\<dots> = rmap (with_view w) (run_all (map put_item us) b1)"
    unfolding blindD(1) [OF blind_items] by (cases "run_all (map put_item us) b1") simp_all
  finally show ?thesis using r Ret by (simp add: writes_def run_all_append)
qed (use r blindD(2) [OF blind_items] in \<open>simp_all add: writes_def run_all_append\<close>)

lemma writes_Nil: "view b = v \<Longrightarrow> writes b (run_all [] b) [] v"
  using writes_items [of b "[]"] by simp

lemma writes_item_cons:
  assumes "\<And>b'. view b' = view b \<Longrightarrow> writes b' (run_all fs b') us w"
  shows "writes b (run_all (put_item t # fs) b) (t # us) w"
  using writes_bind [of b "put_item t b" "[t]" "view b" "run_all fs" us w] writes_items [of b "[t]"] assms
  by (simp add: rbind_run_nil del: map_append)

lemma writes_run_append:
  assumes "writes b (run_all fs b) ts v" and "\<And>b'. view b' = v \<Longrightarrow> writes b' (run_all gs b') us w"
  shows "writes b (run_all (fs @ gs) b) (ts @ us) w"
  unfolding run_all_append using assms by (rule writes_bind)

lemma writes_step_cons:
  assumes "writes b (f b) ts v" and "\<And>b'. view b' = v \<Longrightarrow> writes b' (run_all fs b') us w"
  shows "writes b (run_all (f # fs) b) (ts @ us) w"
  using writes_bind [OF assms] by simp

lemma writes_view: "writes b (run_all (map put_item us) (with_view w b)) us w"
  unfolding writes_def blindD(1) [OF blind_items] by (rule refl)

lemma view_eq: "view b = (hp, ip, g) \<longleftrightarrow> harts_phandles b = hp \<and> hart_interrupt_controllers_phandles b = ip \<and> phandle_generator b = g"
  by (auto simp: view_def)

lemmas tree_defs = bootrom_tree_def chosen_tree_def uart_tree_def memory_tree_def core_tree_def hart_tree_def soc_tree_def
  reg64_def interrupts_of_def

lemma writes_put: "view b = v \<Longrightarrow> writes b (run_all (map put_item ts) b) ts v"
  using writes_items by blast

section \<open>The nodes\<close>

lemma static_node_items:
  "build_memory_fdt_node vm = run_all (map put_item (flatten_dt (memory_tree (word_of_int (main_mem_base vm)) (word_of_int (main_mem_size vm)))))"
  "build_uart_fdt_node plic = run_all (map put_item (flatten_dt (uart_tree (word_of_int (phandle plic)))))"
  by (simp_all add: build_memory_fdt_node_def build_uart_fdt_node_def tree_defs del: run_all.simps)

lemma bootrom_items:
  assumes "ini_config vm ''rom'' ''rom_start'' = Some s" and "ini_config vm ''rom'' ''rom_size'' = Some t"
  shows "build_bootrom_fdt_node vm b = run_all (map put_item (flatten_dt (bootrom_tree (word_of_int (strtol s 16)) (word_of_int (strtol t 16))))) b"
  using assms by (simp add: build_bootrom_fdt_node_def ini_need_def tree_defs Let_def del: run_all.simps)

lemma chosen_items:
  assumes "ini_config vm ''image'' ''bootarg'' = Some s"
  shows "build_chosen_fdt_node vm image_file_size b = run_all (map put_item (flatten_dt (chosen_tree (initrd_of vm image_file_size) s))) b"
  using assms
  by (cases "ini_config vm ''image'' ''initrd''"; cases "ini_config vm ''image'' ''initrd_load_base''")
    (simp_all add: build_chosen_fdt_node_def ini_need_def initrd_of_def tree_defs Let_def del: run_all.simps)

lemma hart_by_id_nth:
  "nr_harts vm = int (length (harts vm)) \<Longrightarrow> i < length (harts vm) \<Longrightarrow> hart_by_id vm (int i) f = f (harts vm ! i)"
  by (simp add: hart_by_id_def)

lemma run_all_one: "run_all [f] b = f b"
  by (simp add: rbind_run_nil)

lemma phandle_updates:
  assumes "view b = (hp, ip, g)"
  shows "b\<lparr>phandle_generator := g + 1, harts_phandles := x\<rparr> = with_view (x, ip, g + 1) b"
    and "b\<lparr>phandle_generator := g + 1, hart_interrupt_controllers_phandles := x\<rparr> = with_view (hp, x, g + 1) b"
  using assms by (cases b, simp add: view_def with_view_def)+

lemma writes_core:
  assumes n: "nr_harts vm = int (length (harts vm))" "i < length (harts vm)" and v: "view b = (hp, ip, g)" "i < length hp"
  shows "writes b (build_core_node vm i b) (flatten_dt (core_tree (hart_id (harts vm ! i)) (word_of_int g))) (hp[i := g], ip, g + 1)"
proof -
  let ?hid = "hart_id (harts vm ! i)" and ?us = "[Property ''cpu'' (cells [word_of_int g]), End_node]" and ?w = "(hp[i := g], ip, g + 1)"
  let ?f = "\<lambda>b. let (phandle, b1) = generate_phandle b in
       if i < length (harts_phandles b1) then
         run_all [fdt_prop ''cpu'' (cells [word_of_int phandle]), fdt_end_node]
           (b1\<lparr>harts_phandles := (harts_phandles b1)[i := phandle]\<rparr>)
       else Stop Host_fault"
  have f: "?f b' = run_all (map put_item ?us) (with_view ?w b')" if "view b' = (hp, ip, g)" for b'
    using that [unfolded view_eq] v(2) phandle_updates(1) [OF that] by (simp add: generate_phandle_def del: run_all.simps)
  have "writes b (rbind (run_all (map put_item [Begin_node (''core'' @ decimal ?hid)]) b) (\<lambda>_. ?f)) ([Begin_node (''core'' @ decimal ?hid)] @ ?us) ?w"
    using v(1) f by (intro writes_bind [OF writes_items]) (simp only: writes_view)
  then show ?thesis by (simp add: build_core_node_def hart_by_id_nth [OF n] tree_defs run_all_one del: run_all.simps)
qed

lemma writes_hart:
  assumes n: "nr_harts vm = int (length (harts vm))" "i < length (harts vm)" and v: "view b = (hp, ip, g)" "i < length ip"
  shows "writes b (build_hart_node vm i b)
    (flatten_dt (hart_tree (hart_id (harts vm ! i)) (word_of_int (hp ! i)) (word_of_int g))) (hp, ip[i := g], g + 1)"
proof -
  let ?hid = "hart_id (harts vm ! i)" and ?w = "(hp, ip[i := g], g + 1)"
  let ?us = "[Property ''phandle'' (cells [word_of_int g]), Property ''compatible'' (c_string ''riscv,cpu-intc''), End_node, End_node]"
  let ?ts = "[Begin_node (''cpu@'' @ decimal ?hid), Property ''phandle'' (cells [word_of_int (hp ! i)])]"
  let ?ts' = "[Property ''device_type'' (c_string ''cpu''), Property ''status'' (c_string ''okay''),
     Property ''compatible'' (c_string ''riscv''), Property ''riscv,isa'' (c_string ''rv32ima''),
     Property ''mmu-type'' (c_string ''riscv,sv32''), Property ''reg'' (cells [word_of_int ?hid]),
     Begin_node ''interrupt-controller'', Property ''#interrupt-cells'' (cells [1]), Property ''interrupt-controller'' []]"
  let ?f = "\<lambda>b. let (phandle, b1) = generate_phandle b in
       if i < length (hart_interrupt_controllers_phandles b1) then
         run_all
           [fdt_prop ''phandle'' (cells [word_of_int phandle]),
            fdt_prop ''compatible'' (c_string ''riscv,cpu-intc''),
            fdt_end_node, fdt_end_node]
           (b1\<lparr>hart_interrupt_controllers_phandles := (hart_interrupt_controllers_phandles b1)[i := phandle]\<rparr>)
       else Stop Host_fault"
  have f: "?f b' = run_all (map put_item ?us) (with_view ?w b')" if "view b' = (hp, ip, g)" for b'
    using that [unfolded view_eq] v(2) phandle_updates(2) [OF that] by (simp add: generate_phandle_def del: run_all.simps)
  let ?ph = "\<lambda>b. fdt_prop ''phandle'' (cells [word_of_int (harts_phandles b ! i)]) b"
  have ph: "writes b' (?ph b') [Property ''phandle'' (cells [word_of_int (hp ! i)])] (hp, ip, g)" if "view b' = (hp, ip, g)" for b'
    using writes_items [of b' "[Property ''phandle'' (cells [word_of_int (hp ! i)])]"] that by (simp add: view_eq rbind_run_nil)
  have "writes b (run_all (map put_item [Begin_node (''cpu@'' @ decimal ?hid)] @ ?ph # map put_item ?ts') b)
      ([Begin_node (''cpu@'' @ decimal ?hid)] @ [Property ''phandle'' (cells [word_of_int (hp ! i)])] @ ?ts') (hp, ip, g)"
    by (intro writes_run_append [OF writes_items] writes_step_cons [OF ph]) (use v(1) writes_items in metis)+
  then have "writes b (rbind (run_all (map put_item [Begin_node (''cpu@'' @ decimal ?hid)] @ ?ph # map put_item ?ts') b) (\<lambda>_. ?f))
      (([Begin_node (''cpu@'' @ decimal ?hid)] @ [Property ''phandle'' (cells [word_of_int (hp ! i)])] @ ?ts') @ ?us) ?w"
    by (rule writes_bind) (simp only: f writes_view)
  then show ?thesis by (simp add: build_hart_node_def hart_by_id_nth [OF n] tree_defs del: run_all.simps)
qed

text \<open>The two loops over the harts.\<close>

definition drawn :: "int \<Rightarrow> nat \<Rightarrow> int list \<Rightarrow> int list" where
  "drawn g n ps = map (\<lambda>i. g + int i) [0..<n] @ drop n ps"

lemma drawn_Suc: "n < length ps \<Longrightarrow> (drawn g n ps)[n := g + int n] = drawn g (Suc n) ps"
  by (simp add: drawn_def list_update_append Cons_nth_drop_Suc [symmetric])

lemma drawn_sel: "drawn g 0 ps = ps" "i < n \<Longrightarrow> drawn g n ps ! i = g + int i" "n \<le> length ps \<Longrightarrow> length (drawn g n ps) = length ps"
  by (simp_all add: drawn_def nth_append)

lemma writes_cores:
  assumes nr: "nr_harts vm = int (length (harts vm))" and v: "view b = (hp, ip, g)" and n: "n \<le> length (harts vm)" "n \<le> length hp"
  shows "writes b (run_all (map (build_core_node vm) [0..<n]) b)
    (concat (map (\<lambda>i. flatten_dt (core_tree (hart_id (harts vm ! i)) (word_of_int (g + int i)))) [0..<n])) (drawn g n hp, ip, g + int n)"
  using n
proof (induction n)
  case 0
  then show ?case using writes_Nil [OF v] by (simp add: drawn_sel)
next
  case (Suc n)
  have *: "writes b' (run_all [build_core_node vm n] b') (flatten_dt (core_tree (hart_id (harts vm ! n)) (word_of_int (g + int n))))
      (drawn g (Suc n) hp, ip, g + int (Suc n))" if "view b' = (drawn g n hp, ip, g + int n)" for b'
    using writes_core [OF nr _ that, of n] Suc.prems by (simp add: drawn_Suc drawn_sel run_all_one ac_simps del: run_all.simps)
  have "n \<le> length (harts vm)" "n \<le> length hp" using Suc.prems by simp_all
  from writes_run_append [OF Suc.IH [OF this] *] show ?case by (simp del: run_all.simps)
qed

lemma writes_harts:
  assumes nr: "nr_harts vm = int (length (harts vm))" and v: "view b = (hp, ip, g)" and n: "n \<le> length (harts vm)" "n \<le> length ip"
  shows "writes b (run_all (map (build_hart_node vm) [0..<n]) b)
    (concat (map (\<lambda>i. flatten_dt (hart_tree (hart_id (harts vm ! i)) (word_of_int (hp ! i)) (word_of_int (g + int i)))) [0..<n]))
    (hp, drawn g n ip, g + int n)"
  using n
proof (induction n)
  case 0
  then show ?case using writes_Nil [OF v] by (simp add: drawn_sel)
next
  case (Suc n)
  have *: "writes b' (run_all [build_hart_node vm n] b')
      (flatten_dt (hart_tree (hart_id (harts vm ! n)) (word_of_int (hp ! n)) (word_of_int (g + int n))))
      (hp, drawn g (Suc n) ip, g + int (Suc n))" if "view b' = (hp, drawn g n ip, g + int n)" for b'
    using writes_hart [OF nr _ that, of n] Suc.prems by (simp add: drawn_Suc drawn_sel run_all_one ac_simps del: run_all.simps)
  have "n \<le> length (harts vm)" "n \<le> length ip" using Suc.prems by simp_all
  from writes_run_append [OF Suc.IH [OF this] *] show ?case by (simp del: run_all.simps)
qed

abbreviation phandle_room :: "virtual_machine \<Rightarrow> bool" where
  "phandle_room vm \<equiv> nr_harts vm = int (length (harts vm)) \<and> length (harts vm) \<le> MAX_NR_HARTS"

lemma phandle_words: "word_of_int (2 + int i) = hart_phandle i" "word_of_int (2 + int n + int i) = intc_phandle n i"
  by (simp_all add: hart_phandle_def intc_phandle_def)

definition phandles_after :: "nat \<Rightarrow> phandles" where
  "phandles_after n = (drawn 2 n (replicate MAX_NR_HARTS 0), drawn (2 + int n) n (replicate MAX_NR_HARTS 0), 2 + int n + int n)"

lemma writes_cpus:
  assumes vm: "phandle_room vm" and v: "view b = (replicate MAX_NR_HARTS 0, replicate MAX_NR_HARTS 0, 2)"
  shows "writes b (build_cpu_fdt_node vm b) (flatten_dt (cpus_tree (map hart_id (harts vm)))) (phandles_after (length (harts vm)))"
proof -
  let ?n = "length (harts vm)" and ?z = "replicate MAX_NR_HARTS (0 :: int)"
  have nr: "nr_harts vm = int ?n" and le: "?n \<le> length ?z" using vm by simp_all
  let ?v1 = "(drawn 2 ?n ?z, ?z, 2 + int ?n)"
  let ?head = "[Begin_node ''cpus'', Property ''#address-cells'' (cells [1]), Property ''#size-cells'' (cells [0]),
      Property ''timebase-frequency'' (cells [CLINT_TIMEBASE_FREQUENCY]), Begin_node ''cpu-map'', Begin_node ''cluster0'']"
  let ?cores = "concat (map (\<lambda>i. flatten_dt (core_tree (hart_id (harts vm ! i)) (word_of_int (2 + int i)))) [0..<?n])"
  let ?harts = "concat (map (\<lambda>i. flatten_dt (hart_tree (hart_id (harts vm ! i)) (word_of_int (drawn 2 ?n ?z ! i))
      (word_of_int (2 + int ?n + int i)))) [0..<?n])"
  have "writes b (run_all (map put_item ?head @ map (build_core_node vm) [0..<?n] @ map put_item [End_node, End_node] @
      map (build_hart_node vm) [0..<?n] @ map put_item [End_node]) b)
      (?head @ ?cores @ [End_node, End_node] @ ?harts @ [End_node]) (phandles_after ?n)"
    unfolding phandles_after_def
    by (intro writes_run_append [OF writes_put [OF v]] writes_run_append [OF writes_cores [OF nr _ order_refl le]]
        writes_run_append [OF writes_put] writes_run_append [OF writes_harts [OF nr _ order_refl le]] writes_put)
  moreover have "?harts = concat (map (\<lambda>i. flatten_dt (hart_tree (map hart_id (harts vm) ! i) (hart_phandle i) (intc_phandle ?n i))) [0..<?n])"
    "?cores = concat (map (\<lambda>i. flatten_dt (core_tree (map hart_id (harts vm) ! i) (hart_phandle i))) [0..<?n])"
    by (intro arg_cong [where f = concat] map_cong refl, simp only: drawn_sel phandle_words set_upt atLeastLessThan_iff nth_map)+
  ultimately show ?thesis
    by (simp add: build_cpu_fdt_node_def nr cpus_tree_def Let_def comp_def del: run_all.simps)
qed

text \<open>Behind the CPUs the phandles of the local interrupt controllers are known.\<close>

lemma writes_interrupts:
  assumes vm: "phandle_room vm" and v: "view b = phandles_after (length (harts vm))"
  shows "writes b (put_interrupt_extended vm x y b) [case_prod Property (interrupts_of (length (harts vm)) x y)] (view b)"
proof -
  let ?n = "length (harts vm)" and ?z = "replicate MAX_NR_HARTS (0 :: int)"
  have nr: "nr_harts vm = int ?n" "?n \<le> MAX_NR_HARTS" using vm by simp_all
  have ph: "hart_interrupt_controllers_phandles b = drawn (2 + int ?n) ?n ?z"
    using v by (simp add: view_eq phandles_after_def)
  have "interrupt_extended vm x y b = concat (map (\<lambda>i. cells [intc_phandle ?n i, x, intc_phandle ?n i, y]) [0..<?n])"
    unfolding interrupt_extended_def Let_def ph nr nat_int
    by (intro arg_cong [where f = concat] map_cong refl) (simp only: drawn_sel phandle_words set_upt atLeastLessThan_iff)
  then have "put_interrupt_extended vm x y b = run_all (map put_item [case_prod Property (interrupts_of ?n x y)]) b"
    using nr by (simp add: put_interrupt_extended_def interrupts_of_def rbind_run_nil)
  then show ?thesis using writes_items by metis
qed

text \<open>Nodes that draw no phandles.\<close>

lemma writes_nested:
  assumes "\<And>b'. view b' = v \<Longrightarrow> writes b' (f b') ts v" and "view b = v"
  shows "writes b (run_all (map put_item us @ [f] @ map put_item ws) b) (us @ ts @ ws) v"
  by (intro writes_run_append [OF writes_put [OF assms(2)]] writes_run_append [where fs = "[f]"] writes_put)
    (simp_all only: run_all_one assms(1))

lemma writes_clint:
  assumes "phandle_room vm" and "view b = phandles_after (length (harts vm))"
  shows "writes b (build_clint_fdt_node vm clint b)
    (flatten_dt (Dt_node (''clint@'' @ hex (clint_base clint))
        [reg64 (clint_base clint) (clint_size clint), (''compatible'', c_string ''riscv,clint0''), interrupts_of (length (harts vm)) 3 7] []))
    (phandles_after (length (harts vm)))"
  using writes_nested [OF _ assms(2), where f = "put_interrupt_extended vm 3 7" and ts = "[case_prod Property (interrupts_of (length (harts vm)) 3 7)]"
      and us = "[Begin_node (''clint@'' @ hex (clint_base clint)), case_prod Property (reg64 (clint_base clint) (clint_size clint)),
        Property ''compatible'' (c_string ''riscv,clint0'')]" and ws = "[End_node]"]
    writes_interrupts [OF assms(1), where x = "3" and y = 7]
  by (simp add: build_clint_fdt_node_def reg64_def interrupts_of_def del: run_all.simps)

lemma writes_plic:
  assumes "phandle_room vm" and "view b = phandles_after (length (harts vm))" and "phandle plic = 1"
  shows "writes b (build_plic_fdt_node vm plic b)
    (flatten_dt (Dt_node (''plic@'' @ hex (plic_base plic))
        [(''phandle'', cells [1]), (''compatible'', c_string ''riscv,plic0''), (''interrupt-controller'', []),
         (''#interrupt-cells'', cells [1]), (''#address-cells'', cells [0]), (''riscv,ndev'', cells [of_nat PLIC_NR_SOURCES - 1]),
         reg64 (plic_base plic) (plic_size plic), interrupts_of (length (harts vm)) 0xb 9] []))
    (phandles_after (length (harts vm)))"
  using writes_nested [OF _ assms(2), where f = "put_interrupt_extended vm 0xb 9" and ts = "[case_prod Property (interrupts_of (length (harts vm)) 0xb 9)]"
      and us = "[Begin_node (''plic@'' @ hex (plic_base plic)), Property ''phandle'' (cells [1]), Property ''compatible'' (c_string ''riscv,plic0''),
        Property ''interrupt-controller'' [], Property ''#interrupt-cells'' (cells [1]), Property ''#address-cells'' (cells [0]),
        Property ''riscv,ndev'' (cells [of_nat PLIC_NR_SOURCES - 1]), case_prod Property (reg64 (plic_base plic) (plic_size plic))]" and ws = "[End_node]"]
    writes_interrupts [OF assms(1), where x = "0xb" and y = 9] assms(3)
  by (simp add: build_plic_fdt_node_def reg64_def interrupts_of_def del: run_all.simps)

lemma writes_soc:
  assumes vm: "phandle_room vm" and v: "view b = phandles_after (length (harts vm))" and ph: "phandle plic = 1"
  shows "writes b (build_soc_fdt_node vm clint plic b) (flatten_dt (soc_tree (length (harts vm)) clint plic)) (phandles_after (length (harts vm)))"
proof -
  let ?head = "[Begin_node ''soc'', Property ''#address-cells'' (cells [2]), Property ''#size-cells'' (cells [2]),
    Property ''compatible'' (c_string ''simple-bus''), Property ''ranges'' []]"
  let ?tail = "flatten_dt (Dt_node (''test@'' @ hex syscon_base) [(''compatible'', c_string ''sifive,test0''), reg64 syscon_base syscon_size] []) @ [End_node]"
  have syscon: "build_syscon_fdt_node = run_all (map put_item (butlast ?tail))"
    by (simp add: build_syscon_fdt_node_def reg64_def del: run_all.simps)
  have "writes b (run_all (map put_item ?head @ build_clint_fdt_node vm clint # build_plic_fdt_node vm plic # build_syscon_fdt_node # map put_item [End_node]) b)
     (?head @ flatten_dt (Dt_node (''clint@'' @ hex (clint_base clint))
        [reg64 (clint_base clint) (clint_size clint), (''compatible'', c_string ''riscv,clint0''), interrupts_of (length (harts vm)) 3 7] []) @
      flatten_dt (Dt_node (''plic@'' @ hex (plic_base plic))
        [(''phandle'', cells [1]), (''compatible'', c_string ''riscv,plic0''), (''interrupt-controller'', []),
         (''#interrupt-cells'', cells [1]), (''#address-cells'', cells [0]), (''riscv,ndev'', cells [of_nat PLIC_NR_SOURCES - 1]),
         reg64 (plic_base plic) (plic_size plic), interrupts_of (length (harts vm)) 0xb 9] []) @ butlast ?tail @ [End_node])
     (phandles_after (length (harts vm)))"
    unfolding syscon
    by (intro writes_run_append [OF writes_put [OF v]] writes_step_cons [OF writes_clint [OF vm]]
        writes_step_cons [OF writes_plic [OF vm _ ph]] writes_step_cons [OF writes_put] writes_put)
  then show ?thesis by (simp add: build_soc_fdt_node_def soc_tree_def reg64_def del: run_all.simps)
qed

section \<open>The whole tree\<close>

text \<open>What the set-up of the machine guarantees before the tree is built.\<close>

definition wf_harts :: "virtual_machine \<Rightarrow> bool" where
  "wf_harts vm \<longleftrightarrow> nr_harts vm = int (length (harts vm)) \<and> length (harts vm) \<le> MAX_NR_HARTS \<and>
     map hart_id (harts vm) = map int [0..<length (harts vm)]"

definition tree_config :: "virtual_machine \<Rightarrow> bool" where
  "tree_config vm \<longleftrightarrow> ini_config vm ''rom'' ''rom_start'' \<noteq> None \<and> ini_config vm ''rom'' ''rom_size'' \<noteq> None \<and>
     ini_config vm ''image'' ''bootarg'' \<noteq> None"

definition tree_items :: "virtual_machine \<Rightarrow> (string \<Rightarrow> int) \<Rightarrow> clint_state \<Rightarrow> plic_state \<Rightarrow> fdt_item list" where
  "tree_items vm image_file_size clint plic = flatten_dt (device_tree vm image_file_size clint plic)"

lemma build_device_tree_items:
  assumes vm: "wf_harts vm" "tree_config vm" and ph: "phandle plic = 1"
    and v: "view b = (replicate MAX_NR_HARTS 0, replicate MAX_NR_HARTS 0, 2)"
  shows "build_device_tree vm image_file_size clint plic b =
    rmap (with_view (phandles_after (length (harts vm))))
      (rbind (run_all (map put_item (tree_items vm image_file_size clint plic)) b) (\<lambda>_. fdt_end))"
proof -
  let ?n = "length (harts vm)"
  have room: "phandle_room vm" using vm(1) by (simp add: wf_harts_def)
  obtain s t a where cfg: "ini_config vm ''rom'' ''rom_start'' = Some s" "ini_config vm ''rom'' ''rom_size'' = Some t"
    "ini_config vm ''image'' ''bootarg'' = Some a" using vm(2) by (auto simp: tree_config_def)
  let ?head = "[Begin_node '''', Property ''#address-cells'' (cells [2]), Property ''#size-cells'' (cells [2]),
      Property ''compatible'' (c_string ''riscv-virtio''), Property ''model'' (c_string ''riscv-virtio,qemu'')]"
  let ?ts = "?head @ flatten_dt (bootrom_tree (word_of_int (strtol s 16)) (word_of_int (strtol t 16))) @
      flatten_dt (chosen_tree (initrd_of vm image_file_size) a) @ flatten_dt (uart_tree 1) @
      flatten_dt (memory_tree (word_of_int (main_mem_base vm)) (word_of_int (main_mem_size vm))) @
      flatten_dt (cpus_tree (map hart_id (harts vm))) @ flatten_dt (soc_tree ?n clint plic) @ [End_node]"
  let ?fs = "map put_item ?head @ build_bootrom_fdt_node vm # build_chosen_fdt_node vm image_file_size # build_uart_fdt_node plic #
      build_memory_fdt_node vm # build_cpu_fdt_node vm # build_soc_fdt_node vm clint plic # map put_item [End_node]"
  have node: "writes b' (f b') ts w" if "\<And>b. f b = run_all (map put_item ts) b" "view b' = w" for f b' ts w
    using writes_put [OF that(2)] that(1) by simp
  have uart: "build_uart_fdt_node plic b = run_all (map put_item (flatten_dt (uart_tree 1))) b" for b
    using static_node_items(2) [of plic] ph by simp
  have mem: "build_memory_fdt_node vm b = run_all (map put_item (flatten_dt (memory_tree (word_of_int (main_mem_base vm)) (word_of_int (main_mem_size vm))))) b" for b
    using static_node_items(1) [of vm] by simp
  have "writes b (run_all ?fs b) ?ts (phandles_after ?n)"
    by (intro writes_run_append [OF writes_put [OF v]] writes_step_cons [OF node [OF bootrom_items [OF cfg(1,2)]]]
        writes_step_cons [OF node [OF chosen_items [OF cfg(3)]]] writes_step_cons [OF node [OF uart]]
        writes_step_cons [OF node [OF mem]] writes_step_cons [OF writes_cpus [OF room]]
        writes_step_cons [OF writes_soc [OF room _ ph]] writes_put)
  moreover have "?ts = tree_items vm image_file_size clint plic" using cfg by (simp add: tree_items_def device_tree_def)
  ultimately have w: "run_all ?fs b = rmap (with_view (phandles_after ?n)) (run_all (map put_item (tree_items vm image_file_size clint plic)) b)"
    by (simp only: writes_def)
  have "build_device_tree vm image_file_size clint plic b = run_all (?fs @ [fdt_end]) b"
    by (simp add: build_device_tree_def del: run_all.simps)
  also have "\<dots> = rbind (run_all ?fs b) (\<lambda>_. run_all [fdt_end])" by (rule run_all_append)
  finally show ?thesis
    unfolding w using blindD [OF blind_end]
    by (cases "run_all (map put_item (tree_items vm image_file_size clint plic)) b") (simp_all add: rbind_run_nil)
qed

lemma fdt_init_build:
  assumes vm: "wf_harts vm" "tree_config vm"
  shows "fdt_init vm image_file_size clint plic =
    rbind (rmap (with_view (phandles_after (length (harts vm)))) (build_fdt 8192 1024 (tree_items vm image_file_size clint plic)))
      (\<lambda>_ b. rassert (buffer_iptr b \<le> ZELDA_DTB_MAX_SIZE)
         (rassert (bootrom_base vm = ZELDA_ROM_BASE \<and> ZELDA_ROM_MIN_SIZE \<le> bootrom_size vm)
           (case host_memcpy (ZELDA_DTB_ADDRESS - bootrom_base vm) (finished_blob b) (bootrom_host vm) of
              None \<Rightarrow> Stop Host_fault
            | Some mem \<Rightarrow> Ret (plic\<lparr>phandle := 1\<rparr>, mem) b)))"
proof -
  let ?z = "replicate MAX_NR_HARTS (0 :: int)"
  obtain b0 where b0: "fdt_build_init 8192 1024 = Ret () b0" "view b0 = (?z, ?z, 1)"
    using fdt_build_init_spec [of 8192 1024] by (auto simp: view_def)
  have g: "plic_reserve_phandle plic b0 = (plic\<lparr>phandle := 1\<rparr>, with_view (?z, ?z, 2) b0)"
    using b0(2) by (cases b0) (simp add: plic_reserve_phandle_def generate_phandle_def view_def with_view_def)
  have items: "tree_items vm image_file_size clint (plic\<lparr>phandle := 1\<rparr>) = tree_items vm image_file_size clint plic"
    by (simp add: tree_items_def device_tree_def soc_tree_def)
  let ?run = "run_all (map put_item (tree_items vm image_file_size clint plic))"
  have "rmap (with_view w) (rbind (?run (with_view v b0)) (\<lambda>_. fdt_end)) = rmap (with_view w) (rbind (?run b0) (\<lambda>_. fdt_end))" for v w
    unfolding blindD(1) [OF blind_items]
  proof (cases "?run b0")
    case (Ret u b)
    then show "rmap (with_view w) (rbind (rmap (with_view v) (?run b0)) (\<lambda>_. fdt_end)) = rmap (with_view w) (rbind (?run b0) (\<lambda>_. fdt_end))"
      using blindD(1) [OF blind_end, of v b] by (cases "fdt_end b") simp_all
  qed (use blindD(2) [OF blind_items] in simp_all)
  then have "build_device_tree vm image_file_size clint (plic\<lparr>phandle := 1\<rparr>) (with_view (?z, ?z, 2) b0) =
      rmap (with_view (phandles_after (length (harts vm)))) (build_fdt 8192 1024 (tree_items vm image_file_size clint plic))"
    using build_device_tree_items [OF vm, of "plic\<lparr>phandle := 1\<rparr>" "with_view (?z, ?z, 2) b0"] b0(1)
    by (simp add: items build_fdt_def)
  then show ?thesis using b0(1) by (simp add: fdt_init_def g)
qed

section \<open>Its size\<close>

text \<open>Numbers print to at most as many digits as the bound of their type has.\<close>

lemma digits_length:
  assumes "2 \<le> base" and "n < base ^ k" and "0 < k"
  shows "length (digits base n) \<le> k"
  using assms(2,3)
proof (induction k arbitrary: n)
  case (Suc k)
  show ?case
  proof (cases "n < base")
    case True
    then show ?thesis by (simp add: digits.simps [of base n])
  next
    case False
    then have "0 < k" using Suc.prems(1) by (cases k) auto
    moreover have "n div base < base ^ k" using Suc.prems(1) assms(1) by (simp add: less_mult_imp_div_less mult.commute)
    ultimately show ?thesis using False Suc.IH [of "n div base"] assms(1) by (simp add: digits.simps [of base n])
  qed
qed simp

lemma digits_no_zero:
  assumes "2 \<le> base" and "base \<le> 16"
  shows "0 \<notin> set (chars (digits base n))"
  using assms
proof (induction base n rule: digits.induct)
  case (1 base n)
  have d: "0 \<notin> set (chars [digit d])" if "d < 16" for d
  proof -
    have "digit d \<in> set ''0123456789abcdef''" using that unfolding digit_def by (intro nth_mem) simp
    then show ?thesis by (auto simp: chars_def of_char_def)
  qed
  show ?case
  proof (cases "n < base")
    case True
    then show ?thesis using d [of n] 1 by (simp add: digits.simps [of base n] chars_def)
  next
    case False
    have "n mod base < 16" using 1(2,3) mod_less_divisor [of base n] by linarith
    then show ?thesis using d [of "n mod base"] 1 False by (auto simp: digits.simps [of base n] chars_def)
  qed
qed

lemma hex_length: "length (hex w) \<le> 8"
proof -
  have "unat w < 2 ^ LENGTH(32)" by (rule unsigned_less)
  then show ?thesis unfolding hex_def by (intro digits_length) simp_all
qed

lemma hex_no_zero: "0 \<notin> set (chars (hex w))"
  unfolding hex_def by (rule digits_no_zero) simp_all

lemma decimal_nat: "length (decimal (int i)) \<le> Suc i" "0 \<notin> set (chars (decimal (int i)))"
proof -
  have "i < 10 ^ Suc i" by (induction i) simp_all
  then show "length (decimal (int i)) \<le> Suc i" unfolding decimal_def by (simp add: digits_length del: power_Suc)
  show "0 \<notin> set (chars (decimal (int i)))" using digits_no_zero [of 10 i] by (simp add: decimal_def)
qed

text \<open>Items that are well formed, with bounds on the two blocks they fill.\<close>

definition sized :: "fdt_item list \<Rightarrow> nat \<Rightarrow> nat \<Rightarrow> bool" where
  "sized ts k m \<longleftrightarrow> list_all item_ok ts \<and> length (encode_items 0 ts) \<le> k \<and> length (item_names ts) \<le> m"

lemma sized_Nil: "sized [] 0 0"
  by (simp add: sized_def item_names_simps)

lemma sized_append: "sized ts k m \<Longrightarrow> sized us k' m' \<Longrightarrow> sized (ts @ us) (k + k') (m + m')"
proof -
  have "length (encode_items 0 (ts @ us)) = length (encode_items 0 ts) + length (encode_items 0 us)"
  proof (induction ts)
    case (Cons t ts)
    then show ?case using length_encode_items [of "length (item_name t)"] by simp
  qed simp
  then show "sized ts k m \<Longrightarrow> sized us k' m' \<Longrightarrow> sized (ts @ us) (k + k') (m + m')"
    by (simp add: sized_def item_names_def)
qed

lemma sized_items:
  "0 \<notin> set (chars n) \<Longrightarrow> length n < 100 \<Longrightarrow> sized [Begin_node n] (length n + 8) 0"
  "0 \<notin> set (chars n) \<Longrightarrow> length n < 100 \<Longrightarrow> length v < 5000 \<Longrightarrow> sized [Property n v] (15 + length v) (length n + 1)"
  "sized [End_node] 4 0"
  by (simp_all add: sized_def item_names_simps length_padded)

lemma sized_le: "sized ts k m \<Longrightarrow> k \<le> k' \<Longrightarrow> m \<le> m' \<Longrightarrow> sized ts k' m'"
  by (simp add: sized_def)

lemma sized_concat: "(\<And>x. x \<in> set xs \<Longrightarrow> sized (f x) k m) \<Longrightarrow> sized (concat (map f xs)) (length xs * k) (length xs * m)"
  by (induction xs) (simp_all add: sized_Nil sized_append)

lemma sized_flatten:
  assumes "0 \<notin> set (chars n)" "length n < 100" and "sized (map (\<lambda>(p, v). Property p v) ps) k m" and "sized (concat (map flatten_dt cs)) k' m'"
  shows "sized (flatten_dt (Dt_node n ps cs)) (length n + 12 + k + k') (m + m')"
  using sized_append [OF sized_append [OF sized_append [OF sized_items(1) [OF assms(1,2)] assms(3)] assms(4)] sized_items(3)]
  by (simp add: ac_simps)

text \<open>The bounds of a list of properties.\<close>

definition props_ok :: "(string \<times> u8 list) list \<Rightarrow> bool" where
  "props_ok ps \<longleftrightarrow> (\<forall>(n, v) \<in> set ps. 0 \<notin> set (chars n) \<and> length n < 100 \<and> length v < 5000)"

lemma sized_props:
  assumes "props_ok ps"
  shows "sized (map (\<lambda>(p, v). Property p v) ps) (\<Sum>(n, v) \<leftarrow> ps. 15 + length v) (\<Sum>(n, v) \<leftarrow> ps. length n + 1)"
  using assms
proof (induction ps)
  case (Cons p ps)
  then show ?case using sized_append [OF sized_items(2) [of "fst p" "snd p"] Cons.IH]
    by (cases p) (simp add: props_ok_def)
qed (simp add: sized_Nil)

lemma length_cells: "length (cells ws) = 4 * length ws"
  by (induction ws) (simp_all add: cells_def)

lemma chars_simps: "chars (s @ t) = chars s @ chars t" "chars (c # s) = of_char c # chars s" "chars [] = []"
  by (simp_all add: chars_def)

lemmas name_simps = chars_simps of_char_def hex_no_zero decimal_nat(2)

lemma sized_leaf:
  assumes "0 \<notin> set (chars n)" "length n < 100" and "props_ok ps" and "length n + 12 + (\<Sum>(n, v) \<leftarrow> ps. 15 + length v) \<le> k"
    and "(\<Sum>(n, v) \<leftarrow> ps. length n + 1) \<le> m"
  shows "sized (flatten_dt (Dt_node n ps [])) k m"
  using sized_flatten [OF assms(1,2) sized_props [OF assms(3)], of "[]" 0 0] assms(4,5) by (auto simp: sized_Nil intro: sized_le)

lemma sized_bootrom: "sized (flatten_dt (bootrom_tree a l)) 114 27"
  unfolding bootrom_tree_def reg64_def using hex_length [of a]
  by (intro sized_leaf) (simp_all add: name_simps length_cells props_ok_def)

lemma sized_memory: "sized (flatten_dt (memory_tree a l)) 80 16"
  unfolding memory_tree_def reg64_def using hex_length [of a]
  by (intro sized_leaf) (simp_all add: name_simps length_cells props_ok_def)

lemma sized_uart: "sized (flatten_dt (uart_tree ph)) 180 82"
  unfolding uart_tree_def reg64_def using hex_length [of UART_16550_BASE]
  by (intro sized_leaf) (simp_all add: name_simps length_cells props_ok_def)

lemma sized_chosen: "length a \<le> 4096 \<Longrightarrow> sized (flatten_dt (chosen_tree initrd a)) 4210 57"
  unfolding chosen_tree_def using hex_length [of UART_16550_BASE]
  by (intro sized_leaf) (auto simp: name_simps length_cells props_ok_def split: option.split)

lemma sized_core: "i < 4 \<Longrightarrow> sized (flatten_dt (core_tree (int i) ph)) 39 4"
  unfolding core_tree_def using decimal_nat(1) [of i]
  by (intro sized_leaf) (simp_all add: name_simps length_cells props_ok_def)

lemma sized_hart:
  assumes "i < 4"
  shows "sized (flatten_dt (hart_tree (int i) ph ph')) 320 118"
proof -
  let ?ps = "[(''#interrupt-cells'', cells [1]), (''interrupt-controller'', []), (''phandle'', cells [ph']), (''compatible'', c_string ''riscv,cpu-intc'')]"
  let ?qs = "[(''phandle'', cells [ph]), (''device_type'', c_string ''cpu''), (''status'', c_string ''okay''),
      (''compatible'', c_string ''riscv''), (''riscv,isa'', c_string ''rv32ima''), (''mmu-type'', c_string ''riscv,sv32''),
      (''reg'', cells [word_of_int (int i)])]"
  have "sized (flatten_dt (Dt_node ''interrupt-controller'' ?ps [])) 115 57"
    by (intro sized_leaf) (simp_all add: name_simps length_cells props_ok_def)
  then have "sized (concat (map flatten_dt [Dt_node ''interrupt-controller'' ?ps []])) 115 57" by simp
  from sized_flatten [OF _ _ sized_props this, of "''cpu@'' @ decimal (int i)" ?qs] show ?thesis
    using decimal_nat(1) [of i] assms unfolding hart_tree_def
    by (auto simp: name_simps length_cells props_ok_def simp del: flatten_dt.simps elim!: sized_le)
qed

lemma sized_cpus:
  assumes n: "n \<le> 4"
  shows "sized (flatten_dt (cpus_tree (map int [0..<n]))) 1700 (46 + 122 * n)"
proof -
  let ?cores = "map (\<lambda>i. core_tree (map int [0..<n] ! i) (hart_phandle i)) [0..<n]"
  let ?harts = "map (\<lambda>i. hart_tree (map int [0..<n] ! i) (hart_phandle i) (intc_phandle n i)) [0..<n]"
  let ?cluster = "Dt_node ''cluster0'' [] ?cores" and ?ps = "[(''#address-cells'', cells [1]), (''#size-cells'', cells [0]),
     (''timebase-frequency'', cells [CLINT_TIMEBASE_FREQUENCY])]"
  have "sized (concat (map (\<lambda>i. flatten_dt (core_tree (map int [0..<n] ! i) (hart_phandle i))) [0..<n])) (length [0..<n] * 39) (length [0..<n] * 4)"
    using n by (intro sized_concat) (simp add: sized_core)
  then have cores: "sized (concat (map flatten_dt ?cores)) (n * 39) (n * 4)" by (simp add: comp_def)
  have "sized (concat (map (\<lambda>i. flatten_dt (hart_tree (map int [0..<n] ! i) (hart_phandle i) (intc_phandle n i))) [0..<n]))
      (length [0..<n] * 320) (length [0..<n] * 118)"
    using n by (intro sized_concat) (simp add: sized_hart)
  then have harts: "sized (concat (map flatten_dt ?harts)) (n * 320) (n * 118)" by (simp add: comp_def)
  have "sized (flatten_dt ?cluster) (20 + n * 39) (n * 4)"
    using sized_flatten [OF _ _ sized_props cores, of "''cluster0''" "[]"] by (simp add: name_simps props_ok_def)
  then have "sized (concat (map flatten_dt [?cluster])) (20 + n * 39) (n * 4)" by simp
  from sized_flatten [OF _ _ sized_props this, of "''cpu-map''" "[]"]
  have "sized (flatten_dt (Dt_node ''cpu-map'' [] [?cluster])) (39 + n * 39) (n * 4)" by (simp add: name_simps props_ok_def del: flatten_dt.simps)
  from sized_append [OF this harts]
  have "sized (concat (map flatten_dt (Dt_node ''cpu-map'' [] [?cluster] # ?harts))) (39 + n * 39 + n * 320) (n * 4 + n * 118)"
    by (simp del: flatten_dt.simps)
  from sized_flatten [OF _ _ sized_props this, of "''cpus''" ?ps] show ?thesis
    using n unfolding cpus_tree_def
    by (auto simp: name_simps length_cells props_ok_def Let_def simp del: flatten_dt.simps elim!: sized_le)
qed

lemma length_interrupts: "length (snd (interrupts_of n x y)) = 16 * n" "fst (interrupts_of n x y) = ''interrupts-extended''"
proof -
  have "length (concat (map (\<lambda>i. cells [f i, x, f i, y]) [0..<n])) = 16 * n" for f
    by (induction n) (simp_all add: length_cells)
  then show "length (snd (interrupts_of n x y)) = 16 * n" by (simp add: interrupts_of_def)
qed (simp add: interrupts_of_def)

lemma sized_soc:
  assumes n: "n \<le> 4"
  shows "sized (flatten_dt (soc_tree n clint plic)) 700 202"
proof -
  have hex: "length (hex (clint_base clint)) \<le> 8" "length (hex (plic_base plic)) \<le> 8" "length (hex syscon_base) \<le> 8"
    by (rule hex_length)+
  have "\<exists>u. interrupts_of n x y = (''interrupts-extended'', u) \<and> length u \<le> 64" for x y
    using length_interrupts [of n x y] n by (cases "interrupts_of n x y") simp
  then obtain u w where uw: "interrupts_of n 3 7 = (''interrupts-extended'', u)" "interrupts_of n 0xb 9 = (''interrupts-extended'', w)"
    "length u \<le> 64" "length w \<le> 64" by metis
  let ?clint = "Dt_node (''clint@'' @ hex (clint_base clint))
        [reg64 (clint_base clint) (clint_size clint), (''compatible'', c_string ''riscv,clint0''), interrupts_of n 3 7] []"
  let ?plic = "Dt_node (''plic@'' @ hex (plic_base plic))
        [(''phandle'', cells [1]), (''compatible'', c_string ''riscv,plic0''), (''interrupt-controller'', []),
         (''#interrupt-cells'', cells [1]), (''#address-cells'', cells [0]), (''riscv,ndev'', cells [of_nat PLIC_NR_SOURCES - 1]),
         reg64 (plic_base plic) (plic_size plic), interrupts_of n 0xb 9] []"
  let ?test = "Dt_node (''test@'' @ hex syscon_base) [(''compatible'', c_string ''sifive,test0''), reg64 syscon_base syscon_size] []"
  have c: "sized (flatten_dt ?clint) 164 35" unfolding reg64_def uw using hex uw(3)
    by (intro sized_leaf) (simp_all add: name_simps length_cells props_ok_def)
  have p: "sized (flatten_dt ?plic) 260 107" unfolding reg64_def uw using hex uw(4)
    by (intro sized_leaf) (simp_all add: name_simps length_cells props_ok_def)
  have t: "sized (flatten_dt ?test) 90 15" unfolding reg64_def using hex
    by (intro sized_leaf) (simp_all add: name_simps length_cells props_ok_def)
  have "sized (concat (map flatten_dt [?clint, ?plic, ?test])) (164 + (260 + 90)) (35 + (107 + 15))"
    using sized_append [OF c sized_append [OF p t]] by (simp del: flatten_dt.simps)
  from sized_flatten [OF _ _ sized_props this, of "''soc''" "[(''#address-cells'', cells [2]), (''#size-cells'', cells [2]),
      (''compatible'', c_string ''simple-bus''), (''ranges'', [])]"] show ?thesis
    unfolding soc_tree_def by (auto simp: name_simps length_cells props_ok_def simp del: flatten_dt.simps elim!: sized_le)
qed

lemma sized_tree:
  assumes vm: "wf_harts vm" "tree_config vm" "length (harts vm) \<le> 4"
    and a: "length (the (ini_config vm ''image'' ''bootarg'')) \<le> 4096"
  shows "sized (tree_items vm image_file_size clint plic) 7100 962"
proof -
  let ?n = "length (harts vm)"
  let ?ps = "[(''#address-cells'', cells [2]), (''#size-cells'', cells [2]), (''compatible'', c_string ''riscv-virtio''),
      (''model'', c_string ''riscv-virtio,qemu'')]"
  let ?cs = "[bootrom_tree (word_of_int (strtol (the (ini_config vm ''rom'' ''rom_start'')) 16))
        (word_of_int (strtol (the (ini_config vm ''rom'' ''rom_size'')) 16)),
      chosen_tree (initrd_of vm image_file_size) (the (ini_config vm ''image'' ''bootarg'')), uart_tree 1,
      memory_tree (word_of_int (main_mem_base vm)) (word_of_int (main_mem_size vm)),
      cpus_tree (map hart_id (harts vm)), soc_tree ?n clint plic]"
  have ids: "map hart_id (harts vm) = map int [0..<?n]" using vm(1) by (simp add: wf_harts_def)
  have "sized (concat (map flatten_dt ?cs)) (114 + (4210 + (180 + (80 + (1700 + 700))))) (27 + (57 + (82 + (16 + ((46 + 122 * ?n) + 202)))))"
    unfolding ids using sized_append [OF sized_bootrom sized_append [OF sized_chosen [OF a] sized_append [OF sized_uart
      sized_append [OF sized_memory sized_append [OF sized_cpus [OF vm(3)] sized_soc [OF vm(3)]]]]]]
    by (simp only: concat.simps list.map append_Nil2)
  from sized_flatten [OF _ _ sized_props this, of "''''" ?ps] show ?thesis
    using vm(3) unfolding tree_items_def device_tree_def
    by (auto simp: name_simps length_cells props_ok_def simp del: flatten_dt.simps elim!: sized_le)
qed

lemma fdt_init_contents:
  assumes "wf_harts vm" and "tree_config vm" and "length (harts vm) \<le> 4"
    and "length (the (ini_config vm ''image'' ''bootarg'')) \<le> 4096"
    and "bootrom_base vm = ZELDA_ROM_BASE" and "ZELDA_ROM_MIN_SIZE \<le> bootrom_size vm" and "nat (bootrom_size vm) \<le> mem_size (bootrom_host vm)"
  shows "\<exists>mem b dtb log. fdt_init vm image_file_size clint plic = Ret (plic\<lparr>phandle := 1\<rparr>, mem) b \<and>
    map (mem_bytes mem) [0x1000..<0x1000 + length dtb] = dtb \<and> length dtb \<le> 0x2000 \<and>
    field32 dtb 0 = FDT_MAGIC \<and> uint (field32 dtb 4) = int (length dtb) \<and> scan_fdt_tokens dtb = Some (Ret () log) \<and>
    map (logged_property dtb) log = item_properties None (flatten_dt (device_tree vm image_file_size clint plic)) \<and>
    mem_size mem = mem_size (bootrom_host vm) \<and>
    (\<forall>i. i < 0x1000 \<or> 0x3000 \<le> i \<longrightarrow> mem_bytes mem i = mem_bytes (bootrom_host vm) i)"
proof -
  let ?ts = "tree_items vm image_file_size clint plic" and ?v = "phandles_after (length (harts vm))"
  have ok: "list_all item_ok ?ts" and len: "length (encode_items 0 ?ts) \<le> 7100" "length (item_names ?ts) \<le> 962"
    using sized_tree [OF assms(1-4)] by (auto simp: sized_def)
  then have "build_fdt 8192 1024 ?ts \<noteq> Stop Assertion" using build_fdt_stop_iff(1) [OF _ _ _ _ ok, of 8192 1024] by simp
  then obtain b where b: "build_fdt 8192 1024 ?ts = Ret () b" using build_fdt_stop_iff(2) [OF _ _ _ _ ok, of 8192 1024] by auto
  let ?dtb = "finished_blob b"
  obtain log where log: "scan_fdt_tokens ?dtb = Some (Ret () log)" "map (logged_property ?dtb) log = item_properties None ?ts"
      "field32 ?dtb 0 = FDT_MAGIC" "uint (field32 ?dtb 4) = int (length ?dtb)"
    using build_fdt_scan [OF _ _ _ _ ok b] by auto
  have "length ?dtb = unat (buffer_iptr b)" "unat (buffer_iptr b) \<le> 8192"
    using build_fdt_Ret [OF _ _ _ _ ok b] by (simp_all add: final_header_fields)
  then have small: "length ?dtb \<le> 8192" "buffer_iptr b \<le> ZELDA_DTB_MAX_SIZE" by (simp_all add: word_le_nat_alt)
  let ?mem = "(bootrom_host vm)\<lparr>mem_bytes := (\<lambda>i. if 0x1000 \<le> i \<and> i < 0x1000 + length ?dtb then ?dtb ! (i - 0x1000)
      else mem_bytes (bootrom_host vm) i)\<rparr>"
  have "0x400000 \<le> mem_size (bootrom_host vm)" using assms(6,7) by linarith
  then have copy: "host_memcpy (ZELDA_DTB_ADDRESS - bootrom_base vm) ?dtb (bootrom_host vm) = Some ?mem"
    using assms(5) small(1) by (simp add: host_memcpy_def cong: if_cong)
  have "fdt_init vm image_file_size clint plic = Ret (plic\<lparr>phandle := 1\<rparr>, ?mem) (with_view ?v b)"
    using fdt_init_build [OF assms(1,2), of image_file_size clint plic] b small(2) assms(5,6) copy by (simp add: finished_blob_def)
  moreover have "map (mem_bytes ?mem) [0x1000..<0x1000 + length ?dtb] = ?dtb"
    by (rule nth_equalityI) simp_all
  moreover have "\<forall>i. i < 0x1000 \<or> 0x3000 \<le> i \<longrightarrow> mem_bytes ?mem i = mem_bytes (bootrom_host vm) i" using small(1) by auto
  ultimately show ?thesis using log small(1) unfolding tree_items_def by (intro exI conjI) (assumption | simp)+
qed


text \<open>C23 for the configuration that comes with the emulator, on one hart.\<close>

definition example_vm :: virtual_machine where
  "example_vm = \<lparr>nr_harts = 1, boot_hart = 0, harts = [zeroed_hart], main_mem_size = 0x10000000, main_mem_base = 0x80000000,
     main_mem_host = \<lparr>mem_bytes = \<lambda>_. 0, mem_size = 0x10000000\<rparr>, bootrom_size = 0x400000, bootrom_base = 0,
     bootrom_host = \<lparr>mem_bytes = \<lambda>_. 0, mem_size = 0x400000\<rparr>,
     ini_config = (\<lambda>sec key. if key = ''rom_start'' then Some ''0x0'' else if key = ''rom_size'' then Some ''0x400000''
       else if key = ''bootarg'' then Some ''console=ttyS0 earlycon=uart8250,mmio,0x10000000'' else None)\<rparr>"

definition example_clint :: clint_state where
  "example_clint = \<lparr>clint_base = 0x2000000, clint_size = 0x10000, clint_nr_harts = 1, mtime = 0,
      mtimecmp = replicate MAX_NR_HARTS (- 1), msip = replicate MAX_NR_HARTS 0\<rparr>"

definition fresh_plic :: plic_state where
  "fresh_plic = \<lparr>plic_base = 0xc000000, plic_size = 0x4000000, nr_contexts = 2, phandle = 0,
     priority = replicate PLIC_NR_SOURCES 0, asserted = 0, pending = 0, claimed = 0,
     enable = replicate PLIC_MAX_CONTEXTS 0, threshold = replicate PLIC_MAX_CONTEXTS 0\<rparr>"


end
