(* ===== verification/Decode.thy ===== *)
theory Decode
  imports Prelude
begin

text \<open>
  Instruction decoding (\<open>instruction_decoding_per_type\<close>, \<^verbatim>\<open>vmm/translation.c\<close>; \<open>sign_extend32\<close>,
  \<^verbatim>\<open>vmm/util.h\<close>) and its agreement with the immediate formats of the RISC-V base instruction set.
\<close>

datatype INSTRUCTION_ENCODING_TYPE =
    ENCODING_TYPE_UNKNOWN | ENCODING_TYPE_U | ENCODING_TYPE_I | ENCODING_TYPE_UJ
  | ENCODING_TYPE_S | ENCODING_TYPE_B | ENCODING_TYPE_R

record decoding =
  instr_encoding_type :: INSTRUCTION_ENCODING_TYPE
  opcode :: u8
  funct3 :: u8
  rd_index :: u8
  rs1_index :: u8
  rs2_index :: u8
  funct7 :: u8
  imm :: u32

abbreviation RISCV_OPCODE_LUI :: u8 where "RISCV_OPCODE_LUI \<equiv> 0x37"
abbreviation RISCV_OPCODE_AUIPC :: u8 where "RISCV_OPCODE_AUIPC \<equiv> 0x17"
abbreviation RISCV_OPCODE_JAL :: u8 where "RISCV_OPCODE_JAL \<equiv> 0x6f"
abbreviation RISCV_OPCODE_JARL :: u8 where "RISCV_OPCODE_JARL \<equiv> 0x67"
abbreviation RISCV_OPCODE_BRANCH :: u8 where "RISCV_OPCODE_BRANCH \<equiv> 0x63"
abbreviation RISCV_OPCODE_LOAD :: u8 where "RISCV_OPCODE_LOAD \<equiv> 0x03"
abbreviation RISCV_OPCODE_STORE :: u8 where "RISCV_OPCODE_STORE \<equiv> 0x23"
abbreviation RISCV_OPCODE_OP_IMM :: u8 where "RISCV_OPCODE_OP_IMM \<equiv> 0x13"
abbreviation RISCV_OPCODE_OP :: u8 where "RISCV_OPCODE_OP \<equiv> 0x33"
abbreviation RISCV_OPCODE_FENCE :: u8 where "RISCV_OPCODE_FENCE \<equiv> 0x0f"
abbreviation RISCV_OPCODE_SUPERVISOR_LEVEL :: u8 where "RISCV_OPCODE_SUPERVISOR_LEVEL \<equiv> 0x73"
abbreviation RISCV_OPCODE_AMO :: u8 where "RISCV_OPCODE_AMO \<equiv> 0x2f"

section \<open>Operations\<close>

text \<open>The loop of \<open>sign_extend32\<close> ors the sign into every position from the sign bit on.\<close>

definition sign_extend32 :: "u32 \<Rightarrow> nat \<Rightarrow> u32" where
  "sign_extend32 data sign_bit = (
     let sign = drop_bit sign_bit data AND 1 in
     fold (\<lambda>bit_position ret. ret OR push_bit bit_position sign) [sign_bit..<32] data)"

definition zeroed_decoding :: decoding where
  "zeroed_decoding = \<lparr>instr_encoding_type = ENCODING_TYPE_UNKNOWN, opcode = 0, funct3 = 0, rd_index = 0,
     rs1_index = 0, rs2_index = 0, funct7 = 0, imm = 0\<rparr>"

text \<open>\<open>None\<close> is the failing assertion for an unknown encoding type.\<close>

definition instruction_decoding_per_type :: "u32 \<Rightarrow> INSTRUCTION_ENCODING_TYPE \<Rightarrow> decoding option" where
  "instruction_decoding_per_type intrs encoding_type = (
     let dec = zeroed_decoding\<lparr>opcode := ucast (intrs AND 0x7f), instr_encoding_type := encoding_type\<rparr>;
         rd = ucast (drop_bit 7 intrs AND 0x1f);
         f3 = ucast (drop_bit 12 intrs AND 7);
         rs1 = ucast (drop_bit 15 intrs AND 0x1f);
         rs2 = ucast (drop_bit 20 intrs AND 0x1f) in
     case encoding_type of
       ENCODING_TYPE_U \<Rightarrow> Some (dec\<lparr>rd_index := rd, imm := drop_bit 12 intrs AND 0xfffff\<rparr>)
     | ENCODING_TYPE_UJ \<Rightarrow> Some (dec\<lparr>rd_index := rd,
         imm := (drop_bit 21 intrs AND 0x3ff) OR push_bit 10 (drop_bit 20 intrs AND 0x1)
                OR push_bit 11 (drop_bit 12 intrs AND 0xff) OR push_bit 19 (drop_bit 31 intrs AND 0x1)\<rparr>)
     | ENCODING_TYPE_I \<Rightarrow> Some (dec\<lparr>rd_index := rd, funct3 := f3, rs1_index := rs1,
         imm := drop_bit 20 intrs AND 0xfff\<rparr>)
     | ENCODING_TYPE_S \<Rightarrow> Some (dec\<lparr>funct3 := f3, rs1_index := rs1, rs2_index := rs2,
         imm := (drop_bit 7 intrs AND 0x1f) OR push_bit 5 (drop_bit 25 intrs AND 0x7f)\<rparr>)
     | ENCODING_TYPE_B \<Rightarrow> Some (dec\<lparr>funct3 := f3, rs1_index := rs1, rs2_index := rs2,
         imm := (drop_bit 8 intrs AND 0xf) OR push_bit 4 (drop_bit 25 intrs AND 0x3f)
                OR push_bit 10 (drop_bit 7 intrs AND 0x1) OR push_bit 11 (drop_bit 31 intrs AND 0x1)\<rparr>)
     | ENCODING_TYPE_R \<Rightarrow> Some (dec\<lparr>funct3 := f3, rd_index := rd, rs1_index := rs1, rs2_index := rs2,
         funct7 := ucast (drop_bit 25 intrs AND 0x7f)\<rparr>)
     | ENCODING_TYPE_UNKNOWN \<Rightarrow> None)"

section \<open>Sign extension\<close>

lemma fold_or_push:
  "bit (fold (\<lambda>p r. r OR push_bit p s) ps d) n \<longleftrightarrow> bit d n \<or> (\<exists>p\<in>set ps. bit (push_bit p s) n)" for s d :: u32
  by (induction ps arbitrary: d) (auto simp: bit_simps)

lemma bit_push_sign: "n < 32 \<Longrightarrow> bit (push_bit p (drop_bit k d AND 1)) n \<longleftrightarrow> p = n \<and> bit d k" for d :: u32
  by (cases "n - p") (auto simp: bit_exp_iff bit_push_bit_iff bit_and_iff bit_drop_bit_eq bit_1_iff)

lemma sign_extend32_bit:
  assumes "k < 32" and "n < 32"
  shows "bit (sign_extend32 d k) n \<longleftrightarrow> bit d n \<or> (k \<le> n \<and> bit d k)"
  unfolding sign_extend32_def Let_def fold_or_push bit_push_sign [OF assms(2)]
  using assms by auto

text \<open>On a value that fits below the sign bit this is the signed reading of the value.\<close>

lemma sign_extend32_signed:
  assumes "k < 32" and "take_bit (Suc k) d = d"
  shows "sign_extend32 d k = signed_take_bit k d"
proof (rule bit_word_eqI)
  fix n assume n: "n < LENGTH(32)"
  have "bit d n \<Longrightarrow> n \<le> k" using assms(2) by (metis bit_take_bit_iff not_le less_Suc_eq_le not_less)
  then show "bit (sign_extend32 d k) n = bit (signed_take_bit k d) n"
    using n assms(1) by (auto simp: sign_extend32_bit bit_signed_take_bit_iff min_def)
qed

section \<open>The immediates of the instruction set\<close>

text \<open>The formats of the ISA manual, most significant part first.\<close>

definition sign_from :: "u32 \<Rightarrow> nat \<Rightarrow> u32" where
  "sign_from w n = (if bit w 31 then NOT (mask n) else 0)"

definition imm_I :: "u32 \<Rightarrow> u32" where
  "imm_I w = sign_from w 11 OR take_bit 11 (drop_bit 20 w)"

definition imm_S :: "u32 \<Rightarrow> u32" where
  "imm_S w = sign_from w 11 OR push_bit 5 (take_bit 6 (drop_bit 25 w)) OR take_bit 5 (drop_bit 7 w)"

definition imm_B :: "u32 \<Rightarrow> u32" where
  "imm_B w = sign_from w 12 OR push_bit 11 (take_bit 1 (drop_bit 7 w)) OR
     push_bit 5 (take_bit 6 (drop_bit 25 w)) OR push_bit 1 (take_bit 4 (drop_bit 8 w))"

definition imm_U :: "u32 \<Rightarrow> u32" where
  "imm_U w = push_bit 12 (drop_bit 12 w)"

definition imm_J :: "u32 \<Rightarrow> u32" where
  "imm_J w = sign_from w 20 OR push_bit 12 (take_bit 8 (drop_bit 12 w)) OR
     push_bit 11 (take_bit 1 (drop_bit 20 w)) OR push_bit 1 (take_bit 10 (drop_bit 21 w))"

lemmas imm_defs = imm_I_def imm_S_def imm_B_def imm_U_def imm_J_def sign_from_def

lemma field_masks:
  "(w AND 1) = take_bit 1 w" "(w AND 7) = take_bit 3 w" "(w AND 0xf) = take_bit 4 w" "(w AND 0x1f) = take_bit 5 w"
  "(w AND 0x3f) = take_bit 6 w" "(w AND 0x7f) = take_bit 7 w" "(w AND 0xff) = take_bit 8 w"
  "(w AND 0x3ff) = take_bit 10 w" "(w AND 0xfff) = take_bit 12 w" "(w AND 0xfffff) = take_bit 20 w" for w :: u32
  by (simp_all add: take_bit_eq_mask mask_eq_exp_minus_1)

lemmas field_bits = bit_or_iff bit_push_bit_iff bit_take_bit_iff bit_drop_bit_eq bit_not_iff bit_mask_iff comp_apply

lemma imm_I_bits: "n < 32 \<Longrightarrow> bit (imm_I w) n \<longleftrightarrow> (if n < 11 then bit w (20 + n) else bit w 31)"
  unfolding imm_I_def sign_from_def field_bits if_distrib [where f = "\<lambda>x. bit x n"] by auto

lemma imm_S_bits: "n < 32 \<Longrightarrow> bit (imm_S w) n \<longleftrightarrow>
    (if n < 5 then bit w (7 + n) else if n < 11 then bit w (20 + n) else bit w 31)"
  unfolding imm_S_def sign_from_def field_bits if_distrib [where f = "\<lambda>x. bit x n"] by auto

lemma imm_B_bits: "n < 32 \<Longrightarrow> bit (imm_B w) n \<longleftrightarrow> n \<noteq> 0 \<and> (if n < 5 then bit w (7 + n) else if n < 11 then bit w (20 + n)
     else if n = 11 then bit w 7 else bit w 31)"
  unfolding imm_B_def sign_from_def field_bits if_distrib [where f = "\<lambda>x. bit x n"] by auto

lemma imm_J_bits: "n < 32 \<Longrightarrow> bit (imm_J w) n \<longleftrightarrow> n \<noteq> 0 \<and> (if n < 11 then bit w (20 + n) else if n = 11 then bit w 20
     else if n < 20 then bit w n else bit w 31)"
  unfolding imm_J_def sign_from_def field_bits if_distrib [where f = "\<lambda>x. bit x n"] by auto

section \<open>The decoded immediates\<close>

definition decoded_imm :: "u32 \<Rightarrow> INSTRUCTION_ENCODING_TYPE \<Rightarrow> u32" where
  "decoded_imm w t = (case instruction_decoding_per_type w t of Some d \<Rightarrow> imm d | None \<Rightarrow> 0)"

lemmas decoded = decoded_imm_def instruction_decoding_per_type_def Let_def zeroed_decoding_def

lemma decoded_imm_I [simp]: "decoded_imm w ENCODING_TYPE_I = take_bit 12 (drop_bit 20 w)"
  by (simp add: decoded field_masks)

lemma decoded_imm_S_bit: "n < 32 \<Longrightarrow> bit (decoded_imm w ENCODING_TYPE_S) n \<longleftrightarrow>
    (if n < 5 then bit w (7 + n) else if n < 11 then bit w (20 + n) else n = 11 \<and> bit w 31)"
  by (cases "n = 11"; cases "n = 19"; simp only: decoded decoding.simps option.case INSTRUCTION_ENCODING_TYPE.case field_masks field_bits; auto)

lemma decoded_imm_B_bit: "n < 32 \<Longrightarrow> bit (decoded_imm w ENCODING_TYPE_B) n \<longleftrightarrow>
    (if n < 4 then bit w (8 + n) else if n < 10 then bit w (21 + n) else if n = 10 then bit w 7 else n = 11 \<and> bit w 31)"
  by (cases "n = 11"; cases "n = 19"; simp only: decoded decoding.simps option.case INSTRUCTION_ENCODING_TYPE.case field_masks field_bits; auto)

lemma decoded_imm_UJ_bit: "n < 32 \<Longrightarrow> bit (decoded_imm w ENCODING_TYPE_UJ) n \<longleftrightarrow>
    (if n < 10 then bit w (21 + n) else if n = 10 then bit w 20 else if n < 19 then bit w (1 + n) else n = 19 \<and> bit w 31)"
  by (cases "n = 11"; cases "n = 19"; simp only: decoded decoding.simps option.case INSTRUCTION_ENCODING_TYPE.case field_masks field_bits; auto)

lemma bit_double: "bit (x * 2) n \<longleftrightarrow> 0 < n \<and> n < 32 \<and> bit x (n - 1)" for x :: u32
  using bit_push_bit_iff [of 1 x n] by (auto simp: push_bit_eq_mult dest: bit_imp_le_length)

lemma sign_extended_I: "sign_extend32 (decoded_imm w ENCODING_TYPE_I) 11 = imm_I w"
  by (rule bit_word_eqI) (auto simp: sign_extend32_bit imm_I_bits bit_take_bit_iff bit_drop_bit_eq not_less le_less)

lemma sign_extended_S: "sign_extend32 (decoded_imm w ENCODING_TYPE_S) 11 = imm_S w"
  by (rule bit_word_eqI) (auto simp: sign_extend32_bit decoded_imm_S_bit imm_S_bits)

lemma sign_extended_B: "sign_extend32 (push_bit 1 (decoded_imm w ENCODING_TYPE_B)) 12 = imm_B w"
  by (rule bit_word_eqI) (auto simp: sign_extend32_bit decoded_imm_B_bit imm_B_bits bit_double)

lemma sign_extended_UJ: "sign_extend32 (push_bit 1 (decoded_imm w ENCODING_TYPE_UJ)) 20 = imm_J w"
  by (rule bit_word_eqI) (auto simp: sign_extend32_bit decoded_imm_UJ_bit imm_J_bits bit_double)

lemma shifted_U: "push_bit 12 (decoded_imm w ENCODING_TYPE_U) = imm_U w"
  by (rule bit_word_eqI) (auto simp: decoded imm_U_def field_masks bit_simps)

section \<open>The decoded fields\<close>

lemma take_bit_less_u8: "n < 8 \<Longrightarrow> unat (ucast (take_bit n w :: u32) :: u8) < 2 ^ n"
  by (simp add: unsigned_ucast_eq unsigned_take_bit_eq take_bit_take_bit take_bit_nat_less_exp min_def)

text \<open>A decoded register index stays inside the register file.\<close>

lemma decoded_register_range:
  assumes "instruction_decoding_per_type w t = Some d"
  shows "unat (rd_index d) < 32" and "unat (rs1_index d) < 32" and "unat (rs2_index d) < 32"
  using assms take_bit_less_u8 [of 5]
  by (auto simp: instruction_decoding_per_type_def Let_def zeroed_decoding_def field_masks
      split: INSTRUCTION_ENCODING_TYPE.splits)

text \<open>
  The immediate of every format, decoded and extended the way the translators do it, is the
  immediate the instruction set defines for that format.
\<close>

theorem immediates_match_isa:
  "map_option (\<lambda>d. sign_extend32 (imm d) 11) (instruction_decoding_per_type w ENCODING_TYPE_I) = Some (imm_I w) \<and>
   map_option (\<lambda>d. sign_extend32 (imm d) 11) (instruction_decoding_per_type w ENCODING_TYPE_S) = Some (imm_S w) \<and>
   map_option (\<lambda>d. sign_extend32 (push_bit 1 (imm d)) 12) (instruction_decoding_per_type w ENCODING_TYPE_B) = Some (imm_B w) \<and>
   map_option (\<lambda>d. push_bit 12 (imm d)) (instruction_decoding_per_type w ENCODING_TYPE_U) = Some (imm_U w) \<and>
   map_option (\<lambda>d. sign_extend32 (push_bit 1 (imm d)) 20) (instruction_decoding_per_type w ENCODING_TYPE_UJ) = Some (imm_J w)"
proof -
  have *: "map_option (\<lambda>d. f (imm d)) (instruction_decoding_per_type w t) = Some (f (decoded_imm w t))"
    if "t \<noteq> ENCODING_TYPE_UNKNOWN" for f :: "u32 \<Rightarrow> u32" and t
    using that by (cases t) (simp_all add: decoded)
  show ?thesis
    using * [of ENCODING_TYPE_I "\<lambda>x. sign_extend32 x 11"] * [of ENCODING_TYPE_S "\<lambda>x. sign_extend32 x 11"]
      * [of ENCODING_TYPE_B "\<lambda>x. sign_extend32 (push_bit 1 x) 12"] * [of ENCODING_TYPE_U "push_bit 12"]
      * [of ENCODING_TYPE_UJ "\<lambda>x. sign_extend32 (push_bit 1 x) 20"]
    by (simp only: INSTRUCTION_ENCODING_TYPE.distinct simp_thms
        sign_extended_I sign_extended_S sign_extended_B sign_extended_UJ shifted_U)
qed

end
