(* ===== verification/Mmu.thy ===== *)
theory Mmu
  imports Machine
begin

text \<open>
  Guest memory access: direct access, the Sv32 page table walk (\<^verbatim>\<open>vmm/mmu_pagewalker.c\<close>) that
  fills the TLBs, and the access functions through a TLB (\<^verbatim>\<open>vmm/mmu.h\<close>, \<^verbatim>\<open>vmm/mmu.c\<close>). The access
  functions exist once per size in the C code; here the size in bytes is an argument.
\<close>

section \<open>Direct access (mmu.h)\<close>

definition direct_read :: "nat \<Rightarrow> u32 \<Rightarrow> machine \<Rightarrow> (machine, u64) result" where
  "direct_read bytes linear_address m =
     (case search_pm_region_callback (regions m) (ucast linear_address) of
        Some (Some pmr) \<Rightarrow> rbind (pmr_read pmr (ucast linear_address) bytes m) (\<lambda>v. Ret (take_bit (8 * bytes) v))
      | _ \<Rightarrow> Stop Assertion)"

definition direct_write :: "nat \<Rightarrow> u32 \<Rightarrow> u64 \<Rightarrow> machine \<Rightarrow> (machine, unit) result" where
  "direct_write bytes linear_address value m =
     (case search_pm_region_callback (regions m) (ucast linear_address) of
        Some (Some pmr) \<Rightarrow> pmr_write pmr (ucast linear_address) bytes value m
      | _ \<Rightarrow> Stop Assertion)"

section \<open>Page table walk (mmu-pagewalker.c)\<close>

text \<open>
  The result of \<open>pte_at\<close> is the address of the entry, \<open>None\<close> for the null pointer; the outer
  option is a failing assertion of the region lookup. \<open>read_pte\<close> dereferences the pointer.
\<close>

definition pte_at :: "machine \<Rightarrow> u32 \<Rightarrow> u32 option option" where
  "pte_at m pa =
     map_option (\<lambda>found. case found of
         None \<Rightarrow> None
       | Some pmr \<Rightarrow> if has_pmr_direct pmr then Some pa else None)
     (search_pm_region_callback (regions m) (ucast pa))"

definition read_pte :: "machine \<Rightarrow> u32 \<Rightarrow> u32 option" where
  "read_pte m pa =
     (case search_pm_region_callback (regions m) (ucast pa) of
        Some (Some pmr) \<Rightarrow>
          (case host_load (ucast pa - ucast (addr_low pmr)) 4 (main_mem m) of
             Ret v _ \<Rightarrow> Some (ucast v) | _ \<Rightarrow> None)
      | _ \<Rightarrow> None)"

definition pte_valid :: "u32 \<Rightarrow> bool" where
  "pte_valid pte \<longleftrightarrow> bit pte 0"

definition pte_leaf :: "u32 \<Rightarrow> bool" where
  "pte_leaf pte \<longleftrightarrow> bit pte 1 \<or> bit pte 2 \<or> bit pte 3"

definition walk_page_table :: "machine \<Rightarrow> u32 \<Rightarrow> tlb_entry list \<Rightarrow> (tlb_entry list, int) result" where
  "walk_page_table m va tlb = (
     let satp = csr_blob (cpu m) CSR_ADDRESS_SATP in
     rassert (satp AND 0x80000000 \<noteq> 0) (
     let level1_base = push_bit 12 satp;
         level1_entry_offset = (drop_bit 22 va AND 0x3ff) * 4 in
     case pte_at m (level1_base + level1_entry_offset) of
       None \<Rightarrow> Stop Assertion
     | Some None \<Rightarrow> Ret (- 3) tlb
     | Some (Some p1) \<Rightarrow> (case read_pte m p1 of
         None \<Rightarrow> Stop Host_fault
       | Some level1_pte' \<Rightarrow>
           if \<not> pte_valid level1_pte' then Ret (- 1) tlb
           else let level1_ppn = drop_bit 10 level1_pte' in
           if pte_leaf level1_pte' then
             let pa = push_bit 12 level1_ppn AND PAGE_MASK_4M in
             (case search_pm_region_callback (regions m) (ucast pa) of
                None \<Rightarrow> Stop Assertion
              | Some None \<Rightarrow> Ret (- 4) tlb
              | Some (Some pmr) \<Rightarrow>
                  Ret 0 (tlb[VA_TO_4M_TLB_ENTRY tlb va :=
                    \<lparr>va_tag = va AND PAGE_MASK_4M, pa_tag = pa, page_mask = PAGE_MASK_4M, entry_valid = True,
                     level1_pte = Some p1, level2_pte = None, tlb_pmr = Some pmr\<rparr>]))
           else
             let level2_base = push_bit 12 level1_ppn;
                 level2_entry_offset = (drop_bit 12 va AND 0x3ff) * 4 in
             (case pte_at m (level2_base + level2_entry_offset) of
                None \<Rightarrow> Stop Assertion
              | Some None \<Rightarrow> Ret (- 3) tlb
              | Some (Some p2) \<Rightarrow> (case read_pte m p2 of
                  None \<Rightarrow> Stop Host_fault
                | Some level2_pte' \<Rightarrow>
                    if \<not> pte_valid level2_pte' then Ret (- 2) tlb
                    else let level2_ppn = drop_bit 10 level2_pte';
                             pa = push_bit 12 level2_ppn AND PAGE_MASK_4K in
                    (case search_pm_region_callback (regions m) (ucast pa) of
                       None \<Rightarrow> Stop Assertion
                     | Some None \<Rightarrow> Ret (- 4) tlb
                     | Some (Some pmr) \<Rightarrow>
                         Ret 0 (tlb[VA_TO_4K_TLB_ENTRY tlb va :=
                           \<lparr>va_tag = va AND PAGE_MASK_4K, pa_tag = pa, page_mask = PAGE_MASK_4K, entry_valid = True,
                            level1_pte = Some p1, level2_pte = Some p2, tlb_pmr = Some pmr\<rparr>])))))))"

section \<open>Access through the TLBs (mmu.h, mmu.c)\<close>

definition paging_enabled :: "hart \<Rightarrow> bool" where
  "paging_enabled h \<longleftrightarrow> privilege_level h < PRIVILEGE_LEVEL_MACHINE \<and> csr_blob h CSR_ADDRESS_SATP AND 0x80000000 \<noteq> 0"

text \<open>
  The lookup with a walk on a miss, over one of the two TLBs of the hart (its selector and its
  update).
\<close>

definition tlb_lookup ::
  "(hart \<Rightarrow> tlb_entry list) \<Rightarrow> (tlb_entry list \<Rightarrow> hart \<Rightarrow> hart) \<Rightarrow> u32 \<Rightarrow> machine \<Rightarrow> (machine, tlb_entry option) result" where
  "tlb_lookup get put va m =
     (case VA_TO_TLB_ENTRY (get (cpu m)) va of
        Some entry \<Rightarrow> Ret (Some entry) m
      | None \<Rightarrow> rbind (rmap (\<lambda>tlb. m\<lparr>cpu := put tlb (cpu m)\<rparr>) (walk_page_table m va (get (cpu m))))
                  (\<lambda>_ m'. Ret (VA_TO_TLB_ENTRY (get (cpu m')) va) m'))"

abbreviation put_itlb :: "tlb_entry list \<Rightarrow> hart \<Rightarrow> hart" where "put_itlb tlb h \<equiv> h\<lparr>itlb := tlb\<rparr>"
abbreviation put_dtlb :: "tlb_entry list \<Rightarrow> hart \<Rightarrow> hart" where "put_dtlb tlb h \<equiv> h\<lparr>dtlb := tlb\<rparr>"

definition translated_address :: "tlb_entry \<Rightarrow> u32 \<Rightarrow> u32" where
  "translated_address entry va = pa_tag entry OR (va AND NOT (page_mask entry))"

definition entry_read :: "nat \<Rightarrow> tlb_entry \<Rightarrow> u32 \<Rightarrow> machine \<Rightarrow> (machine, u64) result" where
  "entry_read bytes entry va m =
     (case tlb_pmr entry of
        None \<Rightarrow> Stop Host_fault
      | Some pmr \<Rightarrow> rbind (pmr_read pmr (ucast (translated_address entry va)) bytes m) (\<lambda>v. Ret (take_bit (8 * bytes) v)))"

definition entry_write :: "nat \<Rightarrow> tlb_entry \<Rightarrow> u32 \<Rightarrow> u64 \<Rightarrow> machine \<Rightarrow> (machine, unit) result" where
  "entry_write bytes entry va value m =
     (case tlb_pmr entry of
        None \<Rightarrow> Stop Host_fault
      | Some pmr \<Rightarrow> pmr_write pmr (ucast (translated_address entry va)) bytes value m)"

definition raise_exception_with_tvalue :: "u8 \<Rightarrow> u32 \<Rightarrow> machine \<Rightarrow> (machine, 'a) result" where
  "raise_exception_with_tvalue cause tval = on_cpu (\<lambda>h. raise_exception_internal h cause tval)"

definition vmread :: "nat \<Rightarrow> u32 \<Rightarrow> machine \<Rightarrow> (machine, u64) result" where
  "vmread bytes linear_address m =
     (if paging_enabled (cpu m) then
        rbind (tlb_lookup dtlb put_dtlb linear_address m) (\<lambda>entry m'.
          case entry of
            None \<Rightarrow> raise_exception_with_tvalue EXCEPTION_LOAD_PAGE_FAULT linear_address m'
          | Some e \<Rightarrow> entry_read bytes e linear_address m')
      else direct_read bytes linear_address m)"

definition vmwrite :: "nat \<Rightarrow> u32 \<Rightarrow> u64 \<Rightarrow> machine \<Rightarrow> (machine, unit) result" where
  "vmwrite bytes linear_address value m =
     (if paging_enabled (cpu m) then
        rbind (tlb_lookup dtlb put_dtlb linear_address m) (\<lambda>entry m'.
          case entry of
            None \<Rightarrow> raise_exception_with_tvalue EXCEPTION_STORE_PAGE_FAULT linear_address m'
          | Some e \<Rightarrow> entry_write bytes e linear_address value m')
      else direct_write bytes linear_address value m)"

definition mmu_read8 :: "u32 \<Rightarrow> machine \<Rightarrow> (machine, u8) result" where
  "mmu_read8 location m = rbind (vmread 1 location m) (\<lambda>v. Ret (ucast v))"

definition mmu_read16 :: "u32 \<Rightarrow> machine \<Rightarrow> (machine, u16) result" where
  "mmu_read16 location m = rbind (vmread 2 location m) (\<lambda>v. Ret (ucast v))"

definition mmu_read32 :: "u32 \<Rightarrow> machine \<Rightarrow> (machine, u32) result" where
  "mmu_read32 location m = rbind (vmread 4 location m) (\<lambda>v. Ret (ucast v))"

definition mmu_read32_aligned :: "u32 \<Rightarrow> machine \<Rightarrow> (machine, u32) result" where
  "mmu_read32_aligned location m =
     (if location AND 3 \<noteq> 0 then raise_exception_with_tvalue EXCEPTION_LOAD_ADDRESS_MISALIGN location m
      else mmu_read32 location m)"

definition mmu_write8 :: "u32 \<Rightarrow> u8 \<Rightarrow> machine \<Rightarrow> (machine, unit) result" where
  "mmu_write8 location value m = vmwrite 1 location (ucast value) m"

definition mmu_write16 :: "u32 \<Rightarrow> u16 \<Rightarrow> machine \<Rightarrow> (machine, unit) result" where
  "mmu_write16 location value m = vmwrite 2 location (ucast value) m"

definition mmu_write32 :: "u32 \<Rightarrow> u32 \<Rightarrow> machine \<Rightarrow> (machine, unit) result" where
  "mmu_write32 location value m = vmwrite 4 location (ucast value) m"

text \<open>A misaligned store raises the cause of a misaligned load, as in the code.\<close>

definition mmu_write32_aligned :: "u32 \<Rightarrow> u32 \<Rightarrow> machine \<Rightarrow> (machine, unit) result" where
  "mmu_write32_aligned location value m =
     (if location AND 3 \<noteq> 0 then raise_exception_with_tvalue EXCEPTION_LOAD_ADDRESS_MISALIGN location m
      else mmu_write32 location value m)"

definition mmu_instruction_read32 :: "u32 \<Rightarrow> machine \<Rightarrow> (machine, u32) result" where
  "mmu_instruction_read32 instruction_va m =
     (if paging_enabled (cpu m) then
        rbind (tlb_lookup itlb put_itlb instruction_va m) (\<lambda>entry m'.
          case entry of
            None \<Rightarrow> raise_exception_with_tvalue EXCEPTION_INSTRUCTION_PAGE_FAULT instruction_va m'
          | Some e \<Rightarrow> rbind (entry_read 4 e instruction_va m') (\<lambda>v. Ret (ucast v)))
      else rbind (direct_read 4 instruction_va m) (\<lambda>v. Ret (ucast v)))"

section \<open>The Sv32 contract of the walk\<close>

text \<open>
  The translation that the privileged architecture defines for Sv32, without the permission
  bits, which the code does not check: two levels of tables, a leaf at the first level maps a
  4M page, a leaf at the second level a 4K page. \<open>rd\<close> reads a page table entry.
\<close>

definition sv32_translate :: "(u32 \<Rightarrow> u32) \<Rightarrow> u32 \<Rightarrow> u32 \<Rightarrow> u32 option" where
  "sv32_translate rd satp va = (
     let pte1 = rd (push_bit 12 satp + push_bit 2 (take_bit 10 (drop_bit 22 va))) in
     if \<not> bit pte1 0 then None
     else if bit pte1 1 \<or> bit pte1 2 \<or> bit pte1 3
     then Some (push_bit 22 (take_bit 10 (drop_bit 20 pte1)) OR take_bit 22 va)
     else let pte2 = rd (push_bit 12 (take_bit 20 (drop_bit 10 pte1)) + push_bit 2 (take_bit 10 (drop_bit 12 va))) in
       if \<not> bit pte2 0 then None
       else Some (push_bit 12 (take_bit 20 (drop_bit 10 pte2)) OR take_bit 12 va))"

lemma pte_offset: "(w AND 0x3ff) * 4 = push_bit 2 (take_bit 10 w)" for w :: u32
proof -
  have "w AND 0x3ff = take_bit 10 w" by (simp add: take_bit_eq_mask mask_eq_exp_minus_1)
  then show ?thesis by (simp add: push_bit_eq_mult)
qed

lemma ppn_base: "push_bit 12 (take_bit 20 (drop_bit 10 pte)) = push_bit 12 (drop_bit 10 pte)" for pte :: u32
  by (rule bit_word_eqI) (auto simp: bit_simps)

lemma masks_as_bits:
  "(PAGE_MASK_4K :: u32) = NOT (mask 12)" "(PAGE_MASK_4M :: u32) = NOT (mask 22)"
  by (simp_all add: mask_eq_exp_minus_1)

lemma page_address_4m:
  "(push_bit 12 (drop_bit 10 pte) AND PAGE_MASK_4M) OR (va AND NOT PAGE_MASK_4M) =
   push_bit 22 (take_bit 10 (drop_bit 20 pte)) OR take_bit 22 va" for pte va :: u32
  unfolding masks_as_bits by (rule bit_word_eqI) (auto simp: bit_simps)

lemma page_address_4k:
  "(push_bit 12 (drop_bit 10 pte) AND PAGE_MASK_4K) OR (va AND NOT PAGE_MASK_4K) =
   push_bit 12 (drop_bit 10 pte) OR take_bit 12 va" for pte va :: u32
  unfolding masks_as_bits by (rule bit_word_eqI) (auto simp: bit_simps)

lemma tlb_slots_update [simp]:
  "VA_TO_4K_TLB_ENTRY (tlb[i := e]) va = VA_TO_4K_TLB_ENTRY tlb va"
  "VA_TO_4M_TLB_ENTRY (tlb[i := e]) va = VA_TO_4M_TLB_ENTRY tlb va"
  by (simp_all add: VA_TO_4K_TLB_ENTRY_def VA_TO_4M_TLB_ENTRY_def tlb_cap_def)

text \<open>After a miss, an entry installed in either slot of an address is the one that is found.\<close>

lemma tlb_install:
  assumes "wf_tlb tlb" and "VA_TO_TLB_ENTRY tlb va = None" and "entry_valid e"
  shows "VA_TO_TLB_ENTRY (tlb[VA_TO_4K_TLB_ENTRY tlb va := e]) va = Some e"
    and "VA_TO_TLB_ENTRY (tlb[VA_TO_4M_TLB_ENTRY tlb va := e]) va = Some e"
proof -
  have miss: "\<not> entry_valid (tlb ! VA_TO_4K_TLB_ENTRY tlb va)"
    using assms(2) by (auto simp: VA_TO_TLB_ENTRY_def Let_def split: if_splits)
  show "VA_TO_TLB_ENTRY (tlb[VA_TO_4K_TLB_ENTRY tlb va := e]) va = Some e"
    using assms(1,3) by (simp add: VA_TO_TLB_ENTRY_def)
  show "VA_TO_TLB_ENTRY (tlb[VA_TO_4M_TLB_ENTRY tlb va := e]) va = Some e"
    using assms(1,3) miss by (simp add: VA_TO_TLB_ENTRY_def nth_list_update)
qed

text \<open>
  A machine in which the page tables can be read: every address that the walk of \<open>va\<close> reads
  lies in main memory. \<open>pte_mem\<close> is then the content of the tables.
\<close>

definition pte_mem :: "machine \<Rightarrow> u32 \<Rightarrow> u32" where
  "pte_mem m pa = (case read_pte m pa of Some v \<Rightarrow> v | None \<Rightarrow> 0)"

definition pte_readable :: "machine \<Rightarrow> u32 \<Rightarrow> bool" where
  "pte_readable m pa \<longleftrightarrow> pte_at m pa = Some (Some pa) \<and> read_pte m pa \<noteq> None"

definition tables_readable :: "machine \<Rightarrow> u32 \<Rightarrow> bool" where
  "tables_readable m va \<longleftrightarrow> (
     let satp = csr_blob (cpu m) CSR_ADDRESS_SATP;
         a1 = push_bit 12 satp + push_bit 2 (take_bit 10 (drop_bit 22 va));
         pte1 = pte_mem m a1;
         a2 = push_bit 12 (take_bit 20 (drop_bit 10 pte1)) + push_bit 2 (take_bit 10 (drop_bit 12 va)) in
     pte_readable m a1 \<and> (pte_valid pte1 \<longrightarrow> \<not> pte_leaf pte1 \<longrightarrow> pte_readable m a2))"

text \<open>The page base and the mask that the walk computes for the translation.\<close>

definition sv32_mask :: "machine \<Rightarrow> u32 \<Rightarrow> u32" where
  "sv32_mask m va =
     (if pte_leaf (pte_mem m (push_bit 12 (csr_blob (cpu m) CSR_ADDRESS_SATP) + push_bit 2 (take_bit 10 (drop_bit 22 va))))
      then PAGE_MASK_4M else PAGE_MASK_4K)"

lemma pte_readableD:
  "pte_readable m a \<Longrightarrow> pte_at m a = Some (Some a)" "pte_readable m a \<Longrightarrow> read_pte m a = Some (pte_mem m a)"
  by (auto simp: pte_readable_def pte_mem_def)

lemma page_base: "((x AND k) OR (va AND NOT k)) AND k = x AND k" for x va k :: u32
  by (rule bit_word_eqI) (auto simp: bit_simps)

lemma wf_tlb_update [simp]: "wf_tlb (tlb[i := e]) = wf_tlb tlb"
  by (simp add: wf_tlb_def)

lemma walk_page_table_spec:
  fixes m va
  defines "satp \<equiv> csr_blob (cpu m) CSR_ADDRESS_SATP"
  assumes on: "satp AND 0x80000000 \<noteq> 0" and tab: "tables_readable m va"
    and tlb: "wf_tlb tlb" "VA_TO_TLB_ENTRY tlb va = None"
  shows "sv32_translate (pte_mem m) satp va = None \<Longrightarrow> \<exists>rc<0. walk_page_table m va tlb = Ret rc tlb"
    and "sv32_translate (pte_mem m) satp va = Some pa \<Longrightarrow>
      search_pm_region_callback (regions m) (ucast (pa AND sv32_mask m va)) = Some (Some pmr) \<Longrightarrow>
      \<exists>tlb' e. walk_page_table m va tlb = Ret 0 tlb' \<and> wf_tlb tlb' \<and> VA_TO_TLB_ENTRY tlb' va = Some e \<and>
        translated_address e va = pa \<and> tlb_pmr e = Some pmr"
proof -
  let ?a1 = "push_bit 12 satp + push_bit 2 (take_bit 10 (drop_bit 22 va))"
  let ?p1 = "pte_mem m ?a1"
  let ?a2 = "push_bit 12 (drop_bit 10 ?p1) + push_bit 2 (take_bit 10 (drop_bit 12 va))"
  let ?p2 = "pte_mem m ?a2"
  have r1: "pte_readable m ?a1" and r2: "pte_valid ?p1 \<Longrightarrow> \<not> pte_leaf ?p1 \<Longrightarrow> pte_readable m ?a2"
    using tab by (simp_all add: tables_readable_def satp_def Let_def ppn_base)
  have walk1: "walk_page_table m va tlb =
      (if \<not> pte_valid ?p1 then Ret (- 1) tlb
       else if pte_leaf ?p1 then
         (case search_pm_region_callback (regions m) (ucast (push_bit 12 (drop_bit 10 ?p1) AND PAGE_MASK_4M)) of
            None \<Rightarrow> Stop Assertion | Some None \<Rightarrow> Ret (- 4) tlb
          | Some (Some pmr) \<Rightarrow> Ret 0 (tlb[VA_TO_4M_TLB_ENTRY tlb va :=
              \<lparr>va_tag = va AND PAGE_MASK_4M, pa_tag = push_bit 12 (drop_bit 10 ?p1) AND PAGE_MASK_4M,
               page_mask = PAGE_MASK_4M, entry_valid = True, level1_pte = Some ?a1, level2_pte = None, tlb_pmr = Some pmr\<rparr>]))
       else if \<not> pte_valid ?p2 then Ret (- 2) tlb
       else (case search_pm_region_callback (regions m) (ucast (push_bit 12 (drop_bit 10 ?p2) AND PAGE_MASK_4K)) of
            None \<Rightarrow> Stop Assertion | Some None \<Rightarrow> Ret (- 4) tlb
          | Some (Some pmr) \<Rightarrow> Ret 0 (tlb[VA_TO_4K_TLB_ENTRY tlb va :=
              \<lparr>va_tag = va AND PAGE_MASK_4K, pa_tag = push_bit 12 (drop_bit 10 ?p2) AND PAGE_MASK_4K,
               page_mask = PAGE_MASK_4K, entry_valid = True, level1_pte = Some ?a1, level2_pte = Some ?a2, tlb_pmr = Some pmr\<rparr>])))"
    using on pte_readableD [OF r1] pte_readableD [OF r2]
    by (auto simp: walk_page_table_def satp_def [symmetric] pte_offset Let_def)
  have spec: "sv32_translate (pte_mem m) satp va =
      (if \<not> pte_valid ?p1 then None
       else if pte_leaf ?p1 then Some (push_bit 12 (drop_bit 10 ?p1) AND PAGE_MASK_4M OR va AND NOT PAGE_MASK_4M)
       else if \<not> pte_valid ?p2 then None
       else Some (push_bit 12 (drop_bit 10 ?p2) AND PAGE_MASK_4K OR va AND NOT PAGE_MASK_4K))"
    by (simp only: sv32_translate_def page_address_4m page_address_4k ppn_base pte_valid_def pte_leaf_def Let_def)
  have m: "sv32_mask m va = (if pte_leaf ?p1 then PAGE_MASK_4M else PAGE_MASK_4K)"
    by (simp only: sv32_mask_def satp_def)
  show "\<exists>rc<0. walk_page_table m va tlb = Ret rc tlb" if "sv32_translate (pte_mem m) satp va = None"
    using that unfolding walk1 spec by (auto split: if_splits)
  show "\<exists>tlb' e. walk_page_table m va tlb = Ret 0 tlb' \<and> wf_tlb tlb' \<and> VA_TO_TLB_ENTRY tlb' va = Some e \<and>
        translated_address e va = pa \<and> tlb_pmr e = Some pmr"
    if "sv32_translate (pte_mem m) satp va = Some pa"
      "search_pm_region_callback (regions m) (ucast (pa AND sv32_mask m va)) = Some (Some pmr)"
  proof (cases "pte_leaf ?p1")
    case True
    then have v: "pte_valid ?p1" and pa: "pa = push_bit 12 (drop_bit 10 ?p1) AND PAGE_MASK_4M OR va AND NOT PAGE_MASK_4M"
      using that(1) unfolding spec by (simp_all only: if_True if_False not_True_eq_False option.inject option.distinct split: if_splits)
    have "search_pm_region_callback (regions m) (ucast (push_bit 12 (drop_bit 10 ?p1) AND PAGE_MASK_4M)) = Some (Some pmr)"
      using that(2) True unfolding m pa by (simp only: if_True page_base)
    then show ?thesis using True v tlb_install(2) [OF tlb] tlb(1)
      unfolding walk1 by (simp add: translated_address_def pa)
  next
    case False
    then have v: "pte_valid ?p1" "pte_valid ?p2" and pa: "pa = push_bit 12 (drop_bit 10 ?p2) AND PAGE_MASK_4K OR va AND NOT PAGE_MASK_4K"
      using that(1) unfolding spec by (simp_all only: if_True if_False not_True_eq_False option.inject option.distinct split: if_splits)
    have "search_pm_region_callback (regions m) (ucast (push_bit 12 (drop_bit 10 ?p2) AND PAGE_MASK_4K)) = Some (Some pmr)"
      using that(2) False unfolding m pa by (simp only: if_False page_base)
    then show ?thesis using False v tlb_install(1) [OF tlb] tlb(1)
      unfolding walk1 by (simp add: translated_address_def pa)
  qed
qed

section \<open>Properties\<close>

text \<open>A machine for examples: paging is on and the root table at 0x40000000 maps one 4M page.\<close>

definition empty_tlb_entry :: tlb_entry where
  "empty_tlb_entry = \<lparr>va_tag = 0, pa_tag = 0, page_mask = 0, entry_valid = False,
     level1_pte = None, level2_pte = None, tlb_pmr = None\<rparr>"

definition example_ram :: pm_region_operation where
  "example_ram = \<lparr>addr_low = 0x40000000, addr_high = 0x40400000, pmr_device = Main_memory\<rparr>"

definition example_machine :: machine where
  "example_machine =
     \<lparr>cpu = (set_csr CSR_ADDRESS_SATP 0x80040000 zeroed_hart)\<lparr>dtlb := replicate 16 empty_tlb_entry\<rparr>,
      regions = [example_ram],
      main_mem = \<lparr>mem_bytes = (\<lambda>_. 0)(4 := 0x0f, 7 := 0x10), mem_size = 0x400000\<rparr>,
      bootrom = \<lparr>mem_bytes = (\<lambda>_. 0), mem_size = 0\<rparr>,
      clint_dev = \<lparr>clint_base = 0x2000000, clint_size = 0x10000, clint_nr_harts = 1, mtime = 0,
                   mtimecmp = replicate 64 (- 1), msip = replicate 64 0\<rparr>,
      plic_dev = example_plic, uart_dev = example_uart, terminal_input = [],
      reservations = [], next_pointer = 0, breakpoints = [], poll_countdown = 0, ticks_per_translation_unit = 2\<rparr>"

lemma example_machine_sel [simp]:
  "regions example_machine = [example_ram]"
  "cpu example_machine = (set_csr CSR_ADDRESS_SATP 0x80040000 zeroed_hart)\<lparr>dtlb := replicate 16 empty_tlb_entry\<rparr>"
  by (simp_all add: example_machine_def)

lemma example_search:
  assumes "in_region example_ram pa"
  shows "search_pm_region_callback [example_ram] (ucast pa) = Some (Some example_ram)"
proof -
  have "wf_regions [example_ram]" by (simp add: wf_regions_def nonempty_region_def example_ram_def)
  moreover have "pa \<noteq> - 1" using assms by (auto simp: in_region_def)
  ultimately show ?thesis using assms by (intro search_pm_region_iff) simp_all
qed

lemma example_search_numeral:
  "search_pm_region_callback [example_ram] 0x40000004 = Some (Some example_ram)"
  "search_pm_region_callback [example_ram] 0x40000000 = Some (Some example_ram)"
  using example_search [of "0x40000004"] example_search [of "0x40000000"]
  by (simp_all add: in_region_def example_ram_def)

lemma le_read_4:
  "le_read 4 m a = ucast (m a) OR push_bit 8 (ucast (m (Suc a)) OR
     push_bit 8 (ucast (m (Suc (Suc a))) OR push_bit 8 (ucast (m (Suc (Suc (Suc a)))))))"
  by (simp add: numeral_eq_Suc le_read.simps(2))

lemma example_pte: "read_pte example_machine 0x40000004 = Some 0x1000000f"
  by (simp add: read_pte_def example_search_numeral host_load_def le_read_4)
    (simp add: example_machine_def example_ram_def)

lemma example_root: "(0x80040000004 :: u32) = 0x40000004"
  by simp

lemma example_pte_mem: "pte_readable example_machine 0x40000004" "pte_mem example_machine 0x40000004 = 0x1000000f"
  by (simp_all add: pte_readable_def pte_at_def example_search_numeral pte_mem_def example_pte)
    (simp add: has_pmr_direct_def example_ram_def)

lemma example_tables: "tables_readable example_machine 0x400123"
  by (simp add: tables_readable_def Let_def example_root example_pte_mem pte_leaf_def)






end
