(* ===== verification/Csr_Registers.thy ===== *)
theory Csr_Registers
  imports Mmu
begin

text \<open>
  The control and status registers: the handlers of every register
  (\<^verbatim>\<open>vmm/csr_machine_level.c\<close>, \<^verbatim>\<open>vmm/csr_supervisor_level.c\<close>, \<^verbatim>\<open>vmm/csr_machine_level_pmp.c\<close>,
  \<^verbatim>\<open>vmm/csr_misc.c\<close>), the registry the static constructors build (\<^verbatim>\<open>vmm/csr.h\<close>) and its
  installation into a hart (\<open>csr_registery_init\<close> and \<open>hart_init\<close>, \<^verbatim>\<open>vmm/hart.c\<close>).

  A handler receives a pointer to its CSR entry, from which it uses the blob; here it receives
  the address of the register and finds the blob in the hart. The log output is left out.
\<close>

section \<open>Entries\<close>

type_synonym csr_write = "nat \<Rightarrow> u32 \<Rightarrow> machine \<Rightarrow> machine"
type_synonym csr_read = "nat \<Rightarrow> machine \<Rightarrow> u32 \<times> machine"
type_synonym csr_reset = "nat \<Rightarrow> hart \<Rightarrow> hart"

record csr_registery_entry =
  csr_addr :: nat
  wpri_mask :: u32
  on_write :: "csr_write option"
  on_read :: "csr_read option"
  on_reset :: "csr_reset option"

definition WPRI_MASK_ALL :: u32 where
  "WPRI_MASK_ALL = 0xffffffff"

text \<open>A one-bit field of the status word, or of an interrupt word, moved to its position in the register.\<close>

definition status_bits :: "nat \<Rightarrow> bool \<Rightarrow> u32" where
  "status_bits n b = push_bit n (of_bool b)"

definition field_bit :: "nat \<Rightarrow> u32 \<Rightarrow> u32" where
  "field_bit n w = push_bit n (of_bool (bit w n))"

section \<open>Handlers\<close>

definition csr_mscratch_write :: csr_write where
  "csr_mscratch_write csr value m =
     m\<lparr>cpu := set_csr csr value (cpu m)\<rparr>"

definition csr_mscratch_read :: csr_read where
  "csr_mscratch_read csr m =
     (csr_blob (cpu m) csr, m)"

definition mscratch_csr_entry :: csr_registery_entry where
  "mscratch_csr_entry = \<lparr>csr_addr = CSR_ADDRESS_MSCRATCH, wpri_mask = WPRI_MASK_ALL,
     on_write = Some csr_mscratch_write, on_read = Some csr_mscratch_read, on_reset = None\<rparr>"

definition csr_misa_write :: csr_write where
  "csr_misa_write csr value m =
     m"

definition csr_misa_read :: csr_read where
  "csr_misa_read csr m =
     (csr_blob (cpu m) csr, m)"

definition csr_misa_reset :: csr_reset where
  "csr_misa_reset csr h = set_csr csr (1 OR push_bit 8 1 OR push_bit 12 1 OR push_bit 18 1 OR push_bit 20 1 OR push_bit 30 1) h"

definition misa_csr_entry :: csr_registery_entry where
  "misa_csr_entry = \<lparr>csr_addr = 0x301, wpri_mask = WPRI_MASK_ALL,
     on_write = Some csr_misa_write, on_read = Some csr_misa_read, on_reset = Some csr_misa_reset\<rparr>"

definition csr_mvendorid_reset :: csr_reset where
  "csr_mvendorid_reset csr h = set_csr csr 0x60a h"

definition csr_mvendorid_read :: csr_read where
  "csr_mvendorid_read csr m =
     (csr_blob (cpu m) csr, m)"

definition mvendorid_csr_entry :: csr_registery_entry where
  "mvendorid_csr_entry = \<lparr>csr_addr = 0xf11, wpri_mask = WPRI_MASK_ALL,
     on_write = None, on_read = Some csr_mvendorid_read, on_reset = Some csr_mvendorid_reset\<rparr>"

definition csr_mhartid_read :: csr_read where
  "csr_mhartid_read csr m =
     (word_of_int (hart_id (cpu m)), m)"

definition mhartid_csr_entry :: csr_registery_entry where
  "mhartid_csr_entry = \<lparr>csr_addr = 0xf14, wpri_mask = WPRI_MASK_ALL,
     on_write = None, on_read = Some csr_mhartid_read, on_reset = None\<rparr>"

definition csr_mtvec_write :: csr_write where
  "csr_mtvec_write csr value m =
     m\<lparr>cpu := set_csr csr value (cpu m)\<rparr>"

definition csr_mtvec_read :: csr_read where
  "csr_mtvec_read csr m =
     (csr_blob (cpu m) csr, m)"

definition csr_mtvec_reset :: csr_reset where
  "csr_mtvec_reset csr h = set_csr csr 0 h"

definition mtvec_csr_entry :: csr_registery_entry where
  "mtvec_csr_entry = \<lparr>csr_addr = CSR_ADDRESS_MTVEC, wpri_mask = 0xfffffffd,
     on_write = Some csr_mtvec_write, on_read = Some csr_mtvec_read, on_reset = Some csr_mtvec_reset\<rparr>"

definition csr_mcounteren_write :: csr_write where
  "csr_mcounteren_write csr value m =
     m\<lparr>cpu := set_csr csr value (cpu m)\<rparr>"

definition csr_mcounteren_read :: csr_read where
  "csr_mcounteren_read csr m =
     (csr_blob (cpu m) csr, m)"

definition csr_mcounteren_reset :: csr_reset where
  "csr_mcounteren_reset csr h = set_csr csr 0 h"

definition mcounteren_csr_entry :: csr_registery_entry where
  "mcounteren_csr_entry = \<lparr>csr_addr = 0x306, wpri_mask = WPRI_MASK_ALL,
     on_write = Some csr_mcounteren_write, on_read = Some csr_mcounteren_read, on_reset = Some csr_mcounteren_reset\<rparr>"

definition csr_mie_write :: csr_write where
  "csr_mie_write csr value m =
     m\<lparr>cpu := (cpu m)\<lparr>ienable := value\<rparr>\<rparr>"

definition csr_mie_read :: csr_read where
  "csr_mie_read csr m =
     (ienable (cpu m), m)"

definition csr_mie_reset :: csr_reset where
  "csr_mie_reset csr h = h\<lparr>ienable := 0\<rparr>"

definition mie_csr_entry :: csr_registery_entry where
  "mie_csr_entry = \<lparr>csr_addr = CSR_ADDRESS_MIE, wpri_mask = 0x00000aaa,
     on_write = Some csr_mie_write, on_read = Some csr_mie_read, on_reset = Some csr_mie_reset\<rparr>"

definition csr_mip_write :: csr_write where
  "csr_mip_write csr value m =
     (let mip_mask = ipending (cpu m) AND 0x888 in
     m\<lparr>cpu := (cpu m)\<lparr>ipending := (value AND NOT 0x888) OR mip_mask\<rparr>\<rparr>)"

definition csr_mip_read :: csr_read where
  "csr_mip_read csr m =
     (ipending (cpu m), m)"

definition csr_mip_reset :: csr_reset where
  "csr_mip_reset csr h = h\<lparr>ipending := 0\<rparr>"

definition mip_csr_entry :: csr_registery_entry where
  "mip_csr_entry = \<lparr>csr_addr = CSR_ADDRESS_MIP, wpri_mask = 0x00000aaa,
     on_write = Some csr_mip_write, on_read = Some csr_mip_read, on_reset = Some csr_mip_reset\<rparr>"

definition csr_medeleg_write :: csr_write where
  "csr_medeleg_write csr value m =
     m\<lparr>cpu := set_csr csr value (cpu m)\<rparr>"

definition csr_medeleg_read :: csr_read where
  "csr_medeleg_read csr m =
     (csr_blob (cpu m) csr, m)"

definition csr_medeleg_reset :: csr_reset where
  "csr_medeleg_reset csr h = set_csr csr 0 h"

definition medeleg_csr_entry :: csr_registery_entry where
  "medeleg_csr_entry = \<lparr>csr_addr = CSR_ADDRESS_MEDELEG, wpri_mask = 0xfffff7ff,
     on_write = Some csr_medeleg_write, on_read = Some csr_medeleg_read, on_reset = Some csr_medeleg_reset\<rparr>"

definition csr_mideleg_write :: csr_write where
  "csr_mideleg_write csr value m =
     m\<lparr>cpu := (cpu m)\<lparr>idelegation := value\<rparr>\<rparr>"

definition csr_mideleg_read :: csr_read where
  "csr_mideleg_read csr m =
     (idelegation (cpu m), m)"

definition csr_mideleg_reset :: csr_reset where
  "csr_mideleg_reset csr h = h\<lparr>idelegation := 0\<rparr>"

definition mideleg_csr_entry :: csr_registery_entry where
  "mideleg_csr_entry = \<lparr>csr_addr = CSR_ADDRESS_MIDELEG, wpri_mask = 0x00000222,
     on_write = Some csr_mideleg_write, on_read = Some csr_mideleg_read, on_reset = Some csr_mideleg_reset\<rparr>"

definition csr_mstatus_write :: csr_write where
  "csr_mstatus_write csr value m =
     m\<lparr>cpu := (cpu m)\<lparr>status := (status (cpu m))\<lparr>uie := bit value 0, sie := bit value 1, mie := bit value 3,
       upie := bit value 4, spie := bit value 5, mpie := bit value 7,
       spp := ucast (drop_bit 8 value AND 1), mpp := ucast (drop_bit 11 value AND 3)\<rparr>\<rparr>\<rparr>"

definition csr_mstatus_read :: csr_read where
  "csr_mstatus_read csr m =
     (let s = status (cpu m) in
     (status_bits 0 (uie s) OR status_bits 1 (sie s) OR status_bits 3 (mie s) OR status_bits 4 (upie s) OR
        status_bits 5 (spie s) OR status_bits 7 (mpie s) OR push_bit 8 (ucast (spp s)) OR push_bit 11 (ucast (mpp s)), m))"

definition csr_mstatus_reset :: csr_reset where
  "csr_mstatus_reset csr h = set_csr csr 0 h"

definition mstatus_csr_entry :: csr_registery_entry where
  "mstatus_csr_entry = \<lparr>csr_addr = CSR_ADDRESS_MSTATUS, wpri_mask = 0x000019aa,
     on_write = Some csr_mstatus_write, on_read = Some csr_mstatus_read, on_reset = Some csr_mstatus_reset\<rparr>"

definition csr_mepc_write :: csr_write where
  "csr_mepc_write csr value m =
     m\<lparr>cpu := set_csr csr value (cpu m)\<rparr>"

definition csr_mepc_read :: csr_read where
  "csr_mepc_read csr m =
     (csr_blob (cpu m) csr, m)"

definition csr_mepc_reset :: csr_reset where
  "csr_mepc_reset csr h = set_csr csr 0 h"

definition mepc_csr_entry :: csr_registery_entry where
  "mepc_csr_entry = \<lparr>csr_addr = CSR_ADDRESS_MEPC, wpri_mask = WPRI_MASK_ALL,
     on_write = Some csr_mepc_write, on_read = Some csr_mepc_read, on_reset = Some csr_mepc_reset\<rparr>"

definition csr_mcause_write :: csr_write where
  "csr_mcause_write csr value m =
     m\<lparr>cpu := set_csr csr value (cpu m)\<rparr>"

definition csr_mcause_read :: csr_read where
  "csr_mcause_read csr m =
     (csr_blob (cpu m) csr, m)"

definition csr_mcause_reset :: csr_reset where
  "csr_mcause_reset csr h = set_csr csr 0 h"

definition mcause_csr_entry :: csr_registery_entry where
  "mcause_csr_entry = \<lparr>csr_addr = CSR_ADDRESS_MCAUSE, wpri_mask = WPRI_MASK_ALL,
     on_write = Some csr_mcause_write, on_read = Some csr_mcause_read, on_reset = Some csr_mcause_reset\<rparr>"

definition csr_mtval_write :: csr_write where
  "csr_mtval_write csr value m =
     m\<lparr>cpu := set_csr csr value (cpu m)\<rparr>"

definition csr_mtval_read :: csr_read where
  "csr_mtval_read csr m =
     (csr_blob (cpu m) csr, m)"

definition csr_mtval_reset :: csr_reset where
  "csr_mtval_reset csr h = set_csr csr 0 h"

definition mtval_csr_entry :: csr_registery_entry where
  "mtval_csr_entry = \<lparr>csr_addr = CSR_ADDRESS_MTVAL, wpri_mask = WPRI_MASK_ALL,
     on_write = Some csr_mtval_write, on_read = Some csr_mtval_read, on_reset = Some csr_mtval_reset\<rparr>"

definition csr_pmpaddr_write :: csr_write where
  "csr_pmpaddr_write csr value m =
     m\<lparr>cpu := set_csr csr value (cpu m)\<rparr>"

definition csr_pmpaddr_read :: csr_read where
  "csr_pmpaddr_read csr m =
     (csr_blob (cpu m) csr, m)"

definition csr_pmpaddr_reset :: csr_reset where
  "csr_pmpaddr_reset csr h = set_csr csr 0 h"

definition csr_pmpcfg_write :: csr_write where
  "csr_pmpcfg_write csr value m =
     m\<lparr>cpu := set_csr csr value (cpu m)\<rparr>"

definition csr_pmpcfg_read :: csr_read where
  "csr_pmpcfg_read csr m =
     (csr_blob (cpu m) csr, m)"

definition csr_pmpcfg_reset :: csr_reset where
  "csr_pmpcfg_reset csr h = set_csr csr 0 h"

definition csr_scounteren_write :: csr_write where
  "csr_scounteren_write csr value m =
     m\<lparr>cpu := set_csr csr value (cpu m)\<rparr>"

definition csr_scounteren_read :: csr_read where
  "csr_scounteren_read csr m =
     (csr_blob (cpu m) csr, m)"

definition csr_scounteren_reset :: csr_reset where
  "csr_scounteren_reset csr h = set_csr csr 0 h"

definition scounteren_csr_entry :: csr_registery_entry where
  "scounteren_csr_entry = \<lparr>csr_addr = 0x106, wpri_mask = WPRI_MASK_ALL,
     on_write = Some csr_scounteren_write, on_read = Some csr_scounteren_read, on_reset = Some csr_scounteren_reset\<rparr>"

definition csr_satp_write :: csr_write where
  "csr_satp_write csr value m =
     (let h1 = set_csr csr value (cpu m);
         h2 = h1\<lparr>itlb := invalidate_tlb (itlb h1)\<rparr>;
         h3 = h2\<lparr>dtlb := invalidate_tlb (dtlb h2)\<rparr>
     in m\<lparr>cpu := flush_translation_cache h3\<rparr>)"

definition csr_satp_read :: csr_read where
  "csr_satp_read csr m =
     (csr_blob (cpu m) csr, m)"

definition csr_satp_reset :: csr_reset where
  "csr_satp_reset csr h = set_csr csr 0 h"

definition satp_csr_entry :: csr_registery_entry where
  "satp_csr_entry = \<lparr>csr_addr = CSR_ADDRESS_SATP, wpri_mask = WPRI_MASK_ALL,
     on_write = Some csr_satp_write, on_read = Some csr_satp_read, on_reset = Some csr_satp_reset\<rparr>"

definition csr_sie_write :: csr_write where
  "csr_sie_write csr value m =
     (let w1 = assign_bit 1 (bit value 1) (ienable (cpu m));
         w2 = assign_bit 5 (bit value 5) w1;
         w3 = assign_bit 9 (bit value 9) w2
     in m\<lparr>cpu := (cpu m)\<lparr>ienable := w3\<rparr>\<rparr>)"

definition csr_sie_read :: csr_read where
  "csr_sie_read csr m =
     (let w = ienable (cpu m) in
     (field_bit 0 w OR field_bit 1 w OR field_bit 4 w OR field_bit 5 w OR field_bit 8 w OR field_bit 9 w, m))"

definition sie_csr_entry :: csr_registery_entry where
  "sie_csr_entry = \<lparr>csr_addr = CSR_ADDRESS_SIE, wpri_mask = 0x00000222,
     on_write = Some csr_sie_write, on_read = Some csr_sie_read, on_reset = None\<rparr>"

definition csr_sip_write :: csr_write where
  "csr_sip_write csr value m =
     m\<lparr>cpu := (cpu m)\<lparr>ipending := assign_bit 1 (bit value 1) (ipending (cpu m))\<rparr>\<rparr>"

definition csr_sip_read :: csr_read where
  "csr_sip_read csr m =
     (let w = ipending (cpu m) in
     (field_bit 1 w OR field_bit 5 w OR field_bit 9 w, m))"

definition sip_csr_entry :: csr_registery_entry where
  "sip_csr_entry = \<lparr>csr_addr = CSR_ADDRESS_SIP, wpri_mask = 0x00000222,
     on_write = Some csr_sip_write, on_read = Some csr_sip_read, on_reset = None\<rparr>"

definition csr_sstatus_write :: csr_write where
  "csr_sstatus_write csr value m =
     m\<lparr>cpu := (cpu m)\<lparr>status := (status (cpu m))\<lparr>uie := bit value 0, sie := bit value 1,
       upie := bit value 4, spie := bit value 5, spp := ucast (drop_bit 8 value AND 1)\<rparr>\<rparr>\<rparr>"

definition csr_sstatus_read :: csr_read where
  "csr_sstatus_read csr m =
     (let s = status (cpu m) in
     (status_bits 0 (uie s) OR status_bits 1 (sie s) OR status_bits 4 (upie s) OR status_bits 5 (spie s) OR
        push_bit 8 (ucast (spp s)), m))"

definition sstatus_csr_entry :: csr_registery_entry where
  "sstatus_csr_entry = \<lparr>csr_addr = CSR_ADDRESS_SSTATUS, wpri_mask = 0x00000133,
     on_write = Some csr_sstatus_write, on_read = Some csr_sstatus_read, on_reset = None\<rparr>"

definition csr_stvec_write :: csr_write where
  "csr_stvec_write csr value m =
     m\<lparr>cpu := set_csr csr value (cpu m)\<rparr>"

definition csr_stvec_read :: csr_read where
  "csr_stvec_read csr m =
     (csr_blob (cpu m) csr, m)"

definition csr_stvec_reset :: csr_reset where
  "csr_stvec_reset csr h = set_csr csr 0 h"

definition stvec_csr_entry :: csr_registery_entry where
  "stvec_csr_entry = \<lparr>csr_addr = CSR_ADDRESS_STVEC, wpri_mask = WPRI_MASK_ALL,
     on_write = Some csr_stvec_write, on_read = Some csr_stvec_read, on_reset = Some csr_stvec_reset\<rparr>"

definition csr_sscratch_write :: csr_write where
  "csr_sscratch_write csr value m =
     m\<lparr>cpu := set_csr csr value (cpu m)\<rparr>"

definition csr_sscratch_read :: csr_read where
  "csr_sscratch_read csr m =
     (csr_blob (cpu m) csr, m)"

definition csr_sscratch_reset :: csr_reset where
  "csr_sscratch_reset csr h = set_csr csr 0 h"

definition sscratch_csr_entry :: csr_registery_entry where
  "sscratch_csr_entry = \<lparr>csr_addr = CSR_ADDRESS_SSCRATCH, wpri_mask = WPRI_MASK_ALL,
     on_write = Some csr_sscratch_write, on_read = Some csr_sscratch_read, on_reset = Some csr_sscratch_reset\<rparr>"

definition csr_sepc_write :: csr_write where
  "csr_sepc_write csr value m =
     m\<lparr>cpu := set_csr csr value (cpu m)\<rparr>"

definition csr_sepc_read :: csr_read where
  "csr_sepc_read csr m =
     (csr_blob (cpu m) csr, m)"

definition csr_sepc_reset :: csr_reset where
  "csr_sepc_reset csr h = set_csr csr 0 h"

definition sepc_csr_entry :: csr_registery_entry where
  "sepc_csr_entry = \<lparr>csr_addr = CSR_ADDRESS_SEPC, wpri_mask = WPRI_MASK_ALL,
     on_write = Some csr_sepc_write, on_read = Some csr_sepc_read, on_reset = Some csr_sepc_reset\<rparr>"

definition csr_stval_write :: csr_write where
  "csr_stval_write csr value m =
     m\<lparr>cpu := set_csr csr value (cpu m)\<rparr>"

definition csr_stval_read :: csr_read where
  "csr_stval_read csr m =
     (csr_blob (cpu m) csr, m)"

definition csr_stval_reset :: csr_reset where
  "csr_stval_reset csr h = set_csr csr 0 h"

definition stval_csr_entry :: csr_registery_entry where
  "stval_csr_entry = \<lparr>csr_addr = CSR_ADDRESS_STVAL, wpri_mask = WPRI_MASK_ALL,
     on_write = Some csr_stval_write, on_read = Some csr_stval_read, on_reset = Some csr_stval_reset\<rparr>"

definition csr_scause_write :: csr_write where
  "csr_scause_write csr value m =
     m\<lparr>cpu := set_csr csr value (cpu m)\<rparr>"

definition csr_scause_read :: csr_read where
  "csr_scause_read csr m =
     (csr_blob (cpu m) csr, m)"

definition csr_scause_reset :: csr_reset where
  "csr_scause_reset csr h = set_csr csr 0 h"

definition scause_csr_entry :: csr_registery_entry where
  "scause_csr_entry = \<lparr>csr_addr = CSR_ADDRESS_SCAUSE, wpri_mask = WPRI_MASK_ALL,
     on_write = Some csr_scause_write, on_read = Some csr_scause_read, on_reset = Some csr_scause_reset\<rparr>"

definition csr_time_write :: csr_write where
  "csr_time_write csr value m =
     m"

definition csr_time_read :: csr_read where
  "csr_time_read csr m =
     (let now = clint_get_time (clint_dev m) in (ucast now, m\<lparr>cpu := (cpu m)\<lparr>tsc := now\<rparr>\<rparr>))"

definition time_csr_entry :: csr_registery_entry where
  "time_csr_entry = \<lparr>csr_addr = CSR_ADDRESS_TIME, wpri_mask = WPRI_MASK_ALL,
     on_write = Some csr_time_write, on_read = Some csr_time_read, on_reset = None\<rparr>"

definition csr_timeh_write :: csr_write where
  "csr_timeh_write csr value m =
     m"

definition csr_timeh_read :: csr_read where
  "csr_timeh_read csr m =
     (ucast (drop_bit 32 (clint_get_time (clint_dev m))), m)"

definition timeh_csr_entry :: csr_registery_entry where
  "timeh_csr_entry = \<lparr>csr_addr = CSR_ADDRESS_TIMEH, wpri_mask = WPRI_MASK_ALL,
     on_write = Some csr_timeh_write, on_read = Some csr_timeh_read, on_reset = None\<rparr>"

definition csr_cycle_read :: csr_read where
  "csr_cycle_read csr m =
     (ucast (clint_get_time (clint_dev m)), m)"

definition csr_cycleh_read :: csr_read where
  "csr_cycleh_read csr m =
     (ucast (drop_bit 32 (clint_get_time (clint_dev m))), m)"

definition csr_scratch_write :: csr_write where
  "csr_scratch_write csr value m =
     m\<lparr>cpu := set_csr csr value (cpu m)\<rparr>"

definition csr_scratch_read :: csr_read where
  "csr_scratch_read csr m =
     (csr_blob (cpu m) csr, m)"

text \<open>The entries that the macros of the PMP file and the counter table define.\<close>

definition pmpaddr_csr_entry :: "nat \<Rightarrow> csr_registery_entry" where
  "pmpaddr_csr_entry idx = \<lparr>csr_addr = 0x3b0 + idx, wpri_mask = WPRI_MASK_ALL,
     on_write = Some csr_pmpaddr_write, on_read = Some csr_pmpaddr_read, on_reset = Some csr_pmpaddr_reset\<rparr>"

definition pmpcfg_csr_entry :: "nat \<Rightarrow> csr_registery_entry" where
  "pmpcfg_csr_entry idx = \<lparr>csr_addr = 0x3a0 + idx, wpri_mask = WPRI_MASK_ALL,
     on_write = Some csr_pmpcfg_write, on_read = Some csr_pmpcfg_read, on_reset = Some csr_pmpcfg_reset\<rparr>"

definition counter_csr_entry :: "nat \<Rightarrow> csr_write option \<Rightarrow> csr_read \<Rightarrow> csr_registery_entry" where
  "counter_csr_entry a w r = \<lparr>csr_addr = a, wpri_mask = WPRI_MASK_ALL, on_write = w, on_read = Some r, on_reset = None\<rparr>"

definition counter_csr_entries :: "csr_registery_entry list" where
  "counter_csr_entries =
     [counter_csr_entry 0xC00 None csr_cycle_read,
      counter_csr_entry 0xC02 None csr_cycle_read,
      counter_csr_entry 0xC80 None csr_cycleh_read,
      counter_csr_entry 0xC82 None csr_cycleh_read,
      counter_csr_entry 0xB00 (Some csr_time_write) csr_cycle_read,
      counter_csr_entry 0xB02 (Some csr_time_write) csr_cycle_read,
      counter_csr_entry 0xB80 (Some csr_time_write) csr_cycleh_read,
      counter_csr_entry 0xB82 (Some csr_time_write) csr_cycleh_read,
      counter_csr_entry 0xF12 None csr_scratch_read,
      counter_csr_entry 0xF13 None csr_scratch_read,
      counter_csr_entry 0x310 (Some csr_scratch_write) csr_scratch_read,
      counter_csr_entry 0x30A (Some csr_scratch_write) csr_scratch_read,
      counter_csr_entry 0x31A (Some csr_scratch_write) csr_scratch_read,
      counter_csr_entry 0x10A (Some csr_scratch_write) csr_scratch_read]"

section \<open>The registry\<close>

text \<open>
  A static constructor pushes its entries on the list one by one. The constructors are given in
  the order of the files; the order in which they run is the order the linker chose.
\<close>

definition register_csr_entry :: "csr_registery_entry \<Rightarrow> csr_registery_entry list \<Rightarrow> csr_registery_entry list" where
  "register_csr_entry entry csr_registery_head = entry # csr_registery_head"

definition csr_machine_level_init :: "csr_registery_entry list \<Rightarrow> csr_registery_entry list" where
  "csr_machine_level_init = fold register_csr_entry
     [misa_csr_entry, mscratch_csr_entry, mvendorid_csr_entry, mhartid_csr_entry, mtvec_csr_entry,
      mcounteren_csr_entry, mie_csr_entry, mip_csr_entry, medeleg_csr_entry, mideleg_csr_entry,
      mstatus_csr_entry, mepc_csr_entry, mcause_csr_entry, mtval_csr_entry]"

definition csr_machine_level_pmp_init :: "csr_registery_entry list \<Rightarrow> csr_registery_entry list" where
  "csr_machine_level_pmp_init = fold register_csr_entry
     (map pmpaddr_csr_entry [0..<16] @ map pmpcfg_csr_entry [0..<4])"

definition csr_supervisor_level_init :: "csr_registery_entry list \<Rightarrow> csr_registery_entry list" where
  "csr_supervisor_level_init = fold register_csr_entry
     [scounteren_csr_entry, satp_csr_entry, sie_csr_entry, sip_csr_entry, sstatus_csr_entry, stvec_csr_entry,
      sscratch_csr_entry, sepc_csr_entry, stval_csr_entry, scause_csr_entry]"

definition csr_misc_init :: "csr_registery_entry list \<Rightarrow> csr_registery_entry list" where
  "csr_misc_init = fold register_csr_entry ([time_csr_entry, timeh_csr_entry] @ counter_csr_entries)"

definition csr_registery_head :: "csr_registery_entry list" where
  "csr_registery_head =
     csr_supervisor_level_init (csr_misc_init (csr_machine_level_pmp_init (csr_machine_level_init [])))"

section \<open>Initialisation of a hart\<close>

text \<open>\<open>None\<close> is the failing assertion on an address of more than twelve bits.\<close>

primrec csr_registery_init :: "csr_registery_entry list \<Rightarrow> hart \<Rightarrow> hart option" where
  "csr_registery_init [] h = Some h"
| "csr_registery_init (entry # rest) h =
     (if \<not> csr_addr entry < 4096 then None
      else let h1 = set_csr (csr_addr entry) 0 h in
        csr_registery_init rest (case on_reset entry of None \<Rightarrow> h1 | Some f \<Rightarrow> f (csr_addr entry) h1))"

text \<open>
  \<open>hart_init\<close>: the allocations succeed, so that the translation cache is empty and every CSR blob
  is zero before the registry is installed.
\<close>

definition hart_init :: "csr_registery_entry list \<Rightarrow> int \<Rightarrow> hart option" where
  "hart_init registery hid =
     map_option (\<lambda>h. h\<lparr>privilege_level := PRIVILEGE_LEVEL_MACHINE\<rparr>)
       (csr_registery_init registery (flush_translation_cache (zeroed_hart\<lparr>hart_id := hid\<rparr>)))"

text \<open>
  The entry that \<open>csr_registery_init\<close> leaves installed at an address; \<open>None\<close> for an entry that is
  not valid.
\<close>

definition csr_at :: "csr_registery_entry list \<Rightarrow> nat \<Rightarrow> csr_registery_entry option" where
  "csr_at registery a = List.find (\<lambda>entry. csr_addr entry = a) (rev registery)"

end
