(* ===== verification/Csr.thy ===== *)
theory Csr
  imports Csr_Registers Decode
begin

text \<open>
  The CSR instructions (\<open>riscv_generic_csr_callback\<close>, \<^verbatim>\<open>vmm/csr_representation.c\<close>) over the registered
  registers, and what they promise: every register keeps the bits that are not writable, the
  supervisor registers are views of the machine registers, and a write of \<open>satp\<close> leaves no stale
  translation behind.
\<close>

section \<open>Operations\<close>

definition csr_read_value :: "csr_registery_entry \<Rightarrow> machine \<Rightarrow> u32 \<times> machine" where
  "csr_read_value csr m =
     (case on_read csr of None \<Rightarrow> (0, m)
      | Some f \<Rightarrow> (case f (csr_addr csr) m of (v, m1) \<Rightarrow> (v AND wpri_mask csr, m1)))"

definition csr_write_value :: "csr_registery_entry \<Rightarrow> u32 \<Rightarrow> machine \<Rightarrow> machine" where
  "csr_write_value csr v m =
     (case on_write csr of None \<Rightarrow> m | Some f \<Rightarrow> f (csr_addr csr) (v AND wpri_mask csr) m)"

text \<open>The three instruction groups; an unimplemented register is a \<open>PANIC\<close>, which ends in \<open>__not_reach\<close>.\<close>

definition riscv_generic_csr_callback :: "u64 \<Rightarrow> machine \<Rightarrow> (machine, unit) result" where
  "riscv_generic_csr_callback instruction m =
     rassert (instruction AND 0x7f = 0x73)
     (case instruction_decoding_per_type (ucast instruction) ENCODING_TYPE_I of
        None \<Rightarrow> Stop Assertion
      | Some dec \<Rightarrow>
     (case csr_at csr_registery_head (unat (imm dec AND 0xfff)) of
        None \<Rightarrow> Stop Assertion
      | Some csr \<Rightarrow>
          let rs1_reg = HART_REG m (rs1_index dec) in
          if funct3 dec = 1 \<or> funct3 dec = 5 then
            let m1 = (if rd_index dec \<noteq> 0
                      then (case csr_read_value csr m of (v, m1) \<Rightarrow> set_hart_reg (rd_index dec) v m1) else m);
                value_to_write = (if funct3 dec = 1 then rs1_reg else ucast (rs1_index dec))
            in Ret () (csr_write_value csr value_to_write m1)
          else if funct3 dec = 2 \<or> funct3 dec = 6 then
            (case csr_read_value csr m of (value_to_read, m1) \<Rightarrow>
             let m2 = set_hart_reg (rd_index dec) value_to_read m1 in
             if rs1_index dec \<noteq> 0 then
               let value_to_set = (if funct3 dec = 2 then rs1_reg else ucast (rs1_index dec) AND 0x1f) in
               Ret () (csr_write_value csr (value_to_read OR value_to_set) m2)
             else Ret () m2)
          else if funct3 dec = 3 \<or> funct3 dec = 7 then
            (case csr_read_value csr m of (value_to_read, m1) \<Rightarrow>
             let m2 = set_hart_reg (rd_index dec) value_to_read m1 in
             if rs1_index dec \<noteq> 0 then
               let value_to_clear = (if funct3 dec = 3 then rs1_reg else ucast (rs1_index dec) AND 0x1f) in
               Ret () (csr_write_value csr (value_to_read AND NOT value_to_clear) m2)
             else Ret () m2)
          else Stop Assertion))"

section \<open>The registry\<close>

lemmas csr_entries = mscratch_csr_entry_def misa_csr_entry_def mvendorid_csr_entry_def mhartid_csr_entry_def
  mtvec_csr_entry_def mcounteren_csr_entry_def mie_csr_entry_def mip_csr_entry_def medeleg_csr_entry_def
  mideleg_csr_entry_def mstatus_csr_entry_def mepc_csr_entry_def mcause_csr_entry_def mtval_csr_entry_def
  scounteren_csr_entry_def satp_csr_entry_def sie_csr_entry_def sip_csr_entry_def sstatus_csr_entry_def
  stvec_csr_entry_def sscratch_csr_entry_def sepc_csr_entry_def stval_csr_entry_def scause_csr_entry_def
  time_csr_entry_def timeh_csr_entry_def pmpaddr_csr_entry_def pmpcfg_csr_entry_def counter_csr_entry_def

lemma registery_head: "csr_registery_head =
   rev ([misa_csr_entry, mscratch_csr_entry, mvendorid_csr_entry, mhartid_csr_entry, mtvec_csr_entry,
      mcounteren_csr_entry, mie_csr_entry, mip_csr_entry, medeleg_csr_entry, mideleg_csr_entry,
      mstatus_csr_entry, mepc_csr_entry, mcause_csr_entry, mtval_csr_entry] @
     map pmpaddr_csr_entry [0..<16] @ map pmpcfg_csr_entry [0..<4] @
     [time_csr_entry, timeh_csr_entry] @ counter_csr_entries @
     [scounteren_csr_entry, satp_csr_entry, sie_csr_entry, sip_csr_entry, sstatus_csr_entry, stvec_csr_entry,
      sscratch_csr_entry, sepc_csr_entry, stval_csr_entry, scause_csr_entry])"
proof -
  have "fold register_csr_entry xs ys = rev xs @ ys" for xs ys
    by (induction xs arbitrary: ys) (simp_all add: register_csr_entry_def)
  then show ?thesis
    by (simp only: csr_registery_head_def csr_supervisor_level_init_def csr_misc_init_def
        csr_machine_level_pmp_init_def csr_machine_level_init_def rev_append append_assoc append_Nil2)
qed

lemma registery_distinct: "distinct (map csr_addr csr_registery_head)"
  and registery_range: "\<forall>e\<in>set csr_registery_head. csr_addr e < 4096"
  unfolding registery_head by (simp_all add: csr_entries counter_csr_entries_def upt_rec)

text \<open>The bits of a register that a CSR instruction can change, by address.\<close>

definition writable :: "nat \<Rightarrow> u32" where
  "writable a = (
     if a \<in> {0x301, 0xf11, 0xf12, 0xf13, 0xf14, 0xC01, 0xC81, 0xC00, 0xC02, 0xC80, 0xC82, 0xB00, 0xB02, 0xB80, 0xB82} then 0
     else if a = CSR_ADDRESS_MTVEC then 0xfffffffd
     else if a = CSR_ADDRESS_MIE then 0xaaa
     else if a = CSR_ADDRESS_MIP \<or> a = CSR_ADDRESS_MIDELEG \<or> a = CSR_ADDRESS_SIE then 0x222
     else if a = CSR_ADDRESS_SIP then 0x2
     else if a = CSR_ADDRESS_MEDELEG then 0xfffff7ff
     else if a = CSR_ADDRESS_MSTATUS then 0x19aa
     else if a = CSR_ADDRESS_SSTATUS then 0x133
     else 0xffffffff)"

lemmas csr_handlers =
  csr_mscratch_write_def csr_mscratch_read_def csr_misa_write_def csr_misa_read_def csr_mvendorid_read_def
  csr_mhartid_read_def csr_mtvec_write_def csr_mtvec_read_def csr_mcounteren_write_def csr_mcounteren_read_def
  csr_mie_write_def csr_mie_read_def csr_mip_write_def csr_mip_read_def csr_medeleg_write_def csr_medeleg_read_def
  csr_mideleg_write_def csr_mideleg_read_def csr_mstatus_write_def csr_mstatus_read_def csr_mepc_write_def
  csr_mepc_read_def csr_mcause_write_def csr_mcause_read_def csr_mtval_write_def csr_mtval_read_def
  csr_scounteren_write_def csr_scounteren_read_def csr_satp_write_def csr_satp_read_def csr_sie_write_def
  csr_sie_read_def csr_sip_write_def csr_sip_read_def csr_sstatus_write_def csr_sstatus_read_def
  csr_stvec_write_def csr_stvec_read_def csr_sscratch_write_def csr_sscratch_read_def csr_sepc_write_def
  csr_sepc_read_def csr_stval_write_def csr_stval_read_def csr_scause_write_def csr_scause_read_def
  csr_pmpaddr_write_def csr_pmpaddr_read_def csr_pmpcfg_write_def csr_pmpcfg_read_def
  csr_time_write_def csr_time_read_def csr_timeh_write_def csr_timeh_read_def csr_cycle_read_def
  csr_cycleh_read_def csr_scratch_write_def csr_scratch_read_def

definition csr_value :: "csr_registery_entry \<Rightarrow> machine \<Rightarrow> u32" where
  "csr_value csr m = fst (csr_read_value csr m)"

lemmas csr_ops = csr_value_def csr_read_value_def csr_write_value_def

text \<open>The bits of \<open>v\<close> selected by \<open>k\<close>, the others from \<open>old\<close>.\<close>

definition merge :: "u32 \<Rightarrow> u32 \<Rightarrow> u32 \<Rightarrow> u32" where
  "merge k old v = (old AND NOT k) OR (v AND k)"

lemma bit_merge [simp]: "bit (merge k old v) n \<longleftrightarrow> (if bit k n then bit v n else bit old n)"
  by (cases "n < 32") (auto simp: merge_def bit_simps)

lemma merge_trivial [simp]: "merge 0 old v = old" "merge (- 1) old v = v" "merge k (old AND k) v = v AND k"
  by (auto intro!: bit_word_eqI simp: bit_and_iff split: if_splits)

lemma all_ones [simp]: "(0xffffffff :: u32) = - 1"
  by simp

definition warl :: "csr_registery_entry \<Rightarrow> bool" where
  "warl e \<longleftrightarrow> (\<forall>m v. csr_value e (csr_write_value e v m) = merge (writable (csr_addr e)) (csr_value e m) v)"

lemma writable_other: "writable a = 0xffffffff" if "a \<in> {0x340, 0x306, 0x341, 0x342, 0x343, 0x106, 0x180, 0x105, 0x140, 0x141, 0x143, 0x142,
    0x310, 0x30A, 0x31A, 0x10A} \<union> {0x3a0..0x3a3} \<union> {0x3b0..0x3bf}"
  using that by (auto simp: writable_def)

lemma warl_plain:
  "warl mscratch_csr_entry" "warl mcounteren_csr_entry" "warl mepc_csr_entry" "warl mcause_csr_entry" "warl mtval_csr_entry"
  "warl scounteren_csr_entry" "warl satp_csr_entry" "warl stvec_csr_entry" "warl sscratch_csr_entry" "warl sepc_csr_entry"
  "warl stval_csr_entry" "warl scause_csr_entry" "warl medeleg_csr_entry" "warl mtvec_csr_entry"
  by (simp_all add: warl_def csr_ops csr_entries csr_handlers writable_def WPRI_MASK_ALL_def Let_def
      flush_translation_cache_def)

lemma warl_constant:
  "warl misa_csr_entry" "warl mvendorid_csr_entry" "warl mhartid_csr_entry" "warl time_csr_entry" "warl timeh_csr_entry"
  by (simp_all add: warl_def csr_ops csr_entries csr_handlers writable_def WPRI_MASK_ALL_def Let_def)

lemma warl_pmp: "i < 16 \<Longrightarrow> warl (pmpaddr_csr_entry i)" "i < 4 \<Longrightarrow> warl (pmpcfg_csr_entry i)"
  by (simp_all add: warl_def csr_ops csr_entries csr_handlers writable_other WPRI_MASK_ALL_def)

lemma warl_counters: "\<forall>e\<in>set counter_csr_entries. warl e"
  by (simp add: counter_csr_entries_def warl_def csr_ops csr_entries csr_handlers writable_def WPRI_MASK_ALL_def)

text \<open>The bits of the register masks.\<close>

lemma bit_fold_set_bit: "bit (fold set_bit ps w) n \<longleftrightarrow> bit w n \<or> (n \<in> set ps \<and> n < 32)" for w :: u32
  by (induction ps arbitrary: w) (auto simp: bit_simps)

lemma mask_bits:
  "bit (0x2 :: u32) n \<longleftrightarrow> n \<in> {1}"
  "bit (0x222 :: u32) n \<longleftrightarrow> n \<in> {1, 5, 9}"
  "bit (0xaaa :: u32) n \<longleftrightarrow> n \<in> {1, 3, 5, 7, 9, 11}"
  "bit (0x888 :: u32) n \<longleftrightarrow> n \<in> {3, 7, 11}"
  "bit (0x133 :: u32) n \<longleftrightarrow> n \<in> {0, 1, 4, 5, 8}"
  "bit (0x122 :: u32) n \<longleftrightarrow> n \<in> {1, 5, 8}"
  "bit (0x19aa :: u32) n \<longleftrightarrow> n \<in> {1, 3, 5, 7, 8, 11, 12}"
  "n < 32 \<Longrightarrow> bit (- 0x889 :: u32) n \<longleftrightarrow> n \<notin> {3, 7, 11}"
proof -
  have m: "(0x2 :: u32) = fold set_bit [1] 0"
    "(0x222 :: u32) = fold set_bit [1, 5, 9] 0"
    "(0xaaa :: u32) = fold set_bit [1, 3, 5, 7, 9, 11] 0"
    "(0x888 :: u32) = fold set_bit [3, 7, 11] 0"
    "(0x133 :: u32) = fold set_bit [8, 5, 4, 1, 0] 0"
    "(0x122 :: u32) = fold set_bit [1, 5, 8] 0"
    "(0x19aa :: u32) = fold set_bit [1, 3, 5, 7, 8, 11, 12] 0"
    by (simp_all add: set_bit_eq_or)
  show "bit (0x2 :: u32) n \<longleftrightarrow> n \<in> {1}"
    by (subst m(1), simp only: bit_fold_set_bit) auto
  show "bit (0x222 :: u32) n \<longleftrightarrow> n \<in> {1, 5, 9}"
    by (subst m(2), simp only: bit_fold_set_bit) auto
  show "bit (0xaaa :: u32) n \<longleftrightarrow> n \<in> {1, 3, 5, 7, 9, 11}"
    by (subst m(3), simp only: bit_fold_set_bit) auto
  show b: "bit (0x888 :: u32) n \<longleftrightarrow> n \<in> {3, 7, 11}"
    by (subst m(4), simp only: bit_fold_set_bit) auto
  show "bit (0x133 :: u32) n \<longleftrightarrow> n \<in> {0, 1, 4, 5, 8}"
    by (subst m(5), simp only: bit_fold_set_bit) auto
  show "bit (0x122 :: u32) n \<longleftrightarrow> n \<in> {1, 5, 8}"
    by (subst m(6), simp only: bit_fold_set_bit) auto
  show "bit (0x19aa :: u32) n \<longleftrightarrow> n \<in> {1, 3, 5, 7, 8, 11, 12}"
    by (subst m(7), simp only: bit_fold_set_bit) auto
  have "- 0x889 = (NOT 0x888 :: u32)" by simp
  then show "n < 32 \<Longrightarrow> bit (- 0x889 :: u32) n \<longleftrightarrow> n \<notin> {3, 7, 11}"
    by (simp only: bit_not_iff b) auto
qed

lemma bit_field_bit [simp]: "bit (field_bit i w) n \<longleftrightarrow> n = i \<and> bit w n"
  by (cases "n = i") (auto simp: field_bit_def bit_push_bit_iff bit_1_iff bit_exp_iff dest: bit_imp_le_length)

lemma bit_status_bits [simp]: "i < 32 \<Longrightarrow> bit (status_bits i b) n \<longleftrightarrow> n = i \<and> b"
  by (cases "n = i") (auto simp: status_bits_def bit_push_bit_iff bit_1_iff bit_exp_iff)

lemma bit_assign_bit [simp]: "i < 32 \<Longrightarrow> bit (assign_bit i b w) n \<longleftrightarrow> (if n = i then b else bit w n)"
  by (auto simp: assign_bit_def bit_simps)

lemma warl_interrupts:
  "warl mie_csr_entry" "warl mip_csr_entry" "warl mideleg_csr_entry" "warl sie_csr_entry" "warl sip_csr_entry"
  by (unfold warl_def; intro allI bit_word_eqI;
      auto simp: csr_ops csr_entries csr_handlers writable_def Let_def mask_bits bit_or_iff bit_and_iff
        simp del: bit_numeral_word_iff bit_neg_numeral_word_iff)+

lemma bit_spp: "bit (push_bit 8 (ucast (w :: 1 word)) :: u32) n \<longleftrightarrow> n = 8 \<and> bit w 0"
proof -
  have "bit w k \<Longrightarrow> k = 0" for k by (auto dest: bit_imp_le_length)
  moreover have "bit (push_bit 8 (ucast w) :: u32) n \<longleftrightarrow> 8 \<le> n \<and> n < 32 \<and> bit w (n - 8)"
    by (auto simp: bit_push_bit_iff bit_unsigned_iff)
  ultimately show ?thesis by (cases "n = 8") fastforce+
qed

lemma bit_mpp: "bit (push_bit 11 (ucast (w :: 2 word)) :: u32) n \<longleftrightarrow> n = 11 \<and> bit w 0 \<or> n = 12 \<and> bit w 1"
proof -
  have "k < 2 \<Longrightarrow> k = 0 \<or> k = 1" for k :: nat by auto
  moreover have "bit w k \<Longrightarrow> k < 2" for k by (auto dest: bit_imp_le_length)
  moreover have "bit (push_bit 11 (ucast w) :: u32) n \<longleftrightarrow> 11 \<le> n \<and> n < 32 \<and> bit w (n - 11)"
    by (auto simp: bit_push_bit_iff bit_unsigned_iff)
  ultimately show ?thesis by (cases "n = 11"; cases "n = 12") fastforce+
qed

lemma bit_mstatus_read: "bit (fst (csr_mstatus_read a m)) n = (let s = status (cpu m) in
    if n = 0 then uie s else if n = 1 then sie s else if n = 3 then mie s else if n = 4 then upie s
     else if n = 5 then spie s else if n = 7 then mpie s else if n = 8 then bit (spp s) 0 else if n = 11 then bit (mpp s) 0
     else if n = 12 then bit (mpp s) 1 else False)"
  unfolding csr_mstatus_read_def Let_def fst_conv bit_or_iff bit_spp bit_mpp by simp

lemma bit_sstatus_read: "bit (fst (csr_sstatus_read a m)) n = (let s = status (cpu m) in
    if n = 0 then uie s else if n = 1 then sie s else if n = 4 then upie s
     else if n = 5 then spie s else if n = 8 then bit (spp s) 0 else False)"
  unfolding csr_sstatus_read_def Let_def fst_conv bit_or_iff bit_spp by simp

lemma bit_written_field: "bit (ucast (drop_bit 8 v AND 1) :: 1 word) 0 = bit v 8" 
  "bit (ucast (drop_bit 11 v AND 3) :: 2 word) 0 = bit v 11"
  "bit (ucast (drop_bit 11 v AND 3) :: 2 word) 1 = bit v 12" for v :: u32
  by (simp_all add: bit_unsigned_iff bit_and_iff bit_drop_bit_eq bit_0 [symmetric] del: bit_0)

lemma warlI:
  assumes "\<And>m. csr_value e m = f m AND k" and "\<And>m v. csr_write_value e v m = g (v AND k) m"
    and "writable (csr_addr e) = k" and "\<And>m v n. bit k n \<Longrightarrow> bit (f (g (v AND k) m)) n = bit v n"
  shows "warl e"
  unfolding warl_def
  by (auto intro!: bit_word_eqI simp: assms bit_and_iff)

lemma bit_status_written:
  "bit (fst (csr_mstatus_read a (csr_mstatus_write b v m))) n \<longleftrightarrow> n \<in> {0, 1, 3, 4, 5, 7, 8, 11, 12} \<and> bit v n"
  "bit (fst (csr_sstatus_read a (csr_sstatus_write b v m))) n \<longleftrightarrow> n \<in> {0, 1, 4, 5, 8} \<and> bit v n"
  by (simp_all only: bit_mstatus_read bit_sstatus_read csr_mstatus_write_def csr_sstatus_write_def Let_def
      machine.simps hart.simps status_control_blob.simps)
    (auto simp: bit_unsigned_iff bit_and_iff bit_drop_bit_eq simp flip: bit_0)

lemma warl_mstatus: "warl mstatus_csr_entry"
  by (rule warlI [where k = "0x19aa" and f = "\<lambda>m. fst (csr_mstatus_read CSR_ADDRESS_MSTATUS m)"
        and g = "csr_mstatus_write CSR_ADDRESS_MSTATUS"])
    (auto simp: mstatus_csr_entry_def csr_ops writable_def case_prod_beta bit_status_written
      bit_and_iff mask_bits simp del: bit_numeral_word_iff)

lemma warl_sstatus: "warl sstatus_csr_entry"
  by (rule warlI [where k = "0x133" and f = "\<lambda>m. fst (csr_sstatus_read CSR_ADDRESS_SSTATUS m)"
        and g = "csr_sstatus_write CSR_ADDRESS_SSTATUS"])
    (auto simp: sstatus_csr_entry_def csr_ops writable_def case_prod_beta bit_status_written
      bit_and_iff mask_bits simp del: bit_numeral_word_iff)

lemma registery_warl: "e \<in> set csr_registery_head \<Longrightarrow> warl e"
  unfolding registery_head
  using warl_plain warl_constant warl_pmp warl_counters warl_interrupts warl_mstatus warl_sstatus by auto

section \<open>Frame of the handlers\<close>

text \<open>What every handler leaves alone: the integer registers, the program counter, the mode, and the devices.\<close>

definition csr_frame :: "machine \<Rightarrow> machine \<Rightarrow> bool" where
  "csr_frame m m' \<longleftrightarrow> m'\<lparr>cpu := cpu m\<rparr> = m \<and> registers (cpu m') = registers (cpu m) \<and> pc (cpu m') = pc (cpu m) \<and>
     privilege_level (cpu m') = privilege_level (cpu m)"

lemma csr_frame_write: "e \<in> set csr_registery_head \<Longrightarrow> csr_frame m (csr_write_value e v m)"
  unfolding registery_head
  by (auto simp: counter_csr_entries_def csr_entries csr_frame_def csr_write_value_def csr_handlers Let_def flush_translation_cache_def)

lemma csr_frame_read: "e \<in> set csr_registery_head \<Longrightarrow> csr_frame m (snd (csr_read_value e m))"
  unfolding registery_head
  by (auto simp: counter_csr_entries_def csr_entries csr_frame_def csr_read_value_def csr_handlers Let_def)

lemma csr_value_read: "e \<in> set csr_registery_head \<Longrightarrow> csr_value e (snd (csr_read_value e m)) = csr_value e m"
  unfolding registery_head
  by (auto simp: counter_csr_entries_def csr_entries csr_value_def csr_read_value_def csr_handlers Let_def)

lemma csr_value_set_reg: "e \<in> set csr_registery_head \<Longrightarrow> csr_value e (set_hart_reg i v m) = csr_value e m"
  unfolding registery_head
  by (auto simp: counter_csr_entries_def csr_entries csr_value_def csr_read_value_def csr_handlers Let_def set_hart_reg_def)

lemma csr_value_masked: "csr_value e m AND NOT (wpri_mask e) = 0"
  by (auto simp: csr_value_def csr_read_value_def case_prod_beta bit_simps intro!: bit_word_eqI split: option.splits)

lemma writable_within_mask: "e \<in> set csr_registery_head \<Longrightarrow> writable (csr_addr e) AND NOT (wpri_mask e) = 0"
  unfolding registery_head
  by (auto simp: counter_csr_entries_def csr_entries writable_def WPRI_MASK_ALL_def)

section \<open>Properties\<close>

lemma csr_at_member: "csr_at registery a = Some e \<Longrightarrow> e \<in> set registery \<and> csr_addr e = a"
  unfolding csr_at_def by (auto simp: find_Some_iff) (metis length_rev nth_mem set_rev)

text \<open>The new value of a register, by the low two bits of \<open>funct3\<close>.\<close>

definition csr_new_value :: "u8 \<Rightarrow> u32 \<Rightarrow> u32 \<Rightarrow> u32 \<Rightarrow> u32" where
  "csr_new_value f3 wr old src =
     (if f3 = 1 \<or> f3 = 5 then merge wr old src
      else if f3 = 2 \<or> f3 = 6 then old OR (src AND wr)
      else old AND NOT (src AND wr))"

lemma merge_set: "merge wr old (old OR src) = old OR (src AND wr)"
  and merge_clear: "merge wr old (old AND NOT src) = old AND NOT (src AND wr)"
  by (auto intro!: bit_word_eqI simp: bit_simps split: if_splits)

text \<open>
  C30. The CSR instructions: on an implemented register, an instruction returns the old value in
  \<open>rd\<close> (and does not read for a write with \<open>rd = x0\<close>), replaces, sets or clears exactly the
  writable bits that its source selects, and changes no other integer register and not the pc.
\<close>

theorem csr_instruction_semantics:
  assumes "instruction AND 0x7f = (0x73 :: u64)" and "instruction_decoding_per_type (ucast instruction) ENCODING_TYPE_I = Some dec"
    and "csr_at csr_registery_head (unat (imm dec AND 0xfff)) = Some e"
    and "funct3 dec \<in> {1, 2, 3, 5, 6, 7}" and "registers (cpu m) 0 = 0"
  shows "\<exists>m'. riscv_generic_csr_callback instruction m = Ret () m' \<and>
    csr_value e m' = csr_new_value (funct3 dec) (writable (csr_addr e)) (csr_value e m)
      (if funct3 dec < 4 then HART_REG m (rs1_index dec) else ucast (rs1_index dec)) \<and>
    registers (cpu m') = (if rd_index dec = 0 \<and> funct3 dec \<in> {1, 5} then registers (cpu m)
      else (registers (cpu m))(unat (rd_index dec) := csr_value e m)) \<and>
    pc (cpu m') = pc (cpu m)"
proof -
  have e: "e \<in> set csr_registery_head" using assms(3) csr_at_member by blast
  define m1 where "m1 = snd (csr_read_value e m)"
  have r: "csr_read_value e m = (csr_value e m, m1)" by (simp add: csr_value_def m1_def)
  have m1: "csr_value e m1 = csr_value e m" "csr_frame m m1"
    using e by (simp_all add: m1_def csr_value_read csr_frame_read)
  have m2: "csr_value e (set_hart_reg i v m1) = csr_value e m" "registers (cpu (set_hart_reg i v m1)) = (registers (cpu m))(unat i := v)"
    "pc (cpu (set_hart_reg i v m1)) = pc (cpu m)" for i v
    using m1 e by (simp_all add: csr_value_set_reg csr_frame_def, simp_all add: set_hart_reg_def)
  have w: "csr_value e (csr_write_value e v x) = merge (writable (csr_addr e)) (csr_value e x) v"
    "registers (cpu (csr_write_value e v x)) = registers (cpu x)" "pc (cpu (csr_write_value e v x)) = pc (cpu x)" for v x
    using registery_warl [OF e] csr_frame_write [OF e, of x v] by (auto simp: warl_def csr_frame_def)
  have z: "unat (rs1_index dec) < 32" using decoded_register_range(2) [OF assms(2)] .
  then have imm: "(ucast (rs1_index dec) :: u32) AND 0x1f = ucast (rs1_index dec)"
    by (subst word_unat_eq_iff) (simp add: field_masks unsigned_take_bit_eq unsigned_ucast_eq take_bit_nat_eq_self)
  show ?thesis
    using assms(1,4,5)
    by (auto simp: riscv_generic_csr_callback_def assms(2,3) r w m2 csr_new_value_def Let_def imm merge_set merge_clear [simplified])
qed

text \<open>C30 for \<open>csrrs x5, mstatus, x6\<close>.\<close>

theorem csr_instruction_semantics_witness:
  "\<exists>m'. riscv_generic_csr_callback 0x300322f3 example_machine = Ret () m' \<and> pc (cpu m') = pc (cpu example_machine)"
proof -
  define dec where "dec = \<lparr>instr_encoding_type = ENCODING_TYPE_I, opcode = 0x73, funct3 = 2, rd_index = 5, rs1_index = 6,
        rs2_index = 0, funct7 = 0, imm = 0x300\<rparr>"
  have "instruction_decoding_per_type (ucast (0x300322f3 :: u64)) ENCODING_TYPE_I = Some dec"
    by (simp add: instruction_decoding_per_type_def zeroed_decoding_def Let_def dec_def)
  moreover have "csr_at csr_registery_head (unat (imm dec AND 0xfff)) = Some mstatus_csr_entry"
    by (simp add: csr_at_def registery_head csr_entries counter_csr_entries_def upt_rec dec_def)
  moreover have "registers (cpu example_machine) 0 = 0" by (simp add: example_machine_def zeroed_hart_def)
  moreover have "(0x300322f3 :: u64) AND 0x7f = 0x73" "funct3 dec \<in> {1, 2, 3, 5, 6, 7}" by (simp_all add: dec_def)
  ultimately show ?thesis using csr_instruction_semantics by blast
qed

text \<open>The reset values, as a function of the address.\<close>

definition reset_value :: "nat \<Rightarrow> u32" where
  "reset_value a = (if a = 0x301 then 0x40141101 else if a = 0xf11 then 0x60a else 0)"

definition csr_resets :: "csr_registery_entry list \<Rightarrow> hart \<Rightarrow> hart" where
  "csr_resets es h = h\<lparr>csr_blob := (\<lambda>a. if a \<in> csr_addr ` set es then reset_value a else csr_blob h a),
     ienable := if CSR_ADDRESS_MIE \<in> csr_addr ` set es then 0 else ienable h,
     ipending := if CSR_ADDRESS_MIP \<in> csr_addr ` set es then 0 else ipending h,
     idelegation := if CSR_ADDRESS_MIDELEG \<in> csr_addr ` set es then 0 else idelegation h\<rparr>"

lemma csr_resets_one: "csr_resets [e] h = (let h1 = set_csr (csr_addr e) (reset_value (csr_addr e)) h in
     if csr_addr e = CSR_ADDRESS_MIE then h1\<lparr>ienable := 0\<rparr> else if csr_addr e = CSR_ADDRESS_MIP then h1\<lparr>ipending := 0\<rparr>
     else if csr_addr e = CSR_ADDRESS_MIDELEG then h1\<lparr>idelegation := 0\<rparr> else h1)"
  by (auto simp: csr_resets_def set_csr_def fun_eq_iff Let_def)

lemmas csr_reset_handlers =
  csr_misa_reset_def csr_mvendorid_reset_def csr_mtvec_reset_def csr_mcounteren_reset_def csr_mie_reset_def
  csr_mip_reset_def csr_medeleg_reset_def csr_mideleg_reset_def csr_mstatus_reset_def csr_mepc_reset_def
  csr_mcause_reset_def csr_mtval_reset_def csr_scounteren_reset_def csr_satp_reset_def csr_stvec_reset_def
  csr_sscratch_reset_def csr_sepc_reset_def csr_stval_reset_def csr_scause_reset_def csr_pmpaddr_reset_def
  csr_pmpcfg_reset_def

lemma set_csr_twice: "set_csr a v (set_csr a w h) = set_csr a v h"
  by (simp add: set_csr_def)

definition resets_to :: "csr_registery_entry \<Rightarrow> bool" where
  "resets_to e \<longleftrightarrow> (\<forall>h. (case on_reset e of None \<Rightarrow> set_csr (csr_addr e) 0 h
     | Some f \<Rightarrow> f (csr_addr e) (set_csr (csr_addr e) 0 h)) = csr_resets [e] h)"

lemma resets_to_entries:
  "resets_to misa_csr_entry" "resets_to mscratch_csr_entry" "resets_to mvendorid_csr_entry" "resets_to mhartid_csr_entry" "resets_to mtvec_csr_entry"
  "resets_to mcounteren_csr_entry" "resets_to mie_csr_entry" "resets_to mip_csr_entry" "resets_to medeleg_csr_entry" "resets_to mideleg_csr_entry"
  "resets_to mstatus_csr_entry" "resets_to mepc_csr_entry" "resets_to mcause_csr_entry" "resets_to mtval_csr_entry" "resets_to time_csr_entry"
  "resets_to timeh_csr_entry" "resets_to scounteren_csr_entry" "resets_to satp_csr_entry" "resets_to sie_csr_entry" "resets_to sip_csr_entry"
  "resets_to sstatus_csr_entry" "resets_to stvec_csr_entry" "resets_to sscratch_csr_entry" "resets_to sepc_csr_entry" "resets_to stval_csr_entry"
  "resets_to scause_csr_entry"
  by (simp_all add: resets_to_def csr_entries csr_resets_one reset_value_def set_csr_twice csr_reset_handlers Let_def)

lemma resets_to_pmp: "i < 16 \<Longrightarrow> resets_to (pmpaddr_csr_entry i)" "i < 4 \<Longrightarrow> resets_to (pmpcfg_csr_entry i)"
  by (simp_all add: resets_to_def csr_entries csr_resets_one reset_value_def set_csr_twice csr_reset_handlers Let_def)

lemma resets_to_counters: "\<forall>e\<in>set counter_csr_entries. resets_to e"
  by (simp add: counter_csr_entries_def resets_to_def csr_entries csr_resets_one reset_value_def Let_def)

lemma csr_reset_one: "e \<in> set csr_registery_head \<Longrightarrow> resets_to e"
  unfolding registery_head using resets_to_entries resets_to_pmp resets_to_counters by auto

lemma csr_registery_init_resets:
  "set es \<subseteq> set csr_registery_head \<Longrightarrow> csr_registery_init es h = Some (csr_resets es h)"
proof (induction es arbitrary: h)
  case (Cons e es)
  then have e: "e \<in> set csr_registery_head" by simp
  have "csr_resets es (csr_resets [e] h) = csr_resets (e # es) h"
    by (auto simp: csr_resets_def fun_eq_iff)
  then show ?case using Cons csr_reset_one [OF e] registery_range e by (simp add: Let_def resets_to_def)
qed (simp add: csr_resets_def)

text \<open>The registers after all reset handlers.\<close>

lemma hart_init_resets:
  assumes "set registery = set csr_registery_head"
  shows "hart_init registery hid = Some (zeroed_hart\<lparr>hart_id := hid, privilege_level := PRIVILEGE_LEVEL_MACHINE,
     csr_blob := (\<lambda>_. 0)(0x301 := 0x40141101, 0xf11 := 0x60a)\<rparr>)"
proof -
  have "{0x301, 0xf11} \<subseteq> csr_addr ` set csr_registery_head"
    unfolding registery_head by (simp add: csr_entries)
  then have blob: "(\<lambda>a. if a \<in> csr_addr ` set csr_registery_head then reset_value a else 0) = (\<lambda>_. 0)(0x301 := 0x40141101, 0xf11 := 0x60a)"
    by (auto simp: fun_eq_iff reset_value_def)
  show ?thesis
    using assms blob
    by (simp add: hart_init_def csr_registery_init_resets csr_resets_def flush_translation_cache_def zeroed_hart_def
        cong: if_cong)
qed

text \<open>
  The reset state of a hart: whatever order the static constructors registered the
  registers in, \<open>hart_init\<close> succeeds and leaves a hart in machine mode with an empty translation
  cache, every register zero but \<open>misa\<close> (RV32IMA with S and U) and \<open>mvendorid\<close>.
\<close>

theorem hart_init_state:
  assumes "set registery = set csr_registery_head"
  shows "hart_init registery hid = Some (zeroed_hart\<lparr>hart_id := hid, privilege_level := PRIVILEGE_LEVEL_MACHINE,
     csr_blob := (\<lambda>_. 0)(0x301 := 0x40141101, 0xf11 := 0x60a)\<rparr>)"
  using hart_init_resets [OF assms] .

text \<open>For the registry of the sources.\<close>

theorem hart_init_state_witness:
  "hart_init csr_registery_head 0 = Some (zeroed_hart\<lparr>hart_id := 0, privilege_level := PRIVILEGE_LEVEL_MACHINE,
     csr_blob := (\<lambda>_. 0)(0x301 := 0x40141101, 0xf11 := 0x60a)\<rparr>)"
  by (rule hart_init_state) (rule refl)

section \<open>Supervisor views\<close>

lemma status_values:
  "csr_value mstatus_csr_entry m = fst (csr_mstatus_read CSR_ADDRESS_MSTATUS m) AND 0x19aa"
  "csr_value sstatus_csr_entry m = fst (csr_sstatus_read CSR_ADDRESS_SSTATUS m) AND 0x133"
  "csr_write_value sstatus_csr_entry v m = csr_sstatus_write CSR_ADDRESS_SSTATUS (v AND 0x133) m"
  by (simp_all add: csr_ops mstatus_csr_entry_def sstatus_csr_entry_def case_prod_beta)

lemma sstatus_view:
  "csr_value mstatus_csr_entry (csr_write_value sstatus_csr_entry v m) = merge 0x122 (csr_value mstatus_csr_entry m) v"
  "csr_value sstatus_csr_entry m AND 0x122 = csr_value mstatus_csr_entry m AND 0x122"
  unfolding status_values
  by (intro bit_word_eqI; simp only: bit_and_iff bit_merge bit_mstatus_read bit_sstatus_read csr_sstatus_write_def Let_def
      machine.simps hart.simps status_control_blob.simps mask_bits;
      auto simp: bit_unsigned_iff bit_and_iff bit_drop_bit_eq mask_bits simp flip: bit_0 simp del: bit_numeral_word_iff)+

lemma interrupt_views:
  "csr_value mie_csr_entry (csr_write_value sie_csr_entry v m) = merge 0x222 (csr_value mie_csr_entry m) v"
  "csr_value mip_csr_entry (csr_write_value sip_csr_entry v m) = merge 0x2 (csr_value mip_csr_entry m) v"
  "csr_value sie_csr_entry m = csr_value mie_csr_entry m AND 0x222"
  "csr_value sip_csr_entry m = csr_value mip_csr_entry m AND 0x222"
  by (intro bit_word_eqI; auto simp: csr_ops csr_entries csr_handlers Let_def mask_bits bit_or_iff bit_and_iff
      simp del: bit_numeral_word_iff)+

text \<open>
  The supervisor registers are views of the machine registers: a write of \<open>sstatus\<close>, \<open>sie\<close> or
  \<open>sip\<close> changes in \<open>mstatus\<close>, \<open>mie\<close> and \<open>mip\<close> exactly the supervisor bits that are writable
  there, and reading the view gives the supervisor bits of the machine register.
\<close>

theorem supervisor_views:
  "csr_value mstatus_csr_entry (csr_write_value sstatus_csr_entry v m) = merge 0x122 (csr_value mstatus_csr_entry m) v \<and>
   csr_value mie_csr_entry (csr_write_value sie_csr_entry v m) = merge 0x222 (csr_value mie_csr_entry m) v \<and>
   csr_value mip_csr_entry (csr_write_value sip_csr_entry v m) = merge 0x2 (csr_value mip_csr_entry m) v \<and>
   csr_value sstatus_csr_entry m AND 0x122 = csr_value mstatus_csr_entry m AND 0x122 \<and>
   csr_value sie_csr_entry m = csr_value mie_csr_entry m AND 0x222 \<and>
   csr_value sip_csr_entry m = csr_value mip_csr_entry m AND 0x222"
  by (simp only: sstatus_view interrupt_views simp_thms)

section \<open>Address translation and interrupt words\<close>

text \<open>
  C31. A write of \<open>satp\<close> leaves nothing of the old address space behind: the register has the new
  value, no address hits in either TLB and the translation cache is empty.
\<close>

theorem satp_write_flushes:
  assumes "wf_tlb (itlb (cpu m))" and "wf_tlb (dtlb (cpu m))"
  shows "\<exists>h. csr_write_value satp_csr_entry v m = m\<lparr>cpu := h\<rparr> \<and> csr_blob h CSR_ADDRESS_SATP = v \<and>
    (\<forall>va. VA_TO_TLB_ENTRY (itlb h) va = None \<and> VA_TO_TLB_ENTRY (dtlb h) va = None) \<and> cached h = Map.empty"
proof (intro exI conjI allI)
  let ?h = "(set_csr CSR_ADDRESS_SATP v (cpu m))\<lparr>itlb := invalidate_tlb (itlb (cpu m)), dtlb := invalidate_tlb (dtlb (cpu m))\<rparr>"
  show "csr_write_value satp_csr_entry v m = m\<lparr>cpu := flush_translation_cache ?h\<rparr>"
    by (simp add: csr_write_value_def satp_csr_entry_def csr_satp_write_def Let_def WPRI_MASK_ALL_def)
  show "cached (flush_translation_cache ?h) = Map.empty" by (simp add: fun_eq_iff)
qed (simp_all add: flush_translation_cache_def invalidate_tlb_miss assms)

text \<open>C31 on the example machine.\<close>

theorem satp_write_flushes_witness:
  "\<exists>h. csr_write_value satp_csr_entry 0x80000001
     (example_machine\<lparr>cpu := zeroed_hart\<lparr>itlb := replicate 16 empty_tlb_entry, dtlb := replicate 16 empty_tlb_entry\<rparr>\<rparr>) =
     example_machine\<lparr>cpu := h\<rparr> \<and> cached h = Map.empty"
proof -
  let ?m = "example_machine\<lparr>cpu := zeroed_hart\<lparr>itlb := replicate 16 empty_tlb_entry, dtlb := replicate 16 empty_tlb_entry\<rparr>\<rparr>"
  have "wf_tlb (replicate 16 empty_tlb_entry)"
    unfolding wf_tlb_def by (rule exI [of _ 4]) simp
  then have "wf_tlb (itlb (cpu ?m))" "wf_tlb (dtlb (cpu ?m))" by simp_all
  from satp_write_flushes [OF this, of "0x80000001"] show ?thesis by auto
qed

text \<open>
  The interrupt words of a hart hold only bits that exist: delegation covers supervisor
  interrupts, and the enable and pending words supervisor and machine interrupts.
\<close>

definition wf_interrupts :: "hart \<Rightarrow> bool" where
  "wf_interrupts h \<longleftrightarrow> idelegation h AND NOT 0x222 = 0 \<and> ienable h AND NOT 0xaaa = 0 \<and> ipending h AND NOT 0xaaa = 0"

lemma wf_interrupts_bits: "wf_interrupts h \<longleftrightarrow> (\<forall>n. bit (idelegation h) n \<longrightarrow> n \<in> {1, 5, 9}) \<and>
    (\<forall>n. bit (ienable h) n \<longrightarrow> n \<in> {1, 3, 5, 7, 9, 11}) \<and> (\<forall>n. bit (ipending h) n \<longrightarrow> n \<in> {1, 3, 5, 7, 9, 11})"
proof -
  have *: "w AND NOT k = 0 \<longleftrightarrow> (\<forall>n. bit w n \<longrightarrow> bit k n)" for w k :: u32
    by (auto simp: bit_eq_iff bit_and_iff bit_not_iff) (metis bit_imp_le_length len_of_numeral_defs(2,3) bit_u32_beyond not_le)
  show ?thesis unfolding wf_interrupts_def * mask_bits ..
qed

lemma wf_interrupts_write:
  assumes "e \<in> set csr_registery_head" and "wf_interrupts (cpu m)"
  shows "wf_interrupts (cpu (csr_write_value e v m))"
  using assms unfolding registery_head
  by (auto simp: counter_csr_entries_def csr_entries csr_write_value_def csr_handlers Let_def flush_translation_cache_def
      wf_interrupts_bits bit_or_iff bit_and_iff mask_bits split: if_splits simp del: bit_numeral_word_iff)

lemma wf_interrupts_frame: "wf_interrupts (cpu (set_hart_reg i v m)) = wf_interrupts (cpu m)"
  by (simp add: wf_interrupts_def set_hart_reg_def)

lemma wf_interrupts_read:
  assumes "e \<in> set csr_registery_head" and "wf_interrupts (cpu m)"
  shows "wf_interrupts (cpu (snd (csr_read_value e m)))"
  using assms unfolding registery_head
  by (auto simp: counter_csr_entries_def csr_entries csr_read_value_def csr_handlers Let_def wf_interrupts_def)

lemma wf_interrupts_csr_instruction:
  assumes "wf_interrupts (cpu m)" and "riscv_generic_csr_callback i m = Ret () m'"
  shows "wf_interrupts (cpu m')"
proof -
  from assms(2) obtain dec e where d: "instruction_decoding_per_type (ucast i) ENCODING_TYPE_I = Some dec"
      "csr_at csr_registery_head (unat (imm dec AND 0xfff)) = Some e"
    by (auto simp: riscv_generic_csr_callback_def result_simps split: option.splits)
  then have e: "e \<in> set csr_registery_head" using csr_at_member by blast
  show ?thesis
    using assms wf_interrupts_write [OF e] wf_interrupts_read [OF e, of m]
    by (auto simp: riscv_generic_csr_callback_def d result_simps Let_def case_prod_beta wf_interrupts_frame split: if_splits)
qed

lemma wf_interrupts_refresh:
  assumes "wf_interrupts h"
  shows "wf_interrupts (clint_refresh_pending clint h)" "wf_interrupts (plic_refresh_pending plic h)"
  using assms
  by (auto simp: wf_interrupts_bits clint_refresh_pending_def plic_refresh_pending_def Let_def split: if_splits)

text \<open>
  C32. Only interrupts that exist are ever delegated, enabled or pending: no CSR instruction and no
  refresh of the device interrupts sets another bit of the three words. A machine interrupt is
  therefore never delegated and always enters machine mode.
\<close>

theorem interrupt_words_invariant:
  assumes "wf_interrupts (cpu m)"
  shows "(riscv_generic_csr_callback i m = Ret () m' \<or> refresh_device_interrupts m = Ret () m' \<longrightarrow> wf_interrupts (cpu m')) \<and>
    (\<forall>v\<in>{3, 7, 11}. interrupt_target_privilege_level (cpu m) v = Some PRIVILEGE_LEVEL_MACHINE)"
proof -
  have cpu: "poll_console x = Ret () y \<Longrightarrow> cpu y = cpu x" for x y
    by (auto simp: poll_console_def result_simps split: bool.splits list.splits)
  have "wf_interrupts (cpu m')" if "refresh_device_interrupts m = Ret () m'"
    using that assms
    by (auto simp: refresh_device_interrupts_def result_simps wf_interrupts_refresh dest!: cpu split: if_splits option.splits)
  moreover have "interrupt_target_privilege_level (cpu m) v = Some PRIVILEGE_LEVEL_MACHINE" if "v \<in> {3, 7, 11}" for v
  proof -
    have "\<not> bit (idelegation (cpu m)) (unat v)" using assms that by (auto simp: wf_interrupts_bits)
    then show ?thesis using that unfolding interrupt_target_privilege_level_def and_push_bit_1_eq_0 by auto
  qed
  ultimately show ?thesis using wf_interrupts_csr_instruction [OF assms] by blast
qed

text \<open>C32 for the example machine, which has no interrupt pending.\<close>

theorem interrupt_words_invariant_witness:
  "\<exists>m'. refresh_device_interrupts (example_machine\<lparr>poll_countdown := 1\<rparr>) = Ret () m' \<and> wf_interrupts (cpu m') \<and>
     interrupt_target_privilege_level (cpu example_machine) 7 = Some PRIVILEGE_LEVEL_MACHINE"
proof -
  let ?m = "example_machine\<lparr>poll_countdown := 1\<rparr>"
  have w: "wf_interrupts (cpu ?m)" by (simp add: wf_interrupts_def zeroed_hart_def)
  have "wf_plic (plic_dev ?m)" by (simp add: example_machine_def example_plic_def wf_plic_def PLIC_NR_SOURCES_def PLIC_MAX_CONTEXTS_def MAX_NR_HARTS_def)
  from uart_line_wf [OF this, of "uart_dev ?m"] obtain m' where "refresh_device_interrupts ?m = Ret () m'"
    by (auto simp: refresh_device_interrupts_def)
  then show ?thesis using interrupt_words_invariant [OF w, of _ m'] by auto
qed

end
