(* ===== verification/Amo.thy ===== *)
theory Amo
  imports Mmu
begin

text \<open>
  The atomic memory instructions (\<^verbatim>\<open>vmm/translate_amo.c\<close>): the slow paths called by the translated
  code, with the global table of load reservations. The properties say that an atomic operation
  is a read-modify-write of one word of memory, and that a store-conditional succeeds exactly
  once after a load-reserved of the same address by the same hart.
\<close>

section \<open>Operations\<close>

definition MAX_RESERVATION_ITEMS :: nat where
  "MAX_RESERVATION_ITEMS = 16"

definition amoadd_slowpath :: "u8 \<Rightarrow> u8 \<Rightarrow> u8 \<Rightarrow> machine \<Rightarrow> (machine, unit) result" where
  "amoadd_slowpath rs1_index rs2_index rd_index m = (
     let rs1 = HART_REG m rs1_index; rs2 = HART_REG m rs2_index in
     rbind (mmu_read32_aligned rs1 m) (\<lambda>v m1.
       let m2 = set_hart_reg rd_index v m1 in
       mmu_write32_aligned rs1 (HART_REG m2 rd_index + rs2) m2))"

definition amoswap_slowpath :: "u8 \<Rightarrow> u8 \<Rightarrow> u8 \<Rightarrow> machine \<Rightarrow> (machine, unit) result" where
  "amoswap_slowpath rs1_index rs2_index rd_index m = (
     let rs1 = HART_REG m rs1_index; rs2 = HART_REG m rs2_index in
     rbind (mmu_read32_aligned rs1 m) (\<lambda>v m1.
       let m2 = set_hart_reg rd_index v m1 in
       mmu_write32_aligned rs1 (rs2) m2))"

text \<open>The slot that \<open>lr_slowpath\<close> takes: the first invalid item, or else the one at \<open>next_pointer\<close>.\<close>

definition reservation_slot :: "machine \<Rightarrow> nat" where
  "reservation_slot m =
     (case List.find (\<lambda>idx. \<not> resv_valid (reservations m ! idx)) [0..<MAX_RESERVATION_ITEMS] of
        Some idx \<Rightarrow> idx | None \<Rightarrow> next_pointer m)"

definition lr_slowpath :: "u8 \<Rightarrow> u8 \<Rightarrow> u8 \<Rightarrow> machine \<Rightarrow> (machine, unit) result" where
  "lr_slowpath rs1_index rs2_index rd_index m = (
     let rs1 = HART_REG m rs1_index in
     rbind (mmu_read32_aligned rs1 m) (\<lambda>v m1.
       let m2 = set_hart_reg rd_index v m1; idx = reservation_slot m2 in
       Ret () (m2\<lparr>reservations := (reservations m2)[idx :=
                    \<lparr>resv_addr = rs1, resv_valid = True, resv_hartid = word_of_int (hart_id (cpu m2))\<rparr>],
                 next_pointer := (idx + 1) mod MAX_RESERVATION_ITEMS\<rparr>)))"

definition reserved_by :: "int \<Rightarrow> u32 \<Rightarrow> address_reservation_item \<Rightarrow> bool" where
  "reserved_by hid addr item \<longleftrightarrow> resv_valid item \<and> resv_addr item = addr \<and> uint (resv_hartid item) = hid"

definition sc_slowpath :: "u8 \<Rightarrow> u8 \<Rightarrow> u8 \<Rightarrow> machine \<Rightarrow> (machine, unit) result" where
  "sc_slowpath rs1_index rs2_index rd_index m = (
     let rs1 = HART_REG m rs1_index; rs2 = HART_REG m rs2_index in
     case List.find (\<lambda>idx. reserved_by (hart_id (cpu m)) rs1 (reservations m ! idx)) [0..<MAX_RESERVATION_ITEMS] of
       Some idx \<Rightarrow>
         rbind (mmu_write32_aligned rs1 rs2 (set_hart_reg rd_index 0 m)) (\<lambda>_ m1.
           Ret () (m1\<lparr>reservations := (reservations m1)[idx := (reservations m1 ! idx)\<lparr>resv_valid := False\<rparr>]\<rparr>))
     | None \<Rightarrow> Ret () (set_hart_reg rd_index 1 m))"

definition amoxor_slowpath :: "u8 \<Rightarrow> u8 \<Rightarrow> u8 \<Rightarrow> machine \<Rightarrow> (machine, unit) result" where
  "amoxor_slowpath rs1_index rs2_index rd_index m = (
     let rs1 = HART_REG m rs1_index; rs2 = HART_REG m rs2_index in
     rbind (mmu_read32_aligned rs1 m) (\<lambda>v m1.
       let m2 = set_hart_reg rd_index v m1 in
       mmu_write32_aligned rs1 (HART_REG m2 rd_index XOR rs2) m2))"

definition amoor_slowpath :: "u8 \<Rightarrow> u8 \<Rightarrow> u8 \<Rightarrow> machine \<Rightarrow> (machine, unit) result" where
  "amoor_slowpath rs1_index rs2_index rd_index m = (
     let rs1 = HART_REG m rs1_index; rs2 = HART_REG m rs2_index in
     rbind (mmu_read32_aligned rs1 m) (\<lambda>v m1.
       let m2 = set_hart_reg rd_index v m1 in
       mmu_write32_aligned rs1 (HART_REG m2 rd_index OR rs2) m2))"

definition amoand_slowpath :: "u8 \<Rightarrow> u8 \<Rightarrow> u8 \<Rightarrow> machine \<Rightarrow> (machine, unit) result" where
  "amoand_slowpath rs1_index rs2_index rd_index m = (
     let rs1 = HART_REG m rs1_index; rs2 = HART_REG m rs2_index in
     rbind (mmu_read32_aligned rs1 m) (\<lambda>v m1.
       let m2 = set_hart_reg rd_index v m1 in
       mmu_write32_aligned rs1 (HART_REG m2 rd_index AND rs2) m2))"

definition amo_instruction_slowpath :: "u8 \<Rightarrow> u8 \<Rightarrow> u8 \<Rightarrow> u32 \<Rightarrow> machine \<Rightarrow> (machine, unit) result" where
  "amo_instruction_slowpath rs1_index rs2_index rd_index funct5 m =
     (if funct5 = 0 then amoadd_slowpath rs1_index rs2_index rd_index m
      else if funct5 = 1 then amoswap_slowpath rs1_index rs2_index rd_index m
      else if funct5 = 2 then lr_slowpath rs1_index rs2_index rd_index m
      else if funct5 = 3 then sc_slowpath rs1_index rs2_index rd_index m
      else if funct5 = 4 then amoxor_slowpath rs1_index rs2_index rd_index m
      else if funct5 = 8 then amoor_slowpath rs1_index rs2_index rd_index m
      else if funct5 = 0xc then amoand_slowpath rs1_index rs2_index rd_index m
      else Stop Assertion)"

section \<open>Words of main memory\<close>

text \<open>An aligned word of a main memory region, with paging off.\<close>

definition ram_word :: "pm_region_operation \<Rightarrow> machine \<Rightarrow> u32 \<Rightarrow> bool" where
  "ram_word pmr m a \<longleftrightarrow> wf_regions (regions m) \<and> \<not> paging_enabled (cpu m) \<and> a AND 3 = 0 \<and> pmr \<in> set (regions m) \<and>
     pmr_device pmr = Main_memory \<and> in_region pmr a \<and> backed pmr (ucast a) 4 (main_mem m)"

definition word_at :: "pm_region_operation \<Rightarrow> machine \<Rightarrow> u32 \<Rightarrow> u32" where
  "word_at pmr m a = (case ram_read (ucast a) 4 pmr (main_mem m) of Ret v _ \<Rightarrow> ucast v | _ \<Rightarrow> 0)"

lemma ram_word_set_reg [simp]: "ram_word pmr (set_hart_reg i v m) a = ram_word pmr m a"
  by (simp add: ram_word_def set_hart_reg_def paging_enabled_def)

lemma word_at_set_reg [simp]: "word_at pmr (set_hart_reg i v m) a = word_at pmr m a"
  by (simp add: word_at_def set_hart_reg_def)

lemma ram_word_lookup:
  assumes "ram_word pmr m a"
  shows "search_pm_region_callback (regions m) (ucast a) = Some (Some pmr)"
proof -
  have "a \<noteq> - 1" using assms by (auto simp: ram_word_def in_region_def)
  then show ?thesis using search_pm_region_iff [of "regions m" a pmr] assms by (simp add: ram_word_def)
qed

lemma ucast_take_bit_32 [simp]: "ucast (take_bit 32 v) = (ucast v :: u32)" for v :: u64
  by (rule bit_word_eqI) (simp add: bit_simps)

lemma take_bit_32_ucast [simp]: "take_bit 32 (ucast v) = (ucast v :: u64)" for v :: u32
  by (rule bit_word_eqI) (auto simp: bit_simps dest: bit_imp_le_length)

lemma ram_word_read:
  assumes "ram_word pmr m a"
  shows "mmu_read32_aligned a m = Ret (word_at pmr m a) m"
proof -
  obtain v where "ram_read (ucast a) 4 pmr (main_mem m) = Ret v (main_mem m)"
    using ram.load_ret [of pmr "ucast a" 4 "main_mem m"] assms by (auto simp: ram_word_def)
  then show ?thesis using assms ram_word_lookup [OF assms]
    by (simp add: mmu_read32_aligned_def mmu_read32_def vmread_def direct_read_def pmr_read_def word_at_def ram_word_def)
qed

lemma aligned_words_disjoint:
  fixes a b :: u32
  assumes "a AND 3 = 0" and "b AND 3 = 0" and "a \<noteq> b"
  shows "unat a + 4 \<le> unat b \<or> unat b + 4 \<le> unat a"
proof -
  have al: "4 dvd unat w" if "w AND 3 = 0" for w :: u32
  proof -
    have "w AND mask 2 = 0" using that by (simp add: mask_numeral)
    then have "take_bit 2 w = 0" by (simp add: take_bit_eq_mask)
    then have "unat (take_bit 2 w) = 0" by simp
    then have "take_bit 2 (unat w) = 0" by (simp add: unsigned_take_bit_eq)
    then show ?thesis by (simp add: take_bit_eq_mod mod_eq_0_iff_dvd)
  qed
  have "unat a \<noteq> unat b" using assms(3) by (simp add: word_unat_eq_iff)
  moreover obtain i j where "unat a = 4 * i" "unat b = 4 * j" using al [OF assms(1)] al [OF assms(2)] by (auto elim!: dvdE)
  ultimately show ?thesis by presburger
qed

text \<open>A store to a word of main memory: it reads back, and the other words of the region keep their values.\<close>

lemma ram_word_write:
  assumes "ram_word pmr m a"
  shows "\<exists>mem. mmu_write32_aligned a v m = Ret () (m\<lparr>main_mem := mem\<rparr>) \<and> word_at pmr (m\<lparr>main_mem := mem\<rparr>) a = v \<and>
    (\<forall>b. ram_word pmr m b \<longrightarrow> ram_word pmr (m\<lparr>main_mem := mem\<rparr>) b \<and>
       (b \<noteq> a \<longrightarrow> word_at pmr (m\<lparr>main_mem := mem\<rparr>) b = word_at pmr m b))"
proof -
  have a: "backed pmr (ucast a) 4 (main_mem m)" "a AND 3 = 0" using assms by (simp_all add: ram_word_def)
  obtain mem where mem: "ram_write (ucast a) 4 (ucast v) pmr (main_mem m) = Ret () mem"
    using ram.store_ret [OF a(1)] by blast
  have "mmu_write32_aligned a v m = Ret () (m\<lparr>main_mem := mem\<rparr>)"
    using assms ram_word_lookup [OF assms] mem
    by (simp add: mmu_write32_aligned_def mmu_write32_def vmwrite_def direct_write_def pmr_write_def ram_word_def)
  moreover have "word_at pmr (m\<lparr>main_mem := mem\<rparr>) a = v"
    using ram.load_store [OF a(1) mem] by (simp add: word_at_def)
  moreover have "ram_word pmr (m\<lparr>main_mem := mem\<rparr>) b" if "ram_word pmr m b" for b
    using that ram.valid_store [OF mem] by (simp add: ram_word_def)
  moreover have "word_at pmr (m\<lparr>main_mem := mem\<rparr>) b = word_at pmr m b" if b: "ram_word pmr m b" "b \<noteq> a" for b
  proof -
    have bb: "backed pmr (ucast b) 4 (main_mem m)" "b AND 3 = 0" using b by (simp_all add: ram_word_def)
    have "unat (ucast b :: u64) + 4 \<le> unat (ucast a :: u64) \<or> unat (ucast a :: u64) + 4 \<le> unat (ucast b :: u64)"
      using aligned_words_disjoint [OF bb(2) a(2) b(2)] by (simp add: unat_ucast_u64)
    from ram.load_frame [OF bb(1) a(1) mem this] show ?thesis by (auto simp: word_at_def)
  qed
  ultimately show ?thesis by blast
qed

section \<open>Atomic operations\<close>

text \<open>The function that each \<^verbatim>\<open>amo<op>.w\<close> instruction applies, by its \<open>funct5\<close> field.\<close>

definition amo_function :: "u32 \<Rightarrow> (u32 \<Rightarrow> u32 \<Rightarrow> u32) option" where
  "amo_function funct5 =
     (if funct5 = 0 then Some (+) else if funct5 = 1 then Some (\<lambda>old x. x)
      else if funct5 = 4 then Some (XOR) else if funct5 = 8 then Some (OR)
      else if funct5 = 0xc then Some (AND) else None)"

lemma amo_slowpath_function:
  assumes "amo_function funct5 = Some f"
  shows "amo_instruction_slowpath i j k funct5 m =
    rbind (mmu_read32_aligned (HART_REG m i) m) (\<lambda>v m1.
      mmu_write32_aligned (HART_REG m i) (f v (HART_REG m j)) (set_hart_reg k v m1))"
proof -
  have "HART_REG (set_hart_reg k v n) k = v" for v n by (simp add: set_hart_reg_def set_reg_def)
  then show ?thesis using assms
    by (auto simp: amo_function_def amo_instruction_slowpath_def amoadd_slowpath_def amoswap_slowpath_def
        amoxor_slowpath_def amoor_slowpath_def amoand_slowpath_def Let_def split: if_splits)
qed

text \<open>
  C33. An atomic memory operation on an aligned word of main memory is one read-modify-write: \<open>rd\<close>
  gets the old word, the word becomes the function of the instruction applied to the old word and
  \<open>rs2\<close> (both source registers read before \<open>rd\<close> is written, so that they may coincide), and
  no other word and no other register changes.
\<close>

theorem amo_read_modify_write:
  assumes "ram_word pmr m a" and "HART_REG m rs1 = a" and "amo_function funct5 = Some f"
  shows "\<exists>m'. amo_instruction_slowpath rs1 rs2 rd funct5 m = Ret () m' \<and>
    HART_REG m' rd = word_at pmr m a \<and> (\<forall>i. i \<noteq> unat rd \<longrightarrow> registers (cpu m') i = registers (cpu m) i) \<and>
    word_at pmr m' a = f (word_at pmr m a) (HART_REG m rs2) \<and>
    (\<forall>b. ram_word pmr m b \<and> b \<noteq> a \<longrightarrow> word_at pmr m' b = word_at pmr m b)"
proof -
  let ?n = "set_hart_reg rd (word_at pmr m a) m" and ?v = "f (word_at pmr m a) (HART_REG m rs2)"
  have "ram_word pmr ?n a" using assms(1) by simp
  from ram_word_write [OF this, of ?v] obtain mem where
    w: "mmu_write32_aligned a ?v ?n = Ret () (?n\<lparr>main_mem := mem\<rparr>)" "word_at pmr (?n\<lparr>main_mem := mem\<rparr>) a = ?v"
      "\<forall>b. ram_word pmr m b \<and> b \<noteq> a \<longrightarrow> word_at pmr (?n\<lparr>main_mem := mem\<rparr>) b = word_at pmr m b" by auto
  have "amo_instruction_slowpath rs1 rs2 rd funct5 m = Ret () (?n\<lparr>main_mem := mem\<rparr>)"
    using amo_slowpath_function [OF assms(3)] ram_word_read [OF assms(1)] w(1) assms(2) by simp
  then show ?thesis using w(2,3) by (intro exI [of _ "?n\<lparr>main_mem := mem\<rparr>"]) (simp add: set_hart_reg_def set_reg_def)
qed

text \<open>A machine with a word of main memory at the address in register 1.\<close>

definition atomic_machine :: machine where
  "atomic_machine = example_machine\<lparr>cpu := zeroed_hart\<lparr>registers := (\<lambda>_. 0)(1 := 0x40000004, 2 := 5)\<rparr>,
     reservations := replicate 16 \<lparr>resv_addr = 0, resv_valid = False, resv_hartid = 0\<rparr>\<rparr>"

lemma atomic_machine_sel [simp]:
  "registers (cpu atomic_machine) = (\<lambda>_. 0)(1 := 0x40000004, 2 := 5)"
  "reservations atomic_machine = replicate 16 \<lparr>resv_addr = 0, resv_valid = False, resv_hartid = 0\<rparr>"
  "next_pointer atomic_machine = 0" "hart_id (cpu atomic_machine) = 0"
  by (simp_all add: atomic_machine_def) (simp_all add: example_machine_def zeroed_hart_def)

lemma atomic_machine_word: "ram_word example_ram atomic_machine 0x40000004"
  by (simp add: ram_word_def atomic_machine_def wf_regions_def nonempty_region_def example_ram_def in_region_def
      paging_enabled_def zeroed_hart_def) (simp add: backed_def example_machine_def)

lemma atomic_machine_value: "word_at example_ram atomic_machine 0x40000004 = 0x1000000f"
  by (simp add: word_at_def ram_read_def host_load_def atomic_machine_def example_ram_def)
    (simp add: example_machine_def le_read_4)

text \<open>C33 for \<^verbatim>\<open>amoadd.w\<close> with \<open>rd\<close> and \<open>rs1\<close> the same register.\<close>

theorem amo_read_modify_write_witness:
  "\<exists>m'. amo_instruction_slowpath 1 2 1 0 atomic_machine = Ret () m' \<and>
    HART_REG m' 1 = 0x1000000f \<and> word_at example_ram m' 0x40000004 = 0x10000014"
  using amo_read_modify_write [OF atomic_machine_word, of 1 0 "(+)" 2 1]
  by (auto simp: atomic_machine_value amo_function_def)

section \<open>Load-reserved and store-conditional\<close>

definition reservation_count :: "int \<Rightarrow> u32 \<Rightarrow> machine \<Rightarrow> nat" where
  "reservation_count hid a m = length (filter (reserved_by hid a) (reservations m))"

lemma reserved_by_False: "\<not> reserved_by hid b (item\<lparr>resv_valid := False\<rparr>)"
  by (simp add: reserved_by_def)

lemma filter_update_count:
  assumes "i < length xs"
  shows "length (filter P (xs[i := x])) + of_bool (P (xs ! i)) = length (filter P xs) + of_bool (P x)"
proof -
  have "xs = take i xs @ xs ! i # drop (Suc i) xs" using assms by (simp add: id_take_nth_drop)
  then have "length (filter P xs) = length (filter P (take i xs @ xs ! i # drop (Suc i) xs))" by simp
  then show ?thesis using assms by (simp add: upd_conv_take_nth_drop)
qed

lemma find_index_None: "length xs = n \<Longrightarrow> List.find (\<lambda>i. P (xs ! i)) [0..<n] = None \<longleftrightarrow> length (filter P xs) = 0"
  by (fastforce simp: find_None_iff filter_empty_conv in_set_conv_nth)

lemma find_index_Some: "List.find (\<lambda>i. P (xs ! i)) [0..<n] = Some i \<Longrightarrow> i < n \<and> P (xs ! i)"
  by (auto simp: find_Some_iff)

lemma reservation_slot_cases:
  assumes "length (reservations m) = MAX_RESERVATION_ITEMS"
  shows "reservation_slot m < MAX_RESERVATION_ITEMS \<and> \<not> resv_valid (reservations m ! reservation_slot m) \<or>
    reservation_slot m = next_pointer m \<and> (\<forall>item \<in> set (reservations m). resv_valid item)"
proof (cases "List.find (\<lambda>i. \<not> resv_valid (reservations m ! i)) [0..<MAX_RESERVATION_ITEMS]")
  case None
  then have "length (filter (\<lambda>x. \<not> resv_valid x) (reservations m)) = 0"
    using find_index_None [OF assms, of "\<lambda>x. \<not> resv_valid x"] by blast
  then show ?thesis using None by (simp add: reservation_slot_def filter_empty_conv)
next
  case (Some i)
  then show ?thesis using find_index_Some [OF Some] by (simp add: reservation_slot_def)
qed

text \<open>
  C34. A store-conditional to an aligned word of main memory succeeds exactly when the hart holds a
  reservation of that address: then it stores \<open>rs2\<close>, gives 0 in \<open>rd\<close> and consumes one reservation;
  otherwise it gives 1 in \<open>rd\<close> and changes nothing else. The reservations of other addresses and
  of other harts stay.
\<close>

theorem sc_semantics:
  assumes "ram_word pmr m a" and "HART_REG m rs1 = a" and "length (reservations m) = MAX_RESERVATION_ITEMS"
  shows "\<exists>m'. amo_instruction_slowpath rs1 rs2 rd 3 m = Ret () m' \<and>
    (if reservation_count (hart_id (cpu m)) a m = 0 then m' = set_hart_reg rd 1 m
     else HART_REG m' rd = 0 \<and> word_at pmr m' a = HART_REG m rs2 \<and>
       (\<forall>b. ram_word pmr m b \<and> b \<noteq> a \<longrightarrow> word_at pmr m' b = word_at pmr m b) \<and>
       (\<forall>hid b. reservation_count hid b m' =
          reservation_count hid b m - (if hid = hart_id (cpu m) \<and> b = a then 1 else 0)))"
proof (cases "List.find (\<lambda>i. reserved_by (hart_id (cpu m)) a (reservations m ! i)) [0..<MAX_RESERVATION_ITEMS]")
  case None
  then show ?thesis using assms find_index_None [OF assms(3), of "reserved_by (hart_id (cpu m)) a"]
    by (simp add: amo_instruction_slowpath_def sc_slowpath_def reservation_count_def)
next
  case (Some i)
  let ?n = "set_hart_reg rd 0 m" and ?v = "HART_REG m rs2"
  have i: "i < length (reservations m)" "reserved_by (hart_id (cpu m)) a (reservations m ! i)"
    using find_index_Some [OF Some] assms(3) by simp_all
  have "ram_word pmr ?n a" using assms(1) by simp
  from ram_word_write [OF this, of ?v] obtain mem where
    w: "mmu_write32_aligned a ?v ?n = Ret () (?n\<lparr>main_mem := mem\<rparr>)" "word_at pmr (?n\<lparr>main_mem := mem\<rparr>) a = ?v"
      "\<forall>b. ram_word pmr m b \<and> b \<noteq> a \<longrightarrow> word_at pmr (?n\<lparr>main_mem := mem\<rparr>) b = word_at pmr m b" by auto
  define m' where "m' = ?n\<lparr>main_mem := mem,
    reservations := (reservations m)[i := (reservations m ! i)\<lparr>resv_valid := False\<rparr>]\<rparr>"
  have run: "amo_instruction_slowpath rs1 rs2 rd 3 m = Ret () m'"
    using Some assms(2) w(1)
    by (simp add: amo_instruction_slowpath_def sc_slowpath_def m'_def) (simp add: set_hart_reg_def)
  have r: "reserved_by hid b (reservations m ! i) \<longleftrightarrow> hid = hart_id (cpu m) \<and> b = a" for hid b
    using i(2) by (auto simp: reserved_by_def)
  have count: "reservation_count hid b m' = reservation_count hid b m - (if hid = hart_id (cpu m) \<and> b = a then 1 else 0)"
    for hid b
    using filter_update_count [OF i(1), of "reserved_by hid b" "(reservations m ! i)\<lparr>resv_valid := False\<rparr>"] r [of hid b]
    by (auto simp: reservation_count_def m'_def reserved_by_False set_hart_reg_def)
  have pos: "reservation_count (hart_id (cpu m)) a m \<noteq> 0"
    using find_index_None [OF assms(3), of "reserved_by (hart_id (cpu m)) a"] Some by (simp add: reservation_count_def)
  have "word_at pmr m' b = word_at pmr (?n\<lparr>main_mem := mem\<rparr>) b" for b by (simp add: m'_def word_at_def)
  then show ?thesis using run count pos w(2,3) by (auto simp: m'_def set_hart_reg_def set_reg_def)
qed

text \<open>C34 without a reservation.\<close>

theorem sc_semantics_witness:
  "amo_instruction_slowpath 1 2 3 3 atomic_machine = Ret () (set_hart_reg 3 1 atomic_machine)"
  using sc_semantics [OF atomic_machine_word, of 1 2 3]
  by (simp add: MAX_RESERVATION_ITEMS_def reservation_count_def reserved_by_def)

text \<open>
  A load-reserved of an aligned word of main memory gives the word in \<open>rd\<close> and leaves the
  hart with a reservation of the address (so that a store-conditional to it succeeds next), without
  changing memory; a reservation of another address or hart can only be lost, never made, and none
  is lost while the table has a free slot.
\<close>

theorem lr_reserves:
  assumes "ram_word pmr m a" and "HART_REG m rs1 = a" and "length (reservations m) = MAX_RESERVATION_ITEMS"
    and "next_pointer m < MAX_RESERVATION_ITEMS" and "hart_id (cpu m) \<in> {0..255}"
  shows "\<exists>m'. amo_instruction_slowpath rs1 rs2 rd 2 m = Ret () m' \<and> HART_REG m' rd = word_at pmr m a \<and>
    main_mem m' = main_mem m \<and> next_pointer m' < MAX_RESERVATION_ITEMS \<and> length (reservations m') = MAX_RESERVATION_ITEMS \<and>
    0 < reservation_count (hart_id (cpu m)) a m' \<and>
    (\<forall>hid b. (hid, b) \<noteq> (hart_id (cpu m), a) \<longrightarrow> reservation_count hid b m' \<le> reservation_count hid b m \<and>
       ((\<exists>item \<in> set (reservations m). \<not> resv_valid item) \<longrightarrow> reservation_count hid b m' = reservation_count hid b m))"
proof -
  define n where "n = set_hart_reg rd (word_at pmr m a) m"
  define i where "i = reservation_slot n"
  define item where "item = \<lparr>resv_addr = a, resv_valid = True, resv_hartid = word_of_int (hart_id (cpu m))\<rparr>"
  have n: "reservations n = reservations m" "next_pointer n = next_pointer m" "main_mem n = main_mem m"
    "hart_id (cpu n) = hart_id (cpu m)"
    by (simp_all add: n_def set_hart_reg_def set_reg_def)
  note slot = reservation_slot_cases [of n, unfolded n, OF assms(3), folded i_def]
  have i: "i < length (reservations m)" using slot assms(3,4) by auto
  have free: "\<not> resv_valid (reservations m ! i)" if "\<exists>item \<in> set (reservations m). \<not> resv_valid item"
    using that slot by blast
  let ?m = "n\<lparr>reservations := (reservations m)[i := item], next_pointer := (i + 1) mod MAX_RESERVATION_ITEMS\<rparr>"
  have run: "amo_instruction_slowpath rs1 rs2 rd 2 m = Ret () ?m"
    using ram_word_read [OF assms(1)] assms(2) n
    by (simp add: amo_instruction_slowpath_def lr_slowpath_def i_def item_def n_def [symmetric] Let_def)
  have self: "reserved_by hid b item \<longleftrightarrow> (hid, b) = (hart_id (cpu m), a)" for hid b
    using assms(5) by (auto simp: reserved_by_def item_def uint_word_of_int)
  have count: "reservation_count hid b ?m + of_bool (reserved_by hid b (reservations m ! i)) =
      reservation_count hid b m + of_bool ((hid, b) = (hart_id (cpu m), a))" for hid b
    using filter_update_count [OF i, of "reserved_by hid b" item] by (simp only: reservation_count_def self) simp
  have "0 < reservation_count (hart_id (cpu m)) a ?m"
    using set_update_memI [OF i, of item] self [of "hart_id (cpu m)" a]
    by (auto simp: reservation_count_def filter_empty_conv intro!: bexI [of _ item])
  moreover have "reservation_count hid b ?m \<le> reservation_count hid b m \<and>
      ((\<exists>item \<in> set (reservations m). \<not> resv_valid item) \<longrightarrow> reservation_count hid b ?m = reservation_count hid b m)"
    if "(hid, b) \<noteq> (hart_id (cpu m), a)" for hid b
  proof -
    have c: "reservation_count hid b ?m + of_bool (reserved_by hid b (reservations m ! i)) = reservation_count hid b m"
      using count [of hid b] that by simp
    have "reservation_count hid b ?m = reservation_count hid b m" if "\<exists>item \<in> set (reservations m). \<not> resv_valid item"
      using c free [OF that] by (simp add: reserved_by_def)
    then show ?thesis using c le_add1 by metis
  qed
  moreover have "HART_REG ?m rd = word_at pmr m a" by (simp add: n_def set_hart_reg_def set_reg_def)
  moreover have "(i + 1) mod MAX_RESERVATION_ITEMS < MAX_RESERVATION_ITEMS" by (simp add: MAX_RESERVATION_ITEMS_def)
  ultimately show ?thesis using run n assms(3) by (intro exI [of _ ?m]) simp
qed

text \<open>With an empty table.\<close>

theorem lr_reserves_witness:
  "\<exists>m'. amo_instruction_slowpath 1 0 3 2 atomic_machine = Ret () m' \<and>
    HART_REG m' 3 = 0x1000000f \<and> 0 < reservation_count 0 0x40000004 m'"
  using lr_reserves [OF atomic_machine_word, of 1 0 3] by (auto simp: MAX_RESERVATION_ITEMS_def atomic_machine_value)

end
