(* ===== verification/X86.thy ===== *)
theory X86
  imports Prelude
begin

text \<open>
  The host instructions that the translation templates are made of, as a small x86-64 semantics:
  eleven general registers, the flags of \<^verbatim>\<open>cmp\<close>, a stack, forward jumps to local labels, and calls
  of vmm functions through a register. A template is a list of instructions (one per line of
  the inline assembly); its parameters, which follow the code and are read relative to the
  instruction pointer (\<open>PIC_PARAM\<close>, \<^verbatim>\<open>vmm/translation.h\<close>), are a list of words.

  Memory and the vmm functions are those of the machine the code runs on, given by a record of
  operations, so that the semantics does not depend on the emulated machine.
\<close>

section \<open>Syntax\<close>

datatype xreg = RAX | RBX | RCX | RDX | RSI | RDI | R8 | R12 | R13 | R14 | R15

datatype vmm_symbol =
    Enter_vmm_dbg_shell | Mmu_read8 | Mmu_read16 | Mmu_read32 | Mmu_write8 | Mmu_write16 | Mmu_write32
  | Flush_translation_cache | Ebreak_callback | Mret_callback | Sret_callback | Sfence_vma_callback
  | Ecall_callback | Wfi_callback | Riscv_generic_csr_callback | Amo_instruction_slowpath

datatype condition = CC_E | CC_NE | CC_L | CC_GE | CC_B | CC_AE

datatype xinstr =
    Movl_param nat xreg      \<comment> \<open>\<^verbatim>\<open>movl PIC_PARAM(i), %r\<close>\<close>
  | Movl_imm u32 xreg | Movl xreg xreg
  | Movl_load xreg xreg      \<comment> \<open>\<^verbatim>\<open>movl (%base), %r\<close>\<close>
  | Movl_store xreg xreg     \<comment> \<open>\<^verbatim>\<open>movl %r, (%base)\<close>\<close>
  | Movl_store_imm u32 xreg | Addl_mem_imm u32 xreg
  | Movq xreg xreg | Movq_imm u64 xreg | Movq_sym vmm_symbol xreg
  | Addq xreg xreg | Addl xreg xreg | Addl_imm u32 xreg | Subl xreg xreg
  | Andl xreg xreg | Andl_imm u32 xreg | Orl xreg xreg | Xorl xreg xreg
  | Shll_imm nat xreg | Shrq_imm nat xreg | Shll_cl xreg | Shrl_cl xreg | Sarl_cl xreg
  | Cmpl xreg xreg | Cmpl_imm u32 xreg | Cmpl_param nat xreg | Set_cc condition xreg
  | Movzbl xreg xreg | Movzwl xreg xreg | Movsbl xreg xreg | Movswl xreg xreg | Movsxd xreg xreg
  | Imull xreg | Mull xreg | Imulq xreg | Idivl xreg | Divl xreg | Btrl_imm nat xreg
  | Pushq xreg | Popq xreg | Callq xreg
  | Jmp nat | Jcc condition nat | Label nat
  | Jmp_translation_end      \<comment> \<open>\<open>END_INSTRUCTION\<close>\<close>
  | Jmp_vmm_entry_point      \<comment> \<open>\<open>TRAP_TO_VMM\<close>\<close>

section \<open>State\<close>

record xflags =
  ZF :: bool
  CF :: bool
  SF :: bool
  OF :: bool

text \<open>
  Only \<^verbatim>\<open>cmp\<close> leaves flags that a template reads; after any other arithmetic instruction, and
  after a call, they are not known.
\<close>

record xstate =
  xr :: "xreg \<Rightarrow> u64"
  flags :: "xflags option"
  stack :: "u64 list"

record 's host =
  load32 :: "u64 \<Rightarrow> 's \<Rightarrow> u32 option"
  store32 :: "u64 \<Rightarrow> u32 \<Rightarrow> 's \<Rightarrow> 's option"
  symbol_addr :: "vmm_symbol \<Rightarrow> u64"
  call_vmm :: "u64 \<Rightarrow> (xreg \<Rightarrow> u64) \<Rightarrow> 's \<Rightarrow> ('s, xreg \<Rightarrow> u64) result"

abbreviation r32 :: "xreg \<Rightarrow> xstate \<Rightarrow> u32" where
  "r32 r xs \<equiv> ucast (xr xs r)"

definition set64 :: "xreg \<Rightarrow> u64 \<Rightarrow> xstate \<Rightarrow> xstate" where
  "set64 r v xs = xs\<lparr>xr := (xr xs)(r := v)\<rparr>"

text \<open>Writing a 32-bit register clears the upper half.\<close>

definition set32 :: "xreg \<Rightarrow> u32 \<Rightarrow> xstate \<Rightarrow> xstate" where
  "set32 r v xs = set64 r (ucast v) xs"

definition set8 :: "xreg \<Rightarrow> u8 \<Rightarrow> xstate \<Rightarrow> xstate" where
  "set8 r v xs = set64 r ((xr xs r AND NOT 0xff) OR ucast v) xs"

definition no_flags :: "xstate \<Rightarrow> xstate" where
  "no_flags xs = xs\<lparr>flags := None\<rparr>"

section \<open>Instructions\<close>

definition cmp_flags :: "u32 \<Rightarrow> u32 \<Rightarrow> xflags" where
  "cmp_flags a b = (let d = a - b in
     \<lparr>ZF = (d = 0), CF = (a < b), SF = bit d 31, OF = (bit a 31 \<noteq> bit b 31 \<and> bit d 31 \<noteq> bit a 31)\<rparr>)"

primrec holds :: "condition \<Rightarrow> xflags \<Rightarrow> bool" where
  "holds CC_E f = ZF f"
| "holds CC_NE f = (\<not> ZF f)"
| "holds CC_L f = (SF f \<noteq> OF f)"
| "holds CC_GE f = (SF f = OF f)"
| "holds CC_B f = CF f"
| "holds CC_AE f = (\<not> CF f)"

text \<open>
  Division of the double word \<open>edx:eax\<close>: a divisor of zero or a quotient that does not fit is
  the divide error of the processor.
\<close>

definition idiv32 :: "u32 \<Rightarrow> u32 \<Rightarrow> u32 \<Rightarrow> (u32 \<times> u32) option" where
  "idiv32 hi lo d = (
     let n = 2 ^ 32 * sint hi + uint lo;
         q = (if (n < 0) = (sint d < 0) then \<bar>n\<bar> div \<bar>sint d\<bar> else - (\<bar>n\<bar> div \<bar>sint d\<bar>)) in
     if d = 0 \<or> q < - (2 ^ 31) \<or> 2 ^ 31 \<le> q then None
     else Some (word_of_int q, word_of_int (n - q * sint d)))"

definition div32 :: "u32 \<Rightarrow> u32 \<Rightarrow> u32 \<Rightarrow> (u32 \<times> u32) option" where
  "div32 hi lo d = (
     let n = 2 ^ 32 * uint hi + uint lo in
     if d = 0 \<or> 2 ^ 32 \<le> n div uint d then None
     else Some (word_of_int (n div uint d), word_of_int (n mod uint d)))"

definition write_pair :: "u64 \<Rightarrow> xstate \<Rightarrow> xstate" where
  "write_pair p xs = no_flags (set32 RDX (ucast (drop_bit 32 p)) (set32 RAX (ucast p) xs))"

definition alu :: "(u32 \<Rightarrow> u32 \<Rightarrow> u32) \<Rightarrow> xreg \<Rightarrow> u32 \<Rightarrow> xstate \<Rightarrow> xstate" where
  "alu f dst src xs = no_flags (set32 dst (f (r32 dst xs) src) xs)"

definition or_fault :: "'a option \<Rightarrow> ('a \<Rightarrow> ('s, 'b) result) \<Rightarrow> ('s, 'b) result" where
  "or_fault x f = (case x of None \<Rightarrow> Stop Host_fault | Some a \<Rightarrow> f a)"

text \<open>The straight-line instructions; operands are in the order of the assembler (source first).\<close>

fun xstep :: "'s host \<Rightarrow> u32 list \<Rightarrow> xinstr \<Rightarrow> xstate \<Rightarrow> 's \<Rightarrow> ('s, xstate) result" where
  "xstep H ps (Movl_param i r) xs s = (if i < length ps then Ret (set32 r (ps ! i) xs) s else Stop Host_fault)"
| "xstep H ps (Movl_imm v r) xs s = Ret (set32 r v xs) s"
| "xstep H ps (Movl a r) xs s = Ret (set32 r (r32 a xs) xs) s"
| "xstep H ps (Movl_load b r) xs s = or_fault (load32 H (xr xs b) s) (\<lambda>v. Ret (set32 r v xs) s)"
| "xstep H ps (Movl_store r b) xs s = or_fault (store32 H (xr xs b) (r32 r xs) s) (\<lambda>s'. Ret xs s')"
| "xstep H ps (Movl_store_imm v b) xs s = or_fault (store32 H (xr xs b) v s) (\<lambda>s'. Ret xs s')"
| "xstep H ps (Addl_mem_imm v b) xs s =
     or_fault (load32 H (xr xs b) s) (\<lambda>w. or_fault (store32 H (xr xs b) (w + v) s) (\<lambda>s'. Ret (no_flags xs) s'))"
| "xstep H ps (Movq a r) xs s = Ret (set64 r (xr xs a) xs) s"
| "xstep H ps (Movq_imm v r) xs s = Ret (set64 r v xs) s"
| "xstep H ps (Movq_sym f r) xs s = Ret (set64 r (symbol_addr H f) xs) s"
| "xstep H ps (Addq a r) xs s = Ret (no_flags (set64 r (xr xs r + xr xs a) xs)) s"
| "xstep H ps (Addl a r) xs s = Ret (alu (+) r (r32 a xs) xs) s"
| "xstep H ps (Addl_imm v r) xs s = Ret (alu (+) r v xs) s"
| "xstep H ps (Subl a r) xs s = Ret (alu (-) r (r32 a xs) xs) s"
| "xstep H ps (Andl a r) xs s = Ret (alu (AND) r (r32 a xs) xs) s"
| "xstep H ps (Andl_imm v r) xs s = Ret (alu (AND) r v xs) s"
| "xstep H ps (Orl a r) xs s = Ret (alu (OR) r (r32 a xs) xs) s"
| "xstep H ps (Xorl a r) xs s = Ret (alu (XOR) r (r32 a xs) xs) s"
| "xstep H ps (Shll_imm n r) xs s = Ret (no_flags (set32 r (push_bit (n mod 32) (r32 r xs)) xs)) s"
| "xstep H ps (Shrq_imm n r) xs s = Ret (no_flags (set64 r (drop_bit (n mod 64) (xr xs r)) xs)) s"
| "xstep H ps (Shll_cl r) xs s = Ret (no_flags (set32 r (push_bit (unat (xr xs RCX AND 0x1f)) (r32 r xs)) xs)) s"
| "xstep H ps (Shrl_cl r) xs s = Ret (no_flags (set32 r (drop_bit (unat (xr xs RCX AND 0x1f)) (r32 r xs)) xs)) s"
| "xstep H ps (Sarl_cl r) xs s =
     Ret (no_flags (set32 r (word_of_int (drop_bit (unat (xr xs RCX AND 0x1f)) (sint (r32 r xs :: u32)))) xs)) s"
| "xstep H ps (Cmpl a r) xs s = Ret (xs\<lparr>flags := Some (cmp_flags (r32 r xs) (r32 a xs))\<rparr>) s"
| "xstep H ps (Cmpl_imm v r) xs s = Ret (xs\<lparr>flags := Some (cmp_flags (r32 r xs) v)\<rparr>) s"
| "xstep H ps (Cmpl_param i r) xs s =
     (if i < length ps then Ret (xs\<lparr>flags := Some (cmp_flags (r32 r xs) (ps ! i))\<rparr>) s else Stop Host_fault)"
| "xstep H ps (Set_cc c r) xs s = or_fault (flags xs) (\<lambda>f. Ret (set8 r (of_bool (holds c f)) xs) s)"
| "xstep H ps (Movzbl a r) xs s = Ret (set32 r (ucast (ucast (xr xs a) :: u8)) xs) s"
| "xstep H ps (Movzwl a r) xs s = Ret (set32 r (ucast (ucast (xr xs a) :: u16)) xs) s"
| "xstep H ps (Movsbl a r) xs s = Ret (set32 r (scast (ucast (xr xs a) :: u8)) xs) s"
| "xstep H ps (Movswl a r) xs s = Ret (set32 r (scast (ucast (xr xs a) :: u16)) xs) s"
| "xstep H ps (Movsxd a r) xs s = Ret (set64 r (scast (ucast (xr xs a) :: u32)) xs) s"
| "xstep H ps (Imull r) xs s = Ret (write_pair (scast (r32 RAX xs :: u32) * scast (r32 r xs :: u32)) xs) s"
| "xstep H ps (Mull r) xs s = Ret (write_pair (ucast (r32 RAX xs :: u32) * ucast (r32 r xs :: u32)) xs) s"
| "xstep H ps (Imulq r) xs s = Ret (
     let p = sint (xr xs RAX) * sint (xr xs r) in
     no_flags (set64 RDX (word_of_int (drop_bit 64 p)) (set64 RAX (word_of_int p) xs))) s"
| "xstep H ps (Idivl r) xs s = or_fault (idiv32 (r32 RDX xs) (r32 RAX xs) (r32 r xs))
     (\<lambda>(q, m). Ret (no_flags (set32 RDX m (set32 RAX q xs))) s)"
| "xstep H ps (Divl r) xs s = or_fault (div32 (r32 RDX xs) (r32 RAX xs) (r32 r xs))
     (\<lambda>(q, m). Ret (no_flags (set32 RDX m (set32 RAX q xs))) s)"
| "xstep H ps (Btrl_imm n r) xs s = Ret (no_flags (set32 r (unset_bit (n mod 32) (r32 r xs)) xs)) s"
| "xstep H ps (Pushq r) xs s = Ret (xs\<lparr>stack := xr xs r # stack xs\<rparr>) s"
| "xstep H ps (Popq r) xs s = (case stack xs of [] \<Rightarrow> Stop Host_fault
     | v # rest \<Rightarrow> Ret ((set64 r v xs)\<lparr>stack := rest\<rparr>) s)"
| "xstep H ps (Callq r) xs s = rbind (call_vmm H (xr xs r) (xr xs) s) (\<lambda>regs s'. Ret (no_flags (xs\<lparr>xr := regs\<rparr>)) s')"
| "xstep H ps _ xs s = Stop Host_fault"

section \<open>Execution of a block\<close>

datatype block_exit = Next | To_vmm

definition jump_to :: "nat \<Rightarrow> xinstr list \<Rightarrow> xinstr list" where
  "jump_to l is = dropWhile (\<lambda>i. i \<noteq> Label l) is"

function exec :: "'s host \<Rightarrow> u32 list \<Rightarrow> xinstr list \<Rightarrow> xstate \<Rightarrow> 's \<Rightarrow> ('s, block_exit \<times> xstate) result" where
  "exec H ps [] xs s = Stop Host_fault"
| "exec H ps (i # is) xs s =
     (case i of
        Jmp_translation_end \<Rightarrow> Ret (Next, xs) s
      | Jmp_vmm_entry_point \<Rightarrow> Ret (To_vmm, xs) s
      | Label l \<Rightarrow> exec H ps is xs s
      | Jmp l \<Rightarrow> exec H ps (jump_to l is) xs s
      | Jcc c l \<Rightarrow> or_fault (flags xs) (\<lambda>f. if holds c f then exec H ps (jump_to l is) xs s else exec H ps is xs s)
      | _ \<Rightarrow> rbind (xstep H ps i xs s) (\<lambda>xs' s'. exec H ps is xs' s'))"
  by pat_completeness auto
termination
  by (relation "measure (\<lambda>(H, ps, is, xs, s). length is)")
    (auto simp: jump_to_def intro: le_imp_less_Suc length_dropWhile_le)

section \<open>Lemmas for symbolic execution\<close>

named_theorems x86_simps \<open>symbolic execution of templates\<close>

lemma xr_set [simp]:
  "xr (set64 r v xs) = (xr xs)(r := v)" "xr (set32 r w xs) = (xr xs)(r := ucast w)"
  "xr (set8 r b xs) = (xr xs)(r := (xr xs r AND NOT 0xff) OR ucast b)" "xr (no_flags xs) = xr xs"
  "xr (alu f r w xs) = (xr xs)(r := ucast (f (r32 r xs) w))"
  by (simp_all add: set64_def set32_def set8_def no_flags_def alu_def)

lemma flags_set [simp]:
  "flags (set64 r v xs) = flags xs" "flags (set32 r w xs) = flags xs" "flags (set8 r b xs) = flags xs"
  "flags (no_flags xs) = None" "flags (alu f r w xs) = None"
  by (simp_all add: set64_def set32_def set8_def no_flags_def alu_def)

lemma stack_set [simp]:
  "stack (set64 r v xs) = stack xs" "stack (set32 r w xs) = stack xs" "stack (set8 r b xs) = stack xs"
  "stack (no_flags xs) = stack xs" "stack (alu f r w xs) = stack xs"
  by (simp_all add: set64_def set32_def set8_def no_flags_def alu_def)

text \<open>One rule per kind of instruction; the equations of \<open>exec\<close> themselves are not used for rewriting.\<close>

fun straight_line :: "xinstr \<Rightarrow> bool" where
  "straight_line (Jmp l) = False"
| "straight_line (Jcc c l) = False"
| "straight_line (Label l) = False"
| "straight_line Jmp_translation_end = False"
| "straight_line Jmp_vmm_entry_point = False"
| "straight_line i = True"

declare exec.simps [simp del]

lemma exec_straight [simp]:
  "straight_line i \<Longrightarrow> exec H ps (i # is) xs s = rbind (xstep H ps i xs s) (\<lambda>xs' s'. exec H ps is xs' s')"
  by (cases i) (simp_all add: exec.simps)

lemma exec_jump [simp]:
  "exec H ps (Jmp_translation_end # is) xs s = Ret (Next, xs) s"
  "exec H ps (Jmp_vmm_entry_point # is) xs s = Ret (To_vmm, xs) s"
  "exec H ps (Label l # is) xs s = exec H ps is xs s"
  "exec H ps (Jmp l # is) xs s = exec H ps (jump_to l is) xs s"
  "exec H ps (Jcc c l # is) xs s =
     or_fault (flags xs) (\<lambda>f. if holds c f then exec H ps (jump_to l is) xs s else exec H ps is xs s)"
  by (simp_all add: exec.simps)

lemma jump_to_simps [simp]:
  "jump_to l (Label l' # is) = (if l' = l then Label l' # is else jump_to l is)"
  "straight_line i \<Longrightarrow> jump_to l (i # is) = jump_to l is"
  "jump_to l (Jmp l' # is) = jump_to l is" "jump_to l (Jcc c l' # is) = jump_to l is"
  by (auto simp: jump_to_def)

lemma or_fault_simps [simp]: "or_fault (Some a) f = f a" "or_fault None f = Stop Host_fault"
  by (simp_all add: or_fault_def)

lemma sint_u32_sign: "sint w = uint w - (if bit w 31 then 2 ^ 32 else 0)" for w :: u32
proof -
  have "sint w = signed_take_bit 31 (uint w)" by (simp add: sint_uint)
  also have "\<dots> = take_bit 32 (uint w) - 2 ^ 32 * of_bool (bit (uint w) 31)"
    by (simp add: signed_take_bit_eq_take_bit_minus)
  also have "take_bit 32 (uint w) = uint w" using uint_bounded [of w] by (simp add: take_bit_int_eq_self)
  finally show ?thesis by (simp add: bit_uint_iff)
qed

lemma sign_overflow_int:
  fixes x y :: int
  assumes "0 \<le> x" "x < 2 ^ 32" "0 \<le> y" "y < 2 ^ 32"
  defines "d \<equiv> (if y \<le> x then x - y else x - y + 2 ^ 32)"
  shows "((2 ^ 31 \<le> d) \<noteq> ((2 ^ 31 \<le> x) \<noteq> (2 ^ 31 \<le> y) \<and> (2 ^ 31 \<le> d) \<noteq> (2 ^ 31 \<le> x))) \<longleftrightarrow>
    x - (if 2 ^ 31 \<le> x then 2 ^ 32 else 0) < y - (if 2 ^ 31 \<le> y then 2 ^ 32 else 0)"
  using assms(1-4) unfolding d_def by auto

text \<open>The flags of a comparison read as the signed and unsigned order.\<close>

lemma holds_cmp [simp]:
  "holds CC_E (cmp_flags a b) \<longleftrightarrow> a = b"
  "holds CC_NE (cmp_flags a b) \<longleftrightarrow> a \<noteq> b"
  "holds CC_L (cmp_flags a b) \<longleftrightarrow> sint a < sint b"
  "holds CC_GE (cmp_flags a b) \<longleftrightarrow> sint b \<le> sint a"
  "holds CC_B (cmp_flags a b) \<longleftrightarrow> a < b"
  "holds CC_AE (cmp_flags a b) \<longleftrightarrow> b \<le> a"
proof -
  have r: "0 \<le> uint w" "uint w < 2 ^ 32" for w :: u32
    using uint_bounded [of w] by simp_all
  have high: "bit w 31 \<longleftrightarrow> 2 ^ 31 \<le> uint w" for w :: u32
  proof -
    have "bit w 31 \<longleftrightarrow> odd (uint w div 2 ^ 31)" using bit_uint_iff [of w 31] bit_iff_odd [of "uint w" 31] by simp
    moreover have "uint w div 2 ^ 31 = (if 2 ^ 31 \<le> uint w then 1 else 0)"
      using r [of w] by (auto simp: int_div_pos_eq div_pos_pos_trivial)
    ultimately show ?thesis by auto
  qed
  have d: "uint (a - b) = (if uint b \<le> uint a then uint a - uint b else uint a - uint b + 2 ^ 32)"
    by (simp add: uint_sub_if')
  have lt: "(bit (a - b) 31 \<noteq> (bit a 31 \<noteq> bit b 31 \<and> bit (a - b) 31 \<noteq> bit a 31)) \<longleftrightarrow> sint a < sint b"
    unfolding sint_u32_sign high d by (rule sign_overflow_int [OF r r])
  show "holds CC_L (cmp_flags a b) \<longleftrightarrow> sint a < sint b" "holds CC_GE (cmp_flags a b) \<longleftrightarrow> sint b \<le> sint a"
    using lt by (auto simp: cmp_flags_def Let_def)
qed (auto simp: cmp_flags_def Let_def not_less)

declare holds.simps [simp del]

end
