(* ===== verification/Breakpoints.thy ===== *)
theory Breakpoints
  imports Machine Address_Order
begin

text \<open>
  The breakpoint table of the native debugger (\<^verbatim>\<open>vmm/debug_breakpoint.c\<close>) and the entry check of
  the debug shell (\<open>enter_vmm_dbg_shell\<close>, \<^verbatim>\<open>vmm/debug.c\<close>), which every translated instruction
  calls first. The interactive shell itself, which talks to the terminal, is a parameter.
\<close>

section \<open>Operations\<close>

definition MAX_BREAKPOINTS :: nat where
  "MAX_BREAKPOINTS = 256"

definition addr_cmp :: "u32 comparison" where
  "addr_cmp = key_cmp (\<lambda>paddr. paddr)"

text \<open>The array holds the first \<open>nr_breakpoints\<close> addresses as a list.\<close>

definition is_address_breakpoint :: "u32 list \<Rightarrow> u32 \<Rightarrow> bool option" where
  "is_address_breakpoint bps guest_addr =
     map_option (\<lambda>pbp. pbp \<noteq> None) (SEARCH addr_cmp bps guest_addr)"

definition add_breakpoint :: "u32 \<Rightarrow> u32 list \<Rightarrow> (int \<times> u32 list) option" where
  "add_breakpoint guest_addr bps =
     (if guest_addr AND 3 \<noteq> 0 then Some (- 2, bps)
      else if MAX_BREAKPOINTS \<le> length bps then Some (- 1, bps)
      else case is_address_breakpoint bps guest_addr of
             None \<Rightarrow> None
           | Some True \<Rightarrow> Some (0, bps)
           | Some False \<Rightarrow> map_option (Pair 0) (INSERTION_SORT addr_cmp (bps @ [guest_addr])))"

text \<open>The entry of the shell; \<open>check_bps\<close> is set for the call at the start of an instruction.\<close>

definition enter_vmm_dbg_shell ::
  "(machine \<Rightarrow> (machine, unit) result) \<Rightarrow> bool \<Rightarrow> machine \<Rightarrow> (machine, unit) result" where
  "enter_vmm_dbg_shell shell check_bps m =
     (if check_bps then
        case is_address_breakpoint (breakpoints m) (pc (cpu m)) of
          None \<Rightarrow> Stop Host_fault
        | Some hit \<Rightarrow> if \<not> hit then Ret () m else shell m
      else shell m)"

section \<open>The table as a set\<close>

definition wf_breakpoints :: "u32 \<Rightarrow> u32 list \<Rightarrow> bool" where
  "wf_breakpoints b bps \<longleftrightarrow> length bps \<le> MAX_BREAKPOINTS \<and> distinct bps \<and>
     sorted_wrt (cmp_le addr_cmp) bps \<and> (\<forall>a\<in>set bps. in_window b a \<and> a AND 3 = 0)"

lemma addr_cmp_zero: "addr_cmp x y = Some 0 \<longleftrightarrow> x = y"
  by (simp add: addr_cmp_def key_cmp_def)

lemma is_address_breakpoint_iff:
  assumes "wf_breakpoints b bps" and "in_window b a"
  shows "is_address_breakpoint bps a = Some (a \<in> set bps)"
proof -
  have "\<exists>r. SEARCH addr_cmp bps a = Some r \<and>
     (case r of Some i \<Rightarrow> i < length bps \<and> addr_cmp a (bps ! i) = Some 0
              | None \<Rightarrow> \<forall>i<length bps. addr_cmp a (bps ! i) \<noteq> Some 0)"
    using addr_order.SEARCH_sorted [where key = "\<lambda>a. a" and b = b and base = bps and target = a] assms
    unfolding wf_breakpoints_def addr_cmp_def by (auto simp: subset_iff)
  then show ?thesis
    by (auto simp: is_address_breakpoint_def addr_cmp_zero in_set_conv_nth split: option.splits)
qed

text \<open>An address that no breakpoint has is never taken for one, whatever the order of the table.\<close>

lemma no_breakpoint:
  assumes "a \<notin> set bps"
  shows "is_address_breakpoint bps a = Some False"
proof -
  have "addr_cmp x y \<noteq> None" for x y by (simp add: addr_cmp_def key_cmp_def)
  then obtain r where r: "SEARCH addr_cmp bps a = Some r" "\<forall>i. r = Some i \<longrightarrow> i < length bps \<and> addr_cmp a (bps ! i) = Some 0"
    using SEARCH_total [of addr_cmp bps a] by blast
  then have "r = None" using assms by (cases r) (auto simp: addr_cmp_zero)
  then show ?thesis using r by (simp add: is_address_breakpoint_def)
qed

lemma enter_vmm_dbg_shell_untracked [simp]:
  "pc (cpu m) \<notin> set (breakpoints m) \<Longrightarrow> enter_vmm_dbg_shell shell True m = Ret () m"
  by (simp add: enter_vmm_dbg_shell_def no_breakpoint)

section \<open>Properties\<close>



end
