(* ===== verification/Host_Code.thy ===== *)
theory Host_Code
  imports X86 Csr Breakpoints Amo
begin

text \<open>
  The machine as the host of the translated code: the register file and the pc of the running
  hart at the addresses that \<open>vmresume\<close> puts in r15 and r14 (\<^verbatim>\<open>vmm/translation.c\<close>), and the vmm
  functions that templates call, with the calling convention of the host (System V AMD64):
  arguments in rdi, rsi, rdx, rcx and r8, of which a narrow parameter is the low part; rbx and
  r12 to r15 preserved; every other register arbitrary afterwards, also the bits of rax beyond a
  narrow result.

  Where the linker and the C compiler decide, the development has parameters, the fields of
  \<open>vmm_env\<close>: the address of the hart, the addresses of the functions, the values left in
  registers, and the interactive debug shell.
\<close>

section \<open>Callbacks of the privileged instructions (translate-privileged-instr.c)\<close>

definition ebreak_callback :: "(machine \<Rightarrow> (machine, unit) result) \<Rightarrow> machine \<Rightarrow> (machine, unit) result" where
  "ebreak_callback shell m = enter_vmm_dbg_shell shell False m"

definition sfence_vma_callback :: "hart \<Rightarrow> hart" where
  "sfence_vma_callback h =
     flush_translation_cache (h\<lparr>itlb := invalidate_tlb (itlb h), dtlb := invalidate_tlb (dtlb h)\<rparr>)"

definition wfi_callback :: "machine \<Rightarrow> (machine, unit) result" where
  "wfi_callback m = hart_idle m"

section \<open>The host environment\<close>

record vmm_env =
  hart_addr :: u64
  fn_addr :: "vmm_symbol \<Rightarrow> u64"
  fn_at :: "u64 \<Rightarrow> vmm_symbol option"
  clobber :: "vmm_symbol \<Rightarrow> machine \<Rightarrow> xreg \<Rightarrow> u64"
  dbg_shell :: "machine \<Rightarrow> (machine, unit) result"

text \<open>Distinct functions have distinct addresses.\<close>

definition wf_env :: "vmm_env \<Rightarrow> bool" where
  "wf_env E \<longleftrightarrow> (\<forall>f. fn_at E (fn_addr E f) = Some f)"

text \<open>The offsets of \<^verbatim>\<open>struct hart\<close> (\<^verbatim>\<open>vmm/hart.h\<close>): 32 registers of 4 bytes, then the pc.\<close>

definition hart_load :: "vmm_env \<Rightarrow> u64 \<Rightarrow> machine \<Rightarrow> u32 option" where
  "hart_load E a m = (let off = unat (a - hart_addr E) in
     if off mod 4 = 0 \<and> off < 128 then Some (registers (cpu m) (off div 4))
     else if off = 128 then Some (pc (cpu m)) else None)"

definition hart_store :: "vmm_env \<Rightarrow> u64 \<Rightarrow> u32 \<Rightarrow> machine \<Rightarrow> machine option" where
  "hart_store E a v m = (let off = unat (a - hart_addr E) in
     if off mod 4 = 0 \<and> off < 128 then Some (m\<lparr>cpu := set_reg (off div 4) v (cpu m)\<rparr>)
     else if off = 128 then Some (m\<lparr>cpu := (cpu m)\<lparr>pc := v\<rparr>\<rparr>) else None)"

section \<open>Calls of vmm functions\<close>

text \<open>A result of \<open>n\<close> bits leaves the rest of rax unspecified.\<close>

definition narrow_result :: "nat \<Rightarrow> u64 \<Rightarrow> u64 \<Rightarrow> u64" where
  "narrow_result n garbage v = (garbage AND NOT (mask n)) OR take_bit n v"

definition callee_saved :: "xreg \<Rightarrow> bool" where
  "callee_saved r \<longleftrightarrow> r \<in> {RBX, R12, R13, R14, R15}"

definition returned :: "vmm_env \<Rightarrow> vmm_symbol \<Rightarrow> (xreg \<Rightarrow> u64) \<Rightarrow> nat \<Rightarrow> u64 \<Rightarrow> machine \<Rightarrow> (machine, xreg \<Rightarrow> u64) result" where
  "returned E f regs n v m = Ret (\<lambda>r. if callee_saved r then regs r
     else if r = RAX then narrow_result n (clobber E f m RAX) v else clobber E f m r) m"

primrec vmm_function :: "vmm_env \<Rightarrow> vmm_symbol \<Rightarrow> (xreg \<Rightarrow> u64) \<Rightarrow> machine \<Rightarrow> (machine, nat \<times> u64) result" where
  "vmm_function E Enter_vmm_dbg_shell regs m =
     rbind (enter_vmm_dbg_shell (dbg_shell E) ((ucast (regs RSI) :: u32) \<noteq> 0) m) (\<lambda>_. Ret (0, 0))"
| "vmm_function E Mmu_read8 regs m = rbind (mmu_read8 (ucast (regs RSI)) m) (\<lambda>v. Ret (8, ucast v))"
| "vmm_function E Mmu_read16 regs m = rbind (mmu_read16 (ucast (regs RSI)) m) (\<lambda>v. Ret (16, ucast v))"
| "vmm_function E Mmu_read32 regs m = rbind (mmu_read32 (ucast (regs RSI)) m) (\<lambda>v. Ret (32, ucast v))"
| "vmm_function E Mmu_write8 regs m = rbind (mmu_write8 (ucast (regs RSI)) (ucast (regs RDX)) m) (\<lambda>_. Ret (0, 0))"
| "vmm_function E Mmu_write16 regs m = rbind (mmu_write16 (ucast (regs RSI)) (ucast (regs RDX)) m) (\<lambda>_. Ret (0, 0))"
| "vmm_function E Mmu_write32 regs m = rbind (mmu_write32 (ucast (regs RSI)) (ucast (regs RDX)) m) (\<lambda>_. Ret (0, 0))"
| "vmm_function E Flush_translation_cache regs m = Ret (0, 0) (m\<lparr>cpu := flush_translation_cache (cpu m)\<rparr>)"
| "vmm_function E Ebreak_callback regs m = rbind (ebreak_callback (dbg_shell E) m) (\<lambda>_. Ret (0, 0))"
| "vmm_function E Mret_callback regs m = rbind (on_cpu mret_callback m) (\<lambda>_. Ret (0, 0))"
| "vmm_function E Sret_callback regs m = rbind (on_cpu sret_callback m) (\<lambda>_. Ret (0, 0))"
| "vmm_function E Sfence_vma_callback regs m = Ret (0, 0) (m\<lparr>cpu := sfence_vma_callback (cpu m)\<rparr>)"
| "vmm_function E Ecall_callback regs m = rbind (on_cpu ecall_callback m :: (machine, unit) result) (\<lambda>_. Ret (0, 0))"
| "vmm_function E Wfi_callback regs m = rbind (wfi_callback m) (\<lambda>_. Ret (0, 0))"
| "vmm_function E Riscv_generic_csr_callback regs m = rbind (riscv_generic_csr_callback (regs RSI) m) (\<lambda>_. Ret (0, 0))"
| "vmm_function E Amo_instruction_slowpath regs m =
     rbind (amo_instruction_slowpath (ucast (regs RSI)) (ucast (regs RDX)) (ucast (regs RCX)) (ucast (regs R8)) m)
       (\<lambda>_. Ret (0, 0))"

text \<open>
  A call through an address that is no function, or of a function whose first argument is not
  the hart, is a fault of the host.
\<close>

definition vmm_call_at :: "vmm_env \<Rightarrow> u64 \<Rightarrow> (xreg \<Rightarrow> u64) \<Rightarrow> machine \<Rightarrow> (machine, xreg \<Rightarrow> u64) result" where
  "vmm_call_at E a regs m =
     (case fn_at E a of
        None \<Rightarrow> Stop Host_fault
      | Some f \<Rightarrow> if regs RDI \<noteq> hart_addr E then Stop Host_fault
                  else rbind (vmm_function E f regs m) (\<lambda>(n, v). returned E f regs n v))"

definition vmm_host :: "vmm_env \<Rightarrow> machine host" where
  "vmm_host E = \<lparr>load32 = hart_load E, store32 = hart_store E, symbol_addr = fn_addr E, call_vmm = vmm_call_at E\<rparr>"

text \<open>The registers that guest code relies on (the comment at the head of \<^verbatim>\<open>vmm/translation.c\<close>).\<close>

definition guest_regs :: "vmm_env \<Rightarrow> xstate \<Rightarrow> bool" where
  "guest_regs E xs \<longleftrightarrow> xr xs R15 = hart_addr E \<and> xr xs R14 = hart_addr E + 128 \<and> xr xs R12 = hart_addr E"

section \<open>Macros of translation.h\<close>

definition SAVE_GUEST_CONTEXT_SWITCH_REGS :: "xinstr list" where
  "SAVE_GUEST_CONTEXT_SWITCH_REGS = [Pushq R15, Pushq R14, Pushq R13, Pushq R12]"

definition RESTORE_GUEST_CONTEXT_SWITCH_REGS :: "xinstr list" where
  "RESTORE_GUEST_CONTEXT_SWITCH_REGS = [Popq R12, Popq R13, Popq R14, Popq R15]"

definition call_rax :: "xinstr list" where
  "call_rax = SAVE_GUEST_CONTEXT_SWITCH_REGS @ [Callq RAX] @ RESTORE_GUEST_CONTEXT_SWITCH_REGS"

definition BEGIN_TRANSLATION :: "xinstr list" where
  "BEGIN_TRANSLATION = [Movq R12 RDI, Movq_imm 1 RSI, Movq_sym Enter_vmm_dbg_shell RAX] @ call_rax"

definition PROCEED_TO_NEXT_INSTRUCTION :: "xinstr list" where
  "PROCEED_TO_NEXT_INSTRUCTION = [Addl_mem_imm 4 R14]"

definition RESET_ZERO_REGISTER :: "xinstr list" where
  "RESET_ZERO_REGISTER = [Movl_store_imm 0 R15]"

definition END_INSTRUCTION :: "xinstr list" where
  "END_INSTRUCTION = [Jmp_translation_end]"

definition TRAP_TO_VMM :: "xinstr list" where
  "TRAP_TO_VMM = [Jmp_vmm_entry_point]"

section \<open>Execution lemmas\<close>

text \<open>Symbolic execution evaluates the current instruction before the code that follows it.\<close>

lemma rbind_weak_cong: "r = r' \<Longrightarrow> rbind r f = rbind r' f"
  by simp

lemma vmm_host_sel [simp]:
  "load32 (vmm_host E) = hart_load E" "store32 (vmm_host E) = hart_store E"
  "symbol_addr (vmm_host E) = fn_addr E" "call_vmm (vmm_host E) = vmm_call_at E"
  by (simp_all add: vmm_host_def)

text \<open>A call between the save and restore sequences: the four guest registers come back.\<close>

lemma exec_call_rax [simp]:
  "exec H ps (call_rax @ is) xs s =
     rbind (call_vmm H (xr xs RAX) (xr xs) s) (\<lambda>regs s'.
       exec H ps is (xs\<lparr>flags := None, xr := regs(R12 := xr xs R12, R13 := xr xs R13, R14 := xr xs R14, R15 := xr xs R15)\<rparr>) s')"
  by (cases "call_vmm H (xr xs RAX) (xr xs) s")
    (simp_all add: call_rax_def SAVE_GUEST_CONTEXT_SWITCH_REGS_def RESTORE_GUEST_CONTEXT_SWITCH_REGS_def
      no_flags_def set64_def)

lemma exec_alignment [simp]: "hart_load E (hart_addr E) m = Some (registers (cpu m) 0)"
  "hart_load E (hart_addr E + 128) m = Some (pc (cpu m))"
  "hart_store E (hart_addr E) v m = Some (m\<lparr>cpu := set_reg 0 v (cpu m)\<rparr>)"
  "hart_store E (hart_addr E + 128) v m = Some (m\<lparr>cpu := (cpu m)\<lparr>pc := v\<rparr>\<rparr>)"
  by (simp_all add: hart_load_def hart_store_def)

text \<open>The address computation of a register access: the index times four, added to r15.\<close>

lemma register_offset:
  assumes "i < 32"
  shows "unat (ucast (push_bit 2 i :: u32) + hart_addr E - hart_addr E) = 4 * unat i"
proof -
  have "unat i < 32" using assms by (simp add: word_less_nat_alt)
  then have "unat (push_bit 2 i :: u32) = 4 * unat i" by (simp add: push_bit_eq_mult unat_word_ariths)
  then show ?thesis by (simp add: unat_ucast_u64)
qed

lemma register_access [simp]:
  assumes "i < 32"
  shows "hart_load E (ucast (push_bit 2 i :: u32) + hart_addr E) m = Some (registers (cpu m) (unat i))"
    and "hart_store E (ucast (push_bit 2 i :: u32) + hart_addr E) v m = Some (m\<lparr>cpu := set_reg (unat i) v (cpu m)\<rparr>)"
  using register_offset [OF assms, of E] assms
  by (simp_all only: hart_load_def hart_store_def Let_def) (simp_all add: word_less_nat_alt)

text \<open>
  A block of host code on the machine: from every host state with the guest registers in place it
  ends as \<open>R\<close> says, and leaves by a jump only with the guest registers and the stack as they were.
\<close>

definition exits_as :: "vmm_env \<Rightarrow> xstate \<Rightarrow> (machine, block_exit \<times> xstate) result \<Rightarrow> (machine, block_exit) result \<Rightarrow> bool" where
  "exits_as E xs r R \<longleftrightarrow> (case r of
     Ret (e, xs') m' \<Rightarrow> R = Ret e m' \<and> guest_regs E xs' \<and> stack xs' = stack xs
   | Trap m' \<Rightarrow> R = Trap m'
   | Stop e \<Rightarrow> R = Stop e)"

definition block_runs :: "vmm_env \<Rightarrow> u32 list \<Rightarrow> xinstr list \<Rightarrow> machine \<Rightarrow> (machine, block_exit) result \<Rightarrow> bool" where
  "block_runs E ps is m R \<longleftrightarrow> (\<forall>xs. guest_regs E xs \<longrightarrow> exits_as E xs (exec (vmm_host E) ps is xs m) R)"

lemma exits_as_simps [simp]:
  "exits_as E xs (Ret (e, xs') m') R \<longleftrightarrow> R = Ret e m' \<and> guest_regs E xs' \<and> stack xs' = stack xs"
  "exits_as E xs (Trap m') R \<longleftrightarrow> R = Trap m'"
  "exits_as E xs (Stop s) R \<longleftrightarrow> R = Stop s"
  by (simp_all add: exits_as_def)

lemma exits_as_stack: "stack xs = stack ys \<Longrightarrow> exits_as E xs r R = exits_as E ys r R"
  by (cases r) (auto simp: exits_as_def split: prod.split)

lemma exits_as_rbind:
  assumes "\<And>a s. r = Ret a s \<Longrightarrow> exits_as E xs (f a s) (g a s)"
  shows "exits_as E xs (rbind r f) (rbind r g)"
  using assms by (cases r) simp_all

text \<open>The call of a vmm function by its address.\<close>

lemma vmm_call [simp]:
  assumes "wf_env E" and "regs RDI = hart_addr E"
  shows "vmm_call_at E (fn_addr E f) regs m = rbind (vmm_function E f regs m) (\<lambda>(n, v). returned E f regs n v)"
  using assms by (simp add: vmm_call_at_def wf_env_def)

lemma block_runs_begin:
  assumes "wf_env E" and "pc (cpu m) \<notin> set (breakpoints m)" and "block_runs E ps is m R"
  shows "block_runs E ps (BEGIN_TRANSLATION @ is) m R"
  unfolding block_runs_def
proof (intro allI impI)
  fix xs assume g: "guest_regs E xs"
  obtain xs' where "exec (vmm_host E) ps (BEGIN_TRANSLATION @ is) xs m = exec (vmm_host E) ps is xs' m"
    "guest_regs E xs'" "stack xs' = stack xs"
    using g assms(1,2) by (simp add: BEGIN_TRANSLATION_def guest_regs_def returned_def)
  then show "exits_as E xs (exec (vmm_host E) ps (BEGIN_TRANSLATION @ is) xs m) R"
    using assms(3) exits_as_stack [of xs' xs] unfolding block_runs_def by metis
qed

end
