(* ===== verification/Isa.thy ===== *)
theory Isa
  imports Decode Csr Amo Host_Code "HOL-Library.Signed_Division"
begin

text \<open>
  The instruction set that the emulator has to implement, as a function from an instruction word
  to its effect: the RV32IM unprivileged instructions written from the ISA manual over the fields
  of the word, and the instructions of the A extension, the CSR and the privileged instructions
  by the vmm functions that carry them out (whose own properties are in the theories of those
  functions). It does not mention templates, decoding or translation.
\<close>

section \<open>Fields\<close>

definition rd_of :: "u32 \<Rightarrow> nat" where "rd_of w = unat (take_bit 5 (drop_bit 7 w))"
definition rs1_of :: "u32 \<Rightarrow> nat" where "rs1_of w = unat (take_bit 5 (drop_bit 15 w))"
definition rs2_of :: "u32 \<Rightarrow> nat" where "rs2_of w = unat (take_bit 5 (drop_bit 20 w))"
definition opcode_of :: "u32 \<Rightarrow> u32" where "opcode_of w = take_bit 7 w"
definition funct3_of :: "u32 \<Rightarrow> u32" where "funct3_of w = take_bit 3 (drop_bit 12 w)"
definition funct7_of :: "u32 \<Rightarrow> u32" where "funct7_of w = drop_bit 25 w"
definition funct12_of :: "u32 \<Rightarrow> u32" where "funct12_of w = drop_bit 20 w"

section \<open>Arithmetic\<close>

definition high_half :: "int \<Rightarrow> u32" where
  "high_half z = word_of_int (z div 2 ^ 32)"

text \<open>Division by zero and overflow have defined results.\<close>

definition isa_div :: "u32 \<Rightarrow> u32 \<Rightarrow> u32" where
  "isa_div a b = (if b = 0 then - 1 else word_of_int (sint a sdiv sint b))"

definition isa_rem :: "u32 \<Rightarrow> u32 \<Rightarrow> u32" where
  "isa_rem a b = (if b = 0 then a else word_of_int (sint a smod sint b))"

definition isa_divu :: "u32 \<Rightarrow> u32 \<Rightarrow> u32" where
  "isa_divu a b = (if b = 0 then - 1 else a div b)"

definition isa_remu :: "u32 \<Rightarrow> u32 \<Rightarrow> u32" where
  "isa_remu a b = (if b = 0 then a else a mod b)"

definition shamt :: "u32 \<Rightarrow> nat" where
  "shamt b = unat (take_bit 5 b)"

text \<open>The register-register operation of a \<open>funct7\<close> and a \<open>funct3\<close> field.\<close>

definition alu_op :: "u32 \<Rightarrow> u32 \<Rightarrow> (u32 \<Rightarrow> u32 \<Rightarrow> u32) option" where
  "alu_op f7 f3 =
     (if f7 = 0 then
        (if f3 = 0 then Some (+)
         else if f3 = 1 then Some (\<lambda>a b. push_bit (shamt b) a)
         else if f3 = 2 then Some (\<lambda>a b. of_bool (sint a < sint b))
         else if f3 = 3 then Some (\<lambda>a b. of_bool (a < b))
         else if f3 = 4 then Some (XOR)
         else if f3 = 5 then Some (\<lambda>a b. drop_bit (shamt b) a)
         else if f3 = 6 then Some (OR) else Some (AND))
      else if f7 = 0x20 then
        (if f3 = 0 then Some (-)
         else if f3 = 5 then Some (\<lambda>a b. word_of_int (drop_bit (shamt b) (sint a)))
         else None)
      else if f7 = 1 then
        (if f3 = 0 then Some (*)
         else if f3 = 1 then Some (\<lambda>a b. high_half (sint a * sint b))
         else if f3 = 2 then Some (\<lambda>a b. high_half (sint a * uint b))
         else if f3 = 3 then Some (\<lambda>a b. high_half (uint a * uint b))
         else if f3 = 4 then Some isa_div
         else if f3 = 5 then Some isa_divu
         else if f3 = 6 then Some isa_rem else Some isa_remu)
      else None)"

text \<open>
  The register-immediate operation: the operation of the same \<open>funct3\<close>, with the \<open>funct7\<close> field
  part of the immediate except for shifts; there is no subtraction.
\<close>

definition alu_imm_op :: "u32 \<Rightarrow> u32 \<Rightarrow> (u32 \<Rightarrow> u32 \<Rightarrow> u32) option" where
  "alu_imm_op f7 f3 = (if f3 = 1 \<or> f3 = 5 then (if f7 \<in> {0, 0x20} then alu_op f7 f3 else None) else alu_op 0 f3)"

definition branch_taken :: "u32 \<Rightarrow> (u32 \<Rightarrow> u32 \<Rightarrow> bool) option" where
  "branch_taken f3 =
     (if f3 = 0 then Some (=)
      else if f3 = 1 then Some (\<noteq>)
      else if f3 = 4 then Some (\<lambda>a b. sint a < sint b)
      else if f3 = 5 then Some (\<lambda>a b. sint b \<le> sint a)
      else if f3 = 6 then Some (<)
      else if f3 = 7 then Some (\<lambda>a b. b \<le> a)
      else None)"

section \<open>State changes\<close>

definition write_rd :: "nat \<Rightarrow> u32 \<Rightarrow> machine \<Rightarrow> machine" where
  "write_rd rd v m = (if rd = 0 then m else m\<lparr>cpu := set_reg rd v (cpu m)\<rparr>)"

definition goto :: "u32 \<Rightarrow> machine \<Rightarrow> machine" where
  "goto a m = m\<lparr>cpu := (cpu m)\<lparr>pc := a\<rparr>\<rparr>"

definition advance :: "machine \<Rightarrow> machine" where
  "advance m = goto (pc (cpu m) + 4) m"

definition isa_load :: "u32 \<Rightarrow> u32 \<Rightarrow> machine \<Rightarrow> (machine, u32) result option" where
  "isa_load f3 a m =
     (if f3 = 0 then Some (rbind (mmu_read8 a m) (\<lambda>v. Ret (scast v)))
      else if f3 = 1 then Some (rbind (mmu_read16 a m) (\<lambda>v. Ret (scast v)))
      else if f3 = 2 then Some (mmu_read32 a m)
      else if f3 = 4 then Some (rbind (mmu_read8 a m) (\<lambda>v. Ret (ucast v)))
      else if f3 = 5 then Some (rbind (mmu_read16 a m) (\<lambda>v. Ret (ucast v)))
      else None)"

definition isa_store :: "u32 \<Rightarrow> u32 \<Rightarrow> u32 \<Rightarrow> machine \<Rightarrow> (machine, unit) result option" where
  "isa_store f3 a v m =
     (if f3 = 0 then Some (mmu_write8 a (ucast v) m)
      else if f3 = 1 then Some (mmu_write16 a (ucast v) m)
      else if f3 = 2 then Some (mmu_write32 a v m)
      else None)"

text \<open>After an instruction whose callback writes \<open>rd\<close>, x0 reads as zero.\<close>

definition zero_x0 :: "machine \<Rightarrow> machine" where
  "zero_x0 m = m\<lparr>cpu := set_reg 0 0 (cpu m)\<rparr>"

abbreviation EXCEPTION_INSTRUCTION_ADDRESS_MISALIGN :: u8 where "EXCEPTION_INSTRUCTION_ADDRESS_MISALIGN \<equiv> 0x0"

text \<open>A jump to an address that is not a multiple of four raises an exception in place of it.\<close>

definition isa_jump :: "u32 \<Rightarrow> (machine \<Rightarrow> machine) \<Rightarrow> machine \<Rightarrow> (machine, unit) result" where
  "isa_jump target link m =
     (if target AND 3 \<noteq> 0 then raise_exception_with_tvalue EXCEPTION_INSTRUCTION_ADDRESS_MISALIGN target m
      else Ret () (goto target (link m)))"

definition isa_system :: "u32 \<Rightarrow> machine \<Rightarrow> (machine, unit) result option" where
  "isa_system w m =
     (if w = 0x00000073 then Some (rbind (on_cpu ecall_callback m) (\<lambda>_ m'. Ret () (advance m')))
      else if w = 0x30200073 then Some (on_cpu mret_callback m)
      else if w = 0x10200073 then Some (on_cpu sret_callback m)
      else if w = 0x10500073 then Some (rbind (hart_idle m) (\<lambda>_ m'. Ret () (advance m')))
      else if funct3_of w = 0 then
        (if funct7_of w = 9 \<and> rd_of w = 0 then Some (Ret () (advance (m\<lparr>cpu := sfence_vma_callback (cpu m)\<rparr>)))
         else None)
      else if funct3_of w = 4 then None
      else Some (rbind (riscv_generic_csr_callback (ucast w) m) (\<lambda>_ m'. Ret () (advance (zero_x0 m')))))"

definition isa_amo :: "u32 \<Rightarrow> machine \<Rightarrow> (machine, unit) result option" where
  "isa_amo w m = (
     let funct5 = drop_bit 2 (funct7_of w) in
     if funct3_of w = 2 \<and> funct5 \<in> {0, 1, 2, 3, 4, 8, 0xc}
     then Some (rbind (amo_instruction_slowpath (of_nat (rs1_of w)) (of_nat (rs2_of w)) (of_nat (rd_of w)) funct5 m)
       (\<lambda>_ m'. Ret () (advance (zero_x0 m'))))
     else None)"

section \<open>Instructions\<close>

text \<open>\<open>None\<close> stands for a word that is not an instruction of this set.\<close>

definition isa_step :: "u32 \<Rightarrow> machine \<Rightarrow> (machine, unit) result option" where
  "isa_step w m = (
     let a = registers (cpu m) (rs1_of w); b = registers (cpu m) (rs2_of w); here = pc (cpu m);
         opc = opcode_of w; f3 = funct3_of w; f7 = funct7_of w; rd = rd_of w in
     if opc = 0x37 then Some (Ret () (advance (write_rd rd (imm_U w) m)))
     else if opc = 0x17 then Some (Ret () (advance (write_rd rd (here + imm_U w) m)))
     else if opc = 0x6f then Some (isa_jump (here + imm_J w) (write_rd rd (here + 4)) m)
     else if opc = 0x67 then
       (if f3 = 0 then Some (isa_jump ((a + imm_I w) AND NOT 1) (write_rd rd (here + 4)) m) else None)
     else if opc = 0x63 then
       map_option (\<lambda>taken. if taken a b then isa_jump (here + imm_B w) id m else Ret () (advance m)) (branch_taken f3)
     else if opc = 0x03 then
       map_option (\<lambda>r. rbind r (\<lambda>v m'. Ret () (advance (write_rd rd v m')))) (isa_load f3 (a + imm_I w) m)
     else if opc = 0x23 then
       map_option (\<lambda>r. rbind r (\<lambda>_ m'. Ret () (advance m'))) (isa_store f3 (a + imm_S w) b m)
     else if opc = 0x13 then map_option (\<lambda>f. Ret () (advance (write_rd rd (f a (imm_I w)) m))) (alu_imm_op f7 f3)
     else if opc = 0x33 then map_option (\<lambda>f. Ret () (advance (write_rd rd (f a b) m))) (alu_op f7 f3)
     else if opc = 0x0f then
       (if f3 = 0 then Some (Ret () (advance m))
        else if f3 = 1 then Some (Ret () (advance (m\<lparr>cpu := flush_translation_cache (cpu m)\<rparr>)))
        else None)
     else if opc = 0x73 then isa_system w m
     else if opc = 0x2f then isa_amo w m
     else None)"

section \<open>Host arithmetic\<close>

text \<open>The host's wide multiplication and division compute the operations of the M extension.\<close>

lemma high_half_word: "ucast (drop_bit 32 (word_of_int z :: u64)) = high_half z"
proof (rule bit_word_eqI)
  fix n assume "n < LENGTH(32)"
  then show "bit (ucast (drop_bit 32 (word_of_int z :: u64)) :: u32) n = bit (high_half z) n"
    unfolding high_half_def drop_bit_eq_div [symmetric] by (simp add: bit_simps)
qed

lemma high_half_products:
  "ucast (drop_bit 32 (scast a * scast b :: u64)) = high_half (sint a * sint b)"
  "ucast (drop_bit 32 (scast a * ucast b :: u64)) = high_half (sint a * uint b)"
  "ucast (drop_bit 32 (ucast a * ucast b :: u64)) = high_half (uint a * uint b)" for a b :: u32
proof -
  have s: "(scast w :: u64) = word_of_int (sint w)" "(ucast w :: u64) = word_of_int (uint w)" for w :: u32
    by (simp_all)
  show "ucast (drop_bit 32 (scast a * scast b :: u64)) = high_half (sint a * sint b)"
    "ucast (drop_bit 32 (scast a * ucast b :: u64)) = high_half (sint a * uint b)"
    "ucast (drop_bit 32 (ucast a * ucast b :: u64)) = high_half (uint a * uint b)"
    unfolding s high_half_word [symmetric] by simp_all
qed

lemma low_half_product: "ucast (scast a * scast b :: u64) = a * b" for a b :: u32
proof -
  have "take_bit 32 (signed_take_bit 31 x * signed_take_bit 31 y) = take_bit 32 (x * y)" for x y :: int
    using take_bit_mult [of 32 "signed_take_bit 31 x" "signed_take_bit 31 y"] take_bit_mult [of 32 x y]
    by (simp add: take_bit_signed_take_bit)
  then show ?thesis by transfer simp
qed

text \<open>The dividend that the signed templates build in edx:eax.\<close>

lemma signed_dividend: "2 ^ 32 * sint (ucast (drop_bit 32 (scast a :: u64)) :: u32) + uint a = sint a" for a :: u32
proof -
  have "(ucast (drop_bit 32 (scast a :: u64)) :: u32) = (if bit a 31 then - 1 else 0)"
    by (rule bit_word_eqI) (auto simp: bit_simps min_def)
  then show ?thesis by (simp add: sint_u32_sign [of a])
qed

lemma truncated_division:
  fixes n d :: int
  assumes "d \<noteq> 0"
  shows "(if (n < 0) = (d < 0) then \<bar>n\<bar> div \<bar>d\<bar> else - (\<bar>n\<bar> div \<bar>d\<bar>)) = n sdiv d"
  using assms by (auto simp: signed_divide_int_def sgn_if)

lemma quotient_range_int:
  fixes x y :: int
  assumes "- (2 ^ 31) \<le> x" and "x < 2 ^ 31" and "y \<noteq> 0"
  shows "x sdiv y < - (2 ^ 31) \<or> 2 ^ 31 \<le> x sdiv y \<longleftrightarrow> x = - (2 ^ 31) \<and> y = - 1"
proof (cases "\<bar>y\<bar> = 1")
  case True
  then have "y = 1 \<or> y = - 1" by linarith
  then show ?thesis using assms by (auto simp: signed_divide_int_def sgn_if)
next
  case False
  then have "2 \<le> \<bar>y\<bar>" using assms(3) by linarith
  then have "\<bar>x\<bar> div \<bar>y\<bar> \<le> \<bar>x\<bar> div 2" by (intro zdiv_mono2) simp_all
  also have "\<dots> \<le> 2 ^ 30" using assms(1,2) by auto
  finally have "\<bar>x\<bar> div \<bar>y\<bar> \<le> 2 ^ 30" .
  moreover have "0 \<le> \<bar>x\<bar> div \<bar>y\<bar>" using assms(3) by (simp add: pos_imp_zdiv_nonneg_iff)
  ultimately have "\<bar>x sdiv y\<bar> \<le> 2 ^ 30" by (auto simp: signed_divide_int_def sgn_if)
  then show ?thesis using False by auto
qed

lemma quotient_range:
  fixes a b :: u32
  assumes "b \<noteq> 0"
  shows "sint a sdiv sint b < - (2 ^ 31) \<or> 2 ^ 31 \<le> sint a sdiv sint b \<longleftrightarrow> a = 0x80000000 \<and> b = - 1"
proof -
  have "sint a = - (2 ^ 31) \<longleftrightarrow> a = 0x80000000" "sint b = - 1 \<longleftrightarrow> b = - 1"
    using signed_word_eqI [of a "0x80000000"] signed_word_eqI [of b "- 1"] by auto
  moreover have "- (2 ^ 31) \<le> sint a" "sint a < 2 ^ 31" using sint_ge [of a] sint_lt [of a] by simp_all
  moreover have "sint b \<noteq> 0" using assms by (simp add: signed_eq_0_iff)
  ultimately show ?thesis using quotient_range_int [of "sint a" "sint b"] by blast
qed

lemma idiv32_isa:
  "idiv32 (ucast (drop_bit 32 (scast a :: u64))) a b =
     (if b = 0 \<or> a = 0x80000000 \<and> b = - 1 then None else Some (isa_div a b, isa_rem a b))"
proof (cases "b = 0")
  case False
  then have nz: "sint b \<noteq> 0" by (simp add: signed_eq_0_iff)
  show ?thesis
    unfolding idiv32_def Let_def signed_dividend truncated_division [OF nz] minus_sdiv_mult_eq_smod
    using quotient_range [OF False, of a] False by (auto simp: isa_div_def isa_rem_def)
qed (simp add: idiv32_def)

lemma div32_isa: "div32 0 a b = (if b = 0 then None else Some (isa_divu a b, isa_remu a b))"
proof (cases "b = 0")
  case False
  have "uint a div uint b \<le> uint a" using div_le_dividend [of "unat a" "unat b"]
    by (simp add: uint_nat of_nat_div [symmetric] del: of_nat_unat)
  moreover have "uint a < 2 ^ 32" using uint_bounded [of a] by simp
  ultimately show ?thesis using False
    by (auto simp: div32_def Let_def isa_divu_def isa_remu_def word_div_def word_mod_def)
qed (simp add: div32_def)

end
