(* ===== verification/Templates.thy ===== *)
theory Templates
  imports Isa
begin

text \<open>
  The code templates that the translators copy into the translation cache, one list of host
  instructions per template, transcribed line by line from the inline assembly between
  \<open>BEGIN_TRANSLATION\<close> and \<open>END_TRANSLATION\<close>; the words of the parameter schema are the argument
  \<open>ps\<close> of \<open>exec\<close>. Then, for every template, what executing it does.
\<close>

section \<open>Templates\<close>

subsection \<open>\<^verbatim>\<open>vmm/translation.c\<close>\<close>

definition lui_instruction :: "xinstr list" where
  "lui_instruction =
     BEGIN_TRANSLATION @
     [Movl_param 0 RAX, Movl_param 1 RDX, Shll_imm 12 RAX, Shll_imm 2 RDX, Addq R15 RDX, Movl_store RAX RDX] @
     RESET_ZERO_REGISTER @ PROCEED_TO_NEXT_INSTRUCTION @ END_INSTRUCTION"

definition auipc_instruction :: "xinstr list" where
  "auipc_instruction =
     BEGIN_TRANSLATION @
     [Movl_param 1 RDX, Shll_imm 2 RDX, Addq R15 RDX, Movl_param 0 RAX, Shll_imm 12 RAX, Movl_param 2 RCX,
      Addl RCX RAX, Movl_store RAX RDX] @ RESET_ZERO_REGISTER @ PROCEED_TO_NEXT_INSTRUCTION @
     END_INSTRUCTION"

subsection \<open>\<^verbatim>\<open>vmm/translate_unconditional_jump_intrs.c\<close>\<close>

definition jal_instruction_without_target :: "xinstr list" where
  "jal_instruction_without_target =
     BEGIN_TRANSLATION @
     [Movl_param 0 RDX, Shll_imm 2 RDX, Addq R15 RDX, Movl_param 1 RAX, Movl_store RAX RDX, Movl_param 2 RAX,
      Movl_store RAX R14] @ RESET_ZERO_REGISTER @ TRAP_TO_VMM"

definition jalr_instruction :: "xinstr list" where
  "jalr_instruction =
     BEGIN_TRANSLATION @
     [Movl_param 2 RDX, Shll_imm 2 RDX, Addq R15 RDX, Movl_load RDX RBX, Movl_param 3 RAX, Addl RAX RBX,
      Btrl_imm 0 RBX, Movl_param 0 RDX, Shll_imm 2 RDX, Addq R15 RDX, Movl_param 1 RAX, Movl_store RAX RDX,
      Movl_store RBX R14] @ RESET_ZERO_REGISTER @ TRAP_TO_VMM"

subsection \<open>\<^verbatim>\<open>vmm/translate_branch.c\<close>\<close>

definition beq_instruction :: "xinstr list" where
  "beq_instruction =
     BEGIN_TRANSLATION @
     [Movl_param 0 RDX, Shll_imm 2 RDX, Addq R15 RDX, Movl_load RDX RSI, Movl_param 1 RDX, Shll_imm 2 RDX,
      Addq R15 RDX, Movl_load RDX RDI, Movl_load R14 RDX, Addl_imm 0x4 RDX, Cmpl RSI RDI, Jcc CC_NE 1,
      Movl_param 2 RDX, Label 1, Movl_store RDX R14] @ TRAP_TO_VMM"

definition bne_instruction :: "xinstr list" where
  "bne_instruction =
     BEGIN_TRANSLATION @
     [Movl_param 0 RDX, Shll_imm 2 RDX, Addq R15 RDX, Movl_load RDX RSI, Movl_param 1 RDX, Shll_imm 2 RDX,
      Addq R15 RDX, Movl_load RDX RDI, Movl_load R14 RDX, Addl_imm 0x4 RDX, Cmpl RSI RDI, Jcc CC_E 1,
      Movl_param 2 RDX, Label 1, Movl_store RDX R14] @ TRAP_TO_VMM"

definition blt_instruction :: "xinstr list" where
  "blt_instruction =
     BEGIN_TRANSLATION @
     [Movl_param 0 RDX, Shll_imm 2 RDX, Addq R15 RDX, Movl_load RDX RSI, Movl_param 1 RDX, Shll_imm 2 RDX,
      Addq R15 RDX, Movl_load RDX RDI, Movl_load R14 RDX, Addl_imm 0x4 RDX, Cmpl RDI RSI, Jcc CC_GE 1,
      Movl_param 2 RDX, Label 1, Movl_store RDX R14] @ TRAP_TO_VMM"

definition bltu_instruction :: "xinstr list" where
  "bltu_instruction =
     BEGIN_TRANSLATION @
     [Movl_param 0 RDX, Shll_imm 2 RDX, Addq R15 RDX, Movl_load RDX RSI, Movl_param 1 RDX, Shll_imm 2 RDX,
      Addq R15 RDX, Movl_load RDX RDI, Movl_load R14 RDX, Addl_imm 0x4 RDX, Cmpl RDI RSI, Jcc CC_AE 1,
      Movl_param 2 RDX, Label 1, Movl_store RDX R14] @ TRAP_TO_VMM"

definition bge_instruction :: "xinstr list" where
  "bge_instruction =
     BEGIN_TRANSLATION @
     [Movl_param 0 RDX, Shll_imm 2 RDX, Addq R15 RDX, Movl_load RDX RSI, Movl_param 1 RDX, Shll_imm 2 RDX,
      Addq R15 RDX, Movl_load RDX RDI, Movl_load R14 RDX, Addl_imm 0x4 RDX, Cmpl RDI RSI, Jcc CC_L 1,
      Movl_param 2 RDX, Label 1, Movl_store RDX R14] @ TRAP_TO_VMM"

definition bgeu_instruction :: "xinstr list" where
  "bgeu_instruction =
     BEGIN_TRANSLATION @
     [Movl_param 0 RDX, Shll_imm 2 RDX, Addq R15 RDX, Movl_load RDX RSI, Movl_param 1 RDX, Shll_imm 2 RDX,
      Addq R15 RDX, Movl_load RDX RDI, Movl_load R14 RDX, Addl_imm 0x4 RDX, Cmpl RDI RSI, Jcc CC_B 1,
      Movl_param 2 RDX, Label 1, Movl_store RDX R14] @ TRAP_TO_VMM"

subsection \<open>\<^verbatim>\<open>vmm/translate_memory_load.c\<close>\<close>

definition lb_instruction :: "xinstr list" where
  "lb_instruction =
     BEGIN_TRANSLATION @
     [Movl_param 1 RDX, Shll_imm 2 RDX, Addq R15 RDX, Movl_load RDX RSI, Movl_param 0 RDX, Addl RDX RSI,
      Movq R12 RDI, Movq_sym Mmu_read8 RAX] @ call_rax @
     [Movl_param 2 RDX, Shll_imm 2 RDX, Addq R15 RDX, Movsbl RAX RAX, Movl_store RAX RDX] @
     RESET_ZERO_REGISTER @ PROCEED_TO_NEXT_INSTRUCTION @ END_INSTRUCTION"

definition lbu_instruction :: "xinstr list" where
  "lbu_instruction =
     BEGIN_TRANSLATION @
     [Movl_param 1 RDX, Shll_imm 2 RDX, Addq R15 RDX, Movl_load RDX RSI, Movl_param 0 RDX, Addl RDX RSI,
      Movq R12 RDI, Movq_sym Mmu_read8 RAX] @ call_rax @
     [Movl_param 2 RDX, Shll_imm 2 RDX, Addq R15 RDX, Movzbl RAX RAX, Movl_store RAX RDX] @
     RESET_ZERO_REGISTER @ PROCEED_TO_NEXT_INSTRUCTION @ END_INSTRUCTION"

definition lh_instruction :: "xinstr list" where
  "lh_instruction =
     BEGIN_TRANSLATION @
     [Movl_param 1 RDX, Shll_imm 2 RDX, Addq R15 RDX, Movl_load RDX RSI, Movl_param 0 RDX, Addl RDX RSI,
      Movq R12 RDI, Movq_sym Mmu_read16 RAX] @ call_rax @
     [Movl_param 2 RDX, Shll_imm 2 RDX, Addq R15 RDX, Movswl RAX RAX, Movl_store RAX RDX] @
     RESET_ZERO_REGISTER @ PROCEED_TO_NEXT_INSTRUCTION @ END_INSTRUCTION"

definition lhu_instruction :: "xinstr list" where
  "lhu_instruction =
     BEGIN_TRANSLATION @
     [Movl_param 1 RDX, Shll_imm 2 RDX, Addq R15 RDX, Movl_load RDX RSI, Movl_param 0 RDX, Addl RDX RSI,
      Movq R12 RDI, Movq_sym Mmu_read16 RAX] @ call_rax @
     [Movl_param 2 RDX, Shll_imm 2 RDX, Addq R15 RDX, Movzwl RAX RAX, Movl_store RAX RDX] @
     RESET_ZERO_REGISTER @ PROCEED_TO_NEXT_INSTRUCTION @ END_INSTRUCTION"

definition lw_instruction :: "xinstr list" where
  "lw_instruction =
     BEGIN_TRANSLATION @
     [Movl_param 1 RDX, Shll_imm 2 RDX, Addq R15 RDX, Movl_load RDX RSI, Movl_param 0 RDX, Addl RDX RSI,
      Movq R12 RDI, Movq_sym Mmu_read32 RAX] @ call_rax @
     [Movl_param 2 RDX, Shll_imm 2 RDX, Addq R15 RDX, Movl_store RAX RDX] @ RESET_ZERO_REGISTER @
     PROCEED_TO_NEXT_INSTRUCTION @ END_INSTRUCTION"

subsection \<open>\<^verbatim>\<open>vmm/translate_memory_store.c\<close>\<close>

definition sb_instruction :: "xinstr list" where
  "sb_instruction =
     BEGIN_TRANSLATION @
     [Movl_param 1 RDX, Shll_imm 2 RDX, Addq R15 RDX, Movl_load RDX RSI, Movl_param 0 RDX, Addl RDX RSI,
      Movl_param 2 RDX, Shll_imm 2 RDX, Addq R15 RDX, Movl_load RDX RDX, Andl_imm 0xff RDX, Movq R12 RDI,
      Movq_sym Mmu_write8 RAX] @ call_rax @ PROCEED_TO_NEXT_INSTRUCTION @ END_INSTRUCTION"

definition sh_instruction :: "xinstr list" where
  "sh_instruction =
     BEGIN_TRANSLATION @
     [Movl_param 1 RDX, Shll_imm 2 RDX, Addq R15 RDX, Movl_load RDX RSI, Movl_param 0 RDX, Addl RDX RSI,
      Movl_param 2 RDX, Shll_imm 2 RDX, Addq R15 RDX, Movl_load RDX RDX, Andl_imm 0xffff RDX, Movq R12 RDI,
      Movq_sym Mmu_write16 RAX] @ call_rax @ PROCEED_TO_NEXT_INSTRUCTION @ END_INSTRUCTION"

definition sw_instruction :: "xinstr list" where
  "sw_instruction =
     BEGIN_TRANSLATION @
     [Movl_param 1 RDX, Shll_imm 2 RDX, Addq R15 RDX, Movl_load RDX RSI, Movl_param 0 RDX, Addl RDX RSI,
      Movl_param 2 RDX, Shll_imm 2 RDX, Addq R15 RDX, Movl_load RDX RDX, Movq R12 RDI,
      Movq_sym Mmu_write32 RAX] @ call_rax @ PROCEED_TO_NEXT_INSTRUCTION @ END_INSTRUCTION"

subsection \<open>\<^verbatim>\<open>vmm/translate_arithmetic_immediate.c\<close>\<close>

definition addi_instruction :: "xinstr list" where
  "addi_instruction =
     BEGIN_TRANSLATION @
     [Movl_param 1 RDX, Shll_imm 2 RDX, Addq R15 RDX, Movl_load RDX RAX, Movl_param 0 RDX, Addl RDX RAX,
      Movl_param 2 RDX, Shll_imm 2 RDX, Addq R15 RDX, Movl_store RAX RDX] @ RESET_ZERO_REGISTER @
     PROCEED_TO_NEXT_INSTRUCTION @ END_INSTRUCTION"

definition stli_instruction :: "xinstr list" where
  "stli_instruction =
     BEGIN_TRANSLATION @
     [Xorl RCX RCX, Movl_param 1 RDX, Shll_imm 2 RDX, Addq R15 RDX, Movl_load RDX RAX, Cmpl_param 0 RAX,
      Set_cc CC_L RCX, Movzbl RCX RCX, Movl_param 2 RDX, Shll_imm 2 RDX, Addq R15 RDX, Movl_store RCX RDX] @
     RESET_ZERO_REGISTER @ PROCEED_TO_NEXT_INSTRUCTION @ END_INSTRUCTION"

definition stliu_instruction :: "xinstr list" where
  "stliu_instruction =
     BEGIN_TRANSLATION @
     [Xorl RCX RCX, Movl_param 1 RDX, Shll_imm 2 RDX, Addq R15 RDX, Movl_load RDX RAX, Cmpl_param 0 RAX,
      Set_cc CC_B RCX, Movzbl RCX RCX, Movl_param 2 RDX, Shll_imm 2 RDX, Addq R15 RDX, Movl_store RCX RDX] @
     RESET_ZERO_REGISTER @ PROCEED_TO_NEXT_INSTRUCTION @ END_INSTRUCTION"

definition xori_instruction :: "xinstr list" where
  "xori_instruction =
     BEGIN_TRANSLATION @
     [Xorl RCX RCX, Movl_param 1 RDX, Shll_imm 2 RDX, Addq R15 RDX, Movl_load RDX RAX, Movl_param 0 RDX,
      Xorl RDX RAX, Movl_param 2 RDX, Shll_imm 2 RDX, Addq R15 RDX, Movl_store RAX RDX] @
     RESET_ZERO_REGISTER @ PROCEED_TO_NEXT_INSTRUCTION @ END_INSTRUCTION"

definition ori_instruction :: "xinstr list" where
  "ori_instruction =
     BEGIN_TRANSLATION @
     [Xorl RCX RCX, Movl_param 1 RDX, Shll_imm 2 RDX, Addq R15 RDX, Movl_load RDX RAX, Movl_param 0 RDX,
      Orl RDX RAX, Movl_param 2 RDX, Shll_imm 2 RDX, Addq R15 RDX, Movl_store RAX RDX] @
     RESET_ZERO_REGISTER @ PROCEED_TO_NEXT_INSTRUCTION @ END_INSTRUCTION"

definition andi_instruction :: "xinstr list" where
  "andi_instruction =
     BEGIN_TRANSLATION @
     [Xorl RCX RCX, Movl_param 1 RDX, Shll_imm 2 RDX, Addq R15 RDX, Movl_load RDX RAX, Movl_param 0 RDX,
      Andl RDX RAX, Movl_param 2 RDX, Shll_imm 2 RDX, Addq R15 RDX, Movl_store RAX RDX] @
     RESET_ZERO_REGISTER @ PROCEED_TO_NEXT_INSTRUCTION @ END_INSTRUCTION"

definition slli_instruction :: "xinstr list" where
  "slli_instruction =
     BEGIN_TRANSLATION @
     [Xorl RCX RCX, Movl_param 1 RDX, Shll_imm 2 RDX, Addq R15 RDX, Movl_load RDX RAX, Movl_param 0 RCX,
      Andl_imm 0x1f RCX, Shll_cl RAX, Movl_param 2 RDX, Shll_imm 2 RDX, Addq R15 RDX, Movl_store RAX RDX] @
     RESET_ZERO_REGISTER @ PROCEED_TO_NEXT_INSTRUCTION @ END_INSTRUCTION"

definition srli_instruction :: "xinstr list" where
  "srli_instruction =
     BEGIN_TRANSLATION @
     [Xorl RCX RCX, Movl_param 1 RDX, Shll_imm 2 RDX, Addq R15 RDX, Movl_load RDX RAX, Movl_param 0 RCX,
      Andl_imm 0x1f RCX, Shrl_cl RAX, Movl_param 2 RDX, Shll_imm 2 RDX, Addq R15 RDX, Movl_store RAX RDX] @
     RESET_ZERO_REGISTER @ PROCEED_TO_NEXT_INSTRUCTION @ END_INSTRUCTION"

definition srai_instruction :: "xinstr list" where
  "srai_instruction =
     BEGIN_TRANSLATION @
     [Xorl RCX RCX, Movl_param 1 RDX, Shll_imm 2 RDX, Addq R15 RDX, Movl_load RDX RAX, Movl_param 0 RCX,
      Andl_imm 0x1f RCX, Sarl_cl RAX, Movl_param 2 RDX, Shll_imm 2 RDX, Addq R15 RDX, Movl_store RAX RDX] @
     RESET_ZERO_REGISTER @ PROCEED_TO_NEXT_INSTRUCTION @ END_INSTRUCTION"

subsection \<open>\<^verbatim>\<open>vmm/translate_arithmetic.c\<close>\<close>

definition add_instruction :: "xinstr list" where
  "add_instruction =
     BEGIN_TRANSLATION @
     [Movl_param 0 RDX, Shll_imm 2 RDX, Addq R15 RDX, Movl_load RDX RSI, Movl_param 1 RDX, Shll_imm 2 RDX,
      Addq R15 RDX, Movl_load RDX RAX, Addl RSI RAX, Movl_param 2 RDX, Shll_imm 2 RDX, Addq R15 RDX,
      Movl_store RAX RDX] @ RESET_ZERO_REGISTER @ PROCEED_TO_NEXT_INSTRUCTION @ END_INSTRUCTION"

definition sub_instruction :: "xinstr list" where
  "sub_instruction =
     BEGIN_TRANSLATION @
     [Movl_param 0 RDX, Shll_imm 2 RDX, Addq R15 RDX, Movl_load RDX RAX, Movl_param 1 RDX, Shll_imm 2 RDX,
      Addq R15 RDX, Movl_load RDX RSI, Subl RSI RAX, Movl_param 2 RDX, Shll_imm 2 RDX, Addq R15 RDX,
      Movl_store RAX RDX] @ RESET_ZERO_REGISTER @ PROCEED_TO_NEXT_INSTRUCTION @ END_INSTRUCTION"

definition and_instruction :: "xinstr list" where
  "and_instruction =
     BEGIN_TRANSLATION @
     [Movl_param 0 RDX, Shll_imm 2 RDX, Addq R15 RDX, Movl_load RDX RSI, Movl_param 1 RDX, Shll_imm 2 RDX,
      Addq R15 RDX, Movl_load RDX RAX, Andl RSI RAX, Movl_param 2 RDX, Shll_imm 2 RDX, Addq R15 RDX,
      Movl_store RAX RDX] @ RESET_ZERO_REGISTER @ PROCEED_TO_NEXT_INSTRUCTION @ END_INSTRUCTION"

definition or_instruction :: "xinstr list" where
  "or_instruction =
     BEGIN_TRANSLATION @
     [Movl_param 0 RDX, Shll_imm 2 RDX, Addq R15 RDX, Movl_load RDX RSI, Movl_param 1 RDX, Shll_imm 2 RDX,
      Addq R15 RDX, Movl_load RDX RAX, Orl RSI RAX, Movl_param 2 RDX, Shll_imm 2 RDX, Addq R15 RDX,
      Movl_store RAX RDX] @ RESET_ZERO_REGISTER @ PROCEED_TO_NEXT_INSTRUCTION @ END_INSTRUCTION"

definition xor_instruction :: "xinstr list" where
  "xor_instruction =
     BEGIN_TRANSLATION @
     [Movl_param 0 RDX, Shll_imm 2 RDX, Addq R15 RDX, Movl_load RDX RSI, Movl_param 1 RDX, Shll_imm 2 RDX,
      Addq R15 RDX, Movl_load RDX RAX, Xorl RSI RAX, Movl_param 2 RDX, Shll_imm 2 RDX, Addq R15 RDX,
      Movl_store RAX RDX] @ RESET_ZERO_REGISTER @ PROCEED_TO_NEXT_INSTRUCTION @ END_INSTRUCTION"

definition slt_instruction :: "xinstr list" where
  "slt_instruction =
     BEGIN_TRANSLATION @
     [Xorl RCX RCX, Movl_param 0 RDX, Shll_imm 2 RDX, Addq R15 RDX, Movl_load RDX RSI, Movl_param 1 RDX,
      Shll_imm 2 RDX, Addq R15 RDX, Movl_load RDX RDI, Cmpl RDI RSI, Set_cc CC_L RCX, Movzbl RCX RCX,
      Movl_param 2 RDX, Shll_imm 2 RDX, Addq R15 RDX, Movl_store RCX RDX] @ RESET_ZERO_REGISTER @
     PROCEED_TO_NEXT_INSTRUCTION @ END_INSTRUCTION"

definition sltu_instruction :: "xinstr list" where
  "sltu_instruction =
     BEGIN_TRANSLATION @
     [Xorl RCX RCX, Movl_param 0 RDX, Shll_imm 2 RDX, Addq R15 RDX, Movl_load RDX RSI, Movl_param 1 RDX,
      Shll_imm 2 RDX, Addq R15 RDX, Movl_load RDX RDI, Cmpl RDI RSI, Set_cc CC_B RCX, Movzbl RCX RCX,
      Movl_param 2 RDX, Shll_imm 2 RDX, Addq R15 RDX, Movl_store RCX RDX] @ RESET_ZERO_REGISTER @
     PROCEED_TO_NEXT_INSTRUCTION @ END_INSTRUCTION"

definition sll_instruction :: "xinstr list" where
  "sll_instruction =
     BEGIN_TRANSLATION @
     [Movl_param 0 RDX, Shll_imm 2 RDX, Addq R15 RDX, Movl_load RDX RAX, Movl_param 1 RDX, Shll_imm 2 RDX,
      Addq R15 RDX, Movl_load RDX RCX, Andl_imm 0x1f RCX, Shll_cl RAX, Movl_param 2 RDX, Shll_imm 2 RDX,
      Addq R15 RDX, Movl_store RAX RDX] @ RESET_ZERO_REGISTER @ PROCEED_TO_NEXT_INSTRUCTION @
     END_INSTRUCTION"

definition srl_instruction :: "xinstr list" where
  "srl_instruction =
     BEGIN_TRANSLATION @
     [Movl_param 0 RDX, Shll_imm 2 RDX, Addq R15 RDX, Movl_load RDX RAX, Movl_param 1 RDX, Shll_imm 2 RDX,
      Addq R15 RDX, Movl_load RDX RCX, Andl_imm 0x1f RCX, Shrl_cl RAX, Movl_param 2 RDX, Shll_imm 2 RDX,
      Addq R15 RDX, Movl_store RAX RDX] @ RESET_ZERO_REGISTER @ PROCEED_TO_NEXT_INSTRUCTION @
     END_INSTRUCTION"

definition sra_instruction :: "xinstr list" where
  "sra_instruction =
     BEGIN_TRANSLATION @
     [Movl_param 0 RDX, Shll_imm 2 RDX, Addq R15 RDX, Movl_load RDX RAX, Movl_param 1 RDX, Shll_imm 2 RDX,
      Addq R15 RDX, Movl_load RDX RCX, Andl_imm 0x1f RCX, Sarl_cl RAX, Movl_param 2 RDX, Shll_imm 2 RDX,
      Addq R15 RDX, Movl_store RAX RDX] @ RESET_ZERO_REGISTER @ PROCEED_TO_NEXT_INSTRUCTION @
     END_INSTRUCTION"

subsection \<open>\<^verbatim>\<open>vmm/translate_multiplication_and_division.c\<close>\<close>

definition mul_instruction :: "xinstr list" where
  "mul_instruction =
     BEGIN_TRANSLATION @
     [Movl_param 0 RSI, Shll_imm 2 RSI, Addq R15 RSI, Movl_load RSI RDX, Movl_param 1 RSI, Shll_imm 2 RSI,
      Addq R15 RSI, Movl_load RSI RAX, Imull RDX, Movl_param 2 RDI, Shll_imm 2 RDI, Addq R15 RDI,
      Movl_store RAX RDI] @ RESET_ZERO_REGISTER @ PROCEED_TO_NEXT_INSTRUCTION @ END_INSTRUCTION"

definition mulh_instruction :: "xinstr list" where
  "mulh_instruction =
     BEGIN_TRANSLATION @
     [Movl_param 0 RSI, Shll_imm 2 RSI, Addq R15 RSI, Movl_load RSI RDX, Movl_param 1 RSI, Shll_imm 2 RSI,
      Addq R15 RSI, Movl_load RSI RAX, Imull RDX, Movl_param 2 RDI, Shll_imm 2 RDI, Addq R15 RDI,
      Movl_store RDX RDI] @ RESET_ZERO_REGISTER @ PROCEED_TO_NEXT_INSTRUCTION @ END_INSTRUCTION"

definition mulhu_instruction :: "xinstr list" where
  "mulhu_instruction =
     BEGIN_TRANSLATION @
     [Movl_param 0 RSI, Shll_imm 2 RSI, Addq R15 RSI, Movl_load RSI RDX, Movl_param 1 RSI, Shll_imm 2 RSI,
      Addq R15 RSI, Movl_load RSI RAX, Mull RDX, Movl_param 2 RDI, Shll_imm 2 RDI, Addq R15 RDI,
      Movl_store RDX RDI] @ RESET_ZERO_REGISTER @ PROCEED_TO_NEXT_INSTRUCTION @ END_INSTRUCTION"

definition mulhsu_instruction :: "xinstr list" where
  "mulhsu_instruction =
     BEGIN_TRANSLATION @
     [Movl_param 0 RSI, Shll_imm 2 RSI, Addq R15 RSI, Movl_load RSI RAX, Movsxd RAX RAX, Movl_param 1 RSI,
      Shll_imm 2 RSI, Addq R15 RSI, Movl_load RSI RDX, Imulq RDX, Shrq_imm 32 RAX, Movl_param 2 RDI,
      Shll_imm 2 RDI, Addq R15 RDI, Movl_store RAX RDI] @ RESET_ZERO_REGISTER @ PROCEED_TO_NEXT_INSTRUCTION @
     END_INSTRUCTION"

definition div_instruction :: "xinstr list" where
  "div_instruction =
     BEGIN_TRANSLATION @
     [Movl_param 0 RSI, Shll_imm 2 RSI, Addq R15 RSI, Movl_load RSI RAX, Movsxd RAX RDX, Shrq_imm 32 RDX,
      Movl_param 1 RSI, Shll_imm 2 RSI, Addq R15 RSI, Movl_load RSI RBX, Movl RBX R8, Cmpl_imm 0x0 R8,
      Jcc CC_NE 1, Movl_imm 0xffffffff RAX, Jmp 2, Label 1, Idivl RBX, Label 2, Movl_param 2 RDI,
      Shll_imm 2 RDI, Addq R15 RDI, Movl_store RAX RDI] @ RESET_ZERO_REGISTER @ PROCEED_TO_NEXT_INSTRUCTION @
     END_INSTRUCTION"

definition rem_instruction :: "xinstr list" where
  "rem_instruction =
     BEGIN_TRANSLATION @
     [Movl_param 0 RSI, Shll_imm 2 RSI, Addq R15 RSI, Movl_load RSI RAX, Movsxd RAX RDX, Shrq_imm 32 RDX,
      Movl_param 1 RSI, Shll_imm 2 RSI, Addq R15 RSI, Movl_load RSI RBX, Idivl RBX, Movl_param 2 RDI,
      Shll_imm 2 RDI, Addq R15 RDI, Movl_store RDX RDI] @ RESET_ZERO_REGISTER @ PROCEED_TO_NEXT_INSTRUCTION @
     END_INSTRUCTION"

definition divu_instruction :: "xinstr list" where
  "divu_instruction =
     BEGIN_TRANSLATION @
     [Movl_param 0 RSI, Shll_imm 2 RSI, Addq R15 RSI, Movl_load RSI RAX, Xorl RDX RDX, Movl_param 1 RSI,
      Shll_imm 2 RSI, Addq R15 RSI, Movl_load RSI RBX, Movl RBX R8, Cmpl_imm 0x0 R8, Jcc CC_NE 1,
      Movl_imm 0xffffffff RAX, Jmp 2, Label 1, Divl RBX, Label 2, Movl_param 2 RDI, Shll_imm 2 RDI,
      Addq R15 RDI, Movl_store RAX RDI] @ RESET_ZERO_REGISTER @ PROCEED_TO_NEXT_INSTRUCTION @
     END_INSTRUCTION"

definition remu_instruction :: "xinstr list" where
  "remu_instruction =
     BEGIN_TRANSLATION @
     [Movl_param 0 RSI, Shll_imm 2 RSI, Addq R15 RSI, Movl_load RSI RAX, Xorl RDX RDX, Movl_param 1 RSI,
      Shll_imm 2 RSI, Addq R15 RSI, Movl_load RSI RBX, Divl RBX, Movl_param 2 RDI, Shll_imm 2 RDI,
      Addq R15 RDI, Movl_store RDX RDI] @ RESET_ZERO_REGISTER @ PROCEED_TO_NEXT_INSTRUCTION @
     END_INSTRUCTION"

subsection \<open>\<^verbatim>\<open>vmm/translate_fence.c\<close>\<close>

definition fence_i_instruction :: "xinstr list" where
  "fence_i_instruction =
     BEGIN_TRANSLATION @
     [Movq R12 RDI, Movq_sym Flush_translation_cache RAX] @ call_rax @ PROCEED_TO_NEXT_INSTRUCTION @
     TRAP_TO_VMM"

definition fence_instruction :: "xinstr list" where
  "fence_instruction =
     BEGIN_TRANSLATION @ PROCEED_TO_NEXT_INSTRUCTION @ END_INSTRUCTION"

subsection \<open>\<^verbatim>\<open>vmm/translate_privileged_instr.c\<close>\<close>

definition ebreak_instruction :: "xinstr list" where
  "ebreak_instruction =
     BEGIN_TRANSLATION @
     [Movq R12 RDI, Movq_sym Ebreak_callback RAX] @ call_rax @ PROCEED_TO_NEXT_INSTRUCTION @
     END_INSTRUCTION"

definition mret_instruction :: "xinstr list" where
  "mret_instruction =
     BEGIN_TRANSLATION @
     [Movq R12 RDI, Movq_sym Mret_callback RAX] @ call_rax @ TRAP_TO_VMM"

definition sret_instruction :: "xinstr list" where
  "sret_instruction =
     BEGIN_TRANSLATION @
     [Movq R12 RDI, Movq_sym Sret_callback RAX] @ call_rax @ TRAP_TO_VMM"

definition sfence_vma_instruction :: "xinstr list" where
  "sfence_vma_instruction =
     BEGIN_TRANSLATION @
     [Movq R12 RDI, Movq_sym Sfence_vma_callback RAX] @ call_rax @ PROCEED_TO_NEXT_INSTRUCTION @
     TRAP_TO_VMM"

definition ecall_instruction :: "xinstr list" where
  "ecall_instruction =
     BEGIN_TRANSLATION @
     [Movq R12 RDI, Movq_sym Ecall_callback RAX] @ call_rax @ PROCEED_TO_NEXT_INSTRUCTION @ TRAP_TO_VMM"

definition wfi_instruction :: "xinstr list" where
  "wfi_instruction =
     BEGIN_TRANSLATION @
     [Movq R12 RDI, Movq_sym Wfi_callback RAX] @ call_rax @ PROCEED_TO_NEXT_INSTRUCTION @ TRAP_TO_VMM"

subsection \<open>\<^verbatim>\<open>vmm/csr_representation.c\<close>\<close>

definition csr_instructions :: "xinstr list" where
  "csr_instructions =
     BEGIN_TRANSLATION @
     [Movq R12 RDI, Movl_param 0 RSI, Movq_sym Riscv_generic_csr_callback RAX] @ call_rax @
     RESET_ZERO_REGISTER @ PROCEED_TO_NEXT_INSTRUCTION @ TRAP_TO_VMM"

subsection \<open>\<^verbatim>\<open>vmm/translate_amo.c\<close>\<close>

definition amo_instruction :: "xinstr list" where
  "amo_instruction =
     BEGIN_TRANSLATION @
     [Movq R12 RDI, Movl_param 0 RSI, Movl_param 1 RDX, Movl_param 2 RCX, Movl_param 3 R8,
      Movq_sym Amo_instruction_slowpath RAX] @ call_rax @ RESET_ZERO_REGISTER @ PROCEED_TO_NEXT_INSTRUCTION @
     END_INSTRUCTION"

primrec template :: "indicator \<Rightarrow> xinstr list" where
  "template Lui = lui_instruction"
| "template Auipc = auipc_instruction"
| "template Jal_without_target = jal_instruction_without_target"
| "template Jalr = jalr_instruction"
| "template Beq = beq_instruction"
| "template Bne = bne_instruction"
| "template Blt = blt_instruction"
| "template Bltu = bltu_instruction"
| "template Bge = bge_instruction"
| "template Bgeu = bgeu_instruction"
| "template Lb = lb_instruction"
| "template Lbu = lbu_instruction"
| "template Lh = lh_instruction"
| "template Lhu = lhu_instruction"
| "template Lw = lw_instruction"
| "template Sb = sb_instruction"
| "template Sh = sh_instruction"
| "template Sw = sw_instruction"
| "template Addi = addi_instruction"
| "template Stli = stli_instruction"
| "template Stliu = stliu_instruction"
| "template Xori = xori_instruction"
| "template Ori = ori_instruction"
| "template Andi = andi_instruction"
| "template Slli = slli_instruction"
| "template Srli = srli_instruction"
| "template Srai = srai_instruction"
| "template Add = add_instruction"
| "template Sub = sub_instruction"
| "template And = and_instruction"
| "template Or = or_instruction"
| "template Xor = xor_instruction"
| "template Slt = slt_instruction"
| "template Sltu = sltu_instruction"
| "template Sll = sll_instruction"
| "template Srl = srl_instruction"
| "template Sra = sra_instruction"
| "template Mul = mul_instruction"
| "template Mulh = mulh_instruction"
| "template Mulhu = mulhu_instruction"
| "template Mulhsu = mulhsu_instruction"
| "template Div = div_instruction"
| "template Rem = rem_instruction"
| "template Divu = divu_instruction"
| "template Remu = remu_instruction"
| "template Fence_i = fence_i_instruction"
| "template Fence = fence_instruction"
| "template Ebreak = ebreak_instruction"
| "template Mret = mret_instruction"
| "template Sret = sret_instruction"
| "template Sfence_vma = sfence_vma_instruction"
| "template Ecall = ecall_instruction"
| "template Wfi = wfi_instruction"
| "template Csr_instructions = csr_instructions"
| "template Amo = amo_instruction"

section \<open>What the templates do\<close>

text \<open>
  The retirement of an instruction with a result: the register is written, x0 is cleared (also
  when it is the destination) and the pc moves on. On a hart whose x0 is zero this is the
  architectural effect.
\<close>

definition retire :: "u32 \<Rightarrow> u32 \<Rightarrow> machine \<Rightarrow> machine" where
  "retire rd v m = m\<lparr>cpu := (cpu m)\<lparr>registers := (registers (cpu m))(unat rd := v, 0 := 0), pc := pc (cpu m) + 4\<rparr>\<rparr>"

definition jump_and_link :: "u32 \<Rightarrow> u32 \<Rightarrow> u32 \<Rightarrow> machine \<Rightarrow> machine" where
  "jump_and_link rd link target m =
     m\<lparr>cpu := (cpu m)\<lparr>registers := (registers (cpu m))(unat rd := link, 0 := 0), pc := target\<rparr>\<rparr>"

lemma retire_isa:
  "registers (cpu m) 0 = 0 \<Longrightarrow> retire rd v m = advance (write_rd (unat rd) v m)"
  "registers (cpu m) 0 = 0 \<Longrightarrow> jump_and_link rd v t m = goto t (write_rd (unat rd) v m)"
  by (auto simp: retire_def jump_and_link_def advance_def goto_def write_rd_def set_reg_def fun_upd_idem)

lemma hart_update_order: "h\<lparr>pc := a, registers := r\<rparr> = h\<lparr>registers := r, pc := a\<rparr>" for h :: hart
  by simp

lemma narrow_result [simp]:
  "ucast (narrow_result 8 g (ucast (b :: u8))) = b" "ucast (narrow_result 16 g (ucast (h :: u16))) = h"
  "ucast (narrow_result 32 g (ucast (w :: u32))) = w"
  by (rule bit_word_eqI; auto simp: narrow_result_def bit_simps)+

lemma shift_count: "unat (ucast (b AND 31) AND 31 :: u64) = shamt b" for b :: u32
proof -
  have "(x AND 31) = take_bit 5 x" for x :: u64 by (simp add: take_bit_eq_mask mask_eq_exp_minus_1)
  moreover have "take_bit 5 (ucast (take_bit 5 b) :: u64) = ucast (take_bit 5 b)"
    by (rule bit_word_eqI) (auto simp: bit_simps)
  ultimately show ?thesis by (simp add: field_masks shamt_def unat_ucast_u64)
qed

lemma low_parts [simp]:
  "ucast (w AND 0xff) = (ucast w :: u8)" "ucast (ucast (w AND 0xffff) :: u64) = (ucast w :: u16)" for w :: u32
proof -
  have m: "w AND 0xff = take_bit 8 w" "w AND 0xffff = take_bit 16 w"
    by (simp_all add: take_bit_eq_mask mask_eq_exp_minus_1)
  show "ucast (w AND 0xff) = (ucast w :: u8)" "ucast (ucast (w AND 0xffff) :: u64) = (ucast w :: u16)"
    unfolding m by (rule bit_word_eqI; auto simp: bit_simps)+
qed

lemma ucast_u32_u64_u8 [simp]: "ucast (ucast w :: u64) = (ucast w :: u8)" for w :: u32
  by (rule bit_word_eqI) (auto simp: bit_simps)

lemma idiv32_faults: "idiv32 (- 1) 0x80000000 (- 1) = None" "idiv32 hi lo 0 = None" "div32 hi lo 0 = None"
  by (simp_all add: idiv32_def div32_def)

text \<open>Symbolic execution of a template; a call of a vmm function is left in place.\<close>

lemmas host_exec = block_runs_def guest_regs_def PROCEED_TO_NEXT_INSTRUCTION_def RESET_ZERO_REGISTER_def
  END_INSTRUCTION_def TRAP_TO_VMM_def set_reg_def shift_count retire_def jump_and_link_def advance_def goto_def

lemmas host_call = rbind_assoc returned_def callee_saved_def case_prod_beta zero_x0_def

text \<open>Register-register operations.\<close>

lemma register_blocks:
  assumes "wf_env E" and "pc (cpu m) \<notin> set (breakpoints m)" and "rs1 < 32" and "rs2 < 32" and "rd < 32"
  defines "a \<equiv> registers (cpu m) (unat rs1)" and "b \<equiv> registers (cpu m) (unat rs2)"
  shows "block_runs E [rs1, rs2, rd] add_instruction m (Ret Next (retire rd (a + b) m))"
    and "block_runs E [rs1, rs2, rd] sub_instruction m (Ret Next (retire rd (a - b) m))"
    and "block_runs E [rs1, rs2, rd] and_instruction m (Ret Next (retire rd (a AND b) m))"
    and "block_runs E [rs1, rs2, rd] or_instruction m (Ret Next (retire rd (a OR b) m))"
    and "block_runs E [rs1, rs2, rd] xor_instruction m (Ret Next (retire rd (a XOR b) m))"
    and "block_runs E [rs1, rs2, rd] slt_instruction m (Ret Next (retire rd (of_bool (sint a < sint b)) m))"
    and "block_runs E [rs1, rs2, rd] sltu_instruction m (Ret Next (retire rd (of_bool (a < b)) m))"
    and "block_runs E [rs1, rs2, rd] sll_instruction m (Ret Next (retire rd (push_bit (shamt b) a) m))"
    and "block_runs E [rs1, rs2, rd] srl_instruction m (Ret Next (retire rd (drop_bit (shamt b) a) m))"
    and "block_runs E [rs1, rs2, rd] sra_instruction m (Ret Next (retire rd (word_of_int (drop_bit (shamt b) (sint a))) m))"
  unfolding add_instruction_def sub_instruction_def and_instruction_def or_instruction_def xor_instruction_def slt_instruction_def sltu_instruction_def sll_instruction_def srl_instruction_def sra_instruction_def
  by (rule block_runs_begin [OF assms(1,2)]; simp add: assms(3-5) host_exec a_def b_def cong: rbind_weak_cong; (simp add: ac_simps)?)+

text \<open>Register-immediate operations.\<close>

lemma immediate_blocks:
  assumes "wf_env E" and "pc (cpu m) \<notin> set (breakpoints m)" and "rs1 < 32" and "rd < 32"
  defines "a \<equiv> registers (cpu m) (unat rs1)"
  shows "block_runs E [off, rs1, rd] addi_instruction m (Ret Next (retire rd (a + off) m))"
    and "block_runs E [off, rs1, rd] stli_instruction m (Ret Next (retire rd (of_bool (sint a < sint off)) m))"
    and "block_runs E [off, rs1, rd] stliu_instruction m (Ret Next (retire rd (of_bool (a < off)) m))"
    and "block_runs E [off, rs1, rd] xori_instruction m (Ret Next (retire rd (a XOR off) m))"
    and "block_runs E [off, rs1, rd] ori_instruction m (Ret Next (retire rd (a OR off) m))"
    and "block_runs E [off, rs1, rd] andi_instruction m (Ret Next (retire rd (a AND off) m))"
    and "block_runs E [off, rs1, rd] slli_instruction m (Ret Next (retire rd (push_bit (shamt off) a) m))"
    and "block_runs E [off, rs1, rd] srli_instruction m (Ret Next (retire rd (drop_bit (shamt off) a) m))"
    and "block_runs E [off, rs1, rd] srai_instruction m (Ret Next (retire rd (word_of_int (drop_bit (shamt off) (sint a))) m))"
  unfolding addi_instruction_def stli_instruction_def stliu_instruction_def xori_instruction_def ori_instruction_def andi_instruction_def slli_instruction_def srli_instruction_def srai_instruction_def
  by (rule block_runs_begin [OF assms(1,2)]; simp add: assms(3-4) host_exec a_def cong: rbind_weak_cong; (simp add: ac_simps)?)+

text \<open>Multiplication.\<close>

lemma multiplication_blocks:
  assumes "wf_env E" and "pc (cpu m) \<notin> set (breakpoints m)" and "rs1 < 32" and "rs2 < 32" and "rd < 32"
  defines "a \<equiv> registers (cpu m) (unat rs1)" and "b \<equiv> registers (cpu m) (unat rs2)"
  shows "block_runs E [rs1, rs2, rd] mul_instruction m (Ret Next (retire rd (a * b) m))"
    and "block_runs E [rs1, rs2, rd] mulh_instruction m (Ret Next (retire rd (high_half (sint a * sint b)) m))"
    and "block_runs E [rs1, rs2, rd] mulhu_instruction m (Ret Next (retire rd (high_half (uint a * uint b)) m))"
    and "block_runs E [rs1, rs2, rd] mulhsu_instruction m (Ret Next (retire rd (high_half (sint a * uint b)) m))"
  unfolding mul_instruction_def mulh_instruction_def mulhu_instruction_def mulhsu_instruction_def
  by (rule block_runs_begin [OF assms(1,2)]; simp add: assms(3-5) host_exec a_def b_def write_pair_def low_half_product high_half_products cong: rbind_weak_cong; (simp add: ac_simps)?)+

text \<open>Division: where the host faults, the instruction set defines a result.\<close>

lemma division_blocks:
  assumes "wf_env E" and "pc (cpu m) \<notin> set (breakpoints m)" and "rs1 < 32" and "rs2 < 32" and "rd < 32"
  defines "a \<equiv> registers (cpu m) (unat rs1)" and "b \<equiv> registers (cpu m) (unat rs2)"
  shows "block_runs E [rs1, rs2, rd] div_instruction m (if a = 0x80000000 \<and> b = - 1 then Stop Host_fault else Ret Next (retire rd (isa_div a b) m))"
    and "block_runs E [rs1, rs2, rd] divu_instruction m (Ret Next (retire rd (isa_divu a b) m))"
    and "block_runs E [rs1, rs2, rd] rem_instruction m (if b = 0 \<or> a = 0x80000000 \<and> b = - 1 then Stop Host_fault else Ret Next (retire rd (isa_rem a b) m))"
    and "block_runs E [rs1, rs2, rd] remu_instruction m (if b = 0 then Stop Host_fault else Ret Next (retire rd (isa_remu a b) m))"
  unfolding div_instruction_def divu_instruction_def rem_instruction_def remu_instruction_def
  by (rule block_runs_begin [OF assms(1,2)]; simp add: assms(3-5) host_exec a_def b_def idiv32_isa div32_isa idiv32_faults isa_div_def isa_divu_def cong: rbind_weak_cong; (simp add: ac_simps)?)+

text \<open>Upper immediates and jumps.\<close>

lemma upper_blocks:
  assumes "wf_env E" and "pc (cpu m) \<notin> set (breakpoints m)" and "rs1 < 32" and "rd < 32"
  shows "block_runs E [v, rd] lui_instruction m (Ret Next (retire rd (push_bit 12 v) m))"
    and "block_runs E [v, rd, here] auipc_instruction m (Ret Next (retire rd (here + push_bit 12 v) m))"
    and "block_runs E [rd, link, target] jal_instruction_without_target m (Ret To_vmm (jump_and_link rd link target m))"
    and "block_runs E [rd, link, rs1, off] jalr_instruction m (Ret To_vmm (jump_and_link rd link (unset_bit 0 (registers (cpu m) (unat rs1) + off)) m))"
  unfolding lui_instruction_def auipc_instruction_def jal_instruction_without_target_def jalr_instruction_def
  by (rule block_runs_begin [OF assms(1,2)]; simp add: assms(3-4) host_exec cong: rbind_weak_cong; (simp add: ac_simps)?)+

text \<open>Branches.\<close>

lemma branch_blocks:
  assumes "wf_env E" and "pc (cpu m) \<notin> set (breakpoints m)" and "rs1 < 32" and "rs2 < 32"
  defines "a \<equiv> registers (cpu m) (unat rs1)" and "b \<equiv> registers (cpu m) (unat rs2)"
  shows "block_runs E [rs1, rs2, target] beq_instruction m (Ret To_vmm (goto (if a = b then target else pc (cpu m) + 4) m))"
    and "block_runs E [rs1, rs2, target] bne_instruction m (Ret To_vmm (goto (if a \<noteq> b then target else pc (cpu m) + 4) m))"
    and "block_runs E [rs1, rs2, target] blt_instruction m (Ret To_vmm (goto (if sint a < sint b then target else pc (cpu m) + 4) m))"
    and "block_runs E [rs1, rs2, target] bltu_instruction m (Ret To_vmm (goto (if a < b then target else pc (cpu m) + 4) m))"
    and "block_runs E [rs1, rs2, target] bge_instruction m (Ret To_vmm (goto (if sint b \<le> sint a then target else pc (cpu m) + 4) m))"
    and "block_runs E [rs1, rs2, target] bgeu_instruction m (Ret To_vmm (goto (if b \<le> a then target else pc (cpu m) + 4) m))"
  unfolding beq_instruction_def bne_instruction_def blt_instruction_def bltu_instruction_def bge_instruction_def bgeu_instruction_def
  by (rule block_runs_begin [OF assms(1,2)]; simp add: assms(3-4) host_exec a_def b_def cong: rbind_weak_cong; (simp add: ac_simps)?)+

text \<open>Loads.\<close>

lemma load_blocks:
  assumes "wf_env E" and "pc (cpu m) \<notin> set (breakpoints m)" and "rs1 < 32" and "rd < 32"
  defines "a \<equiv> registers (cpu m) (unat rs1)"
  shows "block_runs E [off, rs1, rd] lb_instruction m (rbind (mmu_read8 (a + off) m) (\<lambda>v m'. Ret Next (retire rd (scast v) m')))"
    and "block_runs E [off, rs1, rd] lbu_instruction m (rbind (mmu_read8 (a + off) m) (\<lambda>v m'. Ret Next (retire rd (ucast v) m')))"
    and "block_runs E [off, rs1, rd] lh_instruction m (rbind (mmu_read16 (a + off) m) (\<lambda>v m'. Ret Next (retire rd (scast v) m')))"
    and "block_runs E [off, rs1, rd] lhu_instruction m (rbind (mmu_read16 (a + off) m) (\<lambda>v m'. Ret Next (retire rd (ucast v) m')))"
    and "block_runs E [off, rs1, rd] lw_instruction m (rbind (mmu_read32 (a + off) m) (\<lambda>v m'. Ret Next (retire rd (v) m')))"
  unfolding lb_instruction_def lbu_instruction_def lh_instruction_def lhu_instruction_def lw_instruction_def
  by (rule block_runs_begin [OF assms(1,2)];
      simp add: assms(1) assms(3-4) host_exec a_def rbind_assoc cong: rbind_weak_cong; (intro allI impI exits_as_rbind)?;
      simp add: assms(1) assms(3-4) host_exec host_call a_def cong: rbind_weak_cong)+

text \<open>Stores.\<close>

lemma store_blocks:
  assumes "wf_env E" and "pc (cpu m) \<notin> set (breakpoints m)" and "rs1 < 32" and "rs2 < 32"
  defines "a \<equiv> registers (cpu m) (unat rs1)" and "b \<equiv> registers (cpu m) (unat rs2)"
  shows "block_runs E [off, rs1, rs2] sb_instruction m (rbind (mmu_write8 (a + off) (ucast b) m) (\<lambda>_ m'. Ret Next (advance m')))"
    and "block_runs E [off, rs1, rs2] sh_instruction m (rbind (mmu_write16 (a + off) (ucast b) m) (\<lambda>_ m'. Ret Next (advance m')))"
    and "block_runs E [off, rs1, rs2] sw_instruction m (rbind (mmu_write32 (a + off) (b) m) (\<lambda>_ m'. Ret Next (advance m')))"
  unfolding sb_instruction_def sh_instruction_def sw_instruction_def
  by (rule block_runs_begin [OF assms(1,2)];
      simp add: assms(1) assms(3-4) host_exec a_def b_def rbind_assoc cong: rbind_weak_cong; (intro allI impI exits_as_rbind)?;
      simp add: assms(1) assms(3-4) host_exec host_call a_def b_def cong: rbind_weak_cong)+

text \<open>Fences, privileged and CSR instructions.\<close>

lemma system_blocks:
  assumes "wf_env E" and "pc (cpu m) \<notin> set (breakpoints m)"
  shows "block_runs E [here] fence_instruction m (Ret Next (advance m))"
    and "block_runs E [here] fence_i_instruction m (Ret To_vmm (advance (m\<lparr>cpu := flush_translation_cache (cpu m)\<rparr>)))"
    and "block_runs E [here] sfence_vma_instruction m (Ret To_vmm (advance (m\<lparr>cpu := sfence_vma_callback (cpu m)\<rparr>)))"
    and "block_runs E [here] mret_instruction m (rbind (on_cpu mret_callback m) (\<lambda>_. Ret To_vmm))"
    and "block_runs E [here] sret_instruction m (rbind (on_cpu sret_callback m) (\<lambda>_. Ret To_vmm))"
    and "block_runs E [here] ecall_instruction m (rbind (on_cpu ecall_callback m) (\<lambda>_ :: unit. \<lambda>m'. Ret To_vmm (advance m')))"
    and "block_runs E [here] ebreak_instruction m (rbind (ebreak_callback (dbg_shell E) m) (\<lambda>_ m'. Ret Next (advance m')))"
    and "block_runs E [here] wfi_instruction m (rbind (wfi_callback m) (\<lambda>_ m'. Ret To_vmm (advance m')))"
    and "block_runs E [w] csr_instructions m (rbind (riscv_generic_csr_callback (ucast w) m) (\<lambda>_ m'. Ret To_vmm (advance (zero_x0 m'))))"
  unfolding fence_instruction_def fence_i_instruction_def sfence_vma_instruction_def mret_instruction_def sret_instruction_def ecall_instruction_def ebreak_instruction_def wfi_instruction_def csr_instructions_def
  by (rule block_runs_begin [OF assms(1,2)];
      simp add: assms(1) host_exec rbind_assoc cong: rbind_weak_cong; (intro allI impI exits_as_rbind)?;
      simp add: assms(1) host_exec host_call cong: rbind_weak_cong)+

text \<open>Atomic memory instructions.\<close>

lemma amo_block:
  assumes "wf_env E" and "pc (cpu m) \<notin> set (breakpoints m)"
  shows "block_runs E [rs1, rs2, rd, f5] amo_instruction m (rbind (amo_instruction_slowpath (ucast rs1) (ucast rs2) (ucast rd) f5 m) (\<lambda>_ m'. Ret Next (advance (zero_x0 m'))))"
  unfolding amo_instruction_def
  by (rule block_runs_begin [OF assms(1,2)];
      simp add: assms(1) host_exec rbind_assoc cong: rbind_weak_cong; (intro allI impI exits_as_rbind)?;
      simp add: assms(1) host_exec host_call cong: rbind_weak_cong)+

end
