(* ===== verification/Translate.thy ===== *)
theory Translate
  imports Templates
begin

text \<open>
  The translators (\<^verbatim>\<open>vmm/translation.c\<close> and \<^verbatim>\<open>vmm/translate_*.c\<close>): one per instruction, and the
  dispatch tables that the constructor functions fill. A translator decodes its instruction,
  makes room in the translation cache, copies its template with the parameters patched in, and
  either moves the prefetch on by one instruction or ends the translation unit. A missing table
  entry is the failing assertion of the dispatcher.
\<close>

section \<open>Translators\<close>

text \<open>
  The common frame of the translators: \<open>PRECHECK_TRANSLATION_CACHE\<close>, which may return early,
  \<open>COMMIT_TRANSLATION\<close>, and the last statement of the function (\<open>after\<close>).
\<close>

definition next_instruction :: "prefetch_blob \<Rightarrow> prefetch_blob" where
  "next_instruction blob = blob\<lparr>next_instruction_to_fetch := next_instruction_to_fetch blob + 4\<rparr>"

definition stop_translation :: "prefetch_blob \<Rightarrow> prefetch_blob" where
  "stop_translation blob = blob\<lparr>is_to_stop := True\<rparr>"

definition emit ::
  "code_layout \<Rightarrow> indicator \<Rightarrow> u32 list \<Rightarrow> (prefetch_blob \<Rightarrow> prefetch_blob) \<Rightarrow> prefetch_blob \<Rightarrow> (prefetch_blob, unit) result" where
  "emit L ind params after blob =
     (case PRECHECK_TRANSLATION_CACHE L ind blob of
        (blob', False) \<Rightarrow> Ret () blob'
      | (blob', True) \<Rightarrow>
          rbind (rmap (\<lambda>h. blob'\<lparr>opaque := h\<rparr>)
                  (COMMIT_TRANSLATION L ind params (opaque blob') (next_instruction_to_fetch blob')))
            (\<lambda>_ blob''. Ret () (after blob'')))"

type_synonym instruction_translator = "code_layout \<Rightarrow> prefetch_blob \<Rightarrow> u32 \<Rightarrow> (prefetch_blob, unit) result"
type_synonym instruction_sub_translator =
  "code_layout \<Rightarrow> decoding \<Rightarrow> prefetch_blob \<Rightarrow> u32 \<Rightarrow> (prefetch_blob, unit) result"

subsection \<open>\<^verbatim>\<open>vmm/translation.c\<close>\<close>

definition riscv_lui_translator :: instruction_translator where
  "riscv_lui_translator L blob instruction =
     (case instruction_decoding_per_type instruction ENCODING_TYPE_U of
        None \<Rightarrow> Stop Assertion
      | Some dec \<Rightarrow> emit L Lui [imm dec, ucast (rd_index dec)] next_instruction blob)"

definition riscv_auipc_translator :: instruction_translator where
  "riscv_auipc_translator L blob instruction =
     (case instruction_decoding_per_type instruction ENCODING_TYPE_U of
        None \<Rightarrow> Stop Assertion
      | Some dec \<Rightarrow> (let instruction_linear_address = next_instruction_to_fetch blob in
      emit L Auipc [imm dec, ucast (rd_index dec), instruction_linear_address] next_instruction blob))"

subsection \<open>\<^verbatim>\<open>vmm/translate_unconditional_jump_intrs.c\<close>\<close>

definition riscv_jal_translator :: instruction_translator where
  "riscv_jal_translator L blob instruction =
     (case instruction_decoding_per_type instruction ENCODING_TYPE_UJ of
        None \<Rightarrow> Stop Assertion
      | Some dec \<Rightarrow> (let instruction_linear_address = next_instruction_to_fetch blob in
      emit L Jal_without_target [ucast (rd_index dec), instruction_linear_address + 4,
         instruction_linear_address + sign_extend32 (push_bit 1 (imm dec)) 20] stop_translation blob))"

definition riscv_jalr_translator :: instruction_translator where
  "riscv_jalr_translator L blob instruction =
     (case instruction_decoding_per_type instruction ENCODING_TYPE_I of
        None \<Rightarrow> Stop Assertion
      | Some dec \<Rightarrow> (let instruction_linear_address = next_instruction_to_fetch blob in
      emit L Jalr [ucast (rd_index dec), instruction_linear_address + 4, ucast (rs1_index dec),
         sign_extend32 (imm dec) 11] stop_translation blob))"

subsection \<open>\<^verbatim>\<open>vmm/translate_branch.c\<close>\<close>

definition riscv_beq_translator :: instruction_sub_translator where
  "riscv_beq_translator L dec blob instruction =
     (let instruction_linear_address = next_instruction_to_fetch blob in
      emit L Beq [ucast (rs1_index dec), ucast (rs2_index dec),
         instruction_linear_address + sign_extend32 (push_bit 1 (imm dec)) 12] stop_translation blob)"

definition riscv_bne_translator :: instruction_sub_translator where
  "riscv_bne_translator L dec blob instruction =
     (let instruction_linear_address = next_instruction_to_fetch blob in
      emit L Bne [ucast (rs1_index dec), ucast (rs2_index dec),
         instruction_linear_address + sign_extend32 (push_bit 1 (imm dec)) 12] stop_translation blob)"

definition riscv_blt_translator :: instruction_sub_translator where
  "riscv_blt_translator L dec blob instruction =
     (let instruction_linear_address = next_instruction_to_fetch blob in
      emit L Blt [ucast (rs1_index dec), ucast (rs2_index dec),
         instruction_linear_address + sign_extend32 (push_bit 1 (imm dec)) 12] stop_translation blob)"

definition riscv_bltu_translator :: instruction_sub_translator where
  "riscv_bltu_translator L dec blob instruction =
     (let instruction_linear_address = next_instruction_to_fetch blob in
      emit L Bltu [ucast (rs1_index dec), ucast (rs2_index dec),
         instruction_linear_address + sign_extend32 (push_bit 1 (imm dec)) 12] stop_translation blob)"

definition riscv_bge_translator :: instruction_sub_translator where
  "riscv_bge_translator L dec blob instruction =
     (let instruction_linear_address = next_instruction_to_fetch blob in
      emit L Bge [ucast (rs1_index dec), ucast (rs2_index dec),
         instruction_linear_address + sign_extend32 (push_bit 1 (imm dec)) 12] stop_translation blob)"

definition riscv_bgeu_translator :: instruction_sub_translator where
  "riscv_bgeu_translator L dec blob instruction =
     (let instruction_linear_address = next_instruction_to_fetch blob in
      emit L Bgeu [ucast (rs1_index dec), ucast (rs2_index dec),
         instruction_linear_address + sign_extend32 (push_bit 1 (imm dec)) 12] stop_translation blob)"

definition branch_handlers :: "u8 \<Rightarrow> instruction_sub_translator option" where
  "branch_handlers i =
     (if i = 0 then Some riscv_beq_translator
      else if i = 1 then Some riscv_bne_translator
      else if i = 4 then Some riscv_blt_translator
      else if i = 5 then Some riscv_bge_translator
      else if i = 6 then Some riscv_bltu_translator
      else if i = 7 then Some riscv_bgeu_translator
      else None)"

definition riscv_branch_instructions_translation_entry :: instruction_translator where
  "riscv_branch_instructions_translation_entry L blob instruction =
     (case instruction_decoding_per_type instruction ENCODING_TYPE_B of
        None \<Rightarrow> Stop Assertion
      | Some dec \<Rightarrow> (case branch_handlers (funct3 dec) of
               None \<Rightarrow> Stop Assertion | Some translator \<Rightarrow> translator L dec blob instruction))"

subsection \<open>\<^verbatim>\<open>vmm/translate_memory_load.c\<close>\<close>

definition riscv_lb_translator :: instruction_sub_translator where
  "riscv_lb_translator L dec blob instruction =
     emit L Lb [sign_extend32 (imm dec) 11, ucast (rs1_index dec), ucast (rd_index dec)] next_instruction blob"

definition riscv_lbu_translator :: instruction_sub_translator where
  "riscv_lbu_translator L dec blob instruction =
     emit L Lbu [sign_extend32 (imm dec) 11, ucast (rs1_index dec), ucast (rd_index dec)] next_instruction blob"

definition riscv_lh_translator :: instruction_sub_translator where
  "riscv_lh_translator L dec blob instruction =
     emit L Lh [sign_extend32 (imm dec) 11, ucast (rs1_index dec), ucast (rd_index dec)] next_instruction blob"

definition riscv_lhu_translator :: instruction_sub_translator where
  "riscv_lhu_translator L dec blob instruction =
     emit L Lhu [sign_extend32 (imm dec) 11, ucast (rs1_index dec), ucast (rd_index dec)] next_instruction blob"

definition riscv_lw_translator :: instruction_sub_translator where
  "riscv_lw_translator L dec blob instruction =
     emit L Lw [sign_extend32 (imm dec) 11, ucast (rs1_index dec), ucast (rd_index dec)] next_instruction blob"

definition memory_load_handlers :: "u8 \<Rightarrow> instruction_sub_translator option" where
  "memory_load_handlers i =
     (if i = 0 then Some riscv_lb_translator
      else if i = 1 then Some riscv_lh_translator
      else if i = 2 then Some riscv_lw_translator
      else if i = 4 then Some riscv_lbu_translator
      else if i = 5 then Some riscv_lhu_translator
      else None)"

definition riscv_memory_load_instructions_translation_entry :: instruction_translator where
  "riscv_memory_load_instructions_translation_entry L blob instruction =
     (case instruction_decoding_per_type instruction ENCODING_TYPE_I of
        None \<Rightarrow> Stop Assertion
      | Some dec \<Rightarrow> (case memory_load_handlers (funct3 dec) of
               None \<Rightarrow> Stop Assertion | Some translator \<Rightarrow> translator L dec blob instruction))"

subsection \<open>\<^verbatim>\<open>vmm/translate_memory_store.c\<close>\<close>

definition riscv_sb_translator :: instruction_sub_translator where
  "riscv_sb_translator L dec blob instruction =
     emit L Sb [sign_extend32 (imm dec) 11, ucast (rs1_index dec), ucast (rs2_index dec)] next_instruction blob"

definition riscv_sh_translator :: instruction_sub_translator where
  "riscv_sh_translator L dec blob instruction =
     emit L Sh [sign_extend32 (imm dec) 11, ucast (rs1_index dec), ucast (rs2_index dec)] next_instruction blob"

definition riscv_sw_translator :: instruction_sub_translator where
  "riscv_sw_translator L dec blob instruction =
     emit L Sw [sign_extend32 (imm dec) 11, ucast (rs1_index dec), ucast (rs2_index dec)] next_instruction blob"

definition memory_store_handlers :: "u8 \<Rightarrow> instruction_sub_translator option" where
  "memory_store_handlers i =
     (if i = 0 then Some riscv_sb_translator
      else if i = 1 then Some riscv_sh_translator
      else if i = 2 then Some riscv_sw_translator
      else None)"

definition riscv_memory_store_instructions_translation_entry :: instruction_translator where
  "riscv_memory_store_instructions_translation_entry L blob instruction =
     (case instruction_decoding_per_type instruction ENCODING_TYPE_S of
        None \<Rightarrow> Stop Assertion
      | Some dec \<Rightarrow> (case memory_store_handlers (funct3 dec) of
               None \<Rightarrow> Stop Assertion | Some translator \<Rightarrow> translator L dec blob instruction))"

subsection \<open>\<^verbatim>\<open>vmm/translate_arithmetic_immediate.c\<close>\<close>

definition riscv_addi_translator :: instruction_sub_translator where
  "riscv_addi_translator L dec blob instruction =
     emit L Addi [sign_extend32 (imm dec) 11, ucast (rs1_index dec), ucast (rd_index dec)] next_instruction blob"

definition riscv_stli_translator :: instruction_sub_translator where
  "riscv_stli_translator L dec blob instruction =
     emit L Stli [sign_extend32 (imm dec) 11, ucast (rs1_index dec), ucast (rd_index dec)] next_instruction blob"

definition riscv_stliu_translator :: instruction_sub_translator where
  "riscv_stliu_translator L dec blob instruction =
     emit L Stliu [sign_extend32 (imm dec) 11, ucast (rs1_index dec), ucast (rd_index dec)] next_instruction blob"

definition riscv_xori_translator :: instruction_sub_translator where
  "riscv_xori_translator L dec blob instruction =
     emit L Xori [sign_extend32 (imm dec) 11, ucast (rs1_index dec), ucast (rd_index dec)] next_instruction blob"

definition riscv_ori_translator :: instruction_sub_translator where
  "riscv_ori_translator L dec blob instruction =
     emit L Ori [sign_extend32 (imm dec) 11, ucast (rs1_index dec), ucast (rd_index dec)] next_instruction blob"

definition riscv_andi_translator :: instruction_sub_translator where
  "riscv_andi_translator L dec blob instruction =
     emit L Andi [sign_extend32 (imm dec) 11, ucast (rs1_index dec), ucast (rd_index dec)] next_instruction blob"

definition riscv_slli_translator :: instruction_sub_translator where
  "riscv_slli_translator L dec blob instruction =
     emit L Slli [imm dec, ucast (rs1_index dec), ucast (rd_index dec)] next_instruction blob"

definition riscv_right_shift_translator :: instruction_sub_translator where
  "riscv_right_shift_translator L dec blob instruction =
     (if imm dec AND 0x400 = 0 then emit L Srli [imm dec, ucast (rs1_index dec),
        ucast (rd_index dec)] next_instruction blob
      else emit L Srai [imm dec, ucast (rs1_index dec), ucast (rd_index dec)] next_instruction blob)"

definition arithmetic_immediate_handlers :: "u8 \<Rightarrow> instruction_sub_translator option" where
  "arithmetic_immediate_handlers i =
     (if i = 0 then Some riscv_addi_translator
      else if i = 1 then Some riscv_slli_translator
      else if i = 2 then Some riscv_stli_translator
      else if i = 3 then Some riscv_stliu_translator
      else if i = 4 then Some riscv_xori_translator
      else if i = 5 then Some riscv_right_shift_translator
      else if i = 6 then Some riscv_ori_translator
      else if i = 7 then Some riscv_andi_translator
      else None)"

definition riscv_arithmetic_immediate_instructions_translation_entry :: instruction_translator where
  "riscv_arithmetic_immediate_instructions_translation_entry L blob instruction =
     (case instruction_decoding_per_type instruction ENCODING_TYPE_I of
        None \<Rightarrow> Stop Assertion
      | Some dec \<Rightarrow> (case arithmetic_immediate_handlers (funct3 dec) of
               None \<Rightarrow> Stop Assertion | Some translator \<Rightarrow> translator L dec blob instruction))"

subsection \<open>\<^verbatim>\<open>vmm/translate_arithmetic.c\<close>\<close>

definition riscv_add_translator :: instruction_sub_translator where
  "riscv_add_translator L dec blob instruction =
     emit L Add [ucast (rs1_index dec), ucast (rs2_index dec), ucast (rd_index dec)] next_instruction blob"

definition riscv_sub_translator :: instruction_sub_translator where
  "riscv_sub_translator L dec blob instruction =
     emit L Sub [ucast (rs1_index dec), ucast (rs2_index dec), ucast (rd_index dec)] next_instruction blob"

definition riscv_add_sub_translator :: instruction_sub_translator where
  "riscv_add_sub_translator L dec blob instruction =
     (if funct7 dec = 0x20 then riscv_sub_translator L dec blob instruction
      else rassert (funct7 dec = 0) (riscv_add_translator L dec blob instruction))"

definition riscv_and_translator :: instruction_sub_translator where
  "riscv_and_translator L dec blob instruction =
     emit L And [ucast (rs1_index dec), ucast (rs2_index dec), ucast (rd_index dec)] next_instruction blob"

definition riscv_or_translator :: instruction_sub_translator where
  "riscv_or_translator L dec blob instruction =
     emit L Or [ucast (rs1_index dec), ucast (rs2_index dec), ucast (rd_index dec)] next_instruction blob"

definition riscv_xor_translator :: instruction_sub_translator where
  "riscv_xor_translator L dec blob instruction =
     emit L Xor [ucast (rs1_index dec), ucast (rs2_index dec), ucast (rd_index dec)] next_instruction blob"

definition riscv_slt_translator :: instruction_sub_translator where
  "riscv_slt_translator L dec blob instruction =
     emit L Slt [ucast (rs1_index dec), ucast (rs2_index dec), ucast (rd_index dec)] next_instruction blob"

definition riscv_sltu_translator :: instruction_sub_translator where
  "riscv_sltu_translator L dec blob instruction =
     emit L Sltu [ucast (rs1_index dec), ucast (rs2_index dec), ucast (rd_index dec)] next_instruction blob"

definition riscv_sll_translator :: instruction_sub_translator where
  "riscv_sll_translator L dec blob instruction =
     emit L Sll [ucast (rs1_index dec), ucast (rs2_index dec), ucast (rd_index dec)] next_instruction blob"

definition riscv_srl_translator :: instruction_sub_translator where
  "riscv_srl_translator L dec blob instruction =
     emit L Srl [ucast (rs1_index dec), ucast (rs2_index dec), ucast (rd_index dec)] next_instruction blob"

definition riscv_sra_translator :: instruction_sub_translator where
  "riscv_sra_translator L dec blob instruction =
     emit L Sra [ucast (rs1_index dec), ucast (rs2_index dec), ucast (rd_index dec)] next_instruction blob"

definition riscv_srl_sra_translator :: instruction_sub_translator where
  "riscv_srl_sra_translator L dec blob instruction =
     (if funct7 dec = 0x20 then riscv_sra_translator L dec blob instruction
      else rassert (funct7 dec = 0) (riscv_srl_translator L dec blob instruction))"

definition arithmetic_handlers :: "u8 \<Rightarrow> instruction_sub_translator option" where
  "arithmetic_handlers i =
     (if i = 0 then Some riscv_add_sub_translator
      else if i = 1 then Some riscv_sll_translator
      else if i = 2 then Some riscv_slt_translator
      else if i = 3 then Some riscv_sltu_translator
      else if i = 4 then Some riscv_xor_translator
      else if i = 5 then Some riscv_srl_sra_translator
      else if i = 6 then Some riscv_or_translator
      else if i = 7 then Some riscv_and_translator
      else None)"

definition riscv_arithmetic_instructions_class0_translation_entry :: instruction_sub_translator where
  "riscv_arithmetic_instructions_class0_translation_entry L dec blob instruction =
     (case arithmetic_handlers (funct3 dec) of
              None \<Rightarrow> Stop Assertion | Some translator \<Rightarrow> translator L dec blob instruction)"

subsection \<open>\<^verbatim>\<open>vmm/translate_multiplication_and_division.c\<close>\<close>

definition riscv_mul_translator :: instruction_sub_translator where
  "riscv_mul_translator L dec blob instruction =
     emit L Mul [ucast (rs1_index dec), ucast (rs2_index dec), ucast (rd_index dec)] next_instruction blob"

definition riscv_mulh_translator :: instruction_sub_translator where
  "riscv_mulh_translator L dec blob instruction =
     emit L Mulh [ucast (rs1_index dec), ucast (rs2_index dec), ucast (rd_index dec)] next_instruction blob"

definition riscv_mulhu_translator :: instruction_sub_translator where
  "riscv_mulhu_translator L dec blob instruction =
     emit L Mulhu [ucast (rs1_index dec), ucast (rs2_index dec), ucast (rd_index dec)] next_instruction blob"

definition riscv_mulhsu_translator :: instruction_sub_translator where
  "riscv_mulhsu_translator L dec blob instruction =
     emit L Mulhsu [ucast (rs1_index dec), ucast (rs2_index dec), ucast (rd_index dec)] next_instruction blob"

definition riscv_div_translator :: instruction_sub_translator where
  "riscv_div_translator L dec blob instruction =
     emit L Div [ucast (rs1_index dec), ucast (rs2_index dec), ucast (rd_index dec)] next_instruction blob"

definition riscv_rem_translator :: instruction_sub_translator where
  "riscv_rem_translator L dec blob instruction =
     emit L Rem [ucast (rs1_index dec), ucast (rs2_index dec), ucast (rd_index dec)] next_instruction blob"

definition riscv_divu_translator :: instruction_sub_translator where
  "riscv_divu_translator L dec blob instruction =
     emit L Divu [ucast (rs1_index dec), ucast (rs2_index dec), ucast (rd_index dec)] next_instruction blob"

definition riscv_remu_translator :: instruction_sub_translator where
  "riscv_remu_translator L dec blob instruction =
     emit L Remu [ucast (rs1_index dec), ucast (rs2_index dec), ucast (rd_index dec)] next_instruction blob"

definition mul_div_handlers :: "u8 \<Rightarrow> instruction_sub_translator option" where
  "mul_div_handlers i =
     (if i = 0 then Some riscv_mul_translator
      else if i = 1 then Some riscv_mulh_translator
      else if i = 2 then Some riscv_mulhsu_translator
      else if i = 3 then Some riscv_mulhu_translator
      else if i = 4 then Some riscv_div_translator
      else if i = 5 then Some riscv_divu_translator
      else if i = 6 then Some riscv_rem_translator
      else if i = 7 then Some riscv_remu_translator
      else None)"

definition riscv_mul_div_instructions_translation_entry :: instruction_sub_translator where
  "riscv_mul_div_instructions_translation_entry L dec blob instruction =
     (case mul_div_handlers (funct3 dec) of
              None \<Rightarrow> Stop Assertion | Some translator \<Rightarrow> translator L dec blob instruction)"

subsection \<open>\<^verbatim>\<open>vmm/translate_fence.c\<close>\<close>

definition riscv_fence_i_translator :: instruction_sub_translator where
  "riscv_fence_i_translator L dec blob instruction =
     (let instruction_linear_address = next_instruction_to_fetch blob in
      emit L Fence_i [instruction_linear_address] stop_translation blob)"

definition riscv_fence_translator :: instruction_sub_translator where
  "riscv_fence_translator L dec blob instruction =
     (let instruction_linear_address = next_instruction_to_fetch blob in
      emit L Fence [instruction_linear_address] next_instruction blob)"

definition fence_handlers :: "u8 \<Rightarrow> instruction_sub_translator option" where
  "fence_handlers i =
     (if i = 0 then Some riscv_fence_translator
      else if i = 1 then Some riscv_fence_i_translator
      else None)"

definition riscv_fence_instructions_translation_entry :: instruction_translator where
  "riscv_fence_instructions_translation_entry L blob instruction =
     (case instruction_decoding_per_type instruction ENCODING_TYPE_S of
        None \<Rightarrow> Stop Assertion
      | Some dec \<Rightarrow> (case fence_handlers (funct3 dec) of
               None \<Rightarrow> Stop Assertion | Some translator \<Rightarrow> translator L dec blob instruction))"

subsection \<open>\<^verbatim>\<open>vmm/translate_privileged_instr.c\<close>\<close>

definition riscv_ebreak_translator :: instruction_sub_translator where
  "riscv_ebreak_translator L dec blob instruction =
     (let instruction_linear_address = next_instruction_to_fetch blob in
      emit L Ebreak [instruction_linear_address] next_instruction blob)"

definition riscv_mret_translator :: instruction_sub_translator where
  "riscv_mret_translator L dec blob instruction =
     (let instruction_linear_address = next_instruction_to_fetch blob in
      emit L Mret [instruction_linear_address] stop_translation blob)"

definition riscv_sret_translator :: instruction_sub_translator where
  "riscv_sret_translator L dec blob instruction =
     (let instruction_linear_address = next_instruction_to_fetch blob in
      emit L Sret [instruction_linear_address] stop_translation blob)"

definition riscv_sfence_vma_translator :: instruction_sub_translator where
  "riscv_sfence_vma_translator L dec blob instruction =
     (let instruction_linear_address = next_instruction_to_fetch blob in
      emit L Sfence_vma [instruction_linear_address] stop_translation blob)"

definition riscv_ecall_translator :: instruction_sub_translator where
  "riscv_ecall_translator L dec blob instruction =
     (let instruction_linear_address = next_instruction_to_fetch blob in
      emit L Ecall [instruction_linear_address] stop_translation blob)"

definition riscv_wfi_translator :: instruction_sub_translator where
  "riscv_wfi_translator L dec blob instruction =
     (let instruction_linear_address = next_instruction_to_fetch blob in
      rassert (drop_bit 5 (imm dec) = 8) (emit L Wfi [instruction_linear_address] stop_translation blob))"

definition riscv_funct3_000_translator :: instruction_sub_translator where
  "riscv_funct3_000_translator L dec blob instruction =
     (if drop_bit 5 (imm dec) AND 0x7f = 9 then riscv_sfence_vma_translator L dec blob instruction
      else if rs2_index dec = 5 then riscv_wfi_translator L dec blob instruction
      else if rs2_index dec = 1 then riscv_ebreak_translator L dec blob instruction
      else if rs2_index dec = 2 then
        (if drop_bit 5 (imm dec) = 0x18 then riscv_mret_translator L dec blob instruction
         else if drop_bit 5 (imm dec) = 8 then riscv_sret_translator L dec blob instruction
         else Stop Assertion)
      else if rs2_index dec = 0 then riscv_ecall_translator L dec blob instruction
      else Stop Assertion)"

definition riscv_generic_csr_instructions_translator :: instruction_sub_translator where
  "riscv_generic_csr_instructions_translator L dec blob instruction =
     emit L Csr_instructions [instruction] stop_translation blob"

definition supervisor_level_handlers :: "u8 \<Rightarrow> instruction_sub_translator option" where
  "supervisor_level_handlers i =
     (if i = 0 then Some riscv_funct3_000_translator
      else if i = 1 then Some riscv_generic_csr_instructions_translator
      else if i = 2 then Some riscv_generic_csr_instructions_translator
      else if i = 3 then Some riscv_generic_csr_instructions_translator
      else if i = 5 then Some riscv_generic_csr_instructions_translator
      else if i = 6 then Some riscv_generic_csr_instructions_translator
      else if i = 7 then Some riscv_generic_csr_instructions_translator
      else None)"

definition riscv_supervisor_level_instructions_translation_entry :: instruction_translator where
  "riscv_supervisor_level_instructions_translation_entry L blob instruction =
     (case instruction_decoding_per_type instruction
             (if drop_bit 12 instruction AND 7 = 0 then ENCODING_TYPE_S else ENCODING_TYPE_I) of
        None \<Rightarrow> Stop Assertion
      | Some dec \<Rightarrow> (case supervisor_level_handlers (funct3 dec) of
               None \<Rightarrow> Stop Assertion | Some translator \<Rightarrow> translator L dec blob instruction))"

subsection \<open>\<^verbatim>\<open>vmm/translate_amo.c\<close>\<close>

definition riscv_amo_translator :: instruction_sub_translator where
  "riscv_amo_translator L dec blob instruction =
     emit L Amo [ucast (rs1_index dec), ucast (rs2_index dec), ucast (rd_index dec),
        ucast (drop_bit 2 (funct7 dec))] next_instruction blob"

definition amo_handlers :: "u8 \<Rightarrow> instruction_sub_translator option" where
  "amo_handlers i =
     (if i = 0 then Some riscv_amo_translator
      else if i = 1 then Some riscv_amo_translator
      else if i = 2 then Some riscv_amo_translator
      else if i = 3 then Some riscv_amo_translator
      else if i = 4 then Some riscv_amo_translator
      else if i = 8 then Some riscv_amo_translator
      else if i = 0xc then Some riscv_amo_translator
      else None)"

definition riscv_amo_instructions_translation_entry :: instruction_translator where
  "riscv_amo_instructions_translation_entry L blob instruction =
     (case instruction_decoding_per_type instruction ENCODING_TYPE_R of
        None \<Rightarrow> Stop Assertion
      | Some dec \<Rightarrow> (case amo_handlers (drop_bit 2 (funct7 dec)) of
               None \<Rightarrow> Stop Assertion | Some translator \<Rightarrow> translator L dec blob instruction))"

subsection \<open>Dispatch by opcode (\<^verbatim>\<open>vmm/translation.c\<close>)\<close>

definition riscv_arithmetic_instructions_translation_entry :: instruction_translator where
  "riscv_arithmetic_instructions_translation_entry L blob instruction =
     (case instruction_decoding_per_type instruction ENCODING_TYPE_R of
        None \<Rightarrow> Stop Assertion
      | Some dec \<Rightarrow>
          if funct7 dec AND 3 = 0 then riscv_arithmetic_instructions_class0_translation_entry L dec blob instruction
          else rassert (funct7 dec AND 3 = 1) (riscv_mul_div_instructions_translation_entry L dec blob instruction))"

definition translators :: "u8 \<Rightarrow> instruction_translator option" where
  "translators opc =
     (if opc = RISCV_OPCODE_LUI then Some riscv_lui_translator
      else if opc = RISCV_OPCODE_AUIPC then Some riscv_auipc_translator
      else if opc = RISCV_OPCODE_JAL then Some riscv_jal_translator
      else if opc = RISCV_OPCODE_JARL then Some riscv_jalr_translator
      else if opc = RISCV_OPCODE_OP_IMM then Some riscv_arithmetic_immediate_instructions_translation_entry
      else if opc = RISCV_OPCODE_STORE then Some riscv_memory_store_instructions_translation_entry
      else if opc = RISCV_OPCODE_LOAD then Some riscv_memory_load_instructions_translation_entry
      else if opc = RISCV_OPCODE_BRANCH then Some riscv_branch_instructions_translation_entry
      else if opc = RISCV_OPCODE_OP then Some riscv_arithmetic_instructions_translation_entry
      else if opc = RISCV_OPCODE_FENCE then Some riscv_fence_instructions_translation_entry
      else if opc = RISCV_OPCODE_SUPERVISOR_LEVEL then Some riscv_supervisor_level_instructions_translation_entry
      else if opc = RISCV_OPCODE_AMO then Some riscv_amo_instructions_translation_entry
      else None)"

text \<open>The part of \<open>prefetch_one_instruction\<close> after the fetch.\<close>

definition translate_instruction :: instruction_translator where
  "translate_instruction L blob instruction =
     (case translators (ucast (instruction AND 0x7f)) of
        None \<Rightarrow> Stop Assertion
      | Some per_category_translator \<Rightarrow> per_category_translator L blob instruction)"

section \<open>Decoded fields\<close>

abbreviation rd_word :: "u32 \<Rightarrow> u32" where "rd_word w \<equiv> take_bit 5 (drop_bit 7 w)"
abbreviation rs1_word :: "u32 \<Rightarrow> u32" where "rs1_word w \<equiv> take_bit 5 (drop_bit 15 w)"
abbreviation rs2_word :: "u32 \<Rightarrow> u32" where "rs2_word w \<equiv> take_bit 5 (drop_bit 20 w)"

lemma funct7_mask: "take_bit 7 (drop_bit 25 w) = funct7_of w"
  unfolding funct7_of_def by (rule bit_word_eqI) (auto simp: bit_simps dest: bit_imp_le_length)

lemma decode_fields:
  "instruction_decoding_per_type w ENCODING_TYPE_U =
     Some (zeroed_decoding\<lparr>opcode := ucast (opcode_of w), instr_encoding_type := ENCODING_TYPE_U,
       rd_index := ucast (rd_word w), imm := decoded_imm w ENCODING_TYPE_U\<rparr>)"
  "instruction_decoding_per_type w ENCODING_TYPE_UJ =
     Some (zeroed_decoding\<lparr>opcode := ucast (opcode_of w), instr_encoding_type := ENCODING_TYPE_UJ,
       rd_index := ucast (rd_word w), imm := decoded_imm w ENCODING_TYPE_UJ\<rparr>)"
  "instruction_decoding_per_type w ENCODING_TYPE_I =
     Some (zeroed_decoding\<lparr>opcode := ucast (opcode_of w), instr_encoding_type := ENCODING_TYPE_I,
       rd_index := ucast (rd_word w), funct3 := ucast (funct3_of w), rs1_index := ucast (rs1_word w),
       imm := decoded_imm w ENCODING_TYPE_I\<rparr>)"
  "instruction_decoding_per_type w ENCODING_TYPE_S =
     Some (zeroed_decoding\<lparr>opcode := ucast (opcode_of w), instr_encoding_type := ENCODING_TYPE_S,
       funct3 := ucast (funct3_of w), rs1_index := ucast (rs1_word w), rs2_index := ucast (rs2_word w),
       imm := decoded_imm w ENCODING_TYPE_S\<rparr>)"
  "instruction_decoding_per_type w ENCODING_TYPE_B =
     Some (zeroed_decoding\<lparr>opcode := ucast (opcode_of w), instr_encoding_type := ENCODING_TYPE_B,
       funct3 := ucast (funct3_of w), rs1_index := ucast (rs1_word w), rs2_index := ucast (rs2_word w),
       imm := decoded_imm w ENCODING_TYPE_B\<rparr>)"
  "instruction_decoding_per_type w ENCODING_TYPE_R =
     Some (zeroed_decoding\<lparr>opcode := ucast (opcode_of w), instr_encoding_type := ENCODING_TYPE_R,
       funct3 := ucast (funct3_of w), rd_index := ucast (rd_word w), rs1_index := ucast (rs1_word w),
       rs2_index := ucast (rs2_word w), funct7 := ucast (funct7_of w)\<rparr>)"
  by (simp_all add: decoded_imm_def instruction_decoding_per_type_def Let_def funct7_mask opcode_of_def funct3_of_def
      field_masks)

lemma field_words [simp]:
  "ucast (ucast (take_bit 5 x :: u32) :: u8) = take_bit 5 x" "take_bit 5 x < (32 :: u32)" for x :: u32
proof -
  show "ucast (ucast (take_bit 5 x :: u32) :: u8) = take_bit 5 x"
    by (rule bit_word_eqI) (auto simp: bit_simps)
  show "take_bit 5 x < (32 :: u32)"
    using take_bit_nat_less_exp [of 5 "unat x"] by (simp add: word_less_nat_alt unsigned_take_bit_eq)
qed

lemma field_index [simp]:
  "unat (rd_word w) = rd_of w" "unat (rs1_word w) = rs1_of w" "unat (rs2_word w) = rs2_of w"
  by (simp_all add: rd_of_def rs1_of_def rs2_of_def)

lemma funct3_cases: "funct3_of w \<in> {0, 1, 2, 3, 4, 5, 6, 7}"
proof -
  have "unat (funct3_of w) < 8"
    using take_bit_nat_less_exp [of 3 "unat (drop_bit 12 w)"] by (simp add: funct3_of_def unsigned_take_bit_eq)
  then have "unat (funct3_of w) \<in> {0, 1, 2, 3, 4, 5, 6, 7}" by auto
  then show ?thesis by (auto simp: word_unat_eq_iff)
qed

text \<open>The instruction set's immediates, as the translators compute them.\<close>

lemmas translated_immediates = sign_extended_I sign_extended_S sign_extended_B sign_extended_UJ shifted_U

section \<open>Correctness\<close>

text \<open>
  What the code does not emulate: a division that faults on the host, and the exception of a
  jump to a misaligned address.
\<close>

definition emulated :: "u32 \<Rightarrow> machine \<Rightarrow> bool" where
  "emulated w m \<longleftrightarrow> (
     let a = registers (cpu m) (rs1_of w); b = registers (cpu m) (rs2_of w); here = pc (cpu m);
         opc = opcode_of w; f3 = funct3_of w in
     (opc = 0x33 \<and> funct7_of w = 1 \<and> f3 \<in> {4, 6} \<longrightarrow> \<not> (a = 0x80000000 \<and> b = - 1)) \<and>
     (opc = 0x33 \<and> funct7_of w = 1 \<and> f3 \<in> {6, 7} \<longrightarrow> b \<noteq> 0) \<and>
     (opc = 0x6f \<longrightarrow> (here + imm_J w) AND 3 = 0) \<and>
     (opc = 0x67 \<longrightarrow> ((a + imm_I w) AND NOT 1) AND 3 = 0) \<and>
     (opc = 0x63 \<longrightarrow> (here + imm_B w) AND 3 = 0))"

text \<open>The instructions after which a translation unit goes on.\<close>

definition continues :: "u32 \<Rightarrow> bool" where
  "continues w \<longleftrightarrow> opcode_of w \<notin> {0x6f, 0x67, 0x63, 0x73} \<and> \<not> (opcode_of w = 0x0f \<and> funct3_of w = 1)"

text \<open>
  A template with its parameters is right for the word \<open>w\<close> at address \<open>a\<close>: on every machine that is
  about to execute the word there it does what the instruction set prescribes and leaves by \<open>e\<close>;
  it falls through exactly when a translation unit goes on after the instruction, and then the pc
  has moved to the next word.
\<close>

definition block_correct :: "vmm_env \<Rightarrow> u32 \<Rightarrow> u32 \<Rightarrow> indicator \<Rightarrow> u32 list \<Rightarrow> block_exit \<Rightarrow> bool" where
  "block_correct E w a ind ps e \<longleftrightarrow> (e = Next \<longleftrightarrow> continues w) \<and>
     (\<forall>m R. isa_step w m = Some R \<and> emulated w m \<and> registers (cpu m) 0 = 0 \<and>
        pc (cpu m) = a \<and> pc (cpu m) \<notin> set (breakpoints m) \<longrightarrow>
        block_runs E ps (template ind) m (rbind R (\<lambda>_. Ret e)) \<and>
        (e = Next \<longrightarrow> (\<forall>m'. R = Ret () m' \<longrightarrow> pc (cpu m') = pc (cpu m) + 4)))"

text \<open>The translation of a word is right: what the translator emits is right for the word.\<close>

definition translates :: "code_layout \<Rightarrow> vmm_env \<Rightarrow> u32 \<Rightarrow> prefetch_blob \<Rightarrow> bool" where
  "translates L E w blob \<longleftrightarrow> (\<exists>ind ps e.
     translate_instruction L blob w = emit L ind ps (if e = Next then next_instruction else stop_translation) blob \<and>
     block_correct E w (next_instruction_to_fetch blob) ind ps e)"

lemma translatesI:
  assumes "translate_instruction L blob w = emit L ind ps (if e = Next then next_instruction else stop_translation) blob"
    and "\<And>m R. isa_step w m = Some R \<Longrightarrow> emulated w m \<Longrightarrow> registers (cpu m) 0 = 0 \<Longrightarrow>
      next_instruction_to_fetch blob = pc (cpu m) \<Longrightarrow> pc (cpu m) \<notin> set (breakpoints m) \<Longrightarrow>
      block_runs E ps (template ind) m (rbind R (\<lambda>_. Ret e)) \<and>
      (e = Next \<longrightarrow> (\<forall>m'. R = Ret () m' \<longrightarrow> pc (cpu m') = pc (cpu m) + 4))"
    and "e = Next \<longleftrightarrow> continues w"
  shows "translates L E w blob"
proof -
  have "\<forall>m R. isa_step w m = Some R \<and> emulated w m \<and> registers (cpu m) 0 = 0 \<and>
        pc (cpu m) = next_instruction_to_fetch blob \<and> pc (cpu m) \<notin> set (breakpoints m) \<longrightarrow>
        block_runs E ps (template ind) m (rbind R (\<lambda>_. Ret e)) \<and>
        (e = Next \<longrightarrow> (\<forall>m'. R = Ret () m' \<longrightarrow> pc (cpu m') = pc (cpu m) + 4))"
    by (intro allI impI, elim conjE) (rule assms(2); simp)
  then show ?thesis unfolding translates_def block_correct_def using assms(1,3) by blast
qed

lemma state_sel [simp]:
  "pc (cpu (advance m)) = pc (cpu m) + 4" "pc (cpu (write_rd i v m)) = pc (cpu m)" "pc (cpu (zero_x0 m)) = pc (cpu m)"
  by (simp_all add: advance_def goto_def write_rd_def zero_x0_def)

lemma retire_pc [simp]: "pc (cpu (retire rd v m)) = pc (cpu m) + 4"
  by (simp add: retire_def)

lemmas translator_defs = translate_instruction_def translators_def decode_fields zeroed_decoding_def
  riscv_arithmetic_instructions_translation_entry_def riscv_arithmetic_instructions_class0_translation_entry_def
  riscv_mul_div_instructions_translation_entry_def arithmetic_handlers_def mul_div_handlers_def
  riscv_add_sub_translator_def riscv_srl_sra_translator_def

lemma opcode_u8: "ucast (w AND 0x7f) = (ucast (opcode_of w) :: u8)" for w :: u32
  by (simp add: opcode_of_def field_masks)

lemma isa_opcodes:
  "opcode_of w = 0x37 \<Longrightarrow> isa_step w m = Some (Ret () (advance (write_rd (rd_of w) (imm_U w) m)))"
  "opcode_of w = 0x17 \<Longrightarrow> isa_step w m = Some (Ret () (advance (write_rd (rd_of w) (pc (cpu m) + imm_U w) m)))"
  "opcode_of w = 0x6f \<Longrightarrow> isa_step w m = Some (isa_jump (pc (cpu m) + imm_J w) (write_rd (rd_of w) (pc (cpu m) + 4)) m)"
  "opcode_of w = 0x67 \<Longrightarrow> isa_step w m = (if funct3_of w = 0 then Some (isa_jump
     ((registers (cpu m) (rs1_of w) + imm_I w) AND NOT 1) (write_rd (rd_of w) (pc (cpu m) + 4)) m) else None)"
  "opcode_of w = 0x63 \<Longrightarrow> isa_step w m = map_option (\<lambda>taken.
     if taken (registers (cpu m) (rs1_of w)) (registers (cpu m) (rs2_of w)) then isa_jump (pc (cpu m) + imm_B w) id m
     else Ret () (advance m)) (branch_taken (funct3_of w))"
  "opcode_of w = 0x03 \<Longrightarrow> isa_step w m = map_option (\<lambda>r. rbind r (\<lambda>v m'. Ret () (advance (write_rd (rd_of w) v m'))))
     (isa_load (funct3_of w) (registers (cpu m) (rs1_of w) + imm_I w) m)"
  "opcode_of w = 0x23 \<Longrightarrow> isa_step w m = map_option (\<lambda>r. rbind r (\<lambda>_ m'. Ret () (advance m')))
     (isa_store (funct3_of w) (registers (cpu m) (rs1_of w) + imm_S w) (registers (cpu m) (rs2_of w)) m)"
  "opcode_of w = 0x13 \<Longrightarrow> isa_step w m = map_option (\<lambda>f. Ret () (advance (write_rd (rd_of w)
     (f (registers (cpu m) (rs1_of w)) (imm_I w)) m))) (alu_imm_op (funct7_of w) (funct3_of w))"
  "opcode_of w = 0x33 \<Longrightarrow> isa_step w m = map_option (\<lambda>f. Ret () (advance (write_rd (rd_of w)
     (f (registers (cpu m) (rs1_of w)) (registers (cpu m) (rs2_of w))) m))) (alu_op (funct7_of w) (funct3_of w))"
  "opcode_of w = 0x0f \<Longrightarrow> isa_step w m = (if funct3_of w = 0 then Some (Ret () (advance m))
     else if funct3_of w = 1 then Some (Ret () (advance (m\<lparr>cpu := flush_translation_cache (cpu m)\<rparr>))) else None)"
  "opcode_of w = 0x73 \<Longrightarrow> isa_step w m = isa_system w m"
  "opcode_of w = 0x2f \<Longrightarrow> isa_step w m = isa_amo w m"
  by (simp_all add: isa_step_def Let_def)

lemma retire_word:
  assumes "registers (cpu m) 0 = 0"
  shows "advance (write_rd (rd_of w) v m) = retire (rd_word w) v m"
    and "goto t (write_rd (rd_of w) v m) = jump_and_link (rd_word w) v t m"
  using retire_isa [OF assms, of "rd_word w"] by simp_all

subsection \<open>Register-register operations\<close>

lemma register_translates:
  assumes "opcode_of w = 0x33" and "alu_op (funct7_of w) (funct3_of w) = Some f"
    and "translate_instruction L blob w = emit L ind [rs1_word w, rs2_word w, rd_word w] next_instruction blob"
    and "\<And>m. pc (cpu m) \<notin> set (breakpoints m) \<Longrightarrow> emulated w m \<Longrightarrow>
      block_runs E [rs1_word w, rs2_word w, rd_word w] (template ind) m (Ret Next (retire (rd_word w)
        (f (registers (cpu m) (rs1_of w)) (registers (cpu m) (rs2_of w))) m))"
  shows "translates L E w blob"
  by (rule translatesI [where ind = ind and e = Next])
    (use assms in \<open>auto simp: isa_opcodes retire_word retire_pc continues_def\<close>)

lemma division_runs:
  assumes "wf_env E" and "rs1 < 32" and "rs2 < 32" and "rd < 32" and "pc (cpu m) \<notin> set (breakpoints m)"
  defines "a \<equiv> registers (cpu m) (unat rs1)" and "b \<equiv> registers (cpu m) (unat rs2)"
  shows "\<not> (a = 0x80000000 \<and> b = - 1) \<Longrightarrow> block_runs E [rs1, rs2, rd] div_instruction m (Ret Next (retire rd (isa_div a b) m))"
    and "block_runs E [rs1, rs2, rd] divu_instruction m (Ret Next (retire rd (isa_divu a b) m))"
    and "b \<noteq> 0 \<Longrightarrow> \<not> (a = 0x80000000 \<and> b = - 1) \<Longrightarrow>
      block_runs E [rs1, rs2, rd] rem_instruction m (Ret Next (retire rd (isa_rem a b) m))"
    and "b \<noteq> 0 \<Longrightarrow> block_runs E [rs1, rs2, rd] remu_instruction m (Ret Next (retire rd (isa_remu a b) m))"
  using division_blocks [OF assms(1,5,2-4)] by (auto simp: a_def b_def split: if_splits)

lemma op_translates:
  assumes "wf_env E" and op: "opcode_of w = 0x33" and alu: "alu_op (funct7_of w) (funct3_of w) = Some f"
  shows "translates L E w blob"
proof -
  note regs = field_words(2) [of "drop_bit 15 w"] field_words(2) [of "drop_bit 20 w"] field_words(2) [of "drop_bit 7 w"]
  note blocks = register_blocks [OF assms(1) _ regs] multiplication_blocks [OF assms(1) _ regs]
    division_runs [OF assms(1) regs]
  note tr = translator_defs opcode_u8 op riscv_add_translator_def riscv_sll_translator_def riscv_slt_translator_def riscv_sltu_translator_def riscv_xor_translator_def riscv_srl_translator_def
    riscv_or_translator_def riscv_and_translator_def riscv_sub_translator_def riscv_sra_translator_def riscv_mul_translator_def riscv_mulh_translator_def
    riscv_mulhsu_translator_def riscv_mulhu_translator_def riscv_div_translator_def riscv_divu_translator_def riscv_rem_translator_def riscv_remu_translator_def
  note run = blocks [unfolded field_index] emulated_def op Let_def
  have "translates L E w blob" if f: "funct7_of w = 0" "funct3_of w = 0"
    by (rule register_translates [where ind = Add]) (simp add: op, simp add: alu_op_def f, simp add: tr f, simp add: f run)
  moreover have "translates L E w blob" if f: "funct7_of w = 0" "funct3_of w = 1"
    by (rule register_translates [where ind = Sll]) (simp add: op, simp add: alu_op_def f, simp add: tr f, simp add: f run)
  moreover have "translates L E w blob" if f: "funct7_of w = 0" "funct3_of w = 2"
    by (rule register_translates [where ind = Slt]) (simp add: op, simp add: alu_op_def f, simp add: tr f, simp add: f run)
  moreover have "translates L E w blob" if f: "funct7_of w = 0" "funct3_of w = 3"
    by (rule register_translates [where ind = Sltu]) (simp add: op, simp add: alu_op_def f, simp add: tr f, simp add: f run)
  moreover have "translates L E w blob" if f: "funct7_of w = 0" "funct3_of w = 4"
    by (rule register_translates [where ind = Xor]) (simp add: op, simp add: alu_op_def f, simp add: tr f, simp add: f run)
  moreover have "translates L E w blob" if f: "funct7_of w = 0" "funct3_of w = 5"
    by (rule register_translates [where ind = Srl]) (simp add: op, simp add: alu_op_def f, simp add: tr f, simp add: f run)
  moreover have "translates L E w blob" if f: "funct7_of w = 0" "funct3_of w = 6"
    by (rule register_translates [where ind = Or]) (simp add: op, simp add: alu_op_def f, simp add: tr f, simp add: f run)
  moreover have "translates L E w blob" if f: "funct7_of w = 0" "funct3_of w = 7"
    by (rule register_translates [where ind = And]) (simp add: op, simp add: alu_op_def f, simp add: tr f, simp add: f run)
  moreover have "translates L E w blob" if f: "funct7_of w = 0x20" "funct3_of w = 0"
    by (rule register_translates [where ind = Sub]) (simp add: op, simp add: alu_op_def f, simp add: tr f, simp add: f run)
  moreover have "translates L E w blob" if f: "funct7_of w = 0x20" "funct3_of w = 5"
    by (rule register_translates [where ind = Sra]) (simp add: op, simp add: alu_op_def f, simp add: tr f, simp add: f run)
  moreover have "translates L E w blob" if f: "funct7_of w = 1" "funct3_of w = 0"
    by (rule register_translates [where ind = Mul]) (simp add: op, simp add: alu_op_def f, simp add: tr f, simp add: f run)
  moreover have "translates L E w blob" if f: "funct7_of w = 1" "funct3_of w = 1"
    by (rule register_translates [where ind = Mulh]) (simp add: op, simp add: alu_op_def f, simp add: tr f, simp add: f run)
  moreover have "translates L E w blob" if f: "funct7_of w = 1" "funct3_of w = 2"
    by (rule register_translates [where ind = Mulhsu]) (simp add: op, simp add: alu_op_def f, simp add: tr f, simp add: f run)
  moreover have "translates L E w blob" if f: "funct7_of w = 1" "funct3_of w = 3"
    by (rule register_translates [where ind = Mulhu]) (simp add: op, simp add: alu_op_def f, simp add: tr f, simp add: f run)
  moreover have "translates L E w blob" if f: "funct7_of w = 1" "funct3_of w = 4"
    by (rule register_translates [where ind = Div]) (simp add: op, simp add: alu_op_def f, simp add: tr f, simp add: f run)
  moreover have "translates L E w blob" if f: "funct7_of w = 1" "funct3_of w = 5"
    by (rule register_translates [where ind = Divu]) (simp add: op, simp add: alu_op_def f, simp add: tr f, simp add: f run)
  moreover have "translates L E w blob" if f: "funct7_of w = 1" "funct3_of w = 6"
    by (rule register_translates [where ind = Rem]) (simp add: op, simp add: alu_op_def f, simp add: tr f, simp add: f run)
  moreover have "translates L E w blob" if f: "funct7_of w = 1" "funct3_of w = 7"
    by (rule register_translates [where ind = Remu]) (simp add: op, simp add: alu_op_def f, simp add: tr f, simp add: f run)
  ultimately show ?thesis using alu funct3_cases [of w] by (auto simp: alu_op_def split: if_splits)
qed

subsection \<open>Register-immediate operations\<close>

lemma immediate_translates:
  assumes "opcode_of w = 0x13" and "alu_imm_op (funct7_of w) (funct3_of w) = Some f"
    and "translate_instruction L blob w = emit L ind [p, rs1_word w, rd_word w] next_instruction blob"
    and "\<And>m. pc (cpu m) \<notin> set (breakpoints m) \<Longrightarrow>
      block_runs E [p, rs1_word w, rd_word w] (template ind) m (Ret Next (retire (rd_word w)
        (f (registers (cpu m) (rs1_of w)) (imm_I w)) m))"
  shows "translates L E w blob"
  by (rule translatesI [where ind = ind and e = Next])
    (use assms in \<open>auto simp: isa_opcodes retire_word retire_pc continues_def\<close>)

text \<open>A shift takes its count from the low bits of the immediate, its kind from the high bits.\<close>

lemma shift_immediate:
  "shamt (imm_I w) = shamt (decoded_imm w ENCODING_TYPE_I)"
  "decoded_imm w ENCODING_TYPE_I AND 0x400 = 0 \<longleftrightarrow> \<not> bit (funct7_of w) 5"
proof -
  have "take_bit 5 (imm_I w) = take_bit 5 (decoded_imm w ENCODING_TYPE_I)"
    by (rule bit_word_eqI) (auto simp: bit_take_bit_iff imm_I_bits bit_drop_bit_eq)
  then show "shamt (imm_I w) = shamt (decoded_imm w ENCODING_TYPE_I)" by (simp add: shamt_def)
  have "decoded_imm w ENCODING_TYPE_I AND 0x400 = 0 \<longleftrightarrow> \<not> bit (decoded_imm w ENCODING_TYPE_I) 10"
    using and_exp_eq_0_iff_not_bit [of "decoded_imm w ENCODING_TYPE_I" 10] by simp
  then show "decoded_imm w ENCODING_TYPE_I AND 0x400 = 0 \<longleftrightarrow> \<not> bit (funct7_of w) 5"
    by (simp add: bit_take_bit_iff bit_drop_bit_eq funct7_of_def)
qed

lemma op_imm_translates:
  assumes "wf_env E" and op: "opcode_of w = 0x13" and alu: "alu_imm_op (funct7_of w) (funct3_of w) = Some f"
  shows "translates L E w blob"
proof -
  note blocks = immediate_blocks [OF assms(1) _ field_words(2) [of "drop_bit 15 w"] field_words(2) [of "drop_bit 7 w"],
      unfolded field_index]
  note tr = translator_defs opcode_u8 op riscv_arithmetic_immediate_instructions_translation_entry_def
    arithmetic_immediate_handlers_def translated_immediates shift_immediate
    riscv_addi_translator_def riscv_stli_translator_def riscv_stliu_translator_def riscv_xori_translator_def riscv_ori_translator_def riscv_andi_translator_def
    riscv_slli_translator_def riscv_right_shift_translator_def
  have "translates L E w blob" if f: "funct3_of w = 0"
    by (rule immediate_translates [where ind = Addi])
      (simp add: op, simp add: alu_imm_op_def alu_op_def f, simp add: tr f del: decoded_imm_I, simp add: blocks)
  moreover have "translates L E w blob" if f: "funct3_of w = 2"
    by (rule immediate_translates [where ind = Stli])
      (simp add: op, simp add: alu_imm_op_def alu_op_def f, simp add: tr f del: decoded_imm_I, simp add: blocks)
  moreover have "translates L E w blob" if f: "funct3_of w = 3"
    by (rule immediate_translates [where ind = Stliu])
      (simp add: op, simp add: alu_imm_op_def alu_op_def f, simp add: tr f del: decoded_imm_I, simp add: blocks)
  moreover have "translates L E w blob" if f: "funct3_of w = 4"
    by (rule immediate_translates [where ind = Xori])
      (simp add: op, simp add: alu_imm_op_def alu_op_def f, simp add: tr f del: decoded_imm_I, simp add: blocks)
  moreover have "translates L E w blob" if f: "funct3_of w = 6"
    by (rule immediate_translates [where ind = Ori])
      (simp add: op, simp add: alu_imm_op_def alu_op_def f, simp add: tr f del: decoded_imm_I, simp add: blocks)
  moreover have "translates L E w blob" if f: "funct3_of w = 7"
    by (rule immediate_translates [where ind = Andi])
      (simp add: op, simp add: alu_imm_op_def alu_op_def f, simp add: tr f del: decoded_imm_I, simp add: blocks)
  moreover have "translates L E w blob" if f: "funct7_of w = 0" "funct3_of w = 1"
    by (rule immediate_translates [where ind = Slli])
      (simp add: op, simp add: alu_imm_op_def alu_op_def f, simp add: tr f del: decoded_imm_I,
       simp add: blocks shift_immediate del: decoded_imm_I)
  moreover have "translates L E w blob" if f: "funct7_of w = 0" "funct3_of w = 5"
    by (rule immediate_translates [where ind = Srli])
      (simp add: op, simp add: alu_imm_op_def alu_op_def f, simp add: tr f del: decoded_imm_I,
       simp add: blocks shift_immediate del: decoded_imm_I)
  moreover have "translates L E w blob" if f: "funct7_of w = 0x20" "funct3_of w = 5"
    by (rule immediate_translates [where ind = Srai])
      (simp add: op, simp add: alu_imm_op_def alu_op_def f, simp add: tr f del: decoded_imm_I,
       simp add: blocks shift_immediate del: decoded_imm_I)
  ultimately show ?thesis using alu funct3_cases [of w] by (auto simp: alu_imm_op_def alu_op_def split: if_splits)
qed

subsection \<open>Upper immediates, jumps and branches\<close>

lemma clear_bit_0: "unset_bit 0 x = x AND NOT 1" for x :: u32
  by (rule bit_word_eqI) (auto simp: bit_simps bit_unset_bit_iff)

lemma upper_translates:
  assumes "wf_env E" and op: "opcode_of w = 0x37 \<or> opcode_of w = 0x17"
  shows "translates L E w blob"
proof -
  note regs = field_words(2) [of "drop_bit 15 w"] field_words(2) [of "drop_bit 7 w"]
  note blocks = upper_blocks [OF assms(1) _ regs, unfolded field_index]
  note tr = translator_defs opcode_u8 riscv_lui_translator_def riscv_auipc_translator_def
  have "translates L E w blob" if op: "opcode_of w = 0x37"
  proof (rule translatesI [where ind = Lui and e = Next])
    show "translate_instruction L blob w = emit L Lui [decoded_imm w ENCODING_TYPE_U, rd_word w]
        (if Next = Next then next_instruction else stop_translation) blob"
      by (simp add: tr op)
  qed (use blocks(1) in \<open>auto simp: isa_opcodes op retire_word continues_def simp flip: shifted_U\<close>)
  moreover have "translates L E w blob" if op: "opcode_of w = 0x17"
  proof (rule translatesI [where ind = Auipc and e = Next])
    show "translate_instruction L blob w = emit L Auipc [decoded_imm w ENCODING_TYPE_U, rd_word w, next_instruction_to_fetch blob]
        (if Next = Next then next_instruction else stop_translation) blob"
      by (simp add: tr op)
  qed (use blocks(2) in \<open>auto simp: isa_opcodes op retire_word continues_def simp flip: shifted_U\<close>)
  ultimately show ?thesis using op by blast
qed

lemma jump_translates:
  assumes "wf_env E" and op: "opcode_of w = 0x6f \<or> opcode_of w = 0x67"
  shows "translates L E w blob"
proof -
  note regs = field_words(2) [of "drop_bit 15 w"] field_words(2) [of "drop_bit 7 w"]
  note blocks = upper_blocks [OF assms(1) _ regs, unfolded field_index]
  note tr = translator_defs opcode_u8 riscv_jal_translator_def riscv_jalr_translator_def Let_def
  let ?here = "next_instruction_to_fetch blob"
  have "translates L E w blob" if op: "opcode_of w = 0x6f"
  proof (rule translatesI [where ind = Jal_without_target and e = To_vmm])
    show "translate_instruction L blob w = emit L Jal_without_target [rd_word w, ?here + 4, ?here + imm_J w]
        (if To_vmm = Next then next_instruction else stop_translation) blob"
      using sign_extended_UJ [of w] by (simp add: tr op)
  qed (use blocks(3) in \<open>auto simp: isa_opcodes op retire_word continues_def isa_jump_def emulated_def Let_def\<close>)
  moreover have "translates L E w blob" if op: "opcode_of w = 0x67"
  proof (rule translatesI [where ind = Jalr and e = To_vmm])
    show "translate_instruction L blob w = emit L Jalr [rd_word w, ?here + 4, rs1_word w, imm_I w]
        (if To_vmm = Next then next_instruction else stop_translation) blob"
      by (simp add: tr op translated_immediates del: decoded_imm_I)
  qed (use blocks(4) in \<open>auto simp: isa_opcodes op retire_word continues_def isa_jump_def emulated_def Let_def clear_bit_0 split: if_splits\<close>)
  ultimately show ?thesis using op by blast
qed

lemma branch_translates_to:
  assumes "opcode_of w = 0x63" and "branch_taken (funct3_of w) = Some taken"
    and "translate_instruction L blob w = emit L ind [rs1_word w, rs2_word w, next_instruction_to_fetch blob + imm_B w] stop_translation blob"
    and "\<And>m t. pc (cpu m) \<notin> set (breakpoints m) \<Longrightarrow>
      block_runs E [rs1_word w, rs2_word w, t] (template ind) m (Ret To_vmm
        (goto (if taken (registers (cpu m) (rs1_of w)) (registers (cpu m) (rs2_of w)) then t else pc (cpu m) + 4) m))"
  shows "translates L E w blob"
proof (rule translatesI [where ind = ind and e = To_vmm])
  show "translate_instruction L blob w = emit L ind [rs1_word w, rs2_word w, next_instruction_to_fetch blob + imm_B w]
      (if To_vmm = Next then next_instruction else stop_translation) blob" using assms(3) by simp
next
  fix m R
  assume *: "isa_step w m = Some R" "emulated w m" "next_instruction_to_fetch blob = pc (cpu m)" "pc (cpu m) \<notin> set (breakpoints m)"
  let ?taken = "taken (registers (cpu m) (rs1_of w)) (registers (cpu m) (rs2_of w))"
  have R: "R = Ret () (goto (if ?taken then pc (cpu m) + imm_B w else pc (cpu m) + 4) m)"
    using *(1,2) assms(1,2) by (auto simp: isa_opcodes isa_jump_def emulated_def Let_def advance_def)
  show "block_runs E [rs1_word w, rs2_word w, next_instruction_to_fetch blob + imm_B w] (template ind) m
      (rbind R (\<lambda>_. Ret To_vmm)) \<and> (To_vmm = Next \<longrightarrow> (\<forall>m'. R = Ret () m' \<longrightarrow> pc (cpu m') = pc (cpu m) + 4))"
    unfolding R using assms(4) [OF *(4)] *(3) by simp
qed (simp add: continues_def assms(1))

lemma push_bit_1_u32: "push_bit 1 x = x * 2" for x :: u32
  by (simp add: push_bit_eq_mult)

lemma branch_translates:
  assumes "wf_env E" and op: "opcode_of w = 0x63" and taken: "branch_taken (funct3_of w) = Some taken"
  shows "translates L E w blob"
proof -
  note regs = field_words(2) [of "drop_bit 15 w"] field_words(2) [of "drop_bit 20 w"]
  note blocks = branch_blocks [OF assms(1) _ regs, unfolded field_index]
  note tr = translator_defs opcode_u8 op riscv_branch_instructions_translation_entry_def branch_handlers_def Let_def
    sign_extended_B [unfolded push_bit_1_u32]
    riscv_beq_translator_def riscv_bne_translator_def riscv_blt_translator_def riscv_bge_translator_def riscv_bltu_translator_def riscv_bgeu_translator_def
  have "translates L E w blob" if f: "funct3_of w = 0"
    by (rule branch_translates_to [where ind = Beq])
      (simp add: op, simp add: branch_taken_def f, simp add: tr f, simp add: blocks)
  moreover have "translates L E w blob" if f: "funct3_of w = 1"
    by (rule branch_translates_to [where ind = Bne])
      (simp add: op, simp add: branch_taken_def f, simp add: tr f, simp add: blocks)
  moreover have "translates L E w blob" if f: "funct3_of w = 4"
    by (rule branch_translates_to [where ind = Blt])
      (simp add: op, simp add: branch_taken_def f, simp add: tr f, simp add: blocks)
  moreover have "translates L E w blob" if f: "funct3_of w = 5"
    by (rule branch_translates_to [where ind = Bge])
      (simp add: op, simp add: branch_taken_def f, simp add: tr f, simp add: blocks)
  moreover have "translates L E w blob" if f: "funct3_of w = 6"
    by (rule branch_translates_to [where ind = Bltu])
      (simp add: op, simp add: branch_taken_def f, simp add: tr f, simp add: blocks)
  moreover have "translates L E w blob" if f: "funct3_of w = 7"
    by (rule branch_translates_to [where ind = Bgeu])
      (simp add: op, simp add: branch_taken_def f, simp add: tr f, simp add: blocks)
  ultimately show ?thesis using taken funct3_cases [of w] by (auto simp: branch_taken_def split: if_splits)
qed

subsection \<open>Loads and stores\<close>

lemma pmr_cpu:
  "pmr_read pmr a n m = Ret v m' \<Longrightarrow> cpu m' = cpu m"
  "pmr_write pmr a n x m = Ret u m' \<Longrightarrow> cpu m' = cpu m"
  by (auto simp: pmr_read_def pmr_write_def result_simps split: device.splits prod.splits option.splits)

lemma access_cpu:
  "entry_read n e a m = Ret v m' \<Longrightarrow> cpu m' = cpu m" "entry_write n e a x m = Ret u m' \<Longrightarrow> cpu m' = cpu m"
  "direct_read n a m = Ret v m' \<Longrightarrow> cpu m' = cpu m" "direct_write n a x m = Ret u m' \<Longrightarrow> cpu m' = cpu m"
  by (auto simp: entry_read_def entry_write_def direct_read_def direct_write_def result_simps
      dest!: pmr_cpu split: option.split_asm)

lemma tlb_lookup_regs:
  assumes "tlb_lookup dtlb put_dtlb a m = Ret v m'"
  shows "registers (cpu m') = registers (cpu m) \<and> pc (cpu m') = pc (cpu m)"
  using assms by (auto simp: tlb_lookup_def result_simps split: option.splits)

lemma exception_not_Ret: "raise_exception_with_tvalue c t m \<noteq> Ret v m'"
  by (auto simp: raise_exception_with_tvalue_def on_cpu_def raise_exception_internal_def raise_trap_raw_def
      result_simps Let_def rassert_def split: if_splits option.splits)

text \<open>A memory access that returns leaves the registers and the pc alone.\<close>

lemma vmread_regs:
  assumes "vmread n a m = Ret v m'"
  shows "registers (cpu m') = registers (cpu m) \<and> pc (cpu m') = pc (cpu m)"
  using assms
  by (auto simp: vmread_def result_simps exception_not_Ret dest!: access_cpu tlb_lookup_regs
      split: if_split_asm option.split_asm)

lemma vmwrite_regs:
  assumes "vmwrite n a x m = Ret v m'"
  shows "registers (cpu m') = registers (cpu m) \<and> pc (cpu m') = pc (cpu m)"
  using assms
  by (auto simp: vmwrite_def result_simps exception_not_Ret dest!: access_cpu tlb_lookup_regs
      split: if_split_asm option.split_asm)

lemma mmu_read_regs:
  "mmu_read8 a m = Ret b m' \<Longrightarrow> registers (cpu m') = registers (cpu m) \<and> pc (cpu m') = pc (cpu m)"
  "mmu_read16 a m = Ret h m' \<Longrightarrow> registers (cpu m') = registers (cpu m) \<and> pc (cpu m') = pc (cpu m)"
  "mmu_read32 a m = Ret v m' \<Longrightarrow> registers (cpu m') = registers (cpu m) \<and> pc (cpu m') = pc (cpu m)"
  by (auto simp: mmu_read8_def mmu_read16_def mmu_read32_def result_simps dest!: vmread_regs)

lemma mmu_write_regs:
  "mmu_write8 a b m = Ret u m' \<Longrightarrow> registers (cpu m') = registers (cpu m) \<and> pc (cpu m') = pc (cpu m)"
  "mmu_write16 a h m = Ret u m' \<Longrightarrow> registers (cpu m') = registers (cpu m) \<and> pc (cpu m') = pc (cpu m)"
  "mmu_write32 a v m = Ret u m' \<Longrightarrow> registers (cpu m') = registers (cpu m) \<and> pc (cpu m') = pc (cpu m)"
  by (auto simp: mmu_write8_def mmu_write16_def mmu_write32_def dest!: vmwrite_regs)

lemma rbind_Ret_id [simp]: "rbind r Ret = r"
  by (cases r) simp_all

lemma rbind_Ret_cong: "(\<And>a t. r = Ret a t \<Longrightarrow> f a t = g a t) \<Longrightarrow> rbind r f = rbind r g"
  by (cases r) simp_all

text \<open>The common shape of loads: \<open>r\<close> reads memory, \<open>ext\<close> extends what it returns.\<close>

lemma load_translates_to:
  fixes r :: "u32 \<Rightarrow> machine \<Rightarrow> (machine, 'a) result"
  assumes "opcode_of w = 0x03"
    and "\<And>a m. isa_load (funct3_of w) a m = Some (rbind (r a m) (\<lambda>v. Ret (ext v)))"
    and "translate_instruction L blob w = emit L ind [imm_I w, rs1_word w, rd_word w] next_instruction blob"
    and regs: "\<And>a m v m'. r a m = Ret v m' \<Longrightarrow> registers (cpu m') = registers (cpu m) \<and> pc (cpu m') = pc (cpu m)"
    and run: "\<And>m. pc (cpu m) \<notin> set (breakpoints m) \<Longrightarrow> block_runs E [imm_I w, rs1_word w, rd_word w] (template ind) m
      (rbind (r (registers (cpu m) (rs1_of w) + imm_I w) m) (\<lambda>v m'. Ret Next (retire (rd_word w) (ext v) m')))"
  shows "translates L E w blob"
proof (rule translatesI [where ind = ind and e = Next])
  show "translate_instruction L blob w = emit L ind [imm_I w, rs1_word w, rd_word w]
      (if Next = Next then next_instruction else stop_translation) blob" using assms(3) by simp
next
  fix m R
  assume *: "isa_step w m = Some R" "registers (cpu m) 0 = 0" "pc (cpu m) \<notin> set (breakpoints m)"
  let ?r = "r (registers (cpu m) (rs1_of w) + imm_I w) m"
  have R: "R = rbind ?r (\<lambda>v m'. Ret () (advance (write_rd (rd_of w) (ext v) m')))"
    using *(1) assms(1,2) by (auto simp: isa_opcodes rbind_assoc)
  have "rbind R (\<lambda>_. Ret Next) = rbind ?r (\<lambda>v m'. Ret Next (retire (rd_word w) (ext v) m'))"
    unfolding R rbind_assoc using *(2) by (intro rbind_Ret_cong) (auto simp: retire_word dest: regs)
  then show "block_runs E [imm_I w, rs1_word w, rd_word w] (template ind) m (rbind R (\<lambda>_. Ret Next)) \<and>
      (Next = Next \<longrightarrow> (\<forall>m'. R = Ret () m' \<longrightarrow> pc (cpu m') = pc (cpu m) + 4))"
    using run [OF *(3)] by (auto simp: R result_simps dest: regs)
qed (simp add: continues_def assms(1))

lemma load_translates:
  assumes "wf_env E" and op: "opcode_of w = 0x03" and ld: "isa_load (funct3_of w) a m \<noteq> None"
  shows "translates L E w blob"
proof -
  note regs = field_words(2) [of "drop_bit 15 w"] field_words(2) [of "drop_bit 7 w"]
  note blocks = load_blocks [OF assms(1) _ regs, unfolded field_index]
  note tr = translator_defs opcode_u8 op riscv_memory_load_instructions_translation_entry_def memory_load_handlers_def
    translated_immediates riscv_lb_translator_def riscv_lh_translator_def riscv_lw_translator_def riscv_lbu_translator_def riscv_lhu_translator_def
  have "translates L E w blob" if f: "funct3_of w = 0"
    by (rule load_translates_to [where ind = Lb and r = mmu_read8 and ext = scast])
      (simp add: op, simp add: isa_load_def f, simp add: tr f del: decoded_imm_I, erule mmu_read_regs, simp add: blocks)
  moreover have "translates L E w blob" if f: "funct3_of w = 1"
    by (rule load_translates_to [where ind = Lh and r = mmu_read16 and ext = scast])
      (simp add: op, simp add: isa_load_def f, simp add: tr f del: decoded_imm_I, erule mmu_read_regs, simp add: blocks)
  moreover have "translates L E w blob" if f: "funct3_of w = 2"
    by (rule load_translates_to [where ind = Lw and r = mmu_read32 and ext = "\<lambda>v. v"])
      (simp add: op, simp add: isa_load_def f, simp add: tr f del: decoded_imm_I, erule mmu_read_regs, simp add: blocks)
  moreover have "translates L E w blob" if f: "funct3_of w = 4"
    by (rule load_translates_to [where ind = Lbu and r = mmu_read8 and ext = ucast])
      (simp add: op, simp add: isa_load_def f, simp add: tr f del: decoded_imm_I, erule mmu_read_regs, simp add: blocks)
  moreover have "translates L E w blob" if f: "funct3_of w = 5"
    by (rule load_translates_to [where ind = Lhu and r = mmu_read16 and ext = ucast])
      (simp add: op, simp add: isa_load_def f, simp add: tr f del: decoded_imm_I, erule mmu_read_regs, simp add: blocks)
  ultimately show ?thesis using ld funct3_cases [of w] by (auto simp: isa_load_def split: if_splits)
qed

lemma store_translates_to:
  assumes "opcode_of w = 0x23" and "\<And>a v m. isa_store (funct3_of w) a v m = Some (st a v m)"
    and "translate_instruction L blob w = emit L ind [imm_S w, rs1_word w, rs2_word w] next_instruction blob"
    and regs: "\<And>a v m u m'. st a v m = Ret u m' \<Longrightarrow> registers (cpu m') = registers (cpu m) \<and> pc (cpu m') = pc (cpu m)"
    and run: "\<And>m. pc (cpu m) \<notin> set (breakpoints m) \<Longrightarrow> block_runs E [imm_S w, rs1_word w, rs2_word w] (template ind) m
      (rbind (st (registers (cpu m) (rs1_of w) + imm_S w) (registers (cpu m) (rs2_of w)) m) (\<lambda>_ m'. Ret Next (advance m')))"
  shows "translates L E w blob"
  by (rule translatesI [where ind = ind and e = Next])
    (use assms in \<open>auto simp: isa_opcodes rbind_assoc result_simps continues_def\<close>)

lemma store_translates:
  assumes "wf_env E" and op: "opcode_of w = 0x23" and st: "isa_store (funct3_of w) a v m \<noteq> None"
  shows "translates L E w blob"
proof -
  note regs = field_words(2) [of "drop_bit 15 w"] field_words(2) [of "drop_bit 20 w"]
  note blocks = store_blocks [OF assms(1) _ regs, unfolded field_index]
  note tr = translator_defs opcode_u8 op riscv_memory_store_instructions_translation_entry_def memory_store_handlers_def
    translated_immediates riscv_sb_translator_def riscv_sh_translator_def riscv_sw_translator_def
  have "translates L E w blob" if f: "funct3_of w = 0"
    by (rule store_translates_to [where ind = Sb and st = "\<lambda>a v. mmu_write8 a (ucast v)"])
      (simp add: op, simp add: isa_store_def f, simp add: tr f, erule mmu_write_regs, simp add: blocks)
  moreover have "translates L E w blob" if f: "funct3_of w = 1"
    by (rule store_translates_to [where ind = Sh and st = "\<lambda>a v. mmu_write16 a (ucast v)"])
      (simp add: op, simp add: isa_store_def f, simp add: tr f, erule mmu_write_regs, simp add: blocks)
  moreover have "translates L E w blob" if f: "funct3_of w = 2"
    by (rule store_translates_to [where ind = Sw and st = mmu_write32])
      (simp add: op, simp add: isa_store_def f, simp add: tr f, erule mmu_write_regs, simp add: blocks)
  ultimately show ?thesis using st funct3_cases [of w] by (auto simp: isa_store_def split: if_splits)
qed

subsection \<open>Fences, system and atomic instructions\<close>

lemma fence_translates:
  assumes "wf_env E" and op: "opcode_of w = 0x0f" and f: "funct3_of w = 0 \<or> funct3_of w = 1"
  shows "translates L E w blob"
proof -
  note tr = translator_defs opcode_u8 op riscv_fence_instructions_translation_entry_def fence_handlers_def
    riscv_fence_translator_def riscv_fence_i_translator_def
  have "translates L E w blob" if f: "funct3_of w = 0"
    by (rule translatesI [where ind = Fence and e = Next and ps = "[next_instruction_to_fetch blob]"])
      (simp add: tr f, use system_blocks(1) [OF assms(1)] in \<open>auto simp: isa_opcodes op f continues_def\<close>)
  moreover have "translates L E w blob" if f: "funct3_of w = 1"
    by (rule translatesI [where ind = Fence_i and e = To_vmm and ps = "[next_instruction_to_fetch blob]"])
      (simp add: tr f, use system_blocks(2) [OF assms(1)] in \<open>auto simp: isa_opcodes op f continues_def\<close>)
  ultimately show ?thesis using f by blast
qed

lemma system_fields:
  "drop_bit 12 w AND 7 = funct3_of w" "drop_bit 5 (decoded_imm w ENCODING_TYPE_S) AND 0x7f = funct7_of w"
proof -
  show "drop_bit 12 w AND 7 = funct3_of w" by (simp add: funct3_of_def field_masks)
  have "take_bit 7 (drop_bit 5 (decoded_imm w ENCODING_TYPE_S)) = take_bit 7 (drop_bit 25 w)"
    by (rule bit_word_eqI) (auto simp: bit_take_bit_iff bit_drop_bit_eq decoded_imm_S_bit less_Suc_eq numeral_eq_Suc)
  then show "drop_bit 5 (decoded_imm w ENCODING_TYPE_S) AND 0x7f = funct7_of w" by (simp add: field_masks funct7_mask)
qed

lemmas system_defs = translator_defs opcode_u8 riscv_supervisor_level_instructions_translation_entry_def
  supervisor_level_handlers_def riscv_funct3_000_translator_def system_fields

lemma system_words:
  "translate_instruction L blob 0x00000073 = emit L Ecall [next_instruction_to_fetch blob] stop_translation blob"
  "translate_instruction L blob 0x30200073 = emit L Mret [next_instruction_to_fetch blob] stop_translation blob"
  "translate_instruction L blob 0x10200073 = emit L Sret [next_instruction_to_fetch blob] stop_translation blob"
  "translate_instruction L blob 0x10500073 = emit L Wfi [next_instruction_to_fetch blob] stop_translation blob"
  by (simp_all add: system_defs opcode_of_def funct3_of_def funct7_of_def decoded riscv_ecall_translator_def
      riscv_mret_translator_def riscv_sret_translator_def riscv_wfi_translator_def)

lemma system_translates:
  assumes "wf_env E" and op: "opcode_of w = 0x73" and sys: "isa_system w m \<noteq> None"
  shows "translates L E w blob"
proof -
  note blocks = system_blocks [OF assms(1), of _ "next_instruction_to_fetch blob"]
  note words = isa_opcodes isa_system_def wfi_callback_def rbind_assoc
  have op_word: "opcode_of 0x73 = 0x73" "opcode_of 0x30200073 = 0x73" "opcode_of 0x10200073 = 0x73"
    "opcode_of 0x10500073 = 0x73" by (simp_all add: opcode_of_def)
  have "translates L E w blob" if "w = 0x00000073"
    unfolding that by (rule translatesI [where ind = Ecall and e = To_vmm])
      (simp add: system_words, use blocks(6) in \<open>auto simp: words op_word continues_def\<close>)
  moreover have "translates L E w blob" if "w = 0x30200073"
    unfolding that by (rule translatesI [where ind = Mret and e = To_vmm])
      (simp add: system_words, use blocks(4) in \<open>auto simp: words op_word continues_def\<close>)
  moreover have "translates L E w blob" if "w = 0x10200073"
    unfolding that by (rule translatesI [where ind = Sret and e = To_vmm])
      (simp add: system_words, use blocks(5) in \<open>auto simp: words op_word continues_def\<close>)
  moreover have "translates L E w blob" if "w = 0x10500073"
    unfolding that by (rule translatesI [where ind = Wfi and e = To_vmm])
      (simp add: system_words, use blocks(8) in \<open>auto simp: words op_word continues_def\<close>)
  moreover have "translates L E w blob" if f: "funct3_of w = 0" "funct7_of w = 9"
    and n: "w \<notin> {0x73, 0x30200073, 0x10200073, 0x10500073}"
    by (rule translatesI [where ind = Sfence_vma and e = To_vmm and ps = "[next_instruction_to_fetch blob]"])
      (simp add: system_defs op f riscv_sfence_vma_translator_def,
       use blocks(3) n in \<open>auto simp: words op f continues_def split: if_split_asm\<close>)
  moreover have "translates L E w blob" if f: "funct3_of w \<noteq> 0" "funct3_of w \<noteq> 4"
    and n: "w \<notin> {0x73, 0x30200073, 0x10200073, 0x10500073}"
  proof (rule translatesI [where ind = Csr_instructions and e = To_vmm and ps = "[w]"])
    show "translate_instruction L blob w = emit L Csr_instructions [w]
        (if To_vmm = Next then next_instruction else stop_translation) blob"
      using f funct3_cases [of w]
      by (auto simp: system_defs op riscv_generic_csr_instructions_translator_def)
  qed (use system_blocks(9) [OF assms(1), of _ w] f n in \<open>auto simp: words op continues_def\<close>)
  ultimately show ?thesis using sys by (auto simp: isa_system_def split: if_split_asm)
qed

lemma amo_fields:
  "drop_bit 2 (ucast (funct7_of w) :: u8) = ucast (drop_bit 2 (funct7_of w))"
  "ucast (ucast (drop_bit 2 (funct7_of w)) :: u8) = drop_bit 2 (funct7_of w)"
  "ucast (rs1_word w) = (of_nat (rs1_of w) :: u8)" "ucast (rs2_word w) = (of_nat (rs2_of w) :: u8)"
  "ucast (rd_word w) = (of_nat (rd_of w) :: u8)"
proof -
  have b: "bit (funct7_of w) n \<Longrightarrow> n < 7" for n by (auto simp: funct7_of_def bit_simps dest: bit_imp_le_length)
  show "drop_bit 2 (ucast (funct7_of w) :: u8) = ucast (drop_bit 2 (funct7_of w))"
    "ucast (ucast (drop_bit 2 (funct7_of w)) :: u8) = drop_bit 2 (funct7_of w)"
    using b by (intro bit_word_eqI; force simp: bit_simps)+
  show "ucast (rs1_word w) = (of_nat (rs1_of w) :: u8)" "ucast (rs2_word w) = (of_nat (rs2_of w) :: u8)"
    "ucast (rd_word w) = (of_nat (rd_of w) :: u8)"
    by (simp_all add: rs1_of_def rs2_of_def rd_of_def del: field_index)
qed

lemma aligned_access_regs:
  "mmu_read32_aligned a m = Ret v m' \<Longrightarrow> registers (cpu m') = registers (cpu m) \<and> pc (cpu m') = pc (cpu m)"
  "mmu_write32_aligned a x m = Ret u m' \<Longrightarrow> registers (cpu m') = registers (cpu m) \<and> pc (cpu m') = pc (cpu m)"
  by (auto simp: mmu_read32_aligned_def mmu_write32_aligned_def exception_not_Ret mmu_read_regs mmu_write_regs split: if_split_asm)

lemma amo_pc:
  assumes "amo_instruction_slowpath i j k f5 m = Ret u m'"
  shows "pc (cpu m') = pc (cpu m)"
  using assms
  by (auto simp: amo_instruction_slowpath_def amoadd_slowpath_def amoswap_slowpath_def lr_slowpath_def sc_slowpath_def
      amoxor_slowpath_def amoor_slowpath_def amoand_slowpath_def result_simps Let_def set_hart_reg_def
      dest!: aligned_access_regs split: if_split_asm option.split_asm)

lemma amo_translates:
  assumes "wf_env E" and op: "opcode_of w = 0x2f" and amo: "isa_amo w m \<noteq> None"
  shows "translates L E w blob"
proof (rule translatesI [where ind = Amo and e = Next])
  have f5: "drop_bit 2 (funct7_of w) \<in> {0, 1, 2, 3, 4, 8, 0xc}"
    using amo by (auto simp: isa_amo_def Let_def split: if_split_asm)
  show "translate_instruction L blob w = emit L Amo [rs1_word w, rs2_word w, rd_word w, drop_bit 2 (funct7_of w)]
      (if Next = Next then next_instruction else stop_translation) blob"
    using f5 by (auto simp: translator_defs opcode_u8 op riscv_amo_instructions_translation_entry_def amo_handlers_def
        riscv_amo_translator_def amo_fields(1,2))
next
  fix m R
  assume *: "isa_step w m = Some R" "pc (cpu m) \<notin> set (breakpoints m)"
  let ?r = "amo_instruction_slowpath (of_nat (rs1_of w)) (of_nat (rs2_of w)) (of_nat (rd_of w)) (drop_bit 2 (funct7_of w)) m"
  have R: "R = rbind ?r (\<lambda>_ m'. Ret () (advance (zero_x0 m')))"
    using *(1) by (simp add: isa_opcodes op isa_amo_def Let_def split: if_split_asm)
  show "block_runs E [rs1_word w, rs2_word w, rd_word w, drop_bit 2 (funct7_of w)] (template Amo) m (rbind R (\<lambda>_. Ret Next)) \<and>
      (Next = Next \<longrightarrow> (\<forall>m'. R = Ret () m' \<longrightarrow> pc (cpu m') = pc (cpu m) + 4))"
    using amo_block [OF assms(1) *(2), of "rs1_word w" "rs2_word w" "rd_word w"]
    by (auto simp: R rbind_assoc amo_fields(3-5) result_simps dest: amo_pc)
qed (simp add: continues_def op)

section \<open>The translation is correct\<close>

lemma instruction_translates:
  assumes "wf_env E" and "isa_step w m = Some R"
  shows "translates L E w blob"
proof -
  have "opcode_of w \<in> {0x37, 0x17, 0x6f, 0x67, 0x63, 0x03, 0x23, 0x13, 0x33, 0x0f, 0x73, 0x2f}"
    using assms(2) by (auto simp: isa_step_def Let_def split: if_split_asm)
  then show ?thesis
    using assms(2) op_translates [OF assms(1), of w _ L blob] op_imm_translates [OF assms(1), of w _ L blob]
      upper_translates [OF assms(1), of w L blob] jump_translates [OF assms(1), of w L blob]
      branch_translates [OF assms(1), of w _ L blob] load_translates [OF assms(1), of w _ m L blob]
      store_translates [OF assms(1), of w _ _ m L blob] fence_translates [OF assms(1), of w L blob]
      system_translates [OF assms(1), of w m L blob] amo_translates [OF assms(1), of w m L blob]
    by (elim insertE emptyE) (auto simp: isa_opcodes split: if_split_asm)
qed


text \<open>An environment for the examples: function \<open>i\<close> of the list at address \<open>i\<close>.\<close>

definition vmm_symbols :: "vmm_symbol list" where
  "vmm_symbols = [Enter_vmm_dbg_shell, Mmu_read8, Mmu_read16, Mmu_read32, Mmu_write8, Mmu_write16, Mmu_write32,
     Flush_translation_cache, Ebreak_callback, Mret_callback, Sret_callback, Sfence_vma_callback, Ecall_callback,
     Wfi_callback, Riscv_generic_csr_callback, Amo_instruction_slowpath]"

definition example_env :: vmm_env where
  "example_env = \<lparr>hart_addr = 0x10000, fn_addr = (\<lambda>f. of_nat (length (takeWhile (\<lambda>g. g \<noteq> f) vmm_symbols))),
     fn_at = (\<lambda>a. if unat a < length vmm_symbols then Some (vmm_symbols ! unat a) else None),
     clobber = (\<lambda>_ _ _. 0xdeadbeef), dbg_shell = Ret ()\<rparr>"

lemma wf_env_example: "wf_env example_env"
  unfolding wf_env_def
proof
  fix f
  show "fn_at example_env (fn_addr example_env f) = Some f"
    by (cases f) (simp_all add: example_env_def vmm_symbols_def)
qed


text \<open>
  C36. Where the translated division does not do what the instruction set prescribes: with a divisor
  of zero the quotient instructions give all ones, as they should, but the remainder instructions
  divide by zero on the host and end the vmm; the overflowing signed division ends it as well.
\<close>

theorem division_host_faults:
  assumes "wf_env E" and "pc (cpu m) \<notin> set (breakpoints m)" and "rs1 < 32" and "rs2 < 32" and "rd < 32"
  defines "a \<equiv> registers (cpu m) (unat rs1)" and "b \<equiv> registers (cpu m) (unat rs2)" and "ps \<equiv> [rs1, rs2, rd]"
  shows "(b = 0 \<longrightarrow> block_runs E ps (template Div) m (Ret Next (retire rd (- 1) m)) \<and>
      block_runs E ps (template Divu) m (Ret Next (retire rd (- 1) m)) \<and>
      block_runs E ps (template Rem) m (Stop Host_fault) \<and> block_runs E ps (template Remu) m (Stop Host_fault)) \<and>
    (a = 0x80000000 \<and> b = - 1 \<longrightarrow> block_runs E ps (template Div) m (Stop Host_fault) \<and>
      block_runs E ps (template Rem) m (Stop Host_fault))"
  using division_blocks [OF assms(1-5)]
  by (auto simp: a_def b_def ps_def isa_div_def isa_divu_def split: if_split_asm)

text \<open>C36 with register 3, which is zero, as the divisor.\<close>

theorem division_host_faults_witness: "block_runs example_env [1, 3, 4] (template Rem) atomic_machine (Stop Host_fault)"
proof -
  have "pc (cpu atomic_machine) \<notin> set (breakpoints atomic_machine)"
    by (simp add: atomic_machine_def example_machine_def)
  from division_host_faults [OF wf_env_example this, of 1 3 4] show ?thesis by simp
qed

end
