(* ===== verification/Vmm.thy ===== *)
theory Vmm
  imports Translate
begin

text \<open>
  The execution engine (\<^verbatim>\<open>vmm/translation.c\<close>, \<^verbatim>\<open>vmm/vmm_trap.S\<close>): translation of a unit of guest code
  until a branch, a cached instruction or a full cache; the entry of the translated code; and the
  return to the vmm, which lets the devices run and delivers interrupts before it resumes.
\<close>

section \<open>Prefetch\<close>

definition prefetch_one_instruction :: "code_layout \<Rightarrow> prefetch_blob \<Rightarrow> machine \<Rightarrow> (machine, prefetch_blob) result" where
  "prefetch_one_instruction L blob m =
     rbind (mmu_instruction_read32 (next_instruction_to_fetch blob) m) (\<lambda>instruction m1.
       case translate_instruction L (blob\<lparr>opaque := cpu m1\<rparr>) instruction of
         Ret _ blob' \<Rightarrow> Ret blob' (m1\<lparr>cpu := opaque blob'\<rparr>)
       | Trap blob' \<Rightarrow> Trap (m1\<lparr>cpu := opaque blob'\<rparr>)
       | Stop e \<Rightarrow> Stop e)"

subsection \<open>Progress of a translator\<close>

text \<open>Every translator ends in a failed assertion or in one \<open>emit\<close>.\<close>

definition emits :: "code_layout \<Rightarrow> prefetch_blob \<Rightarrow> (prefetch_blob, unit) result \<Rightarrow> bool" where
  "emits L blob r \<longleftrightarrow> r = Stop Assertion \<or>
     (\<exists>ind ps after. r = emit L ind ps after blob \<and> after \<in> {next_instruction, stop_translation})"

lemma emits_intros [intro]:
  "emits L blob (Stop Assertion)"
  "emits L blob (emit L ind ps next_instruction blob)" "emits L blob (emit L ind ps stop_translation blob)"
  "emits L blob r \<Longrightarrow> emits L blob (rassert P r)"
  by (auto simp: emits_def rassert_def)

lemma sub_translators_emit:
  "branch_handlers i = Some t \<Longrightarrow> emits L blob (t L dec blob w)"
  "memory_load_handlers i = Some t \<Longrightarrow> emits L blob (t L dec blob w)"
  "memory_store_handlers i = Some t \<Longrightarrow> emits L blob (t L dec blob w)"
  "arithmetic_immediate_handlers i = Some t \<Longrightarrow> emits L blob (t L dec blob w)"
  "fence_handlers i = Some t \<Longrightarrow> emits L blob (t L dec blob w)"
  "amo_handlers i = Some t \<Longrightarrow> emits L blob (t L dec blob w)"
  by (auto simp: branch_handlers_def riscv_beq_translator_def riscv_bne_translator_def riscv_blt_translator_def
      riscv_bge_translator_def riscv_bltu_translator_def riscv_bgeu_translator_def Let_def
      memory_load_handlers_def riscv_lb_translator_def riscv_lh_translator_def riscv_lw_translator_def
      riscv_lbu_translator_def riscv_lhu_translator_def
      memory_store_handlers_def riscv_sb_translator_def riscv_sh_translator_def riscv_sw_translator_def
      arithmetic_immediate_handlers_def riscv_addi_translator_def riscv_slli_translator_def riscv_stli_translator_def
      riscv_stliu_translator_def riscv_xori_translator_def riscv_right_shift_translator_def riscv_ori_translator_def
      riscv_andi_translator_def
      fence_handlers_def riscv_fence_translator_def riscv_fence_i_translator_def
      amo_handlers_def riscv_amo_translator_def split: if_split_asm)

lemma arithmetic_translators_emit:
  "arithmetic_handlers i = Some t \<Longrightarrow> emits L blob (t L dec blob w)"
  "mul_div_handlers i = Some t \<Longrightarrow> emits L blob (t L dec blob w)"
  by (auto simp: arithmetic_handlers_def riscv_add_sub_translator_def riscv_srl_sra_translator_def riscv_add_translator_def
      riscv_sub_translator_def riscv_sll_translator_def riscv_slt_translator_def riscv_sltu_translator_def
      riscv_xor_translator_def riscv_srl_translator_def riscv_sra_translator_def riscv_or_translator_def
      riscv_and_translator_def
      mul_div_handlers_def riscv_mul_translator_def riscv_mulh_translator_def riscv_mulhsu_translator_def
      riscv_mulhu_translator_def riscv_div_translator_def riscv_divu_translator_def riscv_rem_translator_def
      riscv_remu_translator_def split: if_split_asm)

lemma system_translators_emit: "supervisor_level_handlers i = Some t \<Longrightarrow> emits L blob (t L dec blob w)"
  by (auto simp: supervisor_level_handlers_def riscv_funct3_000_translator_def riscv_generic_csr_instructions_translator_def
      riscv_sfence_vma_translator_def riscv_wfi_translator_def riscv_ebreak_translator_def riscv_mret_translator_def
      riscv_sret_translator_def riscv_ecall_translator_def Let_def split: if_split_asm)

lemma entries_emit:
  "emits L blob (riscv_lui_translator L blob w)" "emits L blob (riscv_auipc_translator L blob w)"
  "emits L blob (riscv_jal_translator L blob w)" "emits L blob (riscv_jalr_translator L blob w)"
  "emits L blob (riscv_arithmetic_immediate_instructions_translation_entry L blob w)"
  "emits L blob (riscv_memory_store_instructions_translation_entry L blob w)"
  "emits L blob (riscv_memory_load_instructions_translation_entry L blob w)"
  "emits L blob (riscv_branch_instructions_translation_entry L blob w)"
  "emits L blob (riscv_fence_instructions_translation_entry L blob w)"
  "emits L blob (riscv_supervisor_level_instructions_translation_entry L blob w)"
  "emits L blob (riscv_amo_instructions_translation_entry L blob w)"
  by (auto simp: riscv_lui_translator_def riscv_auipc_translator_def riscv_jal_translator_def riscv_jalr_translator_def Let_def
      riscv_arithmetic_immediate_instructions_translation_entry_def riscv_memory_store_instructions_translation_entry_def
      riscv_memory_load_instructions_translation_entry_def riscv_branch_instructions_translation_entry_def
      riscv_fence_instructions_translation_entry_def riscv_supervisor_level_instructions_translation_entry_def
      riscv_amo_instructions_translation_entry_def sub_translators_emit system_translators_emit
      simp del: decode_fields split: option.split)

lemma arithmetic_entry_emits: "emits L blob (riscv_arithmetic_instructions_translation_entry L blob w)"
  by (auto simp: riscv_arithmetic_instructions_translation_entry_def
      riscv_arithmetic_instructions_class0_translation_entry_def riscv_mul_div_instructions_translation_entry_def
      arithmetic_translators_emit split: option.split)

lemma translate_instruction_emits: "emits L blob (translate_instruction L blob w)"
proof -
  have "emits L blob (t L blob w)" if "translators opc = Some t" for opc t
    using that by (auto simp: translators_def entries_emit arithmetic_entry_emits split: if_split_asm)
  then show ?thesis by (auto simp: translate_instruction_def split: option.split)
qed

lemma length_INSERTION_SORT: "INSERTION_SORT cmp xs = Some r \<Longrightarrow> length r = length xs"
  by (auto simp: INSERTION_SORT_def Let_def bind_eq_Some_conv split: if_split_asm)

lemma commit_progress:
  assumes "COMMIT_TRANSLATION L ind ps h a = Ret () h'"
  shows "length (pc_mappings h') = length (pc_mappings h) + 1 \<and>
    length (pc_mappings h) < MAX_INSTRUCTIONS_TOTRANSLATE \<and>
    translation_cache_ptr h' = translation_cache_ptr h + translation_size L ind \<and>
    translation_size L ind \<le> unoccupied_cache_size L h"
  using assms
  by (auto simp: COMMIT_TRANSLATION_def add_translation_item_def commit_params_def result_simps rassert_def Let_def
      dest!: length_INSERTION_SORT split: if_split_asm option.split_asm tc_block.split_asm)

text \<open>
  What bounds the loop: a translation unit flushes the cache at most once, and the number of
  mapped instructions only grows otherwise.
\<close>

definition prefetch_measure :: "bool \<Rightarrow> hart \<Rightarrow> nat" where
  "prefetch_measure flushable h =
     (if flushable then MAX_INSTRUCTIONS_TOTRANSLATE + 1 else 0) + (MAX_INSTRUCTIONS_TOTRANSLATE - length (pc_mappings h))"

lemma emit_progress:
  assumes "emit L ind ps after blob = Ret () blob'" and "\<not> is_to_stop blob'"
    and "after \<in> {next_instruction, stop_translation}"
  shows "prefetch_measure (is_flushable blob') (opaque blob') < prefetch_measure (is_flushable blob) (opaque blob)"
  using assms
  by (auto simp: emit_def PRECHECK_TRANSLATION_CACHE_def result_simps prefetch_measure_def next_instruction_def
      stop_translation_def flush_translation_cache_def dest!: commit_progress split: if_split_asm)

lemma translate_progress:
  assumes "translate_instruction L blob w = Ret u blob'" and "\<not> is_to_stop blob'"
  shows "prefetch_measure (is_flushable blob') (opaque blob') < prefetch_measure (is_flushable blob) (opaque blob)"
  using translate_instruction_emits [of L blob w] assms emit_progress by (auto simp: emits_def)

lemma instruction_read_mappings:
  assumes "mmu_instruction_read32 a m = Ret w m'"
  shows "pc_mappings (cpu m') = pc_mappings (cpu m)" and "translation_cache (cpu m') = translation_cache (cpu m)"
    and "translation_cache_ptr (cpu m') = translation_cache_ptr (cpu m)" and "pc (cpu m') = pc (cpu m)"
proof -
  have "tlb_lookup itlb put_itlb a m = Ret e m1 \<Longrightarrow> \<exists>tlb. cpu m1 = put_itlb tlb (cpu m)" for e m1
    by (auto simp: tlb_lookup_def result_simps intro: exI [of _ "itlb (cpu m)"] split: option.split_asm)
  then have "\<exists>tlb. cpu m' = put_itlb tlb (cpu m)"
    using assms
    by (auto simp: mmu_instruction_read32_def result_simps exception_not_Ret dest!: access_cpu
        intro: exI [of _ "itlb (cpu m)"] split: if_split_asm option.split_asm)
  then show "pc_mappings (cpu m') = pc_mappings (cpu m)" "translation_cache (cpu m') = translation_cache (cpu m)"
    "translation_cache_ptr (cpu m') = translation_cache_ptr (cpu m)" "pc (cpu m') = pc (cpu m)" by auto
qed

lemma prefetch_one_Ret:
  assumes "prefetch_one_instruction L blob m = Ret blob' m'"
  shows "\<exists>w m1. mmu_instruction_read32 (next_instruction_to_fetch blob) m = Ret w m1 \<and>
    translate_instruction L (blob\<lparr>opaque := cpu m1\<rparr>) w = Ret () blob' \<and> m' = m1\<lparr>cpu := opaque blob'\<rparr>"
proof -
  obtain w m1 where f: "mmu_instruction_read32 (next_instruction_to_fetch blob) m = Ret w m1"
    and t: "(case translate_instruction L (blob\<lparr>opaque := cpu m1\<rparr>) w of
         Ret _ blob' \<Rightarrow> Ret blob' (m1\<lparr>cpu := opaque blob'\<rparr>)
       | Trap blob' \<Rightarrow> Trap (m1\<lparr>cpu := opaque blob'\<rparr>)
       | Stop e \<Rightarrow> Stop e) = Ret blob' m'"
    using assms by (auto simp: prefetch_one_instruction_def rbind_eq_Ret)
  from t have "translate_instruction L (blob\<lparr>opaque := cpu m1\<rparr>) w = Ret () blob' \<and> m' = m1\<lparr>cpu := opaque blob'\<rparr>"
    by (cases "translate_instruction L (blob\<lparr>opaque := cpu m1\<rparr>) w") auto
  then show ?thesis using f by blast
qed

lemma prefetch_progress:
  assumes "prefetch_one_instruction L blob m = Ret blob' m'" and "\<not> is_to_stop blob'"
  shows "prefetch_measure (is_flushable blob') (cpu m') < prefetch_measure (is_flushable blob) (cpu m)"
proof -
  obtain w m1 where f: "mmu_instruction_read32 (next_instruction_to_fetch blob) m = Ret w m1"
    and t: "translate_instruction L (blob\<lparr>opaque := cpu m1\<rparr>) w = Ret () blob'" "m' = m1\<lparr>cpu := opaque blob'\<rparr>"
    using prefetch_one_Ret [OF assms(1)] by blast
  show ?thesis using translate_progress [OF t(1) assms(2)] t(2) instruction_read_mappings(1) [OF f]
    by (simp add: prefetch_measure_def)
qed

subsection \<open>The loop\<close>

function prefetch_loop :: "code_layout \<Rightarrow> prefetch_blob \<Rightarrow> machine \<Rightarrow> (machine, unit) result" where
  "prefetch_loop L blob m =
     (case search_translation_item (cpu m) (next_instruction_to_fetch blob) of
        Some _ \<Rightarrow> Ret () m
      | None \<Rightarrow> rbind (prefetch_one_instruction L blob m) (\<lambda>blob' m'.
          if is_to_stop blob' then Ret () m' else prefetch_loop L blob' m'))"
  by pat_completeness auto
termination
  by (relation "measure (\<lambda>(L, blob, m). prefetch_measure (is_flushable blob) (cpu m))")
    (auto dest: prefetch_progress)

declare prefetch_loop.simps [simp del]

definition append_jumper :: "code_layout \<Rightarrow> hart \<Rightarrow> hart" where
  "append_jumper L h =
     h\<lparr>translation_cache := tc_memcpy (translation_cache h) (translation_cache_ptr h) (jumper_size L) Jumper,
       translation_cache_ptr := translation_cache_ptr h + jumper_size L\<rparr>"

definition prefetch_instructions :: "code_layout \<Rightarrow> machine \<Rightarrow> (machine, unit) result" where
  "prefetch_instructions L m = (
     let blob = \<lparr>next_instruction_to_fetch = pc (cpu m), is_to_stop = False, is_flushable = True, opaque = cpu m\<rparr>;
         old_trans_ptr = translation_cache_ptr (cpu m) in
     rbind (prefetch_loop L blob m) (\<lambda>_ m'.
       Ret () (if old_trans_ptr \<noteq> translation_cache_ptr (cpu m') then m'\<lparr>cpu := append_jumper L (cpu m')\<rparr> else m')))"

section \<open>Running guest code\<close>

text \<open>\<open>vmresume\<close>: the result is the offset in the translation cache that it jumps to.\<close>

definition vmresume :: "code_layout \<Rightarrow> machine \<Rightarrow> (machine, int) result" where
  "vmresume L m = rbind (prefetch_instructions L m) (\<lambda>_ m'.
     case search_translation_item (cpu m') (pc (cpu m')) of
       None \<Rightarrow> Stop Assertion
     | Some ti \<Rightarrow> Ret (uint (tc_offset ti)) m')"

text \<open>The registers that \<open>vmresume\<close> loads before the jump; \<open>xs\<close> is what the others hold.\<close>

definition guest_entry_state :: "vmm_env \<Rightarrow> u64 \<Rightarrow> xstate \<Rightarrow> xstate" where
  "guest_entry_state E tc_base xs =
     set64 R12 (hart_addr E) (set64 R13 tc_base (set64 R14 (hart_addr E + 128) (set64 R15 (hart_addr E) xs)))"

text \<open>
  The translated code: a block that falls through is followed by the block behind it in the cache,
  until a block or the jumper leaves for the vmm. The guard only makes the recursion end for a
  layout with an empty block; a well formed layout has none.
\<close>

function run_blocks :: "vmm_env \<Rightarrow> code_layout \<Rightarrow> int \<Rightarrow> xstate \<Rightarrow> machine \<Rightarrow> (machine, unit) result" where
  "run_blocks E L p xs m =
     (case translation_cache (cpu m) p of
        None \<Rightarrow> Stop Host_fault
      | Some Jumper \<Rightarrow> Ret () m
      | Some (Template ind ps) \<Rightarrow>
          rbind (exec (vmm_host E) ps (template ind) xs m) (\<lambda>(e, xs') m'.
            if e = To_vmm then Ret () m'
            else if 0 < translation_size L ind \<and> p < TRANSLATION_CACHE_SIZE
            then run_blocks E L (p + translation_size L ind) xs' m'
            else Stop Host_fault))"
  by pat_completeness auto
termination
  by (relation "measure (\<lambda>(E, L, p, xs, m). nat (TRANSLATION_CACHE_SIZE - p))") auto

declare run_blocks.simps [simp del]

text \<open>
  \<open>vmexit\<close>, entered from \<open>vmm_entry_point\<close> when guest code leaves or a trap has been raised: the
  device pump, then the next translation unit. A trap of the pump or of the prefetch goes back to
  \<open>vmm_entry_point\<close>.
\<close>

definition vmexit :: "vmm_env \<Rightarrow> code_layout \<Rightarrow> u64 \<Rightarrow> xstate \<Rightarrow> machine \<Rightarrow> (machine, unit) result" where
  "vmexit E L tc_base xs m =
     rbind (pump_devices_and_deliver_interrupts m) (\<lambda>_ m1.
       rbind (vmresume L m1) (\<lambda>offset m2. run_blocks E L offset (guest_entry_state E tc_base xs) m2))"

text \<open>One round from \<open>vmm_entry_point\<close> to the next time it is reached.\<close>

inductive vmm_round :: "vmm_env \<Rightarrow> code_layout \<Rightarrow> machine \<Rightarrow> machine \<Rightarrow> bool" for E L where
  leave: "vmexit E L tc_base xs m = Ret () m' \<Longrightarrow> vmm_round E L m m'"
| trap: "vmexit E L tc_base xs m = Trap m' \<Longrightarrow> vmm_round E L m m'"

section \<open>Bounds of the translation cache\<close>

definition cache_in_bounds :: "hart \<Rightarrow> bool" where
  "cache_in_bounds h \<longleftrightarrow> 0 \<le> translation_cache_ptr h \<and> translation_cache_ptr h \<le> TRANSLATION_CACHE_SIZE \<and>
     length (pc_mappings h) \<le> MAX_INSTRUCTIONS_TOTRANSLATE"

text \<open>While a unit is translated: once anything has been emitted there is room for the jumper.\<close>

definition unit_in_bounds :: "code_layout \<Rightarrow> int \<Rightarrow> hart \<Rightarrow> bool" where
  "unit_in_bounds L old h \<longleftrightarrow> cache_in_bounds h \<and>
     (translation_cache_ptr h = old \<or> translation_cache_ptr h + jumper_size L \<le> TRANSLATION_CACHE_SIZE)"

lemma emit_cases:
  assumes "emit L ind ps after blob = Ret () blob'"
  obtains (full) "unoccupied_cache_size L (opaque blob) < translation_size L ind" "\<not> is_flushable blob"
      "blob' = blob\<lparr>is_to_stop := True\<rparr>"
    | (committed) h h' where "h = opaque blob \<or> h = flush_translation_cache (opaque blob) \<and> is_flushable blob"
      "COMMIT_TRANSLATION L ind ps h (next_instruction_to_fetch blob) = Ret () h'"
      "blob' = after (blob\<lparr>is_flushable := False, opaque := h'\<rparr>)"
proof (cases "unoccupied_cache_size L (opaque blob) < translation_size L ind")
  case True
  show thesis
  proof (cases "is_flushable blob")
    case True
    then show thesis using \<open>unoccupied_cache_size L (opaque blob) < translation_size L ind\<close> assms
      by (auto simp: emit_def PRECHECK_TRANSLATION_CACHE_def result_simps
          intro: committed [of "flush_translation_cache (opaque blob)"])
  qed (use True assms full in \<open>simp add: emit_def PRECHECK_TRANSLATION_CACHE_def\<close>)
next
  case False
  then show thesis using assms
    by (auto simp: emit_def PRECHECK_TRANSLATION_CACHE_def result_simps intro: committed [of "opaque blob"])
qed

lemma emit_in_bounds:
  assumes "wf_layout L" and "emit L ind ps after blob = Ret () blob'" and "after \<in> {next_instruction, stop_translation}"
    and "unit_in_bounds L old (opaque blob)"
  shows "unit_in_bounds L old (opaque blob')"
proof -
  have pos: "0 < translation_size L ind" "0 < jumper_size L" "translation_size L ind + jumper_size L \<le> TRANSLATION_CACHE_SIZE"
    using assms(1) by (simp_all add: wf_layout_def)
  have commit: "unit_in_bounds L old h'" if "COMMIT_TRANSLATION L ind ps h a = Ret () h'" "0 \<le> translation_cache_ptr h" for h h' a
    using commit_progress [OF that(1)] that(2) pos
    by (auto simp: unit_in_bounds_def cache_in_bounds_def unoccupied_cache_size_def split: if_split_asm)
  show ?thesis using assms(2)
  proof (cases rule: emit_cases)
    case (committed h h')
    have "0 \<le> translation_cache_ptr h"
      using committed(1) assms(4) by (auto simp: unit_in_bounds_def cache_in_bounds_def flush_translation_cache_def)
    then show ?thesis using commit [OF committed(2)] committed(3) assms(3)
      by (auto simp: next_instruction_def stop_translation_def)
  qed (use assms(4) in simp)
qed

lemma emit_no_trap: "emit L ind ps after blob \<noteq> Trap blob'"
  by (auto simp: emit_def PRECHECK_TRANSLATION_CACHE_def COMMIT_TRANSLATION_def add_translation_item_def commit_params_def
      result_simps rassert_def Let_def split: if_split_asm option.split_asm tc_block.split_asm)

lemma translate_no_trap: "translate_instruction L blob w \<noteq> Trap blob'"
  using translate_instruction_emits [of L blob w] emit_no_trap by (auto simp: emits_def)

text \<open>A trap may flush the cache, and does not touch it otherwise.\<close>

lemma raise_exception_bounds:
  assumes "raise_exception_with_tvalue c t m = Trap m'"
  shows "pc_mappings (cpu m') \<in> {[], pc_mappings (cpu m)} \<and> translation_cache_ptr (cpu m') \<in> {0, translation_cache_ptr (cpu m)}"
  using assms
  by (auto simp: raise_exception_with_tvalue_def on_cpu_def raise_exception_internal_def raise_trap_raw_def result_simps
      rassert_def Let_def setup_mmode_trap_def setup_smode_trap_def flush_translation_cache_on_address_space_change_def
      flush_translation_cache_def split: if_split_asm)

lemma tlb_lookup_itlb:
  assumes "tlb_lookup itlb put_itlb a m = Ret e m1"
  shows "\<exists>tlb. cpu m1 = put_itlb tlb (cpu m)"
  using assms by (auto simp: tlb_lookup_def result_simps intro: exI [of _ "itlb (cpu m)"] split: option.split_asm)

lemma pmr_read_no_trap: "pmr_read pmr a n m \<noteq> Trap m'"
  by (auto simp: pmr_read_def ram_read_def bootrom_read_def host_load_def result_simps
      split: device.split_asm prod.split_asm option.split_asm if_split_asm)

lemma access_no_trap: "entry_read n e a m \<noteq> Trap m'" "direct_read n a m \<noteq> Trap m'"
  by (auto simp: entry_read_def direct_read_def result_simps pmr_read_no_trap split: option.split_asm)

lemma walk_no_trap: "walk_page_table m va tlb \<noteq> Trap t"
  by (auto simp: walk_page_table_def rassert_def Let_def split: if_split_asm option.split_asm)

lemma instruction_read_trap:
  assumes "mmu_instruction_read32 a m = Trap m'"
  shows "\<exists>tlb. raise_exception_with_tvalue EXCEPTION_INSTRUCTION_PAGE_FAULT a (m\<lparr>cpu := put_itlb tlb (cpu m)\<rparr>) =
    (Trap m' :: (machine, u32) result)"
  using assms
  by (auto simp: mmu_instruction_read32_def tlb_lookup_def result_simps access_no_trap walk_no_trap
      split: if_split_asm option.split_asm)

lemma prefetch_one_bounds:
  assumes "wf_layout L" and "unit_in_bounds L old (cpu m)"
  shows "prefetch_one_instruction L blob m = Ret blob' m' \<Longrightarrow> unit_in_bounds L old (cpu m')"
    and "prefetch_one_instruction L blob m = Trap m' \<Longrightarrow> cache_in_bounds (cpu m')"
proof -
  assume "prefetch_one_instruction L blob m = Ret blob' m'"
  from prefetch_one_Ret [OF this] obtain w m1 where
    f: "mmu_instruction_read32 (next_instruction_to_fetch blob) m = Ret w m1" and
    t: "translate_instruction L (blob\<lparr>opaque := cpu m1\<rparr>) w = Ret () blob'" "m' = m1\<lparr>cpu := opaque blob'\<rparr>" by blast
  have "unit_in_bounds L old (cpu m1)"
    using assms(2) instruction_read_mappings [OF f] by (simp add: unit_in_bounds_def cache_in_bounds_def)
  then show "unit_in_bounds L old (cpu m')"
    using translate_instruction_emits [of L "blob\<lparr>opaque := cpu m1\<rparr>" w] t emit_in_bounds [OF assms(1)]
    by (auto simp: emits_def)
next
  assume t: "prefetch_one_instruction L blob m = Trap m'"
  have "mmu_instruction_read32 (next_instruction_to_fetch blob) m = Trap m'"
  proof (cases "mmu_instruction_read32 (next_instruction_to_fetch blob) m")
    case (Ret w m1)
    then show ?thesis using t translate_no_trap [of L "blob\<lparr>opaque := cpu m1\<rparr>" w]
      by (cases "translate_instruction L (blob\<lparr>opaque := cpu m1\<rparr>) w") (auto simp: prefetch_one_instruction_def)
  qed (use t in \<open>auto simp: prefetch_one_instruction_def\<close>)
  from instruction_read_trap [OF this] obtain tlb where
    "raise_exception_with_tvalue EXCEPTION_INSTRUCTION_PAGE_FAULT (next_instruction_to_fetch blob)
       (m\<lparr>cpu := put_itlb tlb (cpu m)\<rparr>) = (Trap m' :: (machine, u32) result)" by blast
  from raise_exception_bounds [OF this] show "cache_in_bounds (cpu m')"
    using assms(2) by (auto simp: unit_in_bounds_def cache_in_bounds_def)
qed

lemma prefetch_loop_bounds:
  assumes "wf_layout L" and "unit_in_bounds L old (cpu m)"
  shows "prefetch_loop L blob m = Ret () m' \<Longrightarrow> unit_in_bounds L old (cpu m')"
    and "prefetch_loop L blob m = Trap m' \<Longrightarrow> cache_in_bounds (cpu m')"
proof -
  have "(prefetch_loop L blob m = Ret () m' \<longrightarrow> unit_in_bounds L old (cpu m')) \<and>
      (prefetch_loop L blob m = Trap m' \<longrightarrow> cache_in_bounds (cpu m'))"
    using assms
  proof (induction L blob m rule: prefetch_loop.induct)
    case (1 L blob m)
    note one = prefetch_one_bounds [OF 1(2,3), of blob]
    show ?case
    proof (cases "search_translation_item (cpu m) (next_instruction_to_fetch blob)")
      case None
      show ?thesis
      proof (cases "prefetch_one_instruction L blob m")
        case (Ret blob1 m1)
        then show ?thesis using None one(1) [OF Ret] 1(1) [OF None Ret] 1(2)
          by (subst (1 2) prefetch_loop.simps) auto
      qed (use None one(2) in \<open>auto simp: prefetch_loop.simps [of L blob m]\<close>)
    qed (use 1(3) in \<open>auto simp: prefetch_loop.simps [of L blob m]\<close>)
  qed
  then show "prefetch_loop L blob m = Ret () m' \<Longrightarrow> unit_in_bounds L old (cpu m')"
    "prefetch_loop L blob m = Trap m' \<Longrightarrow> cache_in_bounds (cpu m')" by blast+
qed

end
