(* ===== verification/Code_Frame.thy ===== *)
theory Code_Frame
  imports Translate
begin

text \<open>
  What the instructions after which a translation unit goes on leave alone: the translation cache,
  the breakpoints, and the zero in x0. Loads, stores and atomic operations reach the devices, so
  the frame goes through the memory system.
\<close>

section \<open>Memory accesses\<close>

definition keeps_code :: "machine \<Rightarrow> machine \<Rightarrow> bool" where
  "keeps_code m m' \<longleftrightarrow> pc_mappings (cpu m') = pc_mappings (cpu m) \<and> translation_cache (cpu m') = translation_cache (cpu m) \<and>
     translation_cache_ptr (cpu m') = translation_cache_ptr (cpu m) \<and> breakpoints m' = breakpoints m"

lemma keeps_code_refl [simp]: "keeps_code m m"
  by (simp add: keeps_code_def)

lemma keeps_code_trans: "keeps_code m m1 \<Longrightarrow> keeps_code m1 m2 \<Longrightarrow> keeps_code m m2"
  by (simp add: keeps_code_def)

lemma keeps_code_update [simp]:
  "keeps_code m (advance m') = keeps_code m m'" "keeps_code m (write_rd i v m') = keeps_code m m'"
  "keeps_code m (zero_x0 m') = keeps_code m m'" "keeps_code m (set_hart_reg j v m') = keeps_code m m'"
  "keeps_code (set_hart_reg j v m) m' = keeps_code m m'"
  by (simp_all add: keeps_code_def advance_def goto_def write_rd_def zero_x0_def set_hart_reg_def set_reg_def)

lemma pmr_keeps_code:
  "pmr_read pmr a n m = Ret v m' \<Longrightarrow> keeps_code m m'" "pmr_write pmr a n x m = Ret u m' \<Longrightarrow> keeps_code m m'"
  by (auto simp: pmr_read_def pmr_write_def keeps_code_def result_simps split: device.splits prod.splits option.splits)

lemma access_keeps_code:
  "entry_read n e a m = Ret v m' \<Longrightarrow> keeps_code m m'" "entry_write n e a x m = Ret u m' \<Longrightarrow> keeps_code m m'"
  "direct_read n a m = Ret v m' \<Longrightarrow> keeps_code m m'" "direct_write n a x m = Ret u m' \<Longrightarrow> keeps_code m m'"
  by (auto simp: entry_read_def entry_write_def direct_read_def direct_write_def result_simps
      dest!: pmr_keeps_code split: option.split_asm)

lemma tlb_lookup_keeps_code: "tlb_lookup dtlb put_dtlb a m = Ret v m' \<Longrightarrow> keeps_code m m'"
  by (auto simp: tlb_lookup_def result_simps keeps_code_def split: option.splits)

lemma vm_access_keeps_code:
  "vmread n a m = Ret v m' \<Longrightarrow> keeps_code m m'" "vmwrite n a x m = Ret u m' \<Longrightarrow> keeps_code m m'"
  by (auto simp: vmread_def vmwrite_def result_simps exception_not_Ret
      dest!: access_keeps_code tlb_lookup_keeps_code intro: keeps_code_trans split: if_split_asm option.split_asm)

lemma mmu_keeps_code:
  "mmu_read8 a m = Ret b m' \<Longrightarrow> keeps_code m m'" "mmu_read16 a m = Ret h m' \<Longrightarrow> keeps_code m m'"
  "mmu_read32 a m = Ret v m' \<Longrightarrow> keeps_code m m'" "mmu_write8 a b m = Ret u m' \<Longrightarrow> keeps_code m m'"
  "mmu_write16 a h m = Ret u m' \<Longrightarrow> keeps_code m m'" "mmu_write32 a v m = Ret u m' \<Longrightarrow> keeps_code m m'"
  "mmu_read32_aligned a m = Ret v m' \<Longrightarrow> keeps_code m m'" "mmu_write32_aligned a v m = Ret u m' \<Longrightarrow> keeps_code m m'"
  by (auto simp: mmu_read8_def mmu_read16_def mmu_read32_def mmu_write8_def mmu_write16_def mmu_write32_def
      mmu_read32_aligned_def mmu_write32_aligned_def result_simps exception_not_Ret
      dest!: vm_access_keeps_code split: if_split_asm)

lemma reservation_keeps_code [simp]:
  "keeps_code m (m'\<lparr>reservations := x\<rparr>) = keeps_code m m'" "keeps_code m (m'\<lparr>next_pointer := p\<rparr>) = keeps_code m m'"
  by (simp_all add: keeps_code_def)

lemma amo_keeps_code:
  assumes "amo_instruction_slowpath i j k f5 m = Ret u m'"
  shows "keeps_code m m'"
  using assms
  by (auto simp: amo_instruction_slowpath_def amoadd_slowpath_def amoswap_slowpath_def lr_slowpath_def sc_slowpath_def
      amoxor_slowpath_def amoor_slowpath_def amoand_slowpath_def result_simps Let_def
      dest!: mmu_keeps_code intro: keeps_code_trans split: if_split_asm option.split_asm)

section \<open>Instructions\<close>

lemma isa_access_keeps:
  "isa_load f3 a m = Some (Ret v m') \<Longrightarrow> keeps_code m m' \<and> registers (cpu m') = registers (cpu m)"
  "isa_store f3 a x m = Some (Ret u m') \<Longrightarrow> keeps_code m m' \<and> registers (cpu m') = registers (cpu m)"
  by (auto simp: isa_load_def isa_store_def result_simps dest: mmu_keeps_code mmu_read_regs mmu_write_regs
      split: if_split_asm)

lemma write_rd_x0:
  assumes "registers (cpu m) 0 = 0"
  shows "registers (cpu (advance (write_rd i v m))) 0 = 0" "registers (cpu (advance m)) 0 = 0"
  using assms by (auto simp: advance_def goto_def write_rd_def set_reg_def)

lemma zero_x0_x0: "registers (cpu (advance (zero_x0 m))) 0 = 0"
  by (simp add: advance_def goto_def zero_x0_def set_reg_def)

text \<open>An instruction after which a translation unit goes on changes no translated code, and keeps x0 zero.\<close>

lemma isa_step_opcode:
  assumes "isa_step w m \<noteq> None"
  obtains "opcode_of w = 0x37" | "opcode_of w = 0x17" | "opcode_of w = 0x6f" | "opcode_of w = 0x67" | "opcode_of w = 0x63"
    | "opcode_of w = 0x03" | "opcode_of w = 0x23" | "opcode_of w = 0x13" | "opcode_of w = 0x33" | "opcode_of w = 0x0f"
    | "opcode_of w = 0x73" | "opcode_of w = 0x2f"
  using assms unfolding isa_step_def Let_def by (simp only: simp_thms split: if_split_asm)

lemma continuing_step:
  assumes "isa_step w m = Some (Ret () m')" and "continues w" and "registers (cpu m) 0 = 0"
  shows "keeps_code m m' \<and> registers (cpu m') 0 = 0"
proof -
  have "isa_step w m \<noteq> None" using assms(1) by simp
  then show ?thesis
  proof (cases rule: isa_step_opcode)
    case 6
    then show ?thesis using assms(1,3)
      by (auto simp: isa_opcodes result_simps write_rd_x0 dest!: isa_access_keeps)
  next
    case 7
    then show ?thesis using assms(1,3)
      by (auto simp: isa_opcodes result_simps write_rd_x0 dest!: isa_access_keeps)
  next
    case 10
    then show ?thesis using assms by (auto simp: isa_opcodes continues_def write_rd_x0 split: if_split_asm)
  next
    case 12
    then show ?thesis using assms(1)
      by (auto simp: isa_opcodes isa_amo_def Let_def result_simps zero_x0_x0 dest: amo_keeps_code split: if_split_asm)
  qed (use assms in \<open>auto simp: isa_opcodes continues_def write_rd_x0\<close>)
qed

lemma isa_step_defined:
  assumes "isa_step w m \<noteq> None"
  shows "isa_step w m' \<noteq> None"
  using assms
proof (cases rule: isa_step_opcode)
  case 6
  then show ?thesis using assms by (auto simp: isa_opcodes isa_load_def split: if_split_asm)
next
  case 7
  then show ?thesis using assms by (auto simp: isa_opcodes isa_store_def split: if_split_asm)
next
  case 11
  then show ?thesis using assms by (auto simp: isa_opcodes isa_system_def split: if_split_asm)
next
  case 12
  then show ?thesis using assms by (auto simp: isa_opcodes isa_amo_def Let_def split: if_split_asm)
qed (use assms in \<open>auto simp: isa_opcodes split: if_split_asm\<close>)

end
