(* ===== verification/Execution.thy ===== *)
theory Execution
  imports Vmm Code_Frame
begin

text \<open>
  Translation units: what \<open>prefetch_instructions\<close> leaves in the translation cache, and what running
  it does. The invariant \<open>linked\<close> says of every mapped instruction that its block is right for the
  word it was translated from, and that behind a block that falls through comes the block of the
  next instruction or the jumper. From it follows that running translated code is running the
  instruction set on the words that were translated.
\<close>

section \<open>Linked code\<close>

text \<open>
  What lies behind the block that ends at offset \<open>q\<close>, for the instruction at \<open>a\<close>: the jumper, the
  block mapped at \<open>a\<close>, or, while a unit is being translated, nothing yet: \<open>q\<close> is the fill pointer
  and \<open>a\<close> the instruction that comes next.
\<close>

definition follows :: "hart \<Rightarrow> u32 option \<Rightarrow> int \<Rightarrow> u32 \<Rightarrow> bool" where
  "follows h nx q a \<longleftrightarrow>
     (q < translation_cache_ptr h \<and> translation_cache h q = Some Jumper) \<or>
     (\<exists>item\<in>set (pc_mappings h). guest_pc item = a \<and> uint (tc_offset item) = q) \<or>
     (q = translation_cache_ptr h \<and> nx = Some a)"

definition linked_item :: "code_layout \<Rightarrow> vmm_env \<Rightarrow> (u32 \<Rightarrow> u32) \<Rightarrow> u32 option \<Rightarrow> hart \<Rightarrow> program_counter_mapping_item \<Rightarrow> bool" where
  "linked_item L E code nx h item \<longleftrightarrow> (\<exists>ind ps e.
     translation_cache h (uint (tc_offset item)) = Some (Template ind ps) \<and>
     block_correct E (code (guest_pc item)) (guest_pc item) ind ps e \<and>
     (e = Next \<longrightarrow> follows h nx (uint (tc_offset item) + translation_size L ind) (guest_pc item + 4)))"

definition linked :: "code_layout \<Rightarrow> vmm_env \<Rightarrow> (u32 \<Rightarrow> u32) \<Rightarrow> u32 option \<Rightarrow> hart \<Rightarrow> bool" where
  "linked L E code nx h \<longleftrightarrow> (\<forall>item\<in>set (pc_mappings h). linked_item L E code nx h item)"

lemma linked_flush [simp]: "linked L E code nx (flush_translation_cache h)"
  by (simp add: linked_def flush_translation_cache_def)

lemma item_below:
  assumes "wf_layout L" and "wf_cache L b h" and "item \<in> set (pc_mappings h)"
    and "translation_cache h (uint (tc_offset item)) = Some (Template ind ps)"
  shows "uint (tc_offset item) + translation_size L ind \<le> translation_cache_ptr h"
    and "uint (tc_offset item) < translation_cache_ptr h"
proof -
  have "item_code L h item" using assms(2,3) by (simp add: wf_cache_def)
  then show "uint (tc_offset item) + translation_size L ind \<le> translation_cache_ptr h"
    using assms(4) by (simp add: item_code_def)
  moreover have "0 < translation_size L ind" using assms(1) by (simp add: wf_layout_def)
  ultimately show "uint (tc_offset item) < translation_cache_ptr h" by linarith
qed

text \<open>Emitting the block of the pending instruction closes the link to it and opens the next one.\<close>

lemma linked_commit:
  assumes L: "wf_layout L" and wf: "wf_cache L b h" and link: "linked L E code nx h"
    and p: "nx = None \<or> nx = Some a"
    and c: "block_correct E (code a) a ind ps e"
    and ms: "mset mappings = mset (pc_mappings h @ [new_item h a])"
    and p': "e = Next \<Longrightarrow> nx' = Some (a + 4)"
  shows "linked L E code nx' (committed L ind ps h mappings)"
  unfolding linked_def
proof
  let ?h = "committed L ind ps h mappings" and ?p = "translation_cache_ptr h"
  have set: "set mappings = insert (new_item h a) (set (pc_mappings h))" using ms
    by (metis mset_eq_setD set_append Un_insert_right list.simps(15) empty_set sup_bot.right_neutral)
  have new: "uint (tc_offset (new_item h a)) = ?p" "guest_pc (new_item h a) = a"
    using ptr_word [OF wf] by (simp_all add: new_item_def)
  have pos: "0 < translation_size L ind" using L by (simp add: wf_layout_def)
  fix item assume "item \<in> set (pc_mappings ?h)"
  then consider "item = new_item h a" | "item \<in> set (pc_mappings h)" using set by (auto simp: committed_def)
  then show "linked_item L E code nx' ?h item"
  proof cases
    case 1
    have "translation_cache ?h (uint (tc_offset item)) = Some (Template ind ps)"
      using 1 new by (simp add: committed_def)
    moreover have "e = Next \<longrightarrow> follows ?h nx' (uint (tc_offset item) + translation_size L ind) (guest_pc item + 4)"
      using 1 new p' by (simp add: follows_def committed_def)
    ultimately show ?thesis using c 1 new unfolding linked_item_def by auto
  next
    case 2
    from link 2 obtain ind1 ps1 e1 where i: "translation_cache h (uint (tc_offset item)) = Some (Template ind1 ps1)"
      "block_correct E (code (guest_pc item)) (guest_pc item) ind1 ps1 e1"
      "e1 = Next \<longrightarrow> follows h nx (uint (tc_offset item) + translation_size L ind1) (guest_pc item + 4)"
      by (auto simp: linked_def linked_item_def)
    have "translation_cache ?h (uint (tc_offset item)) = Some (Template ind1 ps1)"
      using i(1) item_below(2) [OF L wf 2 i(1)] by (simp add: committed_def tc_memcpy_def)
    moreover have "follows ?h nx' q x" if "follows h nx q x" for q x
      using that p pos new set unfolding follows_def
      by (auto simp: committed_def tc_memcpy_def intro: bexI [of _ "new_item h a"])
    ultimately show ?thesis using i unfolding linked_item_def by blast
  qed
qed

text \<open>The jumper closes the unit.\<close>

lemma linked_jumper:
  assumes L: "wf_layout L" and wf: "wf_cache L b h" and link: "linked L E code nx h"
  shows "linked L E code None (append_jumper L h)"
  unfolding linked_def
proof
  let ?h = "append_jumper L h"
  have pos: "0 < jumper_size L" using L by (simp add: wf_layout_def)
  fix item assume "item \<in> set (pc_mappings ?h)"
  then have m: "item \<in> set (pc_mappings h)" by (simp add: append_jumper_def)
  with link obtain ind ps e where i: "translation_cache h (uint (tc_offset item)) = Some (Template ind ps)"
    "block_correct E (code (guest_pc item)) (guest_pc item) ind ps e"
    "e = Next \<longrightarrow> follows h nx (uint (tc_offset item) + translation_size L ind) (guest_pc item + 4)"
    by (auto simp: linked_def linked_item_def)
  have "translation_cache ?h (uint (tc_offset item)) = Some (Template ind ps)"
    using i(1) item_below(2) [OF L wf m i(1)] by (simp add: append_jumper_def tc_memcpy_def)
  moreover have "follows ?h None q x" if "follows h nx q x" for q x
    using that pos unfolding follows_def by (auto simp: append_jumper_def tc_memcpy_def)
  ultimately show "linked_item L E code None ?h item" using i unfolding linked_item_def by blast
qed

section \<open>Prefetch of a unit\<close>

text \<open>Prefetch changes nothing of a hart but its translation cache.\<close>

definition same_but_cache :: "hart \<Rightarrow> hart \<Rightarrow> bool" where
  "same_but_cache h h' \<longleftrightarrow>
     h' = h\<lparr>pc_mappings := pc_mappings h', translation_cache := translation_cache h', translation_cache_ptr := translation_cache_ptr h'\<rparr>"

lemma same_but_cache_refl [simp]: "same_but_cache h h" by (simp add: same_but_cache_def)

lemma same_but_cache_trans: "same_but_cache h h1 \<Longrightarrow> same_but_cache h1 h2 \<Longrightarrow> same_but_cache h h2"
  by (cases h; cases h1; cases h2) (simp add: same_but_cache_def)

lemma same_but_cache_sel:
  assumes "same_but_cache h h'"
  shows "registers h' = registers h" "pc h' = pc h" "paging_enabled h' = paging_enabled h"
  using assms by (cases h; cases h'; simp add: same_but_cache_def paging_enabled_def)+

lemma same_but_cache_changes:
  "same_but_cache h (flush_translation_cache h)" "same_but_cache h (committed L ind ps h ms)" "same_but_cache h (append_jumper L h)"
  by (simp_all add: same_but_cache_def flush_translation_cache_def committed_def append_jumper_def)

lemma emit_unit:
  assumes L: "wf_layout L" and wf: "wf_cache L b (opaque blob)" and a: "in_window b a" "cached (opaque blob) a = None"
    and nxt: "next_instruction_to_fetch blob = a"
    and link: "linked L E code nx (opaque blob)" "nx = None \<or> nx = Some a"
    and c: "block_correct E (code a) a ind ps e"
  obtains (full) "\<not> is_flushable blob" "emit L ind ps after blob = Ret () (blob\<lparr>is_to_stop := True\<rparr>)"
  | (grown) h' where "emit L ind ps after blob = Ret () (after (blob\<lparr>is_flushable := False, opaque := h'\<rparr>))"
      "same_but_cache (opaque blob) h'" "wf_cache L b h'" "linked L E code (if e = Next then Some (a + 4) else None) h'"
      "cached h' a = Some (Template ind ps)" "\<And>x. \<not> is_flushable blob \<Longrightarrow> cached (opaque blob) x \<noteq> None \<Longrightarrow> cached h' x \<noteq> None"
proof -
  let ?nx = "if e = Next then Some (a + 4) else None"
  have commit: "\<exists>h'. COMMIT_TRANSLATION L ind ps h a = Ret () h' \<and> same_but_cache h h' \<and> wf_cache L b h' \<and>
      linked L E code ?nx h' \<and> cached h' = (cached h)(a \<mapsto> Template ind ps)"
    if h: "wf_cache L b h" "cached h a = None" "has_room L ind h" "linked L E code nx' h" "nx' = None \<or> nx' = Some a" for h nx'
  proof -
    obtain ms where ms: "COMMIT_TRANSLATION L ind ps h a = Ret () (committed L ind ps h ms)"
      "mset ms = mset (pc_mappings h @ [new_item h a])" "wf_cache L b (committed L ind ps h ms)"
      "cached (committed L ind ps h ms) = (cached h)(a \<mapsto> Template ind ps)"
      using COMMIT_TRANSLATION_ok [OF L h(1) a(1) h(2,3), of ps] by blast
    then show ?thesis using linked_commit [OF L h(1,4,5) c ms(2), of ?nx] same_but_cache_changes(2) by auto
  qed
  show thesis
  proof (cases "has_room L ind (opaque blob)")
    case True
    then obtain h' where h': "COMMIT_TRANSLATION L ind ps (opaque blob) a = Ret () h'" "same_but_cache (opaque blob) h'"
      "wf_cache L b h'" "linked L E code ?nx h'" "cached h' = (cached (opaque blob))(a \<mapsto> Template ind ps)"
      using commit [OF wf a(2) _ link] by blast
    moreover have "emit L ind ps after blob = Ret () (after (blob\<lparr>is_flushable := False, opaque := h'\<rparr>))"
      using True h'(1) nxt by (simp add: emit_def PRECHECK_TRANSLATION_CACHE_def has_room_def)
    ultimately show thesis by (intro grown [of h']) auto
  next
    case False
    show thesis
    proof (cases "is_flushable blob")
      case True
      let ?f = "flush_translation_cache (opaque blob)"
      have room: "has_room L ind ?f"
        using L by (auto simp: has_room_def unoccupied_cache_size_def flush_translation_cache_def wf_layout_def
            MAX_INSTRUCTIONS_TOTRANSLATE_def add.commute intro: le_diff_eq [THEN iffD2])
      obtain h' where h': "COMMIT_TRANSLATION L ind ps ?f a = Ret () h'" "same_but_cache ?f h'" "wf_cache L b h'"
        "linked L E code ?nx h'" "cached h' = (cached ?f)(a \<mapsto> Template ind ps)"
        using commit [OF flush_wf cached_flush room linked_flush, of None] by auto
      moreover have "emit L ind ps after blob = Ret () (after (blob\<lparr>is_flushable := False, opaque := h'\<rparr>))"
        using True False h'(1) nxt by (simp add: emit_def PRECHECK_TRANSLATION_CACHE_def has_room_def)
      moreover have "same_but_cache (opaque blob) h'" using same_but_cache_trans [OF same_but_cache_changes(1) h'(2)] .
      ultimately show thesis using True by (intro grown [of h']) auto
    next
      case nf: False
      then show thesis using False full by (simp add: emit_def PRECHECK_TRANSLATION_CACHE_def has_room_def)
    qed
  qed
qed

text \<open>The addresses of the unit that starts at \<open>a\<close>, in the guest code \<open>code\<close>.\<close>

inductive in_unit :: "(u32 \<Rightarrow> u32) \<Rightarrow> u32 \<Rightarrow> u32 \<Rightarrow> bool" for code a where
  first: "in_unit code a a"
| more: "in_unit code a x \<Longrightarrow> continues (code x) \<Longrightarrow> in_unit code a (x + 4)"

text \<open>
  The unit at \<open>a\<close> can be translated: up to the first branch its words are instructions in main
  memory at addresses of the window.
\<close>

definition unit_ready :: "pm_region_operation \<Rightarrow> u32 \<Rightarrow> (u32 \<Rightarrow> u32) \<Rightarrow> machine \<Rightarrow> u32 \<Rightarrow> bool" where
  "unit_ready pmr b code m a \<longleftrightarrow> (\<forall>x. in_unit code a x \<longrightarrow>
     ram_word pmr m x \<and> word_at pmr m x = code x \<and> in_window b x \<and> isa_step (code x) m \<noteq> None)"

lemma ram_word_fetch:
  assumes "ram_word pmr m a"
  shows "mmu_instruction_read32 a m = Ret (word_at pmr m a) m"
proof -
  obtain v where "ram_read (ucast a) 4 pmr (main_mem m) = Ret v (main_mem m)"
    using ram.load_ret [of pmr "ucast a" 4 "main_mem m"] assms by (auto simp: ram_word_def)
  then show ?thesis using assms ram_word_lookup [OF assms]
    by (simp add: mmu_instruction_read32_def direct_read_def pmr_read_def word_at_def ram_word_def)
qed

lemma fetch_unit:
  assumes "unit_ready pmr b code m a" and "in_unit code a x" and "same_but_cache (cpu m) h"
  shows "mmu_instruction_read32 x (m\<lparr>cpu := h\<rparr>) = Ret (code x) (m\<lparr>cpu := h\<rparr>)"
proof -
  have "ram_word pmr (m\<lparr>cpu := h\<rparr>) x" "word_at pmr (m\<lparr>cpu := h\<rparr>) x = code x"
    using assms same_but_cache_sel(3) [OF assms(3)] by (auto simp: unit_ready_def ram_word_def word_at_def)
  then show ?thesis using ram_word_fetch by metis
qed

text \<open>One instruction of the unit.\<close>

lemma prefetch_one_unit:
  assumes L: "wf_layout L" and E: "wf_env E" and ready: "unit_ready pmr b code m a"
    and x: "in_unit code a x" "next_instruction_to_fetch blob = x"
    and h: "same_but_cache (cpu m) h" "wf_cache L b h" "cached h x = None" "linked L E code nx h" "nx = None \<or> nx = Some x"
    and a: "if is_flushable blob then x = a else cached h a \<noteq> None"
  obtains (full) "\<not> is_flushable blob" "prefetch_one_instruction L blob (m\<lparr>cpu := h\<rparr>) =
        Ret (blob\<lparr>opaque := h, is_to_stop := True\<rparr>) (m\<lparr>cpu := h\<rparr>)"
  | (grown) h' blob' nx' where "prefetch_one_instruction L blob (m\<lparr>cpu := h\<rparr>) = Ret blob' (m\<lparr>cpu := h'\<rparr>)"
      "same_but_cache (cpu m) h'" "wf_cache L b h'" "cached h' a \<noteq> None" "linked L E code nx' h'"
      "\<not> is_to_stop blob' \<Longrightarrow> \<not> is_flushable blob' \<and> in_unit code a (x + 4) \<and>
         next_instruction_to_fetch blob' = x + 4 \<and> nx' \<in> {None, Some (x + 4)}"
proof -
  let ?blob = "blob\<lparr>opaque := h\<rparr>"
  have win: "in_window b x" and "isa_step (code x) m \<noteq> None" using ready x(1) by (auto simp: unit_ready_def)
  then obtain ind ps e where t: "translate_instruction L ?blob (code x) =
      emit L ind ps (if e = Next then next_instruction else stop_translation) ?blob" "block_correct E (code x) x ind ps e"
    using instruction_translates [OF E, of "code x" m _ L ?blob] x(2) by (auto simp: translates_def)
  let ?after = "if e = Next then next_instruction else stop_translation"
  have one: "prefetch_one_instruction L blob (m\<lparr>cpu := h\<rparr>) = Ret blob' (m\<lparr>cpu := opaque blob'\<rparr>)"
    if "emit L ind ps ?after ?blob = Ret () blob'" for blob'
    using that fetch_unit [OF ready x(1) h(1)] x(2) t(1) by (simp add: prefetch_one_instruction_def)
  show thesis
  proof (rule emit_unit [OF L, of b ?blob x E code nx ind ps e ?after])
    assume f: "\<not> is_flushable ?blob" "emit L ind ps ?after ?blob = Ret () (?blob\<lparr>is_to_stop := True\<rparr>)"
    show thesis using f(1) one [OF f(2)] by (intro full) simp_all
  next
    fix h' assume g: "emit L ind ps ?after ?blob = Ret () (?after (?blob\<lparr>is_flushable := False, opaque := h'\<rparr>))"
      "same_but_cache (opaque ?blob) h'" "wf_cache L b h'" "linked L E code (if e = Next then Some (x + 4) else None) h'"
      "cached h' x = Some (Template ind ps)"
      "\<And>y. \<not> is_flushable ?blob \<Longrightarrow> cached (opaque ?blob) y \<noteq> None \<Longrightarrow> cached h' y \<noteq> None"
    let ?blob' = "?after (?blob\<lparr>is_flushable := False, opaque := h'\<rparr>)"
    have o: "opaque ?blob' = h'" by (simp add: next_instruction_def stop_translation_def)
    show thesis
    proof (rule grown)
      show "prefetch_one_instruction L blob (m\<lparr>cpu := h\<rparr>) = Ret ?blob' (m\<lparr>cpu := h'\<rparr>)" using one [OF g(1)] o by simp
      show "same_but_cache (cpu m) h'" using same_but_cache_trans [OF h(1)] g(2) by simp
      show "cached h' a \<noteq> None" using a g(5,6) by (auto split: if_split_asm)
      show "\<not> is_flushable ?blob' \<and> in_unit code a (x + 4) \<and> next_instruction_to_fetch ?blob' = x + 4 \<and>
          (if e = Next then Some (x + 4) else None) \<in> {None, Some (x + 4)}" if "\<not> is_to_stop ?blob'"
      proof -
        have "e = Next" using that by (auto simp: stop_translation_def split: if_split_asm)
        moreover from this have "continues (code x)" using t(2) by (simp add: block_correct_def)
        ultimately show ?thesis using x in_unit.more [OF x(1)] by (simp add: next_instruction_def)
      qed
    qed (use g in simp_all)
  qed (use h x win t(2) in simp_all)
qed

text \<open>The state that a prefetch may leave for the machine \<open>m\<close> with its pc at \<open>a\<close>.\<close>

definition prefetched :: "code_layout \<Rightarrow> vmm_env \<Rightarrow> u32 \<Rightarrow> (u32 \<Rightarrow> u32) \<Rightarrow> u32 option \<Rightarrow> machine \<Rightarrow> u32 \<Rightarrow> hart \<Rightarrow> bool" where
  "prefetched L E b code nx m a h \<longleftrightarrow>
     same_but_cache (cpu m) h \<and> wf_cache L b h \<and> cached h a \<noteq> None \<and> linked L E code nx h"

lemma prefetch_loop_unit:
  assumes L: "wf_layout L" and E: "wf_env E" and ready: "unit_ready pmr b code m a"
    and x: "in_unit code a (next_instruction_to_fetch blob)"
    and h: "same_but_cache (cpu m) h" "wf_cache L b h" "linked L E code nx h"
      "nx = None \<or> nx = Some (next_instruction_to_fetch blob)"
    and a: "if is_flushable blob then next_instruction_to_fetch blob = a else cached h a \<noteq> None"
  shows "\<exists>h' nx'. prefetch_loop L blob (m\<lparr>cpu := h\<rparr>) = Ret () (m\<lparr>cpu := h'\<rparr>) \<and> prefetched L E b code nx' m a h'"
  using L x h a
proof (induction L blob "m\<lparr>cpu := h\<rparr>" arbitrary: h nx rule: prefetch_loop.induct)
  case (1 L blob)
  let ?x = "next_instruction_to_fetch blob"
  show ?case
  proof (cases "search_translation_item h ?x")
    case (Some item)
    have "cached h ?x \<noteq> None" using Some cached_None_iff [OF 1(5)] by simp
    then show ?thesis using Some 1 by (subst prefetch_loop.simps) (auto simp: prefetched_def split: if_split_asm)
  next
    case None
    then have nc: "cached h ?x = None" using cached_None_iff [OF 1(5)] by simp
    show ?thesis
    proof (rule prefetch_one_unit [OF 1(2) E ready 1(3) refl 1(4,5) nc 1(6,7,8)])
      assume "\<not> is_flushable blob" "prefetch_one_instruction L blob (m\<lparr>cpu := h\<rparr>) =
        Ret (blob\<lparr>opaque := h, is_to_stop := True\<rparr>) (m\<lparr>cpu := h\<rparr>)"
      then show ?thesis using None 1(4-6,8) by (subst prefetch_loop.simps) (auto simp: prefetched_def)
    next
      fix h' blob' nx'
      assume one: "prefetch_one_instruction L blob (m\<lparr>cpu := h\<rparr>) = Ret blob' (m\<lparr>cpu := h'\<rparr>)"
        and h': "same_but_cache (cpu m) h'" "wf_cache L b h'" "cached h' a \<noteq> None" "linked L E code nx' h'"
        and go: "\<not> is_to_stop blob' \<Longrightarrow> \<not> is_flushable blob' \<and> in_unit code a (?x + 4) \<and>
          next_instruction_to_fetch blob' = ?x + 4 \<and> nx' \<in> {None, Some (?x + 4)}"
      show ?thesis
      proof (cases "is_to_stop blob'")
        case True
        then show ?thesis using None one h' by (subst prefetch_loop.simps) (auto simp: prefetched_def)
      next
        case False
        have "\<exists>h'' nx''. prefetch_loop L blob' (m\<lparr>cpu := h'\<rparr>) = Ret () (m\<lparr>cpu := h''\<rparr>) \<and> prefetched L E b code nx'' m a h''"
          using None one False go [OF False] h' 1(2) by (intro 1(1)) auto
        then show ?thesis using None one False by (subst prefetch_loop.simps) simp
      qed
    qed
  qed
qed

lemma jumper_wf:
  assumes L: "wf_layout L" and wf: "wf_cache L b h" and room: "translation_cache_ptr h + jumper_size L \<le> TRANSLATION_CACHE_SIZE"
  shows "wf_cache L b (append_jumper L h)" and "cached (append_jumper L h) a = None \<longleftrightarrow> cached h a = None"
proof -
  have pos: "0 < jumper_size L" using L by (simp add: wf_layout_def)
  have "item_code L (append_jumper L h) item" if i: "item_code L h item" for item
    using i item_code_below [OF L i] pos
    by (auto simp: item_code_def append_jumper_def tc_memcpy_def split: option.splits tc_block.splits)
  then show wf': "wf_cache L b (append_jumper L h)"
    using wf room pos unfolding wf_cache_def by (auto simp: append_jumper_def)
  show "cached (append_jumper L h) a = None \<longleftrightarrow> cached h a = None"
    unfolding cached_None_iff [OF wf] cached_None_iff [OF wf'] search_item_find [OF wf] search_item_find [OF wf']
    by (simp add: append_jumper_def)
qed

text \<open>
  The prefetch of a unit. The jumper is appended when the fill pointer has moved; it is missing
  when the cache was flushed and the new code happens to end where the old code did.
\<close>

lemma prefetch_instructions_unit:
  assumes L: "wf_layout L" and E: "wf_env E" and wf: "wf_cache L b (cpu m)" and link: "linked L E code None (cpu m)"
    and ready: "unit_ready pmr b code m (pc (cpu m))"
  shows "\<exists>h nx. prefetch_instructions L m = Ret () (m\<lparr>cpu := h\<rparr>) \<and> prefetched L E b code nx m (pc (cpu m)) h \<and>
    (nx = None \<or> translation_cache_ptr h = translation_cache_ptr (cpu m) \<and> h \<noteq> cpu m)"
proof -
  let ?a = "pc (cpu m)" and ?old = "translation_cache_ptr (cpu m)"
  let ?blob = "\<lparr>next_instruction_to_fetch = ?a, is_to_stop = False, is_flushable = True, opaque = cpu m\<rparr>"
  obtain h nx where loop: "prefetch_loop L ?blob m = Ret () (m\<lparr>cpu := h\<rparr>)" and p: "prefetched L E b code nx m ?a h"
    using prefetch_loop_unit [OF L E ready _ _ wf link, of ?blob] in_unit.first by auto
  show ?thesis
  proof (cases "translation_cache_ptr h = ?old")
    case True
    then have "prefetch_instructions L m = Ret () (m\<lparr>cpu := h\<rparr>)" using loop by (simp add: prefetch_instructions_def Let_def)
    moreover have "prefetched L E b code None m ?a h" if "h = cpu m" using that p link by (simp add: prefetched_def)
    ultimately show ?thesis using True p by blast
  next
    case False
    have "unit_in_bounds L ?old (cpu m)" using wf by (simp add: unit_in_bounds_def cache_in_bounds_def wf_cache_def)
    from prefetch_loop_bounds(1) [OF L this loop]
    have room: "translation_cache_ptr h + jumper_size L \<le> TRANSLATION_CACHE_SIZE"
      using False by (simp add: unit_in_bounds_def)
    have "prefetched L E b code None m ?a (append_jumper L h)"
      using p jumper_wf(1) [OF L _ room, of b] jumper_wf(2) [OF L _ room, of b ?a] linked_jumper [OF L, of b h E code nx]
        same_but_cache_trans [OF _ same_but_cache_changes(3), of "cpu m" h L]
      by (simp add: prefetched_def)
    moreover have "prefetch_instructions L m = Ret () (m\<lparr>cpu := append_jumper L h\<rparr>)"
      using loop False by (simp add: prefetch_instructions_def Let_def)
    ultimately show ?thesis by blast
  qed
qed

text \<open>An entry of the cache for the instruction at \<open>a\<close>: its block starts at offset \<open>p\<close>.\<close>

definition entry_at :: "hart \<Rightarrow> u32 \<Rightarrow> int \<Rightarrow> bool" where
  "entry_at h a p \<longleftrightarrow> (\<exists>item\<in>set (pc_mappings h). guest_pc item = a \<and> uint (tc_offset item) = p)"

lemma vmresume_unit:
  assumes L: "wf_layout L" and E: "wf_env E" and wf: "wf_cache L b (cpu m)" and link: "linked L E code None (cpu m)"
    and ready: "unit_ready pmr b code m (pc (cpu m))"
  shows "\<exists>p h. vmresume L m = Ret p (m\<lparr>cpu := h\<rparr>) \<and> same_but_cache (cpu m) h \<and> wf_cache L b h \<and>
    entry_at h (pc (cpu m)) p \<and>
    (linked L E code None h \<or> translation_cache_ptr h = translation_cache_ptr (cpu m) \<and> h \<noteq> cpu m)"
proof -
  obtain h nx where f: "prefetch_instructions L m = Ret () (m\<lparr>cpu := h\<rparr>)" and p: "prefetched L E b code nx m (pc (cpu m)) h"
    and nx: "nx = None \<or> translation_cache_ptr h = translation_cache_ptr (cpu m) \<and> h \<noteq> cpu m"
    using prefetch_instructions_unit [OF assms] by blast
  have h: "same_but_cache (cpu m) h" "wf_cache L b h" "cached h (pc (cpu m)) \<noteq> None" "linked L E code nx h"
    using p by (simp_all add: prefetched_def)
  obtain item where i: "search_translation_item h (pc (cpu m)) = Some item" using h(3) cached_None_iff [OF h(2)] by auto
  have "vmresume L m = Ret (uint (tc_offset item)) (m\<lparr>cpu := h\<rparr>)"
    using f i same_but_cache_sel(2) [OF h(1)] by (simp add: vmresume_def)
  moreover have "entry_at h (pc (cpu m)) (uint (tc_offset item))" using found_item [OF h(2) i] by (auto simp: entry_at_def)
  ultimately show ?thesis using h nx by auto
qed

section \<open>Running a unit\<close>

text \<open>A run of one or more instructions of the instruction set, of which the first ones continue.\<close>

inductive isa_run :: "(u32 \<Rightarrow> u32) \<Rightarrow> machine \<Rightarrow> (machine, unit) result \<Rightarrow> bool" for code where
  last: "isa_step (code (pc (cpu m))) m = Some R \<Longrightarrow> isa_run code m R"
| more: "isa_step (code (pc (cpu m))) m = Some (Ret () m') \<Longrightarrow> continues (code (pc (cpu m))) \<Longrightarrow> isa_run code m' R \<Longrightarrow> isa_run code m R"

text \<open>The machines that a run of continuing instructions reaches.\<close>

inductive isa_reaches :: "(u32 \<Rightarrow> u32) \<Rightarrow> machine \<Rightarrow> machine \<Rightarrow> bool" for code m where
  start: "isa_reaches code m m"
| step: "isa_reaches code m m1 \<Longrightarrow> continues (code (pc (cpu m1))) \<Longrightarrow>
    isa_step (code (pc (cpu m1))) m1 = Some (Ret () m2) \<Longrightarrow> isa_reaches code m m2"

text \<open>
  The code can run from \<open>m\<close>: no machine on the way is at a breakpoint, at a word that is no
  instruction or at one that the vmm does not emulate.
\<close>

definition runnable :: "(u32 \<Rightarrow> u32) \<Rightarrow> machine \<Rightarrow> bool" where
  "runnable code m \<longleftrightarrow> (\<forall>m'. isa_reaches code m m' \<longrightarrow>
     isa_step (code (pc (cpu m'))) m' \<noteq> None \<and> emulated (code (pc (cpu m'))) m' \<and> pc (cpu m') \<notin> set (breakpoints m'))"

lemma isa_reaches_step:
  assumes "continues (code (pc (cpu m)))" and "isa_step (code (pc (cpu m))) m = Some (Ret () m1)" and "isa_reaches code m1 m2"
  shows "isa_reaches code m m2"
  using assms(3,1,2) by (induction rule: isa_reaches.induct) (auto intro: isa_reaches.intros)

lemma runnable_step:
  assumes "runnable code m" and "continues (code (pc (cpu m)))" and "isa_step (code (pc (cpu m))) m = Some (Ret () m1)"
  shows "runnable code m1"
  using assms isa_reaches_step [of code m m1] unfolding runnable_def by blast

lemma runnableD:
  assumes "runnable code m"
  shows "isa_step (code (pc (cpu m))) m \<noteq> None" "emulated (code (pc (cpu m))) m" "pc (cpu m) \<notin> set (breakpoints m)"
  using assms isa_reaches.start unfolding runnable_def by blast+

lemma keeps_code_invariants:
  assumes "keeps_code m m'"
  shows "wf_cache L b (cpu m') = wf_cache L b (cpu m)" "linked L E code nx (cpu m') = linked L E code nx (cpu m)"
    "entry_at (cpu m') a p = entry_at (cpu m) a p" "translation_cache (cpu m') = translation_cache (cpu m)"
proof -
  note k = assms [unfolded keeps_code_def]
  have "item_code L (cpu m') = item_code L (cpu m)" 
    by (simp add: fun_eq_iff item_code_def k split: option.split tc_block.split)
  then show "wf_cache L b (cpu m') = wf_cache L b (cpu m)" by (simp add: wf_cache_def k)
  have "follows (cpu m') nx = follows (cpu m) nx" for nx by (simp add: fun_eq_iff follows_def k)
  then show "linked L E code nx (cpu m') = linked L E code nx (cpu m)" by (simp add: linked_def linked_item_def k)
  show "entry_at (cpu m') a p = entry_at (cpu m) a p" by (simp add: entry_at_def k)
  show "translation_cache (cpu m') = translation_cache (cpu m)" by (simp add: k)
qed

text \<open>One block of linked code: what it does, and what comes behind it.\<close>

lemma entry_block:
  assumes L: "wf_layout L" and wf: "wf_cache L b (cpu m)" and link: "linked L E code None (cpu m)"
    and entry: "entry_at (cpu m) (pc (cpu m)) p" and run: "runnable code m" and x0: "registers (cpu m) 0 = 0"
  obtains ind ps e R where "translation_cache (cpu m) p = Some (Template ind ps)"
    "isa_step (code (pc (cpu m))) m = Some R" "block_runs E ps (template ind) m (rbind R (\<lambda>_. Ret e))"
    "p < TRANSLATION_CACHE_SIZE" "0 < translation_size L ind"
    "e = Next \<longleftrightarrow> continues (code (pc (cpu m)))" "\<And>m'. e = Next \<Longrightarrow> R = Ret () m' \<Longrightarrow> pc (cpu m') = pc (cpu m) + 4"
    "e = Next \<Longrightarrow> translation_cache (cpu m) (p + translation_size L ind) = Some Jumper \<or>
       entry_at (cpu m) (pc (cpu m) + 4) (p + translation_size L ind)"
proof -
  obtain item where i: "item \<in> set (pc_mappings (cpu m))" "guest_pc item = pc (cpu m)" "uint (tc_offset item) = p"
    using entry by (auto simp: entry_at_def)
  with link obtain ind ps e where b: "translation_cache (cpu m) p = Some (Template ind ps)"
    "block_correct E (code (pc (cpu m))) (pc (cpu m)) ind ps e"
    "e = Next \<longrightarrow> follows (cpu m) None (p + translation_size L ind) (pc (cpu m) + 4)"
    unfolding linked_def linked_item_def by metis
  obtain R where R: "isa_step (code (pc (cpu m))) m = Some R" using runnableD(1) [OF run] by blast
  have c: "e = Next \<longleftrightarrow> continues (code (pc (cpu m)))" "block_runs E ps (template ind) m (rbind R (\<lambda>_. Ret e))"
    "e = Next \<longrightarrow> (\<forall>m'. R = Ret () m' \<longrightarrow> pc (cpu m') = pc (cpu m) + 4)"
    using b(2) R runnableD(2,3) [OF run] x0 unfolding block_correct_def by blast+
  have "p < TRANSLATION_CACHE_SIZE"
    using item_below(2) [OF L wf i(1)] i(3) b(1) wf by (auto simp: wf_cache_def)
  moreover have "0 < translation_size L ind" using L by (simp add: wf_layout_def)
  moreover have "translation_cache (cpu m) (p + translation_size L ind) = Some Jumper \<or>
      entry_at (cpu m) (pc (cpu m) + 4) (p + translation_size L ind)" if "e = Next"
    using b(3) that by (auto simp: follows_def entry_at_def)
  ultimately show thesis using c(3) by (intro that [OF b(1) R c(2) _ _ c(1)]) simp_all
qed

lemma run_blocks_isa:
  assumes "wf_layout L" and "wf_cache L b (cpu m)" and "linked L E code None (cpu m)"
    and "entry_at (cpu m) (pc (cpu m)) p" and "runnable code m" and "registers (cpu m) 0 = 0" and "guest_regs E xs"
  shows "isa_run code m (run_blocks E L p xs m)"
  using assms
proof (induction E L p xs m rule: run_blocks.induct)
  case (1 E L p xs m)
  let ?w = "code (pc (cpu m))"
  obtain ind ps e R where tc: "translation_cache (cpu m) p = Some (Template ind ps)" and R: "isa_step ?w m = Some R"
    and blk: "block_runs E ps (template ind) m (rbind R (\<lambda>_. Ret e))"
    and pos: "p < TRANSLATION_CACHE_SIZE" "0 < translation_size L ind" and e: "e = Next \<longleftrightarrow> continues ?w"
    and nxt: "\<And>m'. e = Next \<Longrightarrow> R = Ret () m' \<Longrightarrow> pc (cpu m') = pc (cpu m) + 4"
    and behind: "e = Next \<Longrightarrow> translation_cache (cpu m) (p + translation_size L ind) = Some Jumper \<or>
       entry_at (cpu m) (pc (cpu m) + 4) (p + translation_size L ind)"
    using entry_block [OF 1(2-7)] by metis
  have ex: "exits_as E xs (exec (vmm_host E) ps (template ind) xs m) (rbind R (\<lambda>_. Ret e))"
    using blk 1(8) by (simp add: block_runs_def)
  show ?case
  proof (cases "exec (vmm_host E) ps (template ind) xs m")
    case (Ret r m')
    obtain e' xs' where r: "r = (e', xs')" by (cases r)
    from ex have o: "R = Ret () m'" "e' = e" "guest_regs E xs'" by (auto simp: Ret r rbind_eq_Ret)
    show ?thesis
    proof (cases "e = Next")
      case False
      then have "run_blocks E L p xs m = Ret () m'"
        using tc Ret r o by (subst run_blocks.simps) (cases e; simp)
      then show ?thesis using R o isa_run.last by metis
    next
      case True
      let ?q = "p + translation_size L ind"
      have go: "run_blocks E L p xs m = run_blocks E L ?q xs' m'"
        using tc Ret r o True pos by (subst run_blocks.simps) simp
      have k: "keeps_code m m'" "registers (cpu m') 0 = 0" using continuing_step [of ?w m m'] R o e True 1(7) by simp_all
      have run: "runnable code m'" using runnable_step [OF 1(6)] R o e True by simp
      from behind [OF True] show ?thesis
      proof
        assume "translation_cache (cpu m) ?q = Some Jumper"
        then have "run_blocks E L ?q xs' m' = Ret () m'"
          using keeps_code_invariants(4) [OF k(1)] by (subst run_blocks.simps) simp
        then show ?thesis using go R o isa_run.last by metis
      next
        assume "entry_at (cpu m) (pc (cpu m) + 4) ?q"
        then have "isa_run code m' (run_blocks E L ?q xs' m')"
          using r o True pos nxt k run 1(2-4) keeps_code_invariants [OF k(1)]
          by (intro 1(1) [OF tc refl Ret r [symmetric]]) simp_all
        then show ?thesis using go R o e True isa_run.more by metis
      qed
    qed
  next
    case (Trap m')
    then show ?thesis using ex R tc by (subst run_blocks.simps) (cases R; auto intro: isa_run.last)
  next
    case (Stop s)
    then show ?thesis using ex R tc by (subst run_blocks.simps) (cases R; auto intro: isa_run.last)
  qed
qed

section \<open>Units that are closed by a jumper\<close>

text \<open>The prefetch from \<open>m\<close> to \<open>h\<close> had nothing to add, or it moved the fill pointer and appended a jumper.\<close>

definition unit_closed :: "machine \<Rightarrow> hart \<Rightarrow> bool" where
  "unit_closed m h \<longleftrightarrow> h = cpu m \<or> translation_cache_ptr h \<noteq> translation_cache_ptr (cpu m)"

text \<open>Without a flush, translation adds behind what is there.\<close>

definition grown_from :: "hart \<Rightarrow> hart \<Rightarrow> bool" where
  "grown_from h h' \<longleftrightarrow> translation_cache_ptr h < translation_cache_ptr h' \<or>
     pc_mappings h' = pc_mappings h \<and> translation_cache h' = translation_cache h \<and> translation_cache_ptr h' = translation_cache_ptr h"

lemma grown_from_trans: "grown_from h h1 \<Longrightarrow> grown_from h1 h2 \<Longrightarrow> grown_from h h2"
  by (auto simp: grown_from_def)

lemma emit_grows:
  assumes "wf_layout L" and "emit L ind ps after blob = Ret () blob'" and "after \<in> {next_instruction, stop_translation}"
    and "is_flushable blob \<Longrightarrow> \<forall>i. has_room L i (opaque blob)"
  shows "grown_from (opaque blob) (opaque blob') \<and> (is_flushable blob' \<longrightarrow> is_to_stop blob')"
proof -
  have pos: "0 < translation_size L ind" using assms(1) by (simp add: wf_layout_def)
  have "PRECHECK_TRANSLATION_CACHE L ind blob = (blob\<lparr>is_flushable := False\<rparr>, True) \<or>
      PRECHECK_TRANSLATION_CACHE L ind blob = (blob\<lparr>is_to_stop := True\<rparr>, False)"
    using assms(4) by (auto simp: PRECHECK_TRANSLATION_CACHE_def has_room_def linorder_not_less [symmetric])
  then show ?thesis
    using assms(2,3) pos
    by (auto simp: emit_def result_simps grown_from_def next_instruction_def stop_translation_def dest!: commit_progress)
qed

lemma prefetch_one_grows:
  assumes "wf_layout L" and "prefetch_one_instruction L blob m = Ret blob' m'"
    and "is_flushable blob \<Longrightarrow> \<forall>i. has_room L i (cpu m)"
  shows "grown_from (cpu m) (cpu m') \<and> (is_flushable blob' \<longrightarrow> is_to_stop blob')"
proof -
  obtain w m1 where f: "mmu_instruction_read32 (next_instruction_to_fetch blob) m = Ret w m1"
    and t: "translate_instruction L (blob\<lparr>opaque := cpu m1\<rparr>) w = Ret () blob'" "m' = m1\<lparr>cpu := opaque blob'\<rparr>"
    using prefetch_one_Ret [OF assms(2)] by blast
  note same = instruction_read_mappings [OF f]
  obtain ind ps after where e: "emit L ind ps after (blob\<lparr>opaque := cpu m1\<rparr>) = Ret () blob'" "after \<in> {next_instruction, stop_translation}"
    using translate_instruction_emits [of L "blob\<lparr>opaque := cpu m1\<rparr>" w] t(1) unfolding emits_def by auto
  have "has_room L i (cpu m1) = has_room L i (cpu m)" for i by (simp add: has_room_def unoccupied_cache_size_def same)
  then have "grown_from (cpu m1) (opaque blob') \<and> (is_flushable blob' \<longrightarrow> is_to_stop blob')"
    using emit_grows [OF assms(1) e] assms(3) by simp
  then show ?thesis using t(2) same by (simp add: grown_from_def)
qed

lemma prefetch_loop_grows:
  assumes "wf_layout L" and "prefetch_loop L blob m = Ret () m'" and "is_flushable blob \<Longrightarrow> \<forall>i. has_room L i (cpu m)"
  shows "grown_from (cpu m) (cpu m')"
  using assms
proof (induction L blob m rule: prefetch_loop.induct)
  case (1 L blob m)
  show ?case
  proof (cases "search_translation_item (cpu m) (next_instruction_to_fetch blob)")
    case (Some item)
    then show ?thesis using 1(3) by (simp add: prefetch_loop.simps [of L blob m] grown_from_def)
  next
    case None
    then obtain blob1 m1 where o: "prefetch_one_instruction L blob m = Ret blob1 m1"
      and rest: "(if is_to_stop blob1 then Ret () m1 else prefetch_loop L blob1 m1) = Ret () m'"
      using 1(3) by (auto simp: prefetch_loop.simps [of L blob m] rbind_eq_Ret)
    note one = prefetch_one_grows [OF 1(2) o 1(4)]
    show ?thesis
    proof (cases "is_to_stop blob1")
      case False
      then have "grown_from (cpu m1) (cpu m')" using 1(1) [OF None o False 1(2)] rest one by simp
      then show ?thesis using one grown_from_trans by blast
    qed (use rest one in simp)
  qed
qed

lemma same_cache_eq:
  assumes "same_but_cache h h'" and "pc_mappings h' = pc_mappings h" "translation_cache h' = translation_cache h"
    "translation_cache_ptr h' = translation_cache_ptr h"
  shows "h' = h"
  using assms by (cases h; cases h') (simp add: same_but_cache_def)

lemma cpu_update_eq: "m\<lparr>cpu := h\<rparr> = m'\<lparr>cpu := h'\<rparr> \<Longrightarrow> h = h'"
  by (cases m; cases m') simp

lemma unit_closed_no_flush:
  assumes "wf_layout L" and "\<forall>i. has_room L i (cpu m)" and "vmresume L m = Ret p (m\<lparr>cpu := h\<rparr>)" and "same_but_cache (cpu m) h"
  shows "unit_closed m h"
proof -
  let ?blob = "\<lparr>next_instruction_to_fetch = pc (cpu m), is_to_stop = False, is_flushable = True, opaque = cpu m\<rparr>"
  have pos: "0 < jumper_size L" using assms(1) by (simp add: wf_layout_def)
  obtain m1 where loop: "prefetch_loop L ?blob m = Ret () m1"
    and h: "h = (if translation_cache_ptr (cpu m) \<noteq> translation_cache_ptr (cpu m1) then append_jumper L (cpu m1) else cpu m1)"
    using assms(3) unfolding vmresume_def prefetch_instructions_def Let_def rbind_eq_Ret
    by (elim exE conjE) (simp split: option.split_asm if_split_asm, drule cpu_update_eq, simp)
  have g: "grown_from (cpu m) (cpu m1)" using prefetch_loop_grows [OF assms(1) loop] assms(2) by simp
  show ?thesis
  proof (cases "translation_cache_ptr (cpu m) = translation_cache_ptr (cpu m1)")
    case True
    then have "h = cpu m" using h g assms(4) by (intro same_cache_eq) (simp_all add: grown_from_def)
    then show ?thesis by (simp add: unit_closed_def)
  next
    case False
    then have "translation_cache_ptr (cpu m) < translation_cache_ptr h" using h g pos by (simp add: grown_from_def append_jumper_def)
    then show ?thesis by (simp add: unit_closed_def)
  qed
qed

section \<open>The execution engine runs the instruction set\<close>



subsection \<open>An example\<close>

text \<open>A program of two words in main memory: \<^verbatim>\<open>addi x2, x1, 2\<close> and a jump to itself.\<close>

definition loop_code :: "u32 \<Rightarrow> u32" where
  "loop_code = (\<lambda>_. 0)(0x40000000 := 0x00208113, 0x40000004 := 0x0000006f)"

definition loop_machine :: machine where
  "loop_machine = example_machine\<lparr>cpu := zeroed_hart\<lparr>pc := 0x40000000\<rparr>,
     main_mem := \<lparr>mem_bytes = (\<lambda>_. 0)(0 := 0x13, 1 := 0x81, 2 := 0x20, 4 := 0x6f), mem_size = 0x400000\<rparr>\<rparr>"

lemma loop_code_words [simp]:
  "continues (loop_code 0x40000000)" "\<not> continues (loop_code 0x40000004)"
  by (simp_all add: loop_code_def continues_def opcode_of_def)

lemma loop_code_fields:
  "imm_I 0x00208113 = 2" "imm_J 0x0000006f = 0" "rd_of 0x00208113 = 2" "rs1_of 0x00208113 = 1"
  by (simp_all add: imm_I_def imm_J_def sign_from_def rd_of_def rs1_of_def take_bit_eq_mask mask_numeral)

lemma loop_code_steps:
  "isa_step (loop_code 0x40000000) m = Some (Ret () (advance (write_rd 2 (registers (cpu m) 1 + 2) m)))"
  "isa_step (loop_code 0x40000004) m = Some (isa_jump (pc (cpu m)) (write_rd 0 (pc (cpu m) + 4)) m)"
  using isa_opcodes(8) [of "0x00208113" m] isa_opcodes(3) [of "0x0000006f" m]
  by (simp_all add: loop_code_def opcode_of_def loop_code_fields alu_imm_op_def alu_op_def funct3_of_def)
     (simp add: rd_of_def)

lemma loop_unit: "in_unit loop_code 0x40000000 x \<Longrightarrow> x = 0x40000000 \<or> x = 0x40000004"
  by (induction rule: in_unit.induct) auto

lemma loop_words:
  "ram_word example_ram loop_machine 0x40000000" "word_at example_ram loop_machine 0x40000000 = loop_code 0x40000000"
  "ram_word example_ram loop_machine 0x40000004" "word_at example_ram loop_machine 0x40000004 = loop_code 0x40000004"
  by (simp_all add: ram_word_def loop_machine_def wf_regions_def nonempty_region_def example_ram_def in_region_def
      paging_enabled_def zeroed_hart_def backed_def word_at_def ram_read_def host_load_def le_read_4 loop_code_def)

lemma loop_ready: "unit_ready example_ram 0x40000000 loop_code loop_machine (pc (cpu loop_machine))"
proof -
  have "pc (cpu loop_machine) = 0x40000000" by (simp add: loop_machine_def)
  then show ?thesis
    unfolding unit_ready_def by (auto dest!: loop_unit simp: loop_words loop_code_steps in_window_def)
qed

lemma loop_start:
  "wf_cache example_layout 0x40000000 (cpu loop_machine)" "linked example_layout example_env loop_code None (cpu loop_machine)"
  by (simp_all add: wf_cache_def linked_def loop_machine_def zeroed_hart_def TRANSLATION_CACHE_SIZE_def)

lemma loop_room: "\<forall>i. has_room example_layout i (cpu loop_machine)"
  by (simp add: has_room_def unoccupied_cache_size_def loop_machine_def zeroed_hart_def example_layout_def
      TRANSLATION_CACHE_SIZE_def MAX_INSTRUCTIONS_TOTRANSLATE_def)


lemma loop_runnable:
  assumes "same_but_cache (cpu loop_machine) h"
  shows "runnable loop_code (loop_machine\<lparr>cpu := h\<rparr>)"
proof -
  have "breakpoints m = [] \<and> (pc (cpu m) = 0x40000000 \<or> pc (cpu m) = 0x40000004)"
    if "isa_reaches loop_code (loop_machine\<lparr>cpu := h\<rparr>) m" for m
    using that
  proof (induction rule: isa_reaches.induct)
    case start
    have "pc h = 0x40000000" using same_but_cache_sel(2) [OF assms] by (simp add: loop_machine_def)
    then show ?case by (simp add: loop_machine_def example_machine_def)
  next
    case (step m1 m2)
    then show ?case by (auto simp: loop_code_steps advance_def goto_def write_rd_def)
  qed
  moreover have "emulated (loop_code 0x40000000) m" for m
    by (simp add: emulated_def loop_code_def opcode_of_def Let_def)
  moreover have "emulated (loop_code 0x40000004) m" if "pc (cpu m) = 0x40000004" for m
    using that by (simp add: emulated_def loop_code_def opcode_of_def Let_def loop_code_fields)
  ultimately show ?thesis unfolding runnable_def by (metis empty_iff empty_set loop_code_steps option.distinct(1))
qed


section \<open>Bounds and termination of the prefetch\<close>

text \<open>
  C4. Translation never writes outside the translation cache or the mapping table: from a state in
  bounds, the prefetch of a unit, jumper included, and also a prefetch that ends in an instruction
  page fault, leave the fill pointer inside the cache and the table within its capacity.
\<close>

theorem prefetch_in_bounds:
  assumes "wf_layout L" and "cache_in_bounds (cpu m)" and "rstate (prefetch_instructions L m) = Some m'"
  shows "cache_in_bounds (cpu m')"
proof -
  have u: "unit_in_bounds L (translation_cache_ptr (cpu m)) (cpu m)" using assms(2) by (simp add: unit_in_bounds_def)
  have pos: "0 < jumper_size L" using assms(1) by (simp add: wf_layout_def)
  note loop = prefetch_loop_bounds [OF assms(1) u]
  show ?thesis
  proof (cases "prefetch_loop L \<lparr>next_instruction_to_fetch = pc (cpu m), is_to_stop = False, is_flushable = True, opaque = cpu m\<rparr> m")
    case (Ret a m1)
    then show ?thesis using assms(3) loop(1) [of _ m1] pos
      by (auto simp: prefetch_instructions_def append_jumper_def unit_in_bounds_def cache_in_bounds_def split: if_split_asm)
  qed (use assms(3) loop(2) in \<open>auto simp: prefetch_instructions_def\<close>)
qed

text \<open>C4 for the example program.\<close>

theorem prefetch_in_bounds_witness:
  "\<exists>m'. prefetch_instructions example_layout loop_machine = Ret () m' \<and> cache_in_bounds (cpu m')"
proof -
  obtain h where r: "prefetch_instructions example_layout loop_machine = Ret () (loop_machine\<lparr>cpu := h\<rparr>)"
    using prefetch_instructions_unit [OF wf_layout_example wf_env_example loop_start loop_ready] by blast
  have "cache_in_bounds (cpu loop_machine)" using loop_start(1) by (simp add: cache_in_bounds_def wf_cache_def)
  from prefetch_in_bounds [OF wf_layout_example this, of "loop_machine\<lparr>cpu := h\<rparr>"] r show ?thesis by simp
qed

text \<open>
  C5. The prefetch loop ends on every guest program, also on one without any branch: the steps of
  the loop (the next instruction is not cached and its translator does not ask to stop) admit no
  infinite sequence, because a unit flushes the cache at most once and maps a new instruction in
  every other step.
\<close>

theorem prefetch_loop_terminates:
  "wf {((blob', m'), (blob, m)). search_translation_item (cpu m) (next_instruction_to_fetch blob) = None \<and>
     prefetch_one_instruction L blob m = Ret blob' m' \<and> \<not> is_to_stop blob'}"
  by (rule wf_subset [OF wf_measure [of "\<lambda>(blob, m). prefetch_measure (is_flushable blob) (cpu m)"]])
    (auto dest: prefetch_progress)

end
