(* ===== verification/Setup.thy ===== *)
theory Setup
  imports Tree_Contents Execution
begin

text \<open>
  The set-up of the machine (\<^verbatim>\<open>vmm/vm.c\<close>, \<^verbatim>\<open>vmm/util.c\<close>, \<^verbatim>\<open>vmm/physical_memory.c\<close>, \<^verbatim>\<open>vmm/main.c\<close> and the
  \<^verbatim>\<open>*_init\<close> functions of the devices): from the configuration and the files of the host to the machine
  that \<open>main\<close> hands to \<open>vmresume\<close>. The host is a parameter: its files, with the number of bytes that a
  \<^verbatim>\<open>read\<close> delivers, the memory it can map, the state of its terminal and what fresh allocations hold.
\<close>

section \<open>The host\<close>

record host_file =
  file_bytes :: "u8 list"
  read_chunk :: "nat \<Rightarrow> nat \<Rightarrow> int"

record host_env =
  host_files :: "string \<Rightarrow> host_file option"
  mmap_limit :: int
  terminal_attached :: bool
  typed_lines :: "u8 list list"
  fresh_tlb :: "nat \<Rightarrow> tlb_entry"

type_synonym ini = "string \<Rightarrow> string \<Rightarrow> string option"

text \<open>A conversion to \<^verbatim>\<open>int\<close>.\<close>

definition to_int :: "int \<Rightarrow> int" where
  "to_int i = signed_take_bit 31 i"

section \<open>Images (util.c, physical_memory.c)\<close>

definition image_file_size :: "host_env \<Rightarrow> string \<Rightarrow> int" where
  "image_file_size H image_path = (case host_files H image_path of None \<Rightarrow> 0 | Some f \<Rightarrow> to_int (int (length (file_bytes f))))"

text \<open>
  \<^verbatim>\<open>read\<close> at a position of the file: at most what is asked for and what is there, possibly less. A
  negative count is a huge unsigned one, which the kernel refuses.
\<close>

definition sys_read :: "host_file \<Rightarrow> int \<Rightarrow> int \<Rightarrow> int" where
  "sys_read f pos n = (if n < 0 then - 1 else min (read_chunk f (nat pos) (nat n)) (min n (int (length (file_bytes f)) - pos)))"

text \<open>The loop of \<open>preload_binary_image\<close>: the result is the final \<open>nr_left\<close>.\<close>

function load_image :: "host_file \<Rightarrow> int \<Rightarrow> int \<Rightarrow> int \<Rightarrow> int \<Rightarrow> host_memory \<Rightarrow> (host_memory, int) result" where
  "load_image f addr len nr_left nr_read mem =
     (if nr_left \<le> 0 then Ret nr_left mem
      else let nr_to_read = to_int (min nr_left (len - nr_read)) in
        if nr_to_read = 0 then Ret nr_left mem
        else let tmp = sys_read f nr_read nr_to_read in
          if tmp \<le> 0 then Ret nr_left mem
          else case host_memcpy (addr + nr_read) (take (nat tmp) (drop (nat nr_read) (file_bytes f))) mem of
                 None \<Rightarrow> Stop Host_fault
               | Some mem' \<Rightarrow> load_image f addr len (nr_left - tmp) (nr_read + tmp) mem')"
  by pat_completeness auto
termination
  by (relation "measure (\<lambda>(f, addr, len, nr_left, nr_read, mem). nat nr_left)") auto

declare load_image.simps [simp del]

definition preload_binary_image :: "host_env \<Rightarrow> int \<Rightarrow> int \<Rightarrow> string \<Rightarrow> host_memory \<Rightarrow> (host_memory, int) result" where
  "preload_binary_image H addr len image_path mem = (case host_files H image_path of
     None \<Rightarrow> Ret (- 1) mem
   | Some f \<Rightarrow> rbind (load_image f addr len (to_int (int (length (file_bytes f)))) 0 mem)
       (\<lambda>nr_left mem'. Ret (if nr_left = 0 then 0 else 1) mem'))"

definition preallocate_physical_memory :: "host_env \<Rightarrow> int \<Rightarrow> host_memory option" where
  "preallocate_physical_memory H nr_bytes =
     (if 0 < nr_bytes \<and> nr_bytes \<le> mmap_limit H then Some \<lparr>mem_bytes = \<lambda>_. 0, mem_size = nat nr_bytes\<rparr> else None)"

text \<open>The memory after a copy at an offset.\<close>

definition with_bytes :: "host_memory \<Rightarrow> nat \<Rightarrow> u8 list \<Rightarrow> host_memory" where
  "with_bytes mem off bs = mem\<lparr>mem_bytes := (\<lambda>i. if off \<le> i \<and> i < off + length bs then bs ! (i - off) else mem_bytes mem i)\<rparr>"

lemma host_memcpy_ok: "off + length bs \<le> mem_size mem \<Longrightarrow> host_memcpy (int off) bs mem = Some (with_bytes mem off bs)"
  by (cases mem) (simp add: host_memcpy_def with_bytes_def fun_eq_iff)

lemma with_bytes_append: "with_bytes (with_bytes mem off bs) (off + length bs) cs = with_bytes mem off (bs @ cs)"
  by (cases mem) (auto simp: with_bytes_def nth_append fun_eq_iff)

lemma with_bytes_sel [simp]: "mem_size (with_bytes mem off bs) = mem_size mem"
  by (simp add: with_bytes_def)

lemma with_bytes_Nil [simp]: "with_bytes mem off [] = mem"
proof -
  have "(\<lambda>i. if off \<le> i \<and> i < off then ([] :: u8 list) ! (i - off) else mem_bytes mem i) = mem_bytes mem" by (auto simp: fun_eq_iff)
  then show ?thesis by (simp add: with_bytes_def)
qed

lemma with_bytes_read: "map (mem_bytes (with_bytes mem off bs)) [off..<off + length bs] = bs"
  by (rule nth_equalityI) (simp_all add: with_bytes_def)

text \<open>A regular file: before its end a \<^verbatim>\<open>read\<close> delivers at least a byte.\<close>

definition regular_file :: "host_file \<Rightarrow> bool" where
  "regular_file f \<longleftrightarrow> (\<forall>p n. 0 < n \<and> p < length (file_bytes f) \<longrightarrow> 0 < read_chunk f p n)"

lemma to_int_id: "- (2 ^ 31) \<le> i \<Longrightarrow> i < 2 ^ 31 \<Longrightarrow> to_int i = i"
  by (simp add: to_int_def signed_take_bit_int_eq_self)

text \<open>The loop copies what fits, in however many reads.\<close>

lemma load_image_copies:
  fixes f :: host_file and len :: int
  defines "N \<equiv> length (file_bytes f)" and "K \<equiv> min (length (file_bytes f)) (nat len)"
  assumes f: "regular_file f" and N: "N < 2 ^ 31" and len: "0 \<le> len" and room: "off + K \<le> mem_size mem" and p: "p \<le> K"
  shows "load_image f (int off) len (int N - int p) (int p) (with_bytes mem off (take p (file_bytes f))) =
    Ret (int N - int K) (with_bytes mem off (take K (file_bytes f)))"
  using p
proof (induction "K - p" arbitrary: p rule: less_induct)
  case less
  let ?bs = "file_bytes f"
  show ?case
  proof (cases "p = K")
    case True
    have "to_int (min (int N - int p) (len - int p)) = 0" if "p \<noteq> N"
    proof -
      have "min (int N - int p) (len - int p) = 0" using that True len unfolding K_def N_def by linarith
      then show ?thesis by (simp add: to_int_def)
    qed
    then show ?thesis using True by (cases "p = N") (simp_all add: load_image.simps [of f])
  next
    case False
    then have pK: "p < K" using less.prems by simp
    have K: "int K = min (int N) len" using len unfolding K_def N_def by linarith
    have cnt: "to_int (min (int N - int p) (len - int p)) = int (K - p)"
      using K pK N to_int_id [of "int (K - p)"] by (simp add: of_nat_diff min_def split: if_splits)
    define t where "t = sys_read f (int p) (int (K - p))"
    have "0 < read_chunk f p (K - p)" using f pK K unfolding regular_file_def N_def by (simp add: K_def)
    moreover have "t = min (read_chunk f p (K - p)) (min (int (K - p)) (int N - int p))" by (simp add: t_def sys_read_def N_def)
    ultimately have t: "0 < t" "t \<le> int (K - p)" using pK K by linarith+
    define n where "n = nat t"
    have n: "t = int n" "0 < n" "p + n \<le> K" using t pK by (auto simp: n_def)
    have tk: "take (p + n) ?bs = take p ?bs @ take n (drop p ?bs)" by (rule take_add)
    have le: "p + n \<le> length ?bs" using n(3) unfolding K_def by simp
    have lp: "length (take p ?bs) = p" using n(3) unfolding K_def by simp
    have ln: "length (take n (drop p ?bs)) = n" using le by simp
    have "host_memcpy (int off + int p) (take n (drop p ?bs)) (with_bytes mem off (take p ?bs)) = Some (with_bytes mem off (take (p + n) ?bs))"
      using host_memcpy_ok [of "off + p" "take n (drop p ?bs)" "with_bytes mem off (take p ?bs)"] room n(3) ln lp
        with_bytes_append [of mem off "take p ?bs" "take n (drop p ?bs)"] by (simp add: tk)
    moreover have "load_image f (int off) len (int N - int (p + n)) (int (p + n)) (with_bytes mem off (take (p + n) ?bs)) =
        Ret (int N - int K) (with_bytes mem off (take K ?bs))"
      using less.hyps [of "p + n"] n pK by simp
    moreover have "\<not> int N - int p \<le> 0" using pK K by simp
    moreover have "sys_read f (int p) (int (K - p)) = int n" using n(1) by (simp add: t_def)
    ultimately show ?thesis
      using n(2) pK by (subst load_image.simps) (simp add: cnt Let_def diff_diff_add del: of_nat_diff)
  qed
qed

lemma preload_copies:
  assumes "host_files H path = Some f" and "regular_file f" and "length (file_bytes f) < 2 ^ 31"
    and "0 \<le> len" and "off + nat len \<le> mem_size mem"
  shows "preload_binary_image H (int off) len path mem =
    Ret (if int (length (file_bytes f)) \<le> len then 0 else 1) (with_bytes mem off (take (nat len) (file_bytes f)))"
proof -
  let ?N = "length (file_bytes f)"
  have "off + min ?N (nat len) \<le> mem_size mem" using assms(5) by simp
  from load_image_copies [OF assms(2,3,4) this, of 0]
  have "load_image f (int off) len (int ?N) 0 mem = Ret (int ?N - int (min ?N (nat len))) (with_bytes mem off (take (min ?N (nat len)) (file_bytes f)))"
    by simp
  moreover have "take (min ?N (nat len)) (file_bytes f) = take (nat len) (file_bytes f)" by (simp add: min_def)
  moreover have "int ?N - int (min ?N (nat len)) = 0 \<longleftrightarrow> int ?N \<le> len" using assms(4) by (auto simp: min_def)
  ultimately show ?thesis using assms(1,3) to_int_id [of "int ?N"] by (simp add: preload_binary_image_def)
qed


section \<open>The state of the set-up\<close>

text \<open>The machine under construction and the static variables of the modules.\<close>

record vmm_state =
  the_vm :: virtual_machine
  pmr_table :: "pm_region_operation list"
  the_clint :: clint_state
  the_plic :: plic_state
  the_uart :: uart_state
  tick_rate :: u64
  breakpoint_table :: "u32 list"

type_synonym setup_step = "vmm_state \<Rightarrow> (vmm_state, unit) result"

definition need :: "'a option \<Rightarrow> ('a \<Rightarrow> ('s, 'b) result) \<Rightarrow> ('s, 'b) result" where
  "need x f = (case x of None \<Rightarrow> Stop Assertion | Some a \<Rightarrow> f a)"

definition register_region :: "pm_region_operation \<Rightarrow> setup_step" where
  "register_region pmr s = need (register_pm_region_operation (pmr_table s) pmr) (\<lambda>t. Ret () (s\<lparr>pmr_table := t\<rparr>))"

text \<open>A number of the configuration that has to be there, as \<^verbatim>\<open>strtol\<close> reads it.\<close>

definition ini_number :: "vmm_state \<Rightarrow> string \<Rightarrow> string \<Rightarrow> nat \<Rightarrow> (int \<Rightarrow> ('s, 'a) result) \<Rightarrow> ('s, 'a) result" where
  "ini_number s sec key base f = ini_need (the_vm s) sec key (\<lambda>str. f (strtol str base))"

abbreviation set_vm :: "(virtual_machine \<Rightarrow> virtual_machine) \<Rightarrow> vmm_state \<Rightarrow> vmm_state" where
  "set_vm g s \<equiv> s\<lparr>the_vm := g (the_vm s)\<rparr>"

section \<open>Memories (emulate_rom.c, emulate_ram.c)\<close>

definition bootrom_init :: "host_env \<Rightarrow> setup_step" where
  "bootrom_init H s =
     ini_number s ''rom'' ''rom_start'' 16 (\<lambda>base. ini_number s ''rom'' ''rom_size'' 16 (\<lambda>sz.
       need (preallocate_physical_memory H sz) (\<lambda>mem.
         rbind (register_region \<lparr>addr_low = word_of_int base, addr_high = word_of_int (base + sz), pmr_device = Bootrom\<rparr>
             (set_vm (\<lambda>vm. vm\<lparr>bootrom_base := base, bootrom_size := sz, bootrom_host := mem\<rparr>) s)) (\<lambda>_ s1.
           ini_need (the_vm s) ''rom'' ''rom_image'' (\<lambda>rom_image. ini_number s ''cpu'' ''pc_on_reset'' 16 (\<lambda>reset.
             let pc_on_reset = uint (word_of_int reset :: u32) in
             rbind (rmap (\<lambda>mem. set_vm (\<lambda>vm. vm\<lparr>bootrom_host := mem\<rparr>) s1)
                 (preload_binary_image H (pc_on_reset - base) (sz - pc_on_reset + base) rom_image mem)) (\<lambda>rc s2.
               rassert (rc = 0) (Ret () s2))))))))"

definition MEGA :: "u32 \<Rightarrow> u32" where
  "MEGA nr_mega = 0x100000 * nr_mega"

definition load_kernel :: "host_env \<Rightarrow> setup_step" where
  "load_kernel H s =
     ini_need (the_vm s) ''image'' ''kernel'' (\<lambda>image_path. ini_number s ''image'' ''kernel_load_base'' 16 (\<lambda>load.
       let vm = the_vm s; load_base = uint (word_of_int load :: u32) in
       rassert (main_mem_base vm \<le> load_base \<and> load_base < main_mem_base vm + main_mem_size vm)
         (rbind (rmap (\<lambda>mem. set_vm (\<lambda>vm. vm\<lparr>main_mem_host := mem\<rparr>) s)
             (preload_binary_image H (load_base - main_mem_base vm) (main_mem_size vm - (load_base - main_mem_base vm)) image_path (main_mem_host vm)))
           (\<lambda>rc s1. if rc \<noteq> 0 then Stop (Exit 1) else Ret () s1))))"

definition load_initrd :: "host_env \<Rightarrow> setup_step" where
  "load_initrd H s = (
     let vm = the_vm s in
     case (ini_config vm ''image'' ''initrd'', ini_config vm ''image'' ''initrd_load_base'') of
       (Some initrd_path, Some str) \<Rightarrow>
         let initrd_load_base = uint (word_of_int (strtol str 16) :: u32) in
         rbind (rmap (\<lambda>mem. set_vm (\<lambda>vm. vm\<lparr>main_mem_host := mem\<rparr>) s)
             (preload_binary_image H (initrd_load_base - main_mem_base vm) (main_mem_size vm - initrd_load_base + main_mem_base vm)
               initrd_path (main_mem_host vm)))
           (\<lambda>rc s1. rassert (rc = 0) (Ret () s1))
     | _ \<Rightarrow> Ret () s)"

definition ram_init :: "host_env \<Rightarrow> setup_step" where
  "ram_init H s =
     ini_number s ''mem'' ''main_memory_start'' 16 (\<lambda>start. ini_number s ''mem'' ''main_memory_size_in_mega'' 10 (\<lambda>mega.
       let ram_start = word_of_int start :: u32; base = uint ram_start; sz = uint (MEGA (word_of_int mega)) in
       need (preallocate_physical_memory H sz) (\<lambda>mem.
         run_all [register_region \<lparr>addr_low = word_of_int base, addr_high = word_of_int (base + sz), pmr_device = Main_memory\<rparr>,
             load_kernel H, load_initrd H]
           (set_vm (\<lambda>vm. vm\<lparr>main_mem_base := base, main_mem_size := sz, main_mem_host := mem\<rparr>) s))))"

section \<open>Harts (vm.c)\<close>

definition hart_tlb_init :: "host_env \<Rightarrow> nat \<Rightarrow> nat \<Rightarrow> hart \<Rightarrow> hart" where
  "hart_tlb_init H itlb_cap dtlb_cap h =
     h\<lparr>itlb := invalidate_tlb (map (fresh_tlb H) [0..<itlb_cap]), dtlb := invalidate_tlb (map (fresh_tlb H) [0..<dtlb_cap])\<rparr>"

text \<open>The allocation of the harts fails for a negative number, whose size is a huge one.\<close>

definition cpu_init :: "host_env \<Rightarrow> setup_step" where
  "cpu_init H s =
     ini_number s ''cpu'' ''nr_cpus'' 10 (\<lambda>nr.
       let nr_cpus = to_int nr;
           boot = (case ini_config (the_vm s) ''cpu'' ''boot_cpu'' of None \<Rightarrow> 0 | Some str \<Rightarrow> to_int (strtol str 10)) in
       rassert (0 \<le> nr_cpus) (ini_number s ''cpu'' ''pc_on_reset'' 16 (\<lambda>reset.
         need (those (map (\<lambda>idx. map_option (\<lambda>h. h\<lparr>pc := word_of_int reset\<rparr>) (hart_init csr_registery_head (int idx))) [0..<nat nr_cpus])) (\<lambda>hs.
           case (ini_config (the_vm s) ''cpu'' ''itlb_size'', ini_config (the_vm s) ''cpu'' ''dtlb_size'') of
             (Some istr, Some dstr) \<Rightarrow>
               let isz = unat (word_of_int (strtol istr 16) :: u32); dsz = unat (word_of_int (strtol dstr 16) :: u32) in
               Ret () (set_vm (\<lambda>vm. vm\<lparr>nr_harts := nr_cpus, boot_hart := boot, harts := map (hart_tlb_init H isz dsz) hs\<rparr>) s)
           | _ \<Rightarrow> Stop Host_fault))))"

section \<open>Devices\<close>

definition clint_setup :: setup_step where
  "clint_setup s = ini_number s ''cpu'' ''clint_base'' 16 (\<lambda>base. ini_number s ''cpu'' ''clint_size'' 16 (\<lambda>sz.
     need (clint_init (word_of_int base) (word_of_int sz) (nat (nr_harts (the_vm s))) (pmr_table s)) (\<lambda>(clint, t).
       Ret () (s\<lparr>the_clint := clint, pmr_table := t\<rparr>))))"

definition plic_setup :: setup_step where
  "plic_setup s = (
     let base = (case ini_config (the_vm s) ''cpu'' ''plic_base'' of None \<Rightarrow> 0x0c000000 | Some str \<Rightarrow> strtol str 16);
         sz = (case ini_config (the_vm s) ''cpu'' ''plic_size'' of None \<Rightarrow> 0x04000000 | Some str \<Rightarrow> strtol str 16) in
     need (plic_init (word_of_int base) (word_of_int sz) (nat (nr_harts (the_vm s))) (pmr_table s)) (\<lambda>(plic, t).
       Ret () (s\<lparr>the_plic := plic, pmr_table := t\<rparr>)))"

definition uart_setup :: "host_env \<Rightarrow> setup_step" where
  "uart_setup H s = need (uart_init (terminal_attached H) (pmr_table s)) (\<lambda>(uart, t). Ret () (s\<lparr>the_uart := uart, pmr_table := t\<rparr>))"

definition syscon_init :: setup_step where
  "syscon_init = register_region \<lparr>addr_low = syscon_base, addr_high = syscon_base + syscon_size, pmr_device = Syscon_mmio\<rparr>"

definition device_init :: "host_env \<Rightarrow> setup_step" where
  "device_init H = run_all [clint_setup, plic_setup, uart_setup H, syscon_init]"

section \<open>The rest of vm.c and main.c\<close>

text \<open>The words of a string, as \<^verbatim>\<open>strtok\<close> with a blank cuts them.\<close>

fun strtok_words :: "string \<Rightarrow> string \<Rightarrow> string list" where
  "strtok_words [] w = (if w = [] then [] else [rev w])"
| "strtok_words (c # cs) w =
     (if c = CHR '' '' then (if w = [] then strtok_words cs [] else rev w # strtok_words cs []) else strtok_words cs (c # w))"

definition load_breakpoints :: "string list \<Rightarrow> setup_step" where
  "load_breakpoints bps = run_all (map (\<lambda>bp s.
     need (add_breakpoint (word_of_int (strtol bp 16)) (breakpoint_table s)) (\<lambda>(rc, t). Ret () (s\<lparr>breakpoint_table := t\<rparr>))) bps)"

definition misc_init :: setup_step where
  "misc_init s =
     rbind (case ini_config (the_vm s) ''cpu'' ''ticks_per_translation_unit'' of
         None \<Rightarrow> Ret () s
       | Some str \<Rightarrow> let ticks = word_of_int (strtol str 10) in rassert (0 < ticks) (Ret () (s\<lparr>tick_rate := ticks\<rparr>))) (\<lambda>_ s1.
       case ini_config (the_vm s) ''debug'' ''breakpoints'' of
         None \<Rightarrow> Ret () s1
       | Some str \<Rightarrow> load_breakpoints (strtok_words str []) s1)"

definition build_tree :: "host_env \<Rightarrow> setup_step" where
  "build_tree H s = (case fdt_init (the_vm s) (image_file_size H) (the_clint s) (the_plic s) of
     Ret (plic, mem) _ \<Rightarrow> Ret () (set_vm (\<lambda>vm. vm\<lparr>bootrom_host := mem\<rparr>) (s\<lparr>the_plic := plic\<rparr>))
   | Trap _ \<Rightarrow> Stop Host_fault
   | Stop e \<Rightarrow> Stop e)"

text \<open>
  The fields of \<^verbatim>\<open>struct zelda_boot_info\<close> in order: magic, kernel_entry, dtb_address, initrd_start,
  initrd_end, memory_start, memory_size, nr_harts.
\<close>

definition boot_info_words :: "host_env \<Rightarrow> virtual_machine \<Rightarrow> u32 \<Rightarrow> u32 list" where
  "boot_info_words H vm kernel_entry = (
     let (initrd_start, initrd_end) = (case initrd_of vm (image_file_size H) of None \<Rightarrow> (0, 0) | Some r \<Rightarrow> r) in
     [ZELDA_BOOT_INFO_MAGIC, kernel_entry, word_of_int ZELDA_DTB_ADDRESS, initrd_start, initrd_end,
      word_of_int (main_mem_base vm), word_of_int (main_mem_size vm), word_of_int (nr_harts vm)])"

definition boot_info_init :: "host_env \<Rightarrow> setup_step" where
  "boot_info_init H s = ini_number s ''image'' ''kernel_load_base'' 16 (\<lambda>entry.
     let vm = the_vm s in
     rassert (bootrom_base vm \<le> ZELDA_BOOT_INFO_ADDRESS \<and> ZELDA_BOOT_INFO_ADDRESS + 32 < bootrom_base vm + bootrom_size vm)
       (case host_memcpy (ZELDA_BOOT_INFO_ADDRESS - bootrom_base vm) (concat (map le_bytes32 (boot_info_words H vm (word_of_int entry)))) (bootrom_host vm) of
          None \<Rightarrow> Stop Host_fault
        | Some mem \<Rightarrow> Ret () (set_vm (\<lambda>vm. vm\<lparr>bootrom_host := mem\<rparr>) s)))"

text \<open>The static variables before \<open>main\<close> and the cleared \<^verbatim>\<open>struct virtual_machine\<close>.\<close>

abbreviation no_memory :: host_memory where
  "no_memory \<equiv> \<lparr>mem_bytes = \<lambda>_. 0, mem_size = 0\<rparr>"

definition vmm_start :: "ini \<Rightarrow> vmm_state" where
  "vmm_start ini = \<lparr>the_vm = \<lparr>nr_harts = 0, boot_hart = 0, harts = [], main_mem_size = 0, main_mem_base = 0, main_mem_host = no_memory,
       bootrom_size = 0, bootrom_base = 0, bootrom_host = no_memory, ini_config = ini\<rparr>,
     pmr_table = [],
     the_clint = \<lparr>clint_base = 0, clint_size = 0, clint_nr_harts = 0, mtime = 0, mtimecmp = replicate MAX_NR_HARTS 0, msip = replicate MAX_NR_HARTS 0\<rparr>,
     the_plic = \<lparr>plic_base = 0, plic_size = 0, nr_contexts = 0, phandle = 0, priority = replicate PLIC_NR_SOURCES 0, asserted = 0, pending = 0,
       claimed = 0, enable = replicate PLIC_MAX_CONTEXTS 0, threshold = replicate PLIC_MAX_CONTEXTS 0\<rparr>,
     the_uart = \<lparr>ier = 0, lcr = 0, mcr = 0, fcr = 0, scr = 0, dll = 0, dlm = 0, rx_fifo = replicate UART_RX_FIFO_SIZE 0, rx_head = 0, rx_tail = 0,
       console_attached = False, escape_armed = False, console_output = []\<rparr>,
     tick_rate = 2, breakpoint_table = []\<rparr>"

definition virtual_machine_init :: "host_env \<Rightarrow> ini \<Rightarrow> (vmm_state, unit) result" where
  "virtual_machine_init H ini =
     run_all [bootrom_init H, ram_init H, cpu_init H, device_init H, misc_init, build_tree H, boot_info_init H] (vmm_start ini)"

text \<open>The machine around the hart that \<open>main\<close> resumes.\<close>

definition machine_of :: "host_env \<Rightarrow> vmm_state \<Rightarrow> hart \<Rightarrow> machine" where
  "machine_of H s h = \<lparr>cpu = h, regions = pmr_table s, main_mem = main_mem_host (the_vm s), bootrom = bootrom_host (the_vm s),
     clint_dev = the_clint s, plic_dev = the_plic s, uart_dev = the_uart s, terminal_input = typed_lines H,
     reservations = replicate MAX_RESERVATION_ITEMS \<lparr>resv_addr = 0, resv_valid = False, resv_hartid = 0\<rparr>, next_pointer = 0,
     breakpoints = breakpoint_table s, poll_countdown = 0, ticks_per_translation_unit = tick_rate s\<rparr>"

definition boot :: "host_env \<Rightarrow> ini \<Rightarrow> (vmm_state, machine) result" where
  "boot H ini = rbind (virtual_machine_init H ini) (\<lambda>_ s. hart_by_id (the_vm s) (boot_hart (the_vm s)) (\<lambda>h. Ret (machine_of H s h) s))"

text \<open>
  C24. Loading an image does not depend on how the host cuts its reads: every regular file that is not
  longer than the space is copied completely and reported as loaded, a longer one fills the space
  exactly and is reported as failed, and no byte outside the space changes.
\<close>

theorem preload_binary_image_loads:
  assumes "host_files H path = Some f" and "regular_file f" and "length (file_bytes f) < 2 ^ 31"
    and "0 \<le> len" and "off + nat len \<le> mem_size mem"
  shows "preload_binary_image H (int off) len path mem =
    Ret (if int (length (file_bytes f)) \<le> len then 0 else 1) (with_bytes mem off (take (nat len) (file_bytes f)))"
  using preload_copies [OF assms] .

text \<open>C24 for a file of four bytes that the host delivers one by one, into a space of three.\<close>

definition example_file :: host_file where
  "example_file = \<lparr>file_bytes = [10, 20, 30, 40], read_chunk = \<lambda>_ _. 1\<rparr>"

definition example_host :: host_env where
  "example_host = \<lparr>host_files = \<lambda>_. Some example_file, mmap_limit = 2 ^ 40, terminal_attached = True, typed_lines = [],
     fresh_tlb = \<lambda>i. \<lparr>va_tag = of_nat i, pa_tag = 0, page_mask = 0, entry_valid = True, level1_pte = None, level2_pte = None, tlb_pmr = None\<rparr>\<rparr>"

theorem preload_binary_image_loads_witness:
  "preload_binary_image example_host 1 3 ''image'' \<lparr>mem_bytes = \<lambda>_. 0, mem_size = 8\<rparr> =
    Ret 1 (with_bytes \<lparr>mem_bytes = \<lambda>_. 0, mem_size = 8\<rparr> 1 [10, 20, 30])"
proof -
  have "regular_file example_file" "host_files example_host ''image'' = Some example_file"
    by (simp_all add: regular_file_def example_file_def example_host_def)
  from preload_binary_image_loads [OF this(2,1), of 3 1 "\<lparr>mem_bytes = \<lambda>_. 0, mem_size = 8\<rparr>"] show ?thesis
    by (simp add: example_file_def)
qed

section \<open>A machine that boots\<close>

text \<open>The numbers and files of a configuration.\<close>

record vm_config =
  rom_len :: int
  rom_file :: host_file
  reset_pc :: u32
  ram_base :: u32
  ram_mega :: u32
  kernel_base :: u32
  kernel_file :: host_file
  cpus :: nat
  boot_cpu :: nat
  itlb_log :: nat
  dtlb_log :: nat
  clint_at :: u32
  clint_len :: u32
  plic_at :: u32
  plic_len :: u32

definition ini_num :: "ini \<Rightarrow> string \<Rightarrow> string \<Rightarrow> nat \<Rightarrow> int option" where
  "ini_num ini sec key base = map_option (\<lambda>str. strtol str base) (ini sec key)"

definition ini_file :: "host_env \<Rightarrow> ini \<Rightarrow> string \<Rightarrow> string \<Rightarrow> host_file option" where
  "ini_file H ini sec key = (case ini sec key of None \<Rightarrow> None | Some path \<Rightarrow> host_files H path)"

definition ram_len :: "vm_config \<Rightarrow> int" where
  "ram_len c = uint (MEGA (ram_mega c))"

definition config_regions :: "vm_config \<Rightarrow> pm_region_operation list" where
  "config_regions c =
     [\<lparr>addr_low = 0, addr_high = word_of_int (rom_len c), pmr_device = Bootrom\<rparr>,
      \<lparr>addr_low = ram_base c, addr_high = ram_base c + MEGA (ram_mega c), pmr_device = Main_memory\<rparr>,
      \<lparr>addr_low = clint_at c, addr_high = clint_at c + clint_len c, pmr_device = Clint_mmio\<rparr>,
      \<lparr>addr_low = plic_at c, addr_high = plic_at c + plic_len c, pmr_device = Plic_mmio\<rparr>,
      \<lparr>addr_low = UART_16550_BASE, addr_high = UART_16550_BASE + 0x100, pmr_device = Uart_mmio\<rparr>,
      \<lparr>addr_low = syscon_base, addr_high = syscon_base + syscon_size, pmr_device = Syscon_mmio\<rparr>]"

text \<open>
  What a configuration has to say: the ROM at address zero with the firmware above the hand-over
  areas, the kernel inside main memory, one to four harts, TLB sizes that are powers of two, disjoint
  regions, a running clock, no initial ramdisk.
\<close>

definition rom_config :: "host_env \<Rightarrow> ini \<Rightarrow> vm_config \<Rightarrow> bool" where
  "rom_config H ini c \<longleftrightarrow> ini_num ini ''rom'' ''rom_start'' 16 = Some 0 \<and> ini_num ini ''rom'' ''rom_size'' 16 = Some (rom_len c) \<and>
     ZELDA_ROM_MIN_SIZE \<le> rom_len c \<and> rom_len c \<le> mmap_limit H \<and>
     ini_file H ini ''rom'' ''rom_image'' = Some (rom_file c) \<and> regular_file (rom_file c) \<and> length (file_bytes (rom_file c)) < 2 ^ 31 \<and>
     ini_num ini ''cpu'' ''pc_on_reset'' 16 = Some (uint (reset_pc c)) \<and> 0x4000 \<le> reset_pc c \<and>
     uint (reset_pc c) + int (length (file_bytes (rom_file c))) \<le> rom_len c"

definition ram_config :: "host_env \<Rightarrow> ini \<Rightarrow> vm_config \<Rightarrow> bool" where
  "ram_config H ini c \<longleftrightarrow> ini_num ini ''mem'' ''main_memory_start'' 16 = Some (uint (ram_base c)) \<and>
     ini_num ini ''mem'' ''main_memory_size_in_mega'' 10 = Some (uint (ram_mega c)) \<and> 0 < ram_len c \<and> ram_len c \<le> mmap_limit H \<and>
     ini_file H ini ''image'' ''kernel'' = Some (kernel_file c) \<and> regular_file (kernel_file c) \<and> length (file_bytes (kernel_file c)) < 2 ^ 31 \<and>
     ini_num ini ''image'' ''kernel_load_base'' 16 = Some (uint (kernel_base c)) \<and> ram_base c \<le> kernel_base c \<and>
     uint (kernel_base c) < uint (ram_base c) + ram_len c \<and>
     uint (kernel_base c) + int (length (file_bytes (kernel_file c))) \<le> uint (ram_base c) + ram_len c \<and>
     ini ''image'' ''initrd'' = None"

definition cpu_config :: "ini \<Rightarrow> vm_config \<Rightarrow> bool" where
  "cpu_config ini c \<longleftrightarrow> ini_num ini ''cpu'' ''nr_cpus'' 10 = Some (int (cpus c)) \<and> cpus c \<le> 4 \<and>
     (case ini_num ini ''cpu'' ''boot_cpu'' 10 of None \<Rightarrow> 0 | Some i \<Rightarrow> i) = int (boot_cpu c) \<and> boot_cpu c < cpus c \<and>
     ini_num ini ''cpu'' ''itlb_size'' 16 = Some (2 ^ itlb_log c) \<and> itlb_log c < 32 \<and>
     ini_num ini ''cpu'' ''dtlb_size'' 16 = Some (2 ^ dtlb_log c) \<and> dtlb_log c < 32"

definition device_config :: "ini \<Rightarrow> vm_config \<Rightarrow> bool" where
  "device_config ini c \<longleftrightarrow> ini_num ini ''cpu'' ''clint_base'' 16 = Some (uint (clint_at c)) \<and>
     ini_num ini ''cpu'' ''clint_size'' 16 = Some (uint (clint_len c)) \<and>
     (case ini_num ini ''cpu'' ''plic_base'' 16 of None \<Rightarrow> 0x0c000000 | Some i \<Rightarrow> i) = uint (plic_at c) \<and>
     (case ini_num ini ''cpu'' ''plic_size'' 16 of None \<Rightarrow> 0x04000000 | Some i \<Rightarrow> i) = uint (plic_len c) \<and>
     list_all nonempty_region (config_regions c) \<and> sorted_wrt disjoint_regions (config_regions c)"

definition misc_config :: "ini \<Rightarrow> bool" where
  "misc_config ini \<longleftrightarrow> (case ini_num ini ''cpu'' ''ticks_per_translation_unit'' 10 of None \<Rightarrow> True | Some i \<Rightarrow> 0 < (word_of_int i :: u64)) \<and>
     (case ini ''image'' ''bootarg'' of None \<Rightarrow> False | Some a \<Rightarrow> length a \<le> 4096)"

definition boots_with :: "host_env \<Rightarrow> ini \<Rightarrow> vm_config \<Rightarrow> bool" where
  "boots_with H ini c \<longleftrightarrow> rom_config H ini c \<and> ram_config H ini c \<and> cpu_config ini c \<and> device_config ini c \<and> misc_config ini"

subsection \<open>Stages\<close>

lemma register_region_ok:
  assumes "wf_regions (pmr_table s)" and "nonempty_region pmr" and "\<forall>r\<in>set (pmr_table s). disjoint_regions r pmr"
    and "length (pmr_table s) < 200"
  shows "\<exists>t. register_region pmr s = Ret () (s\<lparr>pmr_table := t\<rparr>) \<and> register_pm_region_operation (pmr_table s) pmr = Some t \<and>
    wf_regions t \<and> mset t = add_mset pmr (mset (pmr_table s))"
  using register_pm_region_wf [OF assms(1-3)] assms(4) by (auto simp: register_region_def need_def MAX_NR_PM_REGIONS_def)

lemma ini_numberI: "ini_num (ini_config (the_vm s)) sec key base = Some v \<Longrightarrow> ini_number s sec key base f = f v"
  by (auto simp: ini_number_def ini_need_def ini_num_def)

lemma ini_fileI:
  assumes "ini_file H (ini_config vm) sec key = Some f"
  obtains path where "ini_config vm sec key = Some path" "host_files H path = Some f"
  using assms by (auto simp: ini_file_def split: option.splits)

text \<open>The table holds the first \<open>k\<close> regions of the configuration, in the order of their addresses.\<close>

definition table_ok :: "vm_config \<Rightarrow> nat \<Rightarrow> pm_region_operation list \<Rightarrow> bool" where
  "table_ok c k t \<longleftrightarrow> wf_regions t \<and> mset t = mset (take k (config_regions c))"

lemma table_step:
  assumes t: "table_ok c k (pmr_table s)" and c: "list_all nonempty_region (config_regions c)" "sorted_wrt disjoint_regions (config_regions c)"
    and k: "k < 6" and pmr: "config_regions c ! k = pmr"
  shows "\<exists>t. register_region pmr s = Ret () (s\<lparr>pmr_table := t\<rparr>) \<and> register_pm_region_operation (pmr_table s) pmr = Some t \<and> table_ok c (Suc k) t"
proof -
  have len: "length (config_regions c) = 6" by (simp add: config_regions_def)
  have set_t: "set (pmr_table s) = set (take k (config_regions c))" using t by (metis table_ok_def set_mset_mset)
  have "nonempty_region pmr" using c(1) k len pmr by (auto simp: list_all_length)
  moreover have "\<forall>r\<in>set (pmr_table s). disjoint_regions r pmr"
  proof
    fix r assume "r \<in> set (pmr_table s)"
    then obtain i where i: "i < k" "r = config_regions c ! i" using set_t k len by (auto simp: in_set_conv_nth)
    then show "disjoint_regions r pmr" using sorted_wrt_nth_less [OF c(2), of i k] k len pmr by simp
  qed
  moreover have "length (pmr_table s) = k" using t k len by (metis table_ok_def size_mset length_take min.absorb2 less_imp_le)
  ultimately obtain t' where "register_region pmr s = Ret () (s\<lparr>pmr_table := t'\<rparr>)" "register_pm_region_operation (pmr_table s) pmr = Some t'"
    "wf_regions t'" "mset t' = add_mset pmr (mset (pmr_table s))"
    using register_region_ok [of s pmr] t k by (auto simp: table_ok_def)
  moreover have "mset (take (Suc k) (config_regions c)) = add_mset pmr (mset (take k (config_regions c)))"
    using k len pmr by (simp add: take_Suc_conv_app_nth)
  ultimately show ?thesis using t by (auto simp: table_ok_def)
qed

lemma bootrom_stage:
  assumes c: "rom_config H ini c" "list_all nonempty_region (config_regions c)" "sorted_wrt disjoint_regions (config_regions c)"
    and s: "ini_config (the_vm s) = ini" "pmr_table s = []"
  shows "\<exists>t. bootrom_init H s = Ret () (set_vm (\<lambda>vm. vm\<lparr>bootrom_base := 0, bootrom_size := rom_len c,
      bootrom_host := with_bytes \<lparr>mem_bytes = \<lambda>_. 0, mem_size = nat (rom_len c)\<rparr> (unat (reset_pc c)) (file_bytes (rom_file c))\<rparr>)
      (s\<lparr>pmr_table := t\<rparr>)) \<and> table_ok c 1 t"
proof -
  have num: "ini_num (ini_config (the_vm s)) ''rom'' ''rom_start'' 16 = Some 0" "ini_num (ini_config (the_vm s)) ''rom'' ''rom_size'' 16 = Some (rom_len c)"
    "ini_num (ini_config (the_vm s)) ''cpu'' ''pc_on_reset'' 16 = Some (uint (reset_pc c))" using c(1) s(1) by (simp_all add: rom_config_def)
  have "ini_file H (ini_config (the_vm s)) ''rom'' ''rom_image'' = Some (rom_file c)" using c(1) s(1) by (simp add: rom_config_def)
  then obtain path where path: "ini_config (the_vm s) ''rom'' ''rom_image'' = Some path" "host_files H path = Some (rom_file c)" by (rule ini_fileI)
  let ?m = "\<lparr>mem_bytes = \<lambda>_. 0, mem_size = nat (rom_len c)\<rparr>"
  let ?s = "set_vm (\<lambda>vm. vm\<lparr>bootrom_base := 0, bootrom_size := rom_len c, bootrom_host := ?m\<rparr>) s"
  have mem: "preallocate_physical_memory H (rom_len c) = Some ?m" using c(1) by (simp add: rom_config_def preallocate_physical_memory_def)
  have fit: "uint (reset_pc c) = int (unat (reset_pc c))" "int (length (file_bytes (rom_file c))) \<le> rom_len c - uint (reset_pc c)"
    "0 \<le> rom_len c - uint (reset_pc c)" using c(1) by (auto simp: rom_config_def)
  then have room: "unat (reset_pc c) + nat (rom_len c - uint (reset_pc c)) \<le> mem_size ?m" unfolding host_memory.select_convs by linarith
  have "preload_binary_image H (uint (reset_pc c)) (rom_len c - uint (reset_pc c)) path ?m = Ret 0 (with_bytes ?m (unat (reset_pc c)) (file_bytes (rom_file c)))"
    using preload_copies [OF path(2) _ _ fit(3) room] c(1) fit(2) unfolding rom_config_def fit(1) [symmetric] by simp
  moreover obtain t where "register_region (config_regions c ! 0) ?s = Ret () (?s\<lparr>pmr_table := t\<rparr>)" "table_ok c (Suc 0) t"
    using table_step [of c 0 ?s] c(2,3) s(2) by (auto simp: table_ok_def wf_regions_def)
  ultimately show ?thesis
    by (intro exI [of _ t]) (simp add: bootrom_init_def ini_numberI [OF num(1)] ini_numberI [OF num(2)] ini_numberI [OF num(3)] ini_need_def path need_def mem config_regions_def)
qed

lemma ram_stage:
  assumes c: "ram_config H ini c" "list_all nonempty_region (config_regions c)" "sorted_wrt disjoint_regions (config_regions c)"
    and s: "ini_config (the_vm s) = ini" "table_ok c 1 (pmr_table s)"
  shows "\<exists>t. ram_init H s = Ret () (set_vm (\<lambda>vm. vm\<lparr>main_mem_base := uint (ram_base c), main_mem_size := ram_len c,
      main_mem_host := with_bytes \<lparr>mem_bytes = \<lambda>_. 0, mem_size = nat (ram_len c)\<rparr> (unat (kernel_base c - ram_base c)) (file_bytes (kernel_file c))\<rparr>)
      (s\<lparr>pmr_table := t\<rparr>)) \<and> table_ok c 2 t"
proof -
  have num: "ini_num (ini_config (the_vm s)) ''mem'' ''main_memory_start'' 16 = Some (uint (ram_base c))"
    "ini_num (ini_config (the_vm s)) ''mem'' ''main_memory_size_in_mega'' 10 = Some (uint (ram_mega c))"
    using c(1) s(1) by (simp_all add: ram_config_def)
  have "ini_file H (ini_config (the_vm s)) ''image'' ''kernel'' = Some (kernel_file c)" using c(1) s(1) by (simp add: ram_config_def)
  then obtain path where path: "ini_config (the_vm s) ''image'' ''kernel'' = Some path" "host_files H path = Some (kernel_file c)" by (rule ini_fileI)
  let ?m = "\<lparr>mem_bytes = \<lambda>_. 0, mem_size = nat (ram_len c)\<rparr>" and ?off = "kernel_base c - ram_base c"
  let ?g = "\<lambda>mem vm. vm\<lparr>main_mem_base := uint (ram_base c), main_mem_size := ram_len c, main_mem_host := mem\<rparr>"
  let ?s = "set_vm (?g ?m) s"
  have mem: "preallocate_physical_memory H (ram_len c) = Some ?m" using c(1) by (simp add: ram_config_def preallocate_physical_memory_def)
  have off: "uint (kernel_base c) - uint (ram_base c) = int (unat ?off)"
    using c(1) by (simp add: ram_config_def uint_minus_simple_alt [symmetric] uint_sub_lem [THEN iffD1] word_le_def)
  have fit: "int (length (file_bytes (kernel_file c))) \<le> ram_len c - int (unat ?off)" "0 \<le> ram_len c - int (unat ?off)"
    using c(1) unfolding ram_config_def off [symmetric] by linarith+
  then have room: "unat ?off + nat (ram_len c - int (unat ?off)) \<le> mem_size ?m" unfolding host_memory.select_convs by linarith
  have load: "preload_binary_image H (int (unat ?off)) (ram_len c - int (unat ?off)) path ?m = Ret 0 (with_bytes ?m (unat ?off) (file_bytes (kernel_file c)))"
    using preload_copies [OF path(2) _ _ fit(2) room] c(1) fit(1) by (simp add: ram_config_def)
  obtain t where t: "register_region (config_regions c ! 1) ?s = Ret () (?s\<lparr>pmr_table := t\<rparr>)" "table_ok c 2 t"
    using table_step [of c 1 ?s] c(2,3) s(2) by (auto simp: numeral_2_eq_2)
  have region: "config_regions c ! 1 = \<lparr>addr_low = word_of_int (uint (ram_base c)), addr_high = word_of_int (uint (ram_base c) + ram_len c), pmr_device = Main_memory\<rparr>"
    by (simp add: config_regions_def ram_len_def)
  let ?s1 = "?s\<lparr>pmr_table := t\<rparr>"
  have "ini_num (ini_config (the_vm ?s1)) ''image'' ''kernel_load_base'' 16 = Some (uint (kernel_base c))" using c(1) s(1) by (simp add: ram_config_def)
  note entry = ini_numberI [OF this]
  have kernel: "load_kernel H ?s1 = Ret () (set_vm (?g (with_bytes ?m (unat ?off) (file_bytes (kernel_file c)))) (s\<lparr>pmr_table := t\<rparr>))"
    using c(1) load by (simp add: load_kernel_def ini_need_def entry path off ram_config_def word_le_def)
  have "load_initrd H s' = Ret () s'" if "ini_config (the_vm s') = ini" for s'
    using that c(1) by (simp add: load_initrd_def ram_config_def)
  then have "ram_init H s = Ret () (set_vm (?g (with_bytes ?m (unat ?off) (file_bytes (kernel_file c)))) (s\<lparr>pmr_table := t\<rparr>))"
    using t(1) [unfolded region] kernel s(1) mem
    by (simp add: ram_init_def ini_numberI [OF num(1)] ini_numberI [OF num(2)] need_def Let_def ram_len_def [symmetric])
  then show ?thesis using t(2) by blast
qed

definition reset_hart :: "host_env \<Rightarrow> vm_config \<Rightarrow> nat \<Rightarrow> hart" where
  "reset_hart H c i = hart_tlb_init H (2 ^ itlb_log c) (2 ^ dtlb_log c)
     (zeroed_hart\<lparr>hart_id := int i, privilege_level := PRIVILEGE_LEVEL_MACHINE,
        csr_blob := (\<lambda>_. 0)(0x301 := 0x40141101, 0xf11 := 0x60a), pc := reset_pc c\<rparr>)"

lemma those_Some: "those (map (\<lambda>x. Some (f x)) xs) = Some (map f xs)"
  by (induction xs) simp_all

lemma ini_num_SomeE:
  assumes "ini_num ini sec key base = Some v"
  obtains str where "ini sec key = Some str" "strtol str base = v"
  using assms by (auto simp: ini_num_def)

lemma cpu_stage:
  assumes c: "cpu_config ini c" "rom_config H ini c" and s: "ini_config (the_vm s) = ini"
  shows "cpu_init H s = Ret () (set_vm (\<lambda>vm. vm\<lparr>nr_harts := int (cpus c), boot_hart := int (boot_cpu c),
      harts := map (reset_hart H c) [0..<cpus c]\<rparr>) s)"
proof -
  have nr: "ini_num (ini_config (the_vm s)) ''cpu'' ''nr_cpus'' 10 = Some (int (cpus c))"
    and reset: "ini_num (ini_config (the_vm s)) ''cpu'' ''pc_on_reset'' 16 = Some (uint (reset_pc c))"
    and small: "cpus c \<le> 4" "boot_cpu c < cpus c"
    using c s by (simp_all add: cpu_config_def rom_config_def)
  obtain istr dstr where tlb: "ini_config (the_vm s) ''cpu'' ''itlb_size'' = Some istr" "strtol istr 16 = 2 ^ itlb_log c"
    "ini_config (the_vm s) ''cpu'' ''dtlb_size'' = Some dstr" "strtol dstr 16 = 2 ^ dtlb_log c"
    using c(1) s by (auto simp: cpu_config_def elim!: ini_num_SomeE)
  have pow: "unat (2 ^ k :: u32) = 2 ^ k" if "k < 32" for k
  proof -
    have "(2 :: nat) ^ k < 2 ^ LENGTH(32)" using that by (intro power_strict_increasing) simp_all
    moreover have "(2 ^ k :: u32) = of_nat (2 ^ k)" by simp
    ultimately show ?thesis by (simp only: unat_of_nat mod_less)
  qed
  have boot: "(case ini_config (the_vm s) ''cpu'' ''boot_cpu'' of None \<Rightarrow> 0 | Some str \<Rightarrow> to_int (strtol str 10)) = int (boot_cpu c)"
    using c(1) s small to_int_id [of "int (boot_cpu c)"] by (auto simp: cpu_config_def ini_num_def split: option.splits)
  have hs: "those (map (\<lambda>idx. map_option (\<lambda>h. h\<lparr>pc := reset_pc c\<rparr>) (hart_init csr_registery_head (int idx))) [0..<cpus c]) =
      Some (map (\<lambda>i. zeroed_hart\<lparr>hart_id := int i, privilege_level := PRIVILEGE_LEVEL_MACHINE,
        csr_blob := (\<lambda>_. 0)(0x301 := 0x40141101, 0xf11 := 0x60a), pc := reset_pc c\<rparr>) [0..<cpus c])"
    unfolding hart_init_resets [OF refl] option.map(2) by (rule those_Some)
  have tlb_len: "itlb_log c < 32" "dtlb_log c < 32" using c(1) by (simp_all add: cpu_config_def)
  show ?thesis
    using to_int_id [of "int (cpus c)"] small(1) hs tlb
    by (simp add: cpu_init_def ini_numberI [OF nr] ini_numberI [OF reset] boot need_def pow tlb_len reset_hart_def [abs_def] comp_def)
qed

text \<open>The devices, as their \<^verbatim>\<open>init\<close> functions leave them.\<close>

definition reset_clint :: "vm_config \<Rightarrow> clint_state" where
  "reset_clint c = \<lparr>clint_base = clint_at c, clint_size = clint_len c, clint_nr_harts = cpus c, mtime = 0,
     mtimecmp = replicate MAX_NR_HARTS (- 1), msip = replicate MAX_NR_HARTS 0\<rparr>"

definition reset_plic :: "vm_config \<Rightarrow> plic_state" where
  "reset_plic c = \<lparr>plic_base = plic_at c, plic_size = plic_len c, nr_contexts = cpus c * 2, phandle = 0,
     priority = replicate PLIC_NR_SOURCES 0, asserted = 0, pending = 0, claimed = 0,
     enable = replicate PLIC_MAX_CONTEXTS 0, threshold = replicate PLIC_MAX_CONTEXTS 0\<rparr>"

definition reset_uart :: "host_env \<Rightarrow> uart_state" where
  "reset_uart H = \<lparr>ier = 0, lcr = 0, mcr = 0, fcr = 0, scr = 0, dll = 0x03, dlm = 0,
     rx_fifo = replicate UART_RX_FIFO_SIZE 0, rx_head = 0, rx_tail = 0,
     console_attached = terminal_attached H, escape_armed = False, console_output = []\<rparr>"

lemma device_stage:
  assumes c: "device_config ini c" "cpus c \<le> 4"
    and s: "ini_config (the_vm s) = ini" "nr_harts (the_vm s) = int (cpus c)" "table_ok c 2 (pmr_table s)"
  shows "\<exists>t. device_init H s = Ret () (s\<lparr>pmr_table := t, the_clint := reset_clint c, the_plic := reset_plic c, the_uart := reset_uart H\<rparr>) \<and>
    table_ok c 6 t"
proof -
  have num: "ini_num (ini_config (the_vm s)) ''cpu'' ''clint_base'' 16 = Some (uint (clint_at c))"
    "ini_num (ini_config (the_vm s)) ''cpu'' ''clint_size'' 16 = Some (uint (clint_len c))"
    using c(1) s(1) by (simp_all add: device_config_def)
  have plic: "(case ini ''cpu'' ''plic_base'' of None \<Rightarrow> 0x0c000000 | Some str \<Rightarrow> strtol str 16) = uint (plic_at c)"
    "(case ini ''cpu'' ''plic_size'' of None \<Rightarrow> 0x04000000 | Some str \<Rightarrow> strtol str 16) = uint (plic_len c)"
    using c(1) by (auto simp: device_config_def ini_num_def split: option.splits)
  note cfg = c(1) [unfolded device_config_def, THEN conjunct2, THEN conjunct2, THEN conjunct2, THEN conjunct2]
  note step = table_step [OF _ cfg [THEN conjunct1] cfg [THEN conjunct2] _ refl]
  obtain t1 where t1: "register_pm_region_operation (pmr_table s) (config_regions c ! 2) = Some t1" "table_ok c 3 t1"
    using step [OF s(3)] by (auto simp: numeral_3_eq_3)
  let ?s1 = "s\<lparr>the_clint := reset_clint c, pmr_table := t1\<rparr>"
  obtain t2 where t2: "register_pm_region_operation t1 (config_regions c ! 3) = Some t2" "table_ok c 4 t2"
    using step [of 3 ?s1] t1(2) by auto
  let ?s2 = "?s1\<lparr>the_plic := reset_plic c, pmr_table := t2\<rparr>"
  obtain t3 where t3: "register_pm_region_operation t2 (config_regions c ! 4) = Some t3" "table_ok c 5 t3"
    using step [of 4 ?s2] t2(2) by auto
  let ?s3 = "?s2\<lparr>the_uart := reset_uart H, pmr_table := t3\<rparr>"
  obtain t4 where t4: "register_pm_region_operation t3 (config_regions c ! 5) = Some t4" "table_ok c 6 t4"
    using step [of 5 ?s3] t3(2) by auto
  have "clint_setup s = Ret () ?s1"
    using t1(1) c(2) s(2) by (simp add: clint_setup_def ini_numberI [OF num(1)] ini_numberI [OF num(2)] need_def clint_init_def
        MAX_NR_HARTS_def reset_clint_def config_regions_def)
  moreover have "plic_setup ?s1 = Ret () ?s2"
    using t2(1) c(2) s(1,2) by (simp add: plic_setup_def plic need_def plic_init_def PLIC_MAX_CONTEXTS_def MAX_NR_HARTS_def reset_plic_def config_regions_def)
  moreover have "uart_setup H ?s2 = Ret () ?s3"
    using t3(1) by (simp add: uart_setup_def need_def uart_init_def reset_uart_def config_regions_def)
  moreover have "syscon_init ?s3 = Ret () (?s3\<lparr>pmr_table := t4\<rparr>)"
    using t4(1) by (simp add: syscon_init_def register_region_def need_def config_regions_def)
  ultimately show ?thesis using t4(2) by (intro exI [of _ t4]) (simp add: device_init_def)
qed

lemma add_breakpoint_total: "\<exists>r t. add_breakpoint a bps = Some (r, t)"
proof -
  have total: "addr_cmp x y \<noteq> None" for x y by (simp add: addr_cmp_def key_cmp_def)
  obtain found where "is_address_breakpoint bps a = Some found"
    using SEARCH_total [of addr_cmp bps a, OF total] by (auto simp: is_address_breakpoint_def)
  then show ?thesis using INSERTION_SORT_total [of addr_cmp "bps @ [a]", OF total]
    by (cases found) (auto simp: add_breakpoint_def)
qed

lemma load_breakpoints_total: "\<exists>t. load_breakpoints bps s = Ret () (s\<lparr>breakpoint_table := t\<rparr>)"
proof (induction bps arbitrary: s)
  case Nil
  then show ?case by (intro exI [of _ "breakpoint_table s"]) (simp add: load_breakpoints_def)
next
  case (Cons bp bps)
  obtain r t where "add_breakpoint (word_of_int (strtol bp 16)) (breakpoint_table s) = Some (r, t)" using add_breakpoint_total by blast
  then show ?case using Cons.IH [of "s\<lparr>breakpoint_table := t\<rparr>"] by (simp add: load_breakpoints_def need_def)
qed

lemma misc_stage:
  assumes "misc_config ini" and "ini_config (the_vm s) = ini" and "0 < tick_rate s"
  shows "\<exists>k t. misc_init s = Ret () (s\<lparr>tick_rate := k, breakpoint_table := t\<rparr>) \<and> 0 < k"
proof -
  obtain k where k: "(case ini_config (the_vm s) ''cpu'' ''ticks_per_translation_unit'' of None \<Rightarrow> Ret () s
       | Some str \<Rightarrow> let ticks = word_of_int (strtol str 10) in rassert (0 < ticks) (Ret () (s\<lparr>tick_rate := ticks\<rparr>))) = Ret () (s\<lparr>tick_rate := k\<rparr>)"
      "0 < k"
  proof (cases "ini ''cpu'' ''ticks_per_translation_unit''")
    case None
    then show thesis using assms(2,3) by (intro that [of "tick_rate s"]) simp_all
  next
    case (Some str)
    then show thesis using assms(1,2) by (intro that [of "word_of_int (strtol str 10)"]) (simp_all add: misc_config_def ini_num_def)
  qed
  show ?thesis
  proof (cases "ini ''debug'' ''breakpoints''")
    case None
    then show ?thesis using k assms(2) by (intro exI [of _ k] exI [of _ "breakpoint_table s"]) (simp add: misc_init_def)
  next
    case (Some str)
    obtain t where "load_breakpoints (strtok_words str []) (s\<lparr>tick_rate := k\<rparr>) = Ret () (s\<lparr>tick_rate := k, breakpoint_table := t\<rparr>)"
      using load_breakpoints_total by blast
    then show ?thesis using k assms(2) Some by (intro exI [of _ k] exI [of _ t]) (simp add: misc_init_def)
  qed
qed

text \<open>What the guest finds in the ROM: the device tree and the hand-over block.\<close>

definition holds_tree :: "host_memory \<Rightarrow> dt_node \<Rightarrow> bool" where
  "holds_tree mem tree \<longleftrightarrow> (\<exists>dtb log. map (mem_bytes mem) [0x1000..<0x1000 + length dtb] = dtb \<and>
     length dtb \<le> 0x2000 \<and> field32 dtb 0 = FDT_MAGIC \<and> uint (field32 dtb 4) = int (length dtb) \<and>
     scan_fdt_tokens dtb = Some (Ret () log) \<and> map (logged_property dtb) log = item_properties None (flatten_dt tree))"

lemma tree_stage:
  assumes vm: "wf_harts (the_vm s)" "length (harts (the_vm s)) \<le> 4" "tree_config (the_vm s)"
    and a: "length (the (ini_config (the_vm s) ''image'' ''bootarg'')) \<le> 4096"
    and rom: "bootrom_base (the_vm s) = 0" "ZELDA_ROM_MIN_SIZE \<le> bootrom_size (the_vm s)" "mem_size (bootrom_host (the_vm s)) = nat (bootrom_size (the_vm s))"
  shows "\<exists>mem. build_tree H s = Ret () (set_vm (\<lambda>vm. vm\<lparr>bootrom_host := mem\<rparr>) (s\<lparr>the_plic := (the_plic s)\<lparr>phandle := 1\<rparr>\<rparr>)) \<and>
    holds_tree mem (device_tree (the_vm s) (image_file_size H) (the_clint s) (the_plic s)) \<and> mem_size mem = mem_size (bootrom_host (the_vm s)) \<and>
    (\<forall>i. i < 0x1000 \<or> 0x3000 \<le> i \<longrightarrow> mem_bytes mem i = mem_bytes (bootrom_host (the_vm s)) i)"
proof -
  from fdt_init_contents [OF vm(1,3,2) a rom(1,2) eq_imp_le [OF rom(3) [symmetric]], of "image_file_size H" "the_clint s" "the_plic s"]
  obtain mem b dtb log where "fdt_init (the_vm s) (image_file_size H) (the_clint s) (the_plic s) = Ret ((the_plic s)\<lparr>phandle := 1\<rparr>, mem) b"
    "map (mem_bytes mem) [0x1000..<0x1000 + length dtb] = dtb" "length dtb \<le> 0x2000" "field32 dtb 0 = FDT_MAGIC" "uint (field32 dtb 4) = int (length dtb)" "scan_fdt_tokens dtb = Some (Ret () log)"
    "map (logged_property dtb) log = item_properties None (flatten_dt (device_tree (the_vm s) (image_file_size H) (the_clint s) (the_plic s)))"
    "mem_size mem = mem_size (bootrom_host (the_vm s))"
    "\<forall>i. i < 0x1000 \<or> 0x3000 \<le> i \<longrightarrow> mem_bytes mem i = mem_bytes (bootrom_host (the_vm s)) i"
    by blast
  then show ?thesis unfolding holds_tree_def by (intro exI [of _ mem] conjI) (auto simp: build_tree_def)
qed

definition boot_info_of :: "vm_config \<Rightarrow> u8 list" where
  "boot_info_of c = concat (map le_bytes32 [ZELDA_BOOT_INFO_MAGIC, kernel_base c, 0x1000, 0, 0, ram_base c, MEGA (ram_mega c), of_nat (cpus c)])"

lemma boot_info_stage:
  assumes c: "ram_config H (ini_config (the_vm s)) c"
    and vm: "main_mem_base (the_vm s) = uint (ram_base c)" "main_mem_size (the_vm s) = ram_len c" "nr_harts (the_vm s) = int (cpus c)"
    and rom: "bootrom_base (the_vm s) = 0" "ZELDA_ROM_MIN_SIZE \<le> bootrom_size (the_vm s)" "mem_size (bootrom_host (the_vm s)) = nat (bootrom_size (the_vm s))"
  shows "boot_info_init H s = Ret () (set_vm (\<lambda>vm. vm\<lparr>bootrom_host := with_bytes (bootrom_host vm) 0x3000 (boot_info_of c)\<rparr>) s)"
proof -
  have entry: "ini_num (ini_config (the_vm s)) ''image'' ''kernel_load_base'' 16 = Some (uint (kernel_base c))"
    and no_initrd: "initrd_of (the_vm s) (image_file_size H) = None" using c by (simp_all add: ram_config_def initrd_of_def)
  have bytes: "concat (map le_bytes32 (boot_info_words H (the_vm s) (kernel_base c))) = boot_info_of c"
    using vm by (simp add: boot_info_words_def boot_info_of_def no_initrd ram_len_def)
  have "0x3000 + length (boot_info_of c) \<le> mem_size (bootrom_host (the_vm s))" using rom(2,3) by (simp add: boot_info_of_def)
  from host_memcpy_ok [OF this] show ?thesis
    using rom(1,2) by (simp add: boot_info_init_def ini_numberI [OF entry] bytes Let_def)
qed

lemma with_bytes_outside:
  assumes "i < off \<or> off + length bs \<le> i"
  shows "mem_bytes (with_bytes mem off bs) i = mem_bytes mem i"
  using assms by (auto simp: with_bytes_def)

lemma bytes_kept:
  assumes "map (mem_bytes mem) [a..<b] = bs" and "\<And>i. a \<le> i \<Longrightarrow> i < b \<Longrightarrow> mem_bytes mem' i = mem_bytes mem i"
  shows "map (mem_bytes mem') [a..<b] = bs"
  using assms by (auto intro!: map_cong)

lemma holds_tree_kept:
  assumes "holds_tree mem tree" and "\<And>i. i < 0x3000 \<Longrightarrow> mem_bytes mem' i = mem_bytes mem i"
  shows "holds_tree mem' tree"
proof -
  obtain dtb log where d: "map (mem_bytes mem) [0x1000..<0x1000 + length dtb] = dtb" "length dtb \<le> 0x2000"
    "field32 dtb 0 = FDT_MAGIC" "uint (field32 dtb 4) = int (length dtb)"
    "scan_fdt_tokens dtb = Some (Ret () log)" "map (logged_property dtb) log = item_properties None (flatten_dt tree)"
    using assms(1) unfolding holds_tree_def by blast
  have "map (mem_bytes mem') [0x1000..<0x1000 + length dtb] = dtb" using d(2) by (intro bytes_kept [OF d(1)] assms(2)) linarith
  then show ?thesis using d(2-) unfolding holds_tree_def by blast
qed

text \<open>The hart that \<open>main\<close> resumes.\<close>

lemma reset_hart_ready:
  assumes "itlb_log c < 32" and "dtlb_log c < 32"
  shows "wf_cache L b (reset_hart H c i)" "linked L E code None (reset_hart H c i)" "wf_interrupts (reset_hart H c i)"
    "wf_tlb (itlb (reset_hart H c i))" "wf_tlb (dtlb (reset_hart H c i))"
    "VA_TO_TLB_ENTRY (itlb (reset_hart H c i)) va = None" "VA_TO_TLB_ENTRY (dtlb (reset_hart H c i)) va = None"
proof -
  let ?h = "reset_hart H c i"
  show tlb: "wf_tlb (itlb ?h)" "wf_tlb (dtlb ?h)" using assms by (auto simp: wf_tlb_def reset_hart_def hart_tlb_init_def)
  have fresh: "wf_tlb (map (fresh_tlb H) [0..<2 ^ itlb_log c])" "wf_tlb (map (fresh_tlb H) [0..<2 ^ dtlb_log c])"
    using assms by (auto simp: wf_tlb_def)
  show "VA_TO_TLB_ENTRY (itlb ?h) va = None" "VA_TO_TLB_ENTRY (dtlb ?h) va = None"
    using invalidate_tlb_miss [OF fresh(1)] invalidate_tlb_miss [OF fresh(2)] by (simp_all add: reset_hart_def hart_tlb_init_def)
qed (simp_all add: wf_cache_def linked_def wf_interrupts_def reset_hart_def hart_tlb_init_def zeroed_hart_def TRANSLATION_CACHE_SIZE_def)

lemma reset_devices_wf: "cpus c \<le> 4 \<Longrightarrow> wf_clint (reset_clint c)" "cpus c \<le> 4 \<Longrightarrow> wf_plic ((reset_plic c)\<lparr>phandle := 1\<rparr>)" "wf_uart (reset_uart H)"
  by (simp_all add: wf_clint_def wf_plic_def wf_uart_def reset_clint_def reset_plic_def reset_uart_def MAX_NR_HARTS_def PLIC_MAX_CONTEXTS_def
      PLIC_NR_SOURCES_def UART_RX_FIFO_SIZE_def)

subsection \<open>The machine at the reset vector\<close>

text \<open>The state behind all stages; the table, the clock rate, the breakpoints and the ROM come from the stages.\<close>

definition booted_vm :: "host_env \<Rightarrow> ini \<Rightarrow> vm_config \<Rightarrow> host_memory \<Rightarrow> virtual_machine" where
  "booted_vm H ini c rom = \<lparr>nr_harts = int (cpus c), boot_hart = int (boot_cpu c), harts = map (reset_hart H c) [0..<cpus c],
     main_mem_size = ram_len c, main_mem_base = uint (ram_base c),
     main_mem_host = with_bytes \<lparr>mem_bytes = \<lambda>_. 0, mem_size = nat (ram_len c)\<rparr> (unat (kernel_base c - ram_base c)) (file_bytes (kernel_file c)),
     bootrom_size = rom_len c, bootrom_base = 0, bootrom_host = rom, ini_config = ini\<rparr>"

definition booted :: "host_env \<Rightarrow> ini \<Rightarrow> vm_config \<Rightarrow> host_memory \<Rightarrow> pm_region_operation list \<Rightarrow> u64 \<Rightarrow> u32 list \<Rightarrow> vmm_state" where
  "booted H ini c rom t k bps = \<lparr>the_vm = booted_vm H ini c rom, pmr_table = t, the_clint = reset_clint c,
     the_plic = (reset_plic c)\<lparr>phandle := 1\<rparr>, the_uart = reset_uart H, tick_rate = k, breakpoint_table = bps\<rparr>"

lemma booted_vm_tree:
  assumes "rom_config H ini c" and "misc_config ini" and "cpus c \<le> 4"
  shows "wf_harts (booted_vm H ini c rom)" "tree_config (booted_vm H ini c rom)" "length (harts (booted_vm H ini c rom)) \<le> 4"
    "length (the (ini_config (booted_vm H ini c rom) ''image'' ''bootarg'')) \<le> 4096"
    "device_tree (booted_vm H ini c rom) f clint plic = device_tree (booted_vm H ini c rom') f clint plic"
proof -
  have "hart_id (reset_hart H c i) = int i" for i by (simp add: reset_hart_def hart_tlb_init_def)
  then show "wf_harts (booted_vm H ini c rom)" using assms(3) by (simp add: wf_harts_def booted_vm_def MAX_NR_HARTS_def comp_def)
qed (use assms in \<open>auto simp: booted_vm_def tree_config_def rom_config_def misc_config_def ini_num_def device_tree_def initrd_of_def split: option.splits\<close>)

lemma virtual_machine_init_stages:
  assumes c: "boots_with H ini c"
  shows "\<exists>rom t k bps. virtual_machine_init H ini = Ret () (booted H ini c rom t k bps) \<and> table_ok c 6 t \<and> 0 < k \<and>
    mem_size rom = nat (rom_len c) \<and> holds_tree rom (device_tree (booted_vm H ini c rom) (image_file_size H) (reset_clint c) (reset_plic c)) \<and>
    map (mem_bytes rom) [0x3000..<0x3020] = boot_info_of c \<and>
    map (mem_bytes rom) [unat (reset_pc c)..<unat (reset_pc c) + length (file_bytes (rom_file c))] = file_bytes (rom_file c)"
proof -
  note cfg = c [unfolded boots_with_def, THEN conjunct1] c [unfolded boots_with_def, THEN conjunct2, THEN conjunct1]
    c [unfolded boots_with_def, THEN conjunct2, THEN conjunct2, THEN conjunct1]
    c [unfolded boots_with_def, THEN conjunct2, THEN conjunct2, THEN conjunct2, THEN conjunct1]
    c [unfolded boots_with_def, THEN conjunct2, THEN conjunct2, THEN conjunct2, THEN conjunct2]
  have reg: "list_all nonempty_region (config_regions c)" "sorted_wrt disjoint_regions (config_regions c)"
    and n: "cpus c \<le> 4" using cfg(3,4) by (simp_all add: device_config_def cpu_config_def)
  let ?fw = "with_bytes \<lparr>mem_bytes = \<lambda>_. 0, mem_size = nat (rom_len c)\<rparr> (unat (reset_pc c)) (file_bytes (rom_file c))"
  let ?s0 = "vmm_start ini"
  have s0: "ini_config (the_vm ?s0) = ini" "pmr_table ?s0 = []" by (simp_all add: vmm_start_def)
  obtain t1 where s1: "bootrom_init H ?s0 = Ret () (set_vm (\<lambda>vm. vm\<lparr>bootrom_base := 0, bootrom_size := rom_len c, bootrom_host := ?fw\<rparr>)
      (?s0\<lparr>pmr_table := t1\<rparr>))" (is "_ = Ret () ?s1") "table_ok c 1 t1"
    using bootrom_stage [OF cfg(1) reg s0] by blast
  let ?ram = "with_bytes \<lparr>mem_bytes = \<lambda>_. 0, mem_size = nat (ram_len c)\<rparr> (unat (kernel_base c - ram_base c)) (file_bytes (kernel_file c))"
  obtain t2 where s2: "ram_init H ?s1 = Ret () (set_vm (\<lambda>vm. vm\<lparr>main_mem_base := uint (ram_base c), main_mem_size := ram_len c, main_mem_host := ?ram\<rparr>)
      (?s1\<lparr>pmr_table := t2\<rparr>))" (is "_ = Ret () ?s2") "table_ok c 2 t2"
    using ram_stage [OF cfg(2) reg, of ?s1] s1(2) s0(1) by auto
  let ?s3 = "set_vm (\<lambda>vm. vm\<lparr>nr_harts := int (cpus c), boot_hart := int (boot_cpu c), harts := map (reset_hart H c) [0..<cpus c]\<rparr>) ?s2"
  have s3: "cpu_init H ?s2 = Ret () ?s3" using cpu_stage [OF cfg(3,1), of ?s2] s0(1) by simp
  obtain t where s4: "device_init H ?s3 = Ret () (?s3\<lparr>pmr_table := t, the_clint := reset_clint c, the_plic := reset_plic c, the_uart := reset_uart H\<rparr>)" (is "_ = Ret () ?s4") "table_ok c 6 t"
    using device_stage [OF cfg(4) n, of ?s3 H] s2(2) s0(1) by auto
  obtain k bps where s5: "misc_init ?s4 = Ret () (?s4\<lparr>tick_rate := k, breakpoint_table := bps\<rparr>)" (is "_ = Ret () ?s5") "0 < k"
    using misc_stage [OF cfg(5), of ?s4] s0(1) by (auto simp: vmm_start_def)
  have vm5: "the_vm ?s5 = booted_vm H ini c ?fw" by (simp add: booted_vm_def vmm_start_def)
  note tree = booted_vm_tree [OF cfg(1,5) n, of ?fw]
  have rom: "ZELDA_ROM_MIN_SIZE \<le> rom_len c" "0x4000 \<le> unat (reset_pc c)" using cfg(1) by (auto simp: rom_config_def word_le_nat_alt)
  obtain mem where s6: "build_tree H ?s5 = Ret () (set_vm (\<lambda>vm. vm\<lparr>bootrom_host := mem\<rparr>) (?s5\<lparr>the_plic := (reset_plic c)\<lparr>phandle := 1\<rparr>\<rparr>))"
      (is "_ = Ret () ?s6")
    and mem: "holds_tree mem (device_tree (booted_vm H ini c ?fw) (image_file_size H) (reset_clint c) (reset_plic c))"
      "mem_size mem = nat (rom_len c)" "\<And>i. i < 0x1000 \<or> 0x3000 \<le> i \<Longrightarrow> mem_bytes mem i = mem_bytes ?fw i"
    using tree_stage [of ?s5 H, unfolded vm5, OF tree(1,3,2,4)] rom(1) by (auto simp: booted_vm_def)
  let ?rom = "with_bytes mem 0x3000 (boot_info_of c)"
  have len: "length (boot_info_of c) = 32" by (simp add: boot_info_of_def)
  have s7: "boot_info_init H ?s6 = Ret () (set_vm (\<lambda>vm. vm\<lparr>bootrom_host := ?rom\<rparr>) ?s6)"
    using boot_info_stage [of H ?s6 c] cfg(2) s0(1) rom(1) mem(2) by simp
  have "virtual_machine_init H ini = Ret () (booted H ini c ?rom t k bps)"
    using s1(1) s2(1) s3 s4(1) s5(1) s6 s7 by (simp add: virtual_machine_init_def booted_def booted_vm_def vmm_start_def)
  moreover have "map (mem_bytes ?rom) [0x3000..<0x3020] = boot_info_of c"
    using with_bytes_read [of mem "0x3000" "boot_info_of c"] len by simp
  moreover have "holds_tree ?rom (device_tree (booted_vm H ini c ?rom) (image_file_size H) (reset_clint c) (reset_plic c))"
  proof -
    have eq: "device_tree (booted_vm H ini c ?rom) (image_file_size H) (reset_clint c) (reset_plic c) =
        device_tree (booted_vm H ini c ?fw) (image_file_size H) (reset_clint c) (reset_plic c)"
      by (rule booted_vm_tree(5) [OF cfg(1,5) n])
    have "holds_tree ?rom (device_tree (booted_vm H ini c ?fw) (image_file_size H) (reset_clint c) (reset_plic c))"
      by (rule holds_tree_kept [OF mem(1)]) (simp add: with_bytes_outside)
    then show ?thesis by (rule back_subst [OF _ eq [symmetric]])
  qed
  moreover have "map (mem_bytes ?rom) [unat (reset_pc c)..<unat (reset_pc c) + length (file_bytes (rom_file c))] = file_bytes (rom_file c)"
    by (rule bytes_kept [OF with_bytes_read]) (use rom(2) mem(3) len in \<open>simp add: with_bytes_outside\<close>)
  ultimately show ?thesis using s4(2) s5(2) mem(2) by (intro exI [of _ ?rom] exI [of _ t] exI [of _ k] exI [of _ bps]) simp
qed

text \<open>
  C6. The machine comes up: a configuration that meets \<open>boots_with\<close> makes the set-up return, and the
  machine it hands to \<open>vmresume\<close> is well formed. Its region table holds exactly the six configured
  regions, in order and disjoint, and every device is in a legal state. The boot hart is at the reset
  vector in machine mode, with zeroed registers, no pending interrupts, TLBs of the configured size
  that miss on every address, and a well formed, empty translation cache. The ROM holds the firmware
  at the reset vector, the device tree and the hand-over block; main memory holds the kernel.
\<close>

theorem boot_ready:
  assumes "boots_with H ini c"
  shows "\<exists>m s. boot H ini = Ret m s \<and>
    wf_devices m \<and> mset (regions m) = mset (config_regions c) \<and> 0 < ticks_per_translation_unit m \<and>
    pc (cpu m) = reset_pc c \<and> hart_id (cpu m) = int (boot_cpu c) \<and> privilege_level (cpu m) = PRIVILEGE_LEVEL_MACHINE \<and>
    registers (cpu m) = (\<lambda>_. 0) \<and> wf_interrupts (cpu m) \<and> ipending (cpu m) = 0 \<and>
    length (itlb (cpu m)) = 2 ^ itlb_log c \<and> length (dtlb (cpu m)) = 2 ^ dtlb_log c \<and>
    (\<forall>va. VA_TO_TLB_ENTRY (itlb (cpu m)) va = None \<and> VA_TO_TLB_ENTRY (dtlb (cpu m)) va = None) \<and>
    wf_cache L b (cpu m) \<and> linked L E code None (cpu m) \<and>
    map (mem_bytes (bootrom m)) [unat (reset_pc c)..<unat (reset_pc c) + length (file_bytes (rom_file c))] = file_bytes (rom_file c) \<and>
    holds_tree (bootrom m) (device_tree (the_vm s) (image_file_size H) (clint_dev m) (plic_dev m)) \<and>
    map (mem_bytes (bootrom m)) [0x3000..<0x3020] = boot_info_of c \<and>
    map (mem_bytes (main_mem m)) [unat (kernel_base c - ram_base c)..<unat (kernel_base c - ram_base c) + length (file_bytes (kernel_file c))] =
      file_bytes (kernel_file c)"
proof -
  have cfg: "cpu_config ini c" and n: "cpus c \<le> 4" "boot_cpu c < cpus c" and logs: "itlb_log c < 32" "dtlb_log c < 32"
    using assms by (simp_all add: boots_with_def cpu_config_def)
  obtain rom t k bps where init: "virtual_machine_init H ini = Ret () (booted H ini c rom t k bps)" "table_ok c 6 t" "0 < k"
    and rom: "holds_tree rom (device_tree (booted_vm H ini c rom) (image_file_size H) (reset_clint c) (reset_plic c))"
      "map (mem_bytes rom) [0x3000..<0x3020] = boot_info_of c"
      "map (mem_bytes rom) [unat (reset_pc c)..<unat (reset_pc c) + length (file_bytes (rom_file c))] = file_bytes (rom_file c)"
    using virtual_machine_init_stages [OF assms] by blast
  let ?s = "booted H ini c rom t k bps" and ?h = "reset_hart H c (boot_cpu c)"
  let ?m = "machine_of H ?s ?h"
  have boot: "boot H ini = Ret ?m ?s"
    using init(1) n(2) by (simp add: boot_def hart_by_id_def booted_def booted_vm_def)
  have sel: "cpu ?m = ?h" "regions ?m = t" "bootrom ?m = rom" "ticks_per_translation_unit ?m = k" "clint_dev ?m = reset_clint c"
    "plic_dev ?m = (reset_plic c)\<lparr>phandle := 1\<rparr>" "uart_dev ?m = reset_uart H" "the_vm ?s = booted_vm H ini c rom"
    "main_mem ?m = main_mem_host (booted_vm H ini c rom)"
    by (simp_all add: machine_of_def booted_def booted_vm_def)
  have hart: "pc ?h = reset_pc c" "hart_id ?h = int (boot_cpu c)" "privilege_level ?h = PRIVILEGE_LEVEL_MACHINE" "registers ?h = (\<lambda>_. 0)"
    "ipending ?h = 0" "length (itlb ?h) = 2 ^ itlb_log c" "length (dtlb ?h) = 2 ^ dtlb_log c"
    by (simp_all add: reset_hart_def hart_tlb_init_def zeroed_hart_def)
  have t: "wf_regions t" "mset t = mset (config_regions c)" using init(2) by (simp_all add: table_ok_def config_regions_def)
  have devices: "wf_devices ?m" unfolding wf_devices_def sel using reset_devices_wf n(1) t(1) by blast
  have plic: "device_tree (booted_vm H ini c rom) (image_file_size H) (reset_clint c) ((reset_plic c)\<lparr>phandle := 1\<rparr>) =
      device_tree (booted_vm H ini c rom) (image_file_size H) (reset_clint c) (reset_plic c)"
    by (simp add: device_tree_def soc_tree_def)
  have kernel: "map (mem_bytes (main_mem ?m)) [unat (kernel_base c - ram_base c)..<unat (kernel_base c - ram_base c) + length (file_bytes (kernel_file c))] =
      file_bytes (kernel_file c)"
    unfolding sel booted_vm_def virtual_machine.select_convs by (rule with_bytes_read)
  show ?thesis
  proof (intro exI [of _ ?m] exI [of _ ?s] conjI allI)
    show "boot H ini = Ret ?m ?s" by (rule boot)
    show "wf_devices ?m" by (rule devices)
    show "holds_tree (bootrom ?m) (device_tree (the_vm ?s) (image_file_size H) (clint_dev ?m) (plic_dev ?m))"
      unfolding sel plic by (rule rom(1))
    show "map (mem_bytes (main_mem ?m)) [unat (kernel_base c - ram_base c)..<unat (kernel_base c - ram_base c) + length (file_bytes (kernel_file c))] =
      file_bytes (kernel_file c)" by (rule kernel)
  qed (simp_all only: sel hart t(2) init(3) rom(2,3) reset_hart_ready [OF logs])
qed

text \<open>C6 for the configuration \<^verbatim>\<open>test.vm.ini\<close> that comes with the emulator, on small images.\<close>

definition test_vm_ini :: ini where
  "test_vm_ini sec key = map_of
     [((''image'', ''kernel''), ''guest/Image''), ((''image'', ''kernel_load_base''), ''0x80400000''),
      ((''image'', ''bootarg''), ''console=ttyS0 earlycon=uart8250,mmio,0x10000000''),
      ((''rom'', ''rom_image''), ''bootrom/bootrom.rv32.img''), ((''rom'', ''rom_start''), ''0x0''), ((''rom'', ''rom_size''), ''0x400000''),
      ((''cpu'', ''nr_cpus''), ''1''), ((''cpu'', ''boot_cpu''), ''0''), ((''cpu'', ''pc_on_reset''), ''0x4000''),
      ((''cpu'', ''clint_base''), ''0x02000000''), ((''cpu'', ''clint_size''), ''0x00010000''),
      ((''cpu'', ''plic_base''), ''0x0c000000''), ((''cpu'', ''plic_size''), ''0x04000000''),
      ((''cpu'', ''ticks_per_translation_unit''), ''2''), ((''cpu'', ''itlb_size''), ''0x4000''), ((''cpu'', ''dtlb_size''), ''0x4000''),
      ((''mem'', ''main_memory_start''), ''0x80000000''), ((''mem'', ''main_memory_size_in_mega''), ''256'')] (sec, key)"

definition test_config :: vm_config where
  "test_config = \<lparr>rom_len = 0x400000, rom_file = example_file, reset_pc = 0x4000, ram_base = 0x80000000, ram_mega = 256,
     kernel_base = 0x80400000, kernel_file = example_file, cpus = 1, boot_cpu = 0, itlb_log = 14, dtlb_log = 14,
     clint_at = 0x02000000, clint_len = 0x00010000, plic_at = 0x0c000000, plic_len = 0x04000000\<rparr>"

lemmas number_defs = ini_num_def strtol_def skip_prefix_def is_digit_def digit_value_def of_char_def

lemma test_numbers:
  "ini_num test_vm_ini ''rom'' ''rom_start'' 16 = Some 0" "ini_num test_vm_ini ''rom'' ''rom_size'' 16 = Some 0x400000"
  "ini_num test_vm_ini ''cpu'' ''pc_on_reset'' 16 = Some 0x4000" "ini_num test_vm_ini ''mem'' ''main_memory_start'' 16 = Some 0x80000000"
  "ini_num test_vm_ini ''mem'' ''main_memory_size_in_mega'' 10 = Some 256"
  "ini_num test_vm_ini ''image'' ''kernel_load_base'' 16 = Some 0x80400000" "ini_num test_vm_ini ''cpu'' ''nr_cpus'' 10 = Some 1"
  "ini_num test_vm_ini ''cpu'' ''boot_cpu'' 10 = Some 0" "ini_num test_vm_ini ''cpu'' ''itlb_size'' 16 = Some 0x4000"
  "ini_num test_vm_ini ''cpu'' ''dtlb_size'' 16 = Some 0x4000" "ini_num test_vm_ini ''cpu'' ''clint_base'' 16 = Some 0x02000000"
  "ini_num test_vm_ini ''cpu'' ''clint_size'' 16 = Some 0x00010000" "ini_num test_vm_ini ''cpu'' ''plic_base'' 16 = Some 0x0c000000"
  "ini_num test_vm_ini ''cpu'' ''plic_size'' 16 = Some 0x04000000" "ini_num test_vm_ini ''cpu'' ''ticks_per_translation_unit'' 10 = Some 2"
  by (simp_all add: test_vm_ini_def number_defs)

lemma test_boots: "boots_with example_host test_vm_ini test_config"
  unfolding boots_with_def
proof (intro conjI)
  have files: "ini_file example_host test_vm_ini ''rom'' ''rom_image'' = Some example_file"
    "ini_file example_host test_vm_ini ''image'' ''kernel'' = Some example_file" "regular_file example_file" "length (file_bytes example_file) = 4"
    "mmap_limit example_host = 2 ^ 40"
    by (simp_all add: ini_file_def test_vm_ini_def example_host_def example_file_def regular_file_def)
  show "rom_config example_host test_vm_ini test_config"
    by (simp add: rom_config_def test_numbers test_config_def files)
  show "ram_config example_host test_vm_ini test_config"
    by (simp add: ram_config_def test_numbers test_config_def files ram_len_def MEGA_def test_vm_ini_def)
  show "cpu_config test_vm_ini test_config"
    by (simp add: cpu_config_def test_numbers test_config_def)
  show "device_config test_vm_ini test_config"
    by (simp add: device_config_def test_numbers test_config_def config_regions_def region_defs MEGA_def)
  show "misc_config test_vm_ini"
    by (simp add: misc_config_def test_numbers) (simp add: test_vm_ini_def)
qed

theorem boot_ready_witness:
  "\<exists>m s. boot example_host test_vm_ini = Ret m s \<and> wf_devices m \<and> pc (cpu m) = 0x4000 \<and> length (itlb (cpu m)) = 0x4000 \<and>
    map (mem_bytes (bootrom m)) [0x4000..<0x4004] = [10, 20, 30, 40] \<and> map (mem_bytes (main_mem m)) [0x400000..<0x400004] = [10, 20, 30, 40]"
proof -
  have c: "reset_pc test_config = 0x4000" "itlb_log test_config = 14" "file_bytes (rom_file test_config) = [10, 20, 30, 40]"
    "file_bytes (kernel_file test_config) = [10, 20, 30, 40]" "unat (kernel_base test_config - ram_base test_config) = 0x400000"
    by (simp_all add: test_config_def example_file_def)
  show ?thesis using boot_ready [OF test_boots, of example_layout 0 example_env "\<lambda>_. 0"] unfolding c by fastforce
qed

end
