(* ===== verification/Firmware.thy ===== *)
theory Firmware
  imports Setup
begin

text \<open>
  The machine mode firmware, part one (\<^verbatim>\<open>bootrom/\<close>): the console driver (\<^verbatim>\<open>uart.c\<close>), the formatted
  output (\<^verbatim>\<open>printk.c\<close>) and the access to control registers (\<^verbatim>\<open>csr.h\<close>). The firmware is modelled at the level of its source, over the emulated machine: a
  load or store is one of the memory management unit, a control register is accessed through the
  register table, so that the theorems speak about firmware and emulator together. Between two
  statements no device is pumped and no time passes.
\<close>

section \<open>State and control flow\<close>

text \<open>The machine and the two static variables of \<^verbatim>\<open>uart.c\<close>.\<close>

record firmware =
  platform :: machine
  uart16550 :: u32
  uart16550_reg_shift :: u32

text \<open>
  \<open>None\<close>: the hart never leaves a loop, as in \<^verbatim>\<open>for (;;) wfi\<close>. A \<open>Trap\<close> has entered the trap
  vector. An access outside an object, undefined in C, is \<open>Stop Host_fault\<close>.
\<close>

type_synonym 'a fw = "firmware \<Rightarrow> (firmware, 'a) result option"

definition fret :: "'a \<Rightarrow> 'a fw" where
  "fret a s = Some (Ret a s)"

definition fbind :: "'a fw \<Rightarrow> ('a \<Rightarrow> 'b fw) \<Rightarrow> 'b fw" where
  "fbind f g s = (case f s of
     None \<Rightarrow> None
   | Some (Ret a t) \<Rightarrow> g a t
   | Some (Trap t) \<Rightarrow> Some (Trap t)
   | Some (Stop e) \<Rightarrow> Some (Stop e))"

primrec fseq :: "unit fw list \<Rightarrow> unit fw" where
  "fseq [] = fret ()"
| "fseq (f # fs) = fbind f (\<lambda>_. fseq fs)"

definition on_platform :: "(machine \<Rightarrow> (machine, 'a) result) \<Rightarrow> 'a fw" where
  "on_platform f s = Some (rmap (\<lambda>m. s\<lparr>platform := m\<rparr>) (f (platform s)))"

definition spin :: "'a fw" where
  "spin s = None"

definition undefined_access :: "'a fw" where
  "undefined_access s = Some (Stop Host_fault)"

section \<open>Control registers (csr.h)\<close>

text \<open>A register that is not in the table is a \<open>PANIC\<close> of the emulator.\<close>

definition read_csr :: "nat \<Rightarrow> u32 fw" where
  "read_csr reg = on_platform (\<lambda>m. case csr_at csr_registery_head reg of
     None \<Rightarrow> Stop Assertion
   | Some csr \<Rightarrow> (case csr_read_value csr m of (v, m1) \<Rightarrow> Ret v m1))"

definition write_csr :: "nat \<Rightarrow> u32 \<Rightarrow> unit fw" where
  "write_csr reg val = on_platform (\<lambda>m. case csr_at csr_registery_head reg of
     None \<Rightarrow> Stop Assertion
   | Some csr \<Rightarrow> Ret () (csr_write_value csr val m))"

definition set_csr_bits :: "nat \<Rightarrow> u32 \<Rightarrow> unit fw" where
  "set_csr_bits reg bits = fbind (read_csr reg) (\<lambda>v. write_csr reg (v OR bits))"

definition clear_csr :: "nat \<Rightarrow> u32 \<Rightarrow> unit fw" where
  "clear_csr reg bits = fbind (read_csr reg) (\<lambda>v. write_csr reg (v AND NOT bits))"

abbreviation MIP_SSIP :: u32 where "MIP_SSIP \<equiv> 0x2"
abbreviation MIP_STIP :: u32 where "MIP_STIP \<equiv> 0x20"
abbreviation MIP_SEIP :: u32 where "MIP_SEIP \<equiv> 0x200"
abbreviation MIE_MSIE :: u32 where "MIE_MSIE \<equiv> 0x8"
abbreviation MIE_MTIE :: u32 where "MIE_MTIE \<equiv> 0x80"

abbreviation CSR_MVENDORID :: nat where "CSR_MVENDORID \<equiv> 0xf11"
abbreviation CSR_MARCHID :: nat where "CSR_MARCHID \<equiv> 0xf12"
abbreviation CSR_MIMPID :: nat where "CSR_MIMPID \<equiv> 0xf13"
abbreviation CSR_MHARTID :: nat where "CSR_MHARTID \<equiv> 0xf14"

section \<open>Console (uart.c)\<close>

abbreviation UART_REG_QUEUE :: u32 where "UART_REG_QUEUE \<equiv> 0"
abbreviation UART_REG_DLL :: u32 where "UART_REG_DLL \<equiv> 0"
abbreviation UART_REG_IER :: u32 where "UART_REG_IER \<equiv> 1"
abbreviation UART_REG_DLM :: u32 where "UART_REG_DLM \<equiv> 1"
abbreviation UART_REG_FCR :: u32 where "UART_REG_FCR \<equiv> 2"
abbreviation UART_REG_LCR :: u32 where "UART_REG_LCR \<equiv> 3"
abbreviation UART_REG_LSR :: u32 where "UART_REG_LSR \<equiv> 5"
abbreviation UART_REG_STATUS_RX :: u8 where "UART_REG_STATUS_RX \<equiv> 0x01"
abbreviation UART_REG_STATUS_TX :: u8 where "UART_REG_STATUS_TX \<equiv> 0x20"

definition uart_register :: "u32 \<Rightarrow> firmware \<Rightarrow> u32" where
  "uart_register reg s = uart16550 s + push_bit (unat (uart16550_reg_shift s)) reg"

definition uart_load :: "u32 \<Rightarrow> u8 fw" where
  "uart_load reg s = on_platform (mmu_read8 (uart_register reg s)) s"

definition uart_store :: "u32 \<Rightarrow> u8 \<Rightarrow> unit fw" where
  "uart_store reg v s = on_platform (mmu_write8 (uart_register reg s) v) s"

definition uart16550_init :: "unit fw" where
  "uart16550_init = fseq
     [\<lambda>s. fret () (s\<lparr>uart16550 := 0x10000000, uart16550_reg_shift := 0\<rparr>),
      uart_store UART_REG_IER 0x00,
      uart_store UART_REG_LCR 0x80,
      uart_store UART_REG_DLL 0x03,
      uart_store UART_REG_DLM 0x00,
      uart_store UART_REG_LCR 0x03,
      uart_store UART_REG_FCR 0xC7]"

text \<open>The loop that waits for the transmitter.\<close>

partial_function (option) uart16550_wait_tx :: "firmware \<Rightarrow> (firmware, unit) result option" where
  "uart16550_wait_tx s =
     (case mmu_read8 (uart_register UART_REG_LSR s) (platform s) of
        Ret lsr m \<Rightarrow> if lsr AND UART_REG_STATUS_TX = 0 then uart16550_wait_tx (s\<lparr>platform := m\<rparr>)
                    else Some (Ret () (s\<lparr>platform := m\<rparr>))
      | Trap m \<Rightarrow> Some (Trap (s\<lparr>platform := m\<rparr>))
      | Stop e \<Rightarrow> Some (Stop e))"

definition uart16550_putchar :: "u8 \<Rightarrow> unit fw" where
  "uart16550_putchar ch = fbind uart16550_wait_tx (\<lambda>_. uart_store UART_REG_QUEUE ch)"

text \<open>The \<^verbatim>\<open>int\<close> of the C function as a word of 32 bits.\<close>

definition uart16550_getchar :: "u32 fw" where
  "uart16550_getchar = fbind (uart_load UART_REG_LSR) (\<lambda>lsr.
     if lsr AND UART_REG_STATUS_RX \<noteq> 0 then fbind (uart_load UART_REG_QUEUE) (\<lambda>ch. fret (ucast ch))
     else fret (- 1))"

section \<open>Formatted output (printk.c)\<close>

definition DEFAULT_RESOLVE_STACK :: nat where
  "DEFAULT_RESOLVE_STACK = 128"

definition uart_put_char :: "u8 \<Rightarrow> unit fw" where
  "uart_put_char value = uart16550_putchar value"

text \<open>The characters of a string, or the digits on the stack from its top.\<close>

primrec put_chars :: "u8 list \<Rightarrow> unit fw" where
  "put_chars [] = fret ()"
| "put_chars (c # cs) = fbind (uart_put_char c) (\<lambda>_. put_chars cs)"

text \<open>
  The loops that push the digits; the head of the list is the top of the stack. An \<^verbatim>\<open>int32_t\<close> is
  its integer value, not negative here.
\<close>

function push_decimal :: "int \<Rightarrow> u8 list \<Rightarrow> u8 list" where
  "push_decimal qword st =
     (if qword \<noteq> 0 \<and> length st < DEFAULT_RESOLVE_STACK
      then push_decimal (qword div 10) ((0x30 + of_int (qword mod 10)) # st) else st)"
  by pat_completeness auto
termination
  by (relation "measure (\<lambda>(q, st). DEFAULT_RESOLVE_STACK - length st)") auto

definition resolve_int32 :: "int \<Rightarrow> unit fw" where
  "resolve_int32 qword =
     (if qword < 0 then fret ()
      else let st = push_decimal qword [] in put_chars (if st = [] then [0x30] else st))"

definition hex_digit :: "bool \<Rightarrow> nat \<Rightarrow> u8" where
  "hex_digit is_lowercase d = of_char ((if is_lowercase then ''0123456789abcdef'' else ''0123456789ABCDEF'') ! d)"

function push_hex :: "bool \<Rightarrow> u32 \<Rightarrow> u8 list \<Rightarrow> u8 list" where
  "push_hex is_lowercase qword st =
     (if qword \<noteq> 0 \<and> length st < DEFAULT_RESOLVE_STACK
      then push_hex is_lowercase (drop_bit 4 qword) (hex_digit is_lowercase (unat (qword AND 0xf)) # st) else st)"
  by pat_completeness auto
termination
  by (relation "measure (\<lambda>(l, q, st). DEFAULT_RESOLVE_STACK - length st)") auto

declare push_decimal.simps [simp del] push_hex.simps [simp del]

definition resolve_hex_uint32 :: "u32 \<Rightarrow> bool \<Rightarrow> unit fw" where
  "resolve_hex_uint32 qword is_lowercase =
     (let st = push_hex is_lowercase qword [] in put_chars (if st = [] then [0x30] else st))"

text \<open>
  The variable arguments: a string without its terminator, or a word. An argument that is missing or of another type is
  undefined in C, and so is a format that ends after a percent sign, where the loop of the code steps
  over the terminator. The negation of the most negative \<^verbatim>\<open>int32_t\<close> wraps.
\<close>

datatype printk_arg = Arg_string string | Arg_word u32

definition printk_decimal :: "u32 \<Rightarrow> unit fw" where
  "printk_decimal w =
     (if sint w < 0 then fbind (uart_put_char (of_char (CHR ''-''))) (\<lambda>_. resolve_int32 (sint (- w)))
      else resolve_int32 (sint w))"

fun printk_mp_raw :: "string \<Rightarrow> printk_arg list \<Rightarrow> unit fw" where
  "printk_mp_raw [] args = fret ()"
| "printk_mp_raw [c] args = (if c \<noteq> CHR ''%'' then uart_put_char (of_char c) else undefined_access)"
| "printk_mp_raw (c # d # ptr) args =
     (if c \<noteq> CHR ''%'' then fbind (uart_put_char (of_char c)) (\<lambda>_. printk_mp_raw (d # ptr) args)
      else if d = CHR ''s'' then
        (case args of Arg_string str # rest \<Rightarrow> fbind (put_chars (chars str)) (\<lambda>_. printk_mp_raw ptr rest) | _ \<Rightarrow> undefined_access)
      else if d = CHR ''c'' then
        (case args of Arg_word w # rest \<Rightarrow> fbind (uart_put_char (ucast w)) (\<lambda>_. printk_mp_raw ptr rest) | _ \<Rightarrow> undefined_access)
      else if d = CHR ''d'' then
        (case args of Arg_word w # rest \<Rightarrow> fbind (printk_decimal w) (\<lambda>_. printk_mp_raw ptr rest) | _ \<Rightarrow> undefined_access)
      else if d = CHR ''x'' then
        (case args of Arg_word w # rest \<Rightarrow> fbind (resolve_hex_uint32 w True) (\<lambda>_. printk_mp_raw ptr rest) | _ \<Rightarrow> undefined_access)
      else if d = CHR ''X'' then
        (case args of Arg_word w # rest \<Rightarrow> fbind (resolve_hex_uint32 w False) (\<lambda>_. printk_mp_raw ptr rest) | _ \<Rightarrow> undefined_access)
      else printk_mp_raw ptr args)"

definition printk_no_prefix :: "string \<Rightarrow> printk_arg list \<Rightarrow> unit fw" where
  "printk_no_prefix fmt args = printk_mp_raw fmt args"

definition printk :: "string \<Rightarrow> printk_arg list \<Rightarrow> unit fw" where
  "printk fmt args = printk_no_prefix (''BOOTROM: '' @ fmt) args"

abbreviation crlf :: string where "crlf \<equiv> [CHR 0x0D, CHR 0x0A]"

section \<open>Control flow\<close>

named_theorems fw_simps \<open>running a firmware operation\<close>

lemma fret_run [fw_simps]: "fbind (fret a) g = g a"
  by (rule ext) (simp add: fbind_def fret_def)

lemma fbind_assoc [fw_simps]: "fbind (fbind f g) h = fbind f (\<lambda>a. fbind (g a) h)"
  by (rule ext) (simp add: fbind_def split: option.splits result.splits)

lemma fbind_ret [fw_simps]: "fbind f fret = f"
  by (rule ext) (simp add: fbind_def fret_def split: option.splits result.splits)

lemma fbind_run: "f s = Some (Ret a t) \<Longrightarrow> fbind f g s = g a t"
  by (simp add: fbind_def)

lemma fbind_stop: "f s = Some (Stop e) \<Longrightarrow> fbind f g s = Some (Stop e)"
  by (simp add: fbind_def)

lemma fbind_spin: "f s = None \<Longrightarrow> fbind f g s = None"
  by (simp add: fbind_def)

lemma fbind_if: "fbind (if b then f else g) h = (if b then fbind f h else fbind g h)"
  by simp

section \<open>The console\<close>

definition uart_region :: pm_region_operation where
  "uart_region = \<lparr>addr_low = UART_16550_BASE, addr_high = UART_16550_BASE + 0x100, pmr_device = Uart_mmio\<rparr>"

text \<open>The driver is initialised, the device is mapped, and the interrupt line follows the state of the device.\<close>

definition uart_mapped :: "machine \<Rightarrow> bool" where
  "uart_mapped m \<longleftrightarrow> \<not> paging_enabled (cpu m) \<and> wf_regions (regions m) \<and> uart_region \<in> set (regions m)"

definition console_ready :: "firmware \<Rightarrow> bool" where
  "console_ready s \<longleftrightarrow> uart16550 s = 0x10000000 \<and> uart16550_reg_shift s = 0 \<and> uart_mapped (platform s) \<and>
     lcr (uart_dev (platform s)) AND 0x80 = 0 \<and>
     uart_refresh_interrupt (uart_dev (platform s)) (plic_dev (platform s)) = Some (plic_dev (platform s))"

definition say :: "u8 list \<Rightarrow> firmware \<Rightarrow> firmware" where
  "say bytes s = (let m = platform s; u = uart_dev m in
     s\<lparr>platform := m\<lparr>uart_dev := u\<lparr>console_output := console_output u @ bytes\<rparr>\<rparr>\<rparr>)"

lemma search_region:
  assumes "wf_regions (regions m)" and "pmr \<in> set (regions m)" and "in_region pmr a"
  shows "search_pm_region_callback (regions m) (ucast a) = Some (Some pmr)"
proof -
  have "a \<noteq> - 1" using assms(3) by (auto simp: in_region_def)
  then show ?thesis using search_pm_region_iff [OF assms(1) _ assms(2,3)] by simp
qed

lemma uart_search:
  fixes reg :: u32
  assumes "uart_mapped m" and "reg < 0x100"
  shows "search_pm_region_callback (regions m) (ucast (0x10000000 + reg)) = Some (Some uart_region)"
proof (rule search_region)
  have "unat (0x10000000 + reg) = 0x10000000 + unat reg" using assms(2) by (simp add: unat_word_ariths word_less_nat_alt)
  then show "in_region uart_region (0x10000000 + reg)"
    using assms(2) by (simp add: in_region_def uart_region_def word_less_nat_alt word_le_nat_alt)
qed (use assms(1) in \<open>simp_all add: uart_mapped_def\<close>)

lemma say_sel [simp]:
  "uart16550 (say b s) = uart16550 s" "uart16550_reg_shift (say b s) = uart16550_reg_shift s"
  "cpu (platform (say b s)) = cpu (platform s)" "regions (platform (say b s)) = regions (platform s)"
  "main_mem (platform (say b s)) = main_mem (platform s)" "bootrom (platform (say b s)) = bootrom (platform s)"
  "clint_dev (platform (say b s)) = clint_dev (platform s)" "plic_dev (platform (say b s)) = plic_dev (platform s)"
  "lcr (uart_dev (platform (say b s))) = lcr (uart_dev (platform s))"
  "console_output (uart_dev (platform (say b s))) = console_output (uart_dev (platform s)) @ b"
  "uart_mapped (platform (say b s)) = uart_mapped (platform s)"
  by (simp_all add: say_def Let_def uart_mapped_def)

lemma say_say [simp]: "say c (say b s) = say (b @ c) s" and say_nil [simp]: "say [] s = s"
  by (simp_all add: say_def Let_def)

lemma refresh_output: "uart_refresh_interrupt (u\<lparr>console_output := x\<rparr>) p = uart_refresh_interrupt u p"
  by (simp add: uart_refresh_interrupt_def uart_interrupt_pending_def uart_rx_empty_def)

lemma console_ready_say [simp]: "console_ready (say b s) = console_ready s"
  by (simp add: console_ready_def) (simp add: say_def Let_def refresh_output)

lemma uart_access:
  assumes "uart_mapped m" and "reg < 0x100"
  shows "mmu_read8 (0x10000000 + reg) m = (case uart_register_read reg (uart_dev m) of (v, u) \<Rightarrow>
      case uart_refresh_interrupt u (plic_dev m) of None \<Rightarrow> Stop Assertion
      | Some p \<Rightarrow> Ret v (m\<lparr>uart_dev := u, plic_dev := p\<rparr>))"
    and "mmu_write8 (0x10000000 + reg) x m = (let u = uart_register_write reg x (uart_dev m) in
      case uart_refresh_interrupt u (plic_dev m) of None \<Rightarrow> Stop Assertion
      | Some p \<Rightarrow> Ret () (m\<lparr>uart_dev := u, plic_dev := p\<rparr>))"
proof -
  have b: "ucast (take_bit 8 (ucast v :: u64)) = v" "ucast (ucast v :: u64) = v" for v :: u8
    by (rule bit_word_eqI; simp add: bit_simps)+
  have off: "(ucast (ucast (0x10000000 + reg) :: u64) :: u32) - 0x10000000 = reg" by simp
  have unpaged: "\<not> paging_enabled (cpu m)" using assms(1) by (simp add: uart_mapped_def)
  show "mmu_read8 (0x10000000 + reg) m = (case uart_register_read reg (uart_dev m) of (v, u) \<Rightarrow>
      case uart_refresh_interrupt u (plic_dev m) of None \<Rightarrow> Stop Assertion
      | Some p \<Rightarrow> Ret v (m\<lparr>uart_dev := u, plic_dev := p\<rparr>))"
    unfolding mmu_read8_def vmread_def direct_read_def uart_search [OF assms] pmr_read_def uart_mmio_read_def off
    using unpaged by (simp add: uart_region_def b split: option.split prod.split)
  show "mmu_write8 (0x10000000 + reg) x m = (let u = uart_register_write reg x (uart_dev m) in
      case uart_refresh_interrupt u (plic_dev m) of None \<Rightarrow> Stop Assertion
      | Some p \<Rightarrow> Ret () (m\<lparr>uart_dev := u, plic_dev := p\<rparr>))"
    unfolding mmu_write8_def vmwrite_def direct_write_def uart_search [OF assms] pmr_write_def uart_mmio_write_def off
    using unpaged by (simp add: uart_region_def b Let_def split: option.split)
qed

lemma console_address: "console_ready s \<Longrightarrow> uart_register reg s = 0x10000000 + reg"
  by (simp add: console_ready_def uart_register_def)

lemma lsr_ready: "(0x40 OR 0x20 OR (if b then 0x01 else 0) :: u8) AND 0x20 \<noteq> 0"
  by simp

lemma putchar_says:
  assumes "console_ready s"
  shows "uart16550_putchar c s = Some (Ret () (say [c] s))"
proof -
  let ?m = "platform s"
  have m: "uart_mapped ?m" "lcr (uart_dev ?m) AND 0x80 = 0"
    "uart_refresh_interrupt (uart_dev ?m) (plic_dev ?m) = Some (plic_dev ?m)" using assms by (simp_all add: console_ready_def)
  have "\<exists>v. uart_register_read 5 (uart_dev ?m) = (v, uart_dev ?m) \<and> v AND 0x20 \<noteq> 0"
    by (simp add: uart_register_read_def)
  then obtain v where v: "uart_register_read 5 (uart_dev ?m) = (v, uart_dev ?m)" "v AND 0x20 \<noteq> 0" by blast
  then have "mmu_read8 (uart_register UART_REG_LSR s) ?m = Ret v ?m"
    using uart_access(1) [OF m(1), of 5] m(3) by (simp add: console_address [OF assms])
  then have wait: "uart16550_wait_tx s = Some (Ret () s)"
    using v(2) by (simp add: uart16550_wait_tx.simps [of s])
  have "mmu_write8 (uart_register UART_REG_QUEUE s) c ?m = Ret () (platform (say [c] s))"
    using uart_access(2) [OF m(1), of 0 c] m(2,3)
    by (simp add: console_address [OF assms] uart_register_write_def Let_def refresh_output say_def)
  moreover have "s\<lparr>platform := platform (say [c] s)\<rparr> = say [c] s" by (simp add: say_def Let_def)
  ultimately show ?thesis by (simp add: uart16550_putchar_def fbind_def wait uart_store_def on_platform_def)
qed

lemma put_chars_says: "console_ready s \<Longrightarrow> put_chars cs s = Some (Ret () (say cs s))"
  by (induction cs arbitrary: s) (simp_all add: fret_def uart_put_char_def fbind_def putchar_says)

section \<open>What printk prints\<close>

definition upper :: "char \<Rightarrow> char" where
  "upper c = (if c \<in> set ''abcdef'' then char_of (of_char c - 32 :: nat) else c)"

text \<open>
  The reference: the conversions of \<^verbatim>\<open>printf\<close>. The most negative number comes out as its sign only,
  because its negation is negative again and \<^verbatim>\<open>resolve_int32\<close> prints nothing then.
\<close>

definition render_decimal :: "u32 \<Rightarrow> string" where
  "render_decimal w = (if w = 0x80000000 then ''-'' else decimal (sint w))"

fun render :: "string \<Rightarrow> printk_arg list \<Rightarrow> u8 list option" where
  "render [] args = Some []"
| "render [c] args = (if c \<noteq> CHR ''%'' then Some [of_char c] else None)"
| "render (c # d # fmt) args =
     (if c \<noteq> CHR ''%'' then map_option ((#) (of_char c)) (render (d # fmt) args)
      else if d = CHR ''s'' then
        (case args of Arg_string str # rest \<Rightarrow> map_option ((@) (chars str)) (render fmt rest) | _ \<Rightarrow> None)
      else if d = CHR ''c'' then
        (case args of Arg_word w # rest \<Rightarrow> map_option ((#) (ucast w)) (render fmt rest) | _ \<Rightarrow> None)
      else if d = CHR ''d'' then
        (case args of Arg_word w # rest \<Rightarrow> map_option ((@) (chars (render_decimal w))) (render fmt rest) | _ \<Rightarrow> None)
      else if d = CHR ''x'' then
        (case args of Arg_word w # rest \<Rightarrow> map_option ((@) (chars (hex w))) (render fmt rest) | _ \<Rightarrow> None)
      else if d = CHR ''X'' then
        (case args of Arg_word w # rest \<Rightarrow> map_option ((@) (chars (map upper (hex w)))) (render fmt rest) | _ \<Rightarrow> None)
      else render fmt args)"

lemma digit_chars:
  assumes "d < 16"
  shows "hex_digit True d = of_char (digit d)" "hex_digit False d = of_char (upper (digit d))"
    "d < 10 \<Longrightarrow> of_char (digit d) = 0x30 + (of_nat d :: u8)"
proof -
  have "list_all (\<lambda>d. hex_digit True d = of_char (digit d) \<and> hex_digit False d = of_char (upper (digit d)) \<and>
      (d < 10 \<longrightarrow> of_char (digit d) = 0x30 + (of_nat d :: u8))) [0..<16]"
    by code_simp
  with assms show "hex_digit True d = of_char (digit d)" "hex_digit False d = of_char (upper (digit d))"
    "d < 10 \<Longrightarrow> of_char (digit d) = 0x30 + (of_nat d :: u8)"
    by (simp_all add: list_all_iff)
qed

lemma push_decimal_digits:
  "0 < q \<Longrightarrow> q < 10 ^ k \<Longrightarrow> length st + k \<le> 128 \<Longrightarrow> push_decimal q st = chars (digits 10 (nat q)) @ st"
proof (induction k arbitrary: q st)
  case (Suc k)
  have d: "0x30 + of_int (q mod 10) = (of_char (digit (nat (q mod 10))) :: u8)"
    using digit_chars(3) [of "nat (q mod 10)"] by simp
  have step: "push_decimal q st = push_decimal (q div 10) (of_char (digit (nat (q mod 10))) # st)"
    using Suc.prems by (subst push_decimal.simps) (simp add: DEFAULT_RESOLVE_STACK_def d)
  show ?case
  proof (cases "q < 10")
    case True
    then have "q div 10 = 0" "q mod 10 = q" using Suc.prems(1) by auto
    then show ?thesis using step True Suc.prems(1) by (simp add: push_decimal.simps [of 0] digits.simps [of 10] chars_def)
  next
    case False
    then have "push_decimal (q div 10) (of_char (digit (nat (q mod 10))) # st) =
        chars (digits 10 (nat (q div 10))) @ of_char (digit (nat (q mod 10))) # st"
      using Suc.prems by (intro Suc.IH) auto
    moreover have "\<not> nat q < 10" using False by linarith
    ultimately show ?thesis using step
      by (subst digits.simps) (simp add: chars_def nat_div_distrib nat_mod_distrib)
  qed
qed simp

lemma push_hex_digits:
  assumes g: "\<And>d. d < 16 \<Longrightarrow> hex_digit l d = of_char (g (digit d))"
  shows "0 < unat q \<Longrightarrow> unat q < 16 ^ k \<Longrightarrow> length st + k \<le> 128 \<Longrightarrow> push_hex l q st = chars (map g (digits 16 (unat q))) @ st"
proof (induction k arbitrary: q st)
  case (Suc k)
  have m: "unat (q AND 0xf) = unat q mod 16"
  proof -
    have "q AND 0xf = take_bit 4 q" by (simp add: take_bit_eq_mask mask_eq_exp_minus_1)
    then show ?thesis by (simp add: unsigned_take_bit_eq) (simp add: take_bit_eq_mod)
  qed
  have dv: "unat (drop_bit 4 q) = unat q div 16" by (simp add: unat_drop_bit_eq) (simp add: drop_bit_eq_div)
  have "q \<noteq> 0" using Suc.prems(1) by auto
  then have step: "push_hex l q st = push_hex l (drop_bit 4 q) (of_char (g (digit (unat q mod 16))) # st)"
    using Suc.prems by (subst push_hex.simps) (simp add: DEFAULT_RESOLVE_STACK_def m g)
  show ?case
  proof (cases "unat q < 16")
    case True
    then have "unat (drop_bit 4 q) = 0" "unat q mod 16 = unat q" using dv by auto
    then have "drop_bit 4 q = 0" by (simp add: unsigned_eq_0_iff)
    then show ?thesis using step True by (simp add: push_hex.simps [of l 0] digits.simps [of 16] chars_def)
  next
    case False
    then have "push_hex l (drop_bit 4 q) (of_char (g (digit (unat q mod 16))) # st) =
        chars (map g (digits 16 (unat (drop_bit 4 q)))) @ of_char (g (digit (unat q mod 16))) # st"
      using Suc.prems dv by (intro Suc.IH) auto
    then show ?thesis using step False dv by (subst digits.simps) (simp add: chars_def)
  qed
qed simp

lemma numbers_say:
  assumes "console_ready s"
  shows "resolve_hex_uint32 w True s = Some (Ret () (say (chars (hex w)) s))"
    "resolve_hex_uint32 w False s = Some (Ret () (say (chars (map upper (hex w))) s))"
    "0 \<le> i \<Longrightarrow> i < 2 ^ 31 \<Longrightarrow> resolve_int32 i s = Some (Ret () (say (chars (digits 10 (nat i))) s))"
proof -
  have zero: "digits b 0 = ''0''" if "2 \<le> b" for b using that by (subst digits.simps) (simp add: digit_def)
  have up: "upper (CHR ''0'') = CHR ''0''" by (simp add: upper_def)
  have small: "unat w < 16 ^ 8" using unsigned_less [of w] by simp
  have nonempty: "digits b n \<noteq> []" for b n by (subst digits.simps) simp
  have hx: "(if push_hex l w [] = [] then [0x30] else push_hex l w []) = chars (map g (hex w))"
    if g: "\<And>d. d < 16 \<Longrightarrow> hex_digit l d = of_char (g (digit d))" and z: "g (CHR ''0'') = CHR ''0''" for l g
  proof (cases "w = 0")
    case True
    then show ?thesis using z by (simp add: push_hex.simps [of l 0] hex_def zero chars_def of_char_def)
  next
    case False
    then have "push_hex l w [] = chars (map g (digits 16 (unat w)))"
      using push_hex_digits [OF g, of w 8 "[]"] small by (simp add: unat_gt_0)
    then show ?thesis by (simp add: hex_def chars_def nonempty)
  qed
  show "resolve_hex_uint32 w True s = Some (Ret () (say (chars (hex w)) s))"
    using hx [of True "\<lambda>c. c"] assms by (simp add: resolve_hex_uint32_def put_chars_says digit_chars)
  show "resolve_hex_uint32 w False s = Some (Ret () (say (chars (map upper (hex w))) s))"
    using hx [of False upper] assms by (simp add: resolve_hex_uint32_def put_chars_says digit_chars up)
  show "resolve_int32 i s = Some (Ret () (say (chars (digits 10 (nat i))) s))" if i: "0 \<le> i" "i < 2 ^ 31"
  proof (cases "i = 0")
    case True
    then show ?thesis using assms by (simp add: resolve_int32_def push_decimal.simps [of 0] put_chars_says zero chars_def of_char_def del: put_chars.simps)
  next
    case False
    then have "push_decimal i [] = chars (digits 10 (nat i))"
      using push_decimal_digits [of i 10 "[]"] i by simp
    then show ?thesis using assms i by (simp add: resolve_int32_def put_chars_says chars_def nonempty)
  qed
qed

lemma decimal_says:
  assumes "console_ready s"
  shows "printk_decimal w s = Some (Ret () (say (chars (render_decimal w)) s))"
proof -
  have lo: "- (2 ^ 31) \<le> sint w" "sint w < 2 ^ 31" using sint_ge [of w] sint_lt [of w] by simp_all
  have minus: "[of_char (CHR ''-'')] = chars ''-''" by (simp add: chars_def)
  consider "0 \<le> sint w" | "w = 0x80000000" | "sint w < 0" "w \<noteq> 0x80000000" by linarith
  then show ?thesis
  proof cases
    case 1
    then have "w \<noteq> 0x80000000" by auto
    then show ?thesis using 1 lo numbers_say(3) [OF assms 1] by (simp add: printk_decimal_def render_decimal_def decimal_def)
  next
    case 2
    then show ?thesis using assms
      by (simp add: printk_decimal_def render_decimal_def fbind_def uart_put_char_def putchar_says resolve_int32_def fret_def chars_def)
  next
    case 3
    have "sint w \<noteq> - (2 ^ 31)"
    proof
      assume "sint w = - (2 ^ 31)"
      then have "sint w = sint (0x80000000 :: u32)" by simp
      then show False using signed_word_eqI 3(2) by metis
    qed
    then have neg: "sint (- w) = - sint w" "- sint w < 2 ^ 31" using lo 3(1)
      by (auto simp: sint_word_ariths signed_take_bit_int_eq_self)
    have "console_ready (say [of_char (CHR ''-'')] s)" using assms by simp
    from numbers_say(3) [OF this, of "- sint w"] show ?thesis
      using 3 neg assms
      by (simp add: printk_decimal_def render_decimal_def fbind_def uart_put_char_def putchar_says decimal_def chars_def)
  qed
qed

lemma printk_renders_raw:
  "console_ready s \<Longrightarrow> render fmt args = Some bytes \<Longrightarrow> printk_mp_raw fmt args s = Some (Ret () (say bytes s))"
proof (induction fmt args arbitrary: s bytes rule: render.induct)
  case (2 c args)
  then show ?case by (auto simp: uart_put_char_def putchar_says split: if_splits)
next
  case (3 c d fmt args)
  note run = fbind_def uart_put_char_def putchar_says put_chars_says numbers_say decimal_says
  from 3 show ?case
    by (auto simp: run split: if_splits list.splits printk_arg.splits)
qed (simp add: fret_def)

lemma printk_says:
  "console_ready s \<Longrightarrow> render (''BOOTROM: '' @ fmt) args = Some bytes \<Longrightarrow> printk fmt args s = Some (Ret () (say bytes s))"
  by (simp only: printk_def printk_no_prefix_def printk_renders_raw)

section \<open>Properties\<close>

text \<open>
  C13. The firmware's \<^verbatim>\<open>printk\<close> prints what its format says: on a machine whose console is set up, the
  call returns, and its only effect is that the host terminal receives the prefix and the format
  with every conversion replaced: strings as they are, words in decimal with a sign, or in lower or
  upper case hexadecimal without leading zeros.
\<close>

theorem printk_prints:
  assumes "console_ready s" and "render (''BOOTROM: '' @ fmt) args = Some bytes"
  shows "printk fmt args s = Some (Ret () (say bytes s))"
  using printk_says [OF assms] .

definition example_firmware :: firmware where
  "example_firmware = \<lparr>platform = example_machine\<lparr>cpu := zeroed_hart, regions := [uart_region],
     uart_dev := example_uart\<lparr>ier := 0\<rparr>, plic_dev := example_plic\<lparr>pending := 0, asserted := 0\<rparr>\<rparr>,
     uart16550 = 0x10000000, uart16550_reg_shift = 0\<rparr>"

lemma example_console: "console_ready example_firmware"
  by (simp add: console_ready_def example_firmware_def uart_mapped_def paging_enabled_def zeroed_hart_def wf_regions_def
      nonempty_region_def uart_region_def example_uart_def uart_refresh_interrupt_def uart_interrupt_pending_def plic_set_pending_def
      PLIC_IRQ_UART0_def PLIC_NR_SOURCES_def)

theorem printk_prints_witness:
  "\<exists>s'. printk ''%s: %d 0x%X'' [Arg_string ''ok'', Arg_word (- 42), Arg_word 0xBEEF] example_firmware = Some (Ret () s') \<and>
     console_output (uart_dev (platform s')) = chars ''BOOTROM: ok: -42 0xBEEF''"
proof -
  have up: "upper (CHR ''b'') = CHR ''B''" "upper (CHR ''e'') = CHR ''E''" "upper (CHR ''f'') = CHR ''F''" by code_simp+
  have hx: "hex 0xBEEF = ''beef''" by (simp add: hex_def digits.simps digit_def)
  have dec: "render_decimal (- 42) = ''-42''" by (simp add: render_decimal_def decimal_def digits.simps digit_def)
  have "render (''BOOTROM: '' @ ''%s: %d 0x%X'') [Arg_string ''ok'', Arg_word (- 42), Arg_word 0xBEEF] = Some (chars ''BOOTROM: ok: -42 0xBEEF'')"
    by (simp add: up hx dec chars_def)
  from printk_prints [OF example_console this] show ?thesis
    by (auto simp: example_firmware_def example_uart_def)
qed

end
