(* ===== verification/Sbi.thy ===== *)
theory Sbi
  imports Firmware
begin

text \<open>
  The services of the machine mode firmware for the kernel (\<^verbatim>\<open>bootrom/sbi.c\<close>, \<^verbatim>\<open>bootrom/sbi.h\<close>,
  \<^verbatim>\<open>bootrom/platform.h\<close>): the calls of the supervisor binary interface, old and new style, the handling
  of the two machine interrupts that the firmware owns, and the trap handler that dispatches both.
\<close>

section \<open>Constants (platform.h, sbi.h, csr.h)\<close>

abbreviation CLINT_BASE :: u32 where "CLINT_BASE \<equiv> 0x02000000"
abbreviation CLINT_MSIP_OFFSET :: u32 where "CLINT_MSIP_OFFSET \<equiv> 0"
abbreviation CLINT_MTIMECMP_OFFSET :: u32 where "CLINT_MTIMECMP_OFFSET \<equiv> 0x4000"
abbreviation SYSCON_BASE :: u32 where "SYSCON_BASE \<equiv> 0x00400000"
abbreviation SYSCON_POWEROFF :: u32 where "SYSCON_POWEROFF \<equiv> 0x5555"

abbreviation REG_A0 :: nat where "REG_A0 \<equiv> 10"
abbreviation REG_A1 :: nat where "REG_A1 \<equiv> 11"
abbreviation REG_A6 :: nat where "REG_A6 \<equiv> 16"
abbreviation REG_A7 :: nat where "REG_A7 \<equiv> 17"

abbreviation SBI_EXT_LEGACY_SET_TIMER :: u32 where "SBI_EXT_LEGACY_SET_TIMER \<equiv> 0"
abbreviation SBI_EXT_LEGACY_CONSOLE_PUTCHAR :: u32 where "SBI_EXT_LEGACY_CONSOLE_PUTCHAR \<equiv> 1"
abbreviation SBI_EXT_LEGACY_CONSOLE_GETCHAR :: u32 where "SBI_EXT_LEGACY_CONSOLE_GETCHAR \<equiv> 2"
abbreviation SBI_EXT_LEGACY_CLEAR_IPI :: u32 where "SBI_EXT_LEGACY_CLEAR_IPI \<equiv> 3"
abbreviation SBI_EXT_LEGACY_SEND_IPI :: u32 where "SBI_EXT_LEGACY_SEND_IPI \<equiv> 4"
abbreviation SBI_EXT_LEGACY_REMOTE_FENCE_I :: u32 where "SBI_EXT_LEGACY_REMOTE_FENCE_I \<equiv> 5"
abbreviation SBI_EXT_LEGACY_REMOTE_SFENCE_VMA :: u32 where "SBI_EXT_LEGACY_REMOTE_SFENCE_VMA \<equiv> 6"
abbreviation SBI_EXT_LEGACY_REMOTE_SFENCE_VMA_ASID :: u32 where "SBI_EXT_LEGACY_REMOTE_SFENCE_VMA_ASID \<equiv> 7"
abbreviation SBI_EXT_LEGACY_SHUTDOWN :: u32 where "SBI_EXT_LEGACY_SHUTDOWN \<equiv> 8"
abbreviation SBI_EXT_BASE :: u32 where "SBI_EXT_BASE \<equiv> 0x10"
abbreviation SBI_EXT_TIME :: u32 where "SBI_EXT_TIME \<equiv> 0x54494d45"
abbreviation SBI_EXT_IPI :: u32 where "SBI_EXT_IPI \<equiv> 0x00735049"
abbreviation SBI_EXT_RFENCE :: u32 where "SBI_EXT_RFENCE \<equiv> 0x52464e43"
abbreviation SBI_EXT_SRST :: u32 where "SBI_EXT_SRST \<equiv> 0x53525354"

abbreviation SBI_ERR_NOT_SUPPORTED :: u32 where "SBI_ERR_NOT_SUPPORTED \<equiv> - 2"
abbreviation SBI_SPEC_VERSION :: u32 where "SBI_SPEC_VERSION \<equiv> 3"
abbreviation SBI_IMPL_ID :: u32 where "SBI_IMPL_ID \<equiv> 8"
abbreviation SBI_IMPL_VERSION :: u32 where "SBI_IMPL_VERSION \<equiv> 1"

abbreviation CAUSE_SUPERVISOR_ECALL :: u32 where "CAUSE_SUPERVISOR_ECALL \<equiv> 0x9"
abbreviation IRQ_MACHINE_SOFTWARE :: u32 where "IRQ_MACHINE_SOFTWARE \<equiv> 3"
abbreviation IRQ_MACHINE_TIMER :: u32 where "IRQ_MACHINE_TIMER \<equiv> 7"

section \<open>Operations (sbi.c)\<close>

definition fw_load32 :: "u32 \<Rightarrow> u32 fw" where
  "fw_load32 a = on_platform (mmu_read32 a)"

definition fw_store32 :: "u32 \<Rightarrow> u32 \<Rightarrow> unit fw" where
  "fw_store32 a v = on_platform (mmu_write32 a v)"

definition current_hartid :: "u32 fw" where
  "current_hartid = read_csr CSR_MHARTID"

definition sbi_set_timer :: "u64 \<Rightarrow> unit fw" where
  "sbi_set_timer next = fbind current_hartid (\<lambda>id.
     let cmp = CLINT_BASE + CLINT_MTIMECMP_OFFSET + 8 * id in
     fseq [fw_store32 (cmp + 4) 0xffffffff,
           fw_store32 cmp (ucast next),
           fw_store32 (cmp + 4) (ucast (drop_bit 32 next)),
           clear_csr CSR_ADDRESS_MIP MIP_STIP,
           set_csr_bits CSR_ADDRESS_MIE MIE_MTIE])"

definition sbi_send_ipi :: "u32 \<Rightarrow> unit fw" where
  "sbi_send_ipi target = fw_store32 (CLINT_BASE + CLINT_MSIP_OFFSET + 4 * target) 1"

definition sbi_shutdown :: "unit fw" where
  "sbi_shutdown = fseq
     [printk (crlf @ ''zelda: system halted'' @ crlf) [],
      fw_store32 SYSCON_BASE SYSCON_POWEROFF,
      spin]"

definition sbi_probe_extension :: "u32 \<Rightarrow> u32" where
  "sbi_probe_extension extension_id =
     (if extension_id \<in> {SBI_EXT_BASE, SBI_EXT_TIME, SBI_EXT_IPI, SBI_EXT_RFENCE, SBI_EXT_SRST,
        SBI_EXT_LEGACY_SET_TIMER, SBI_EXT_LEGACY_CONSOLE_PUTCHAR, SBI_EXT_LEGACY_CONSOLE_GETCHAR,
        SBI_EXT_LEGACY_CLEAR_IPI, SBI_EXT_LEGACY_SEND_IPI, SBI_EXT_LEGACY_REMOTE_FENCE_I,
        SBI_EXT_LEGACY_REMOTE_SFENCE_VMA, SBI_EXT_LEGACY_REMOTE_SFENCE_VMA_ASID, SBI_EXT_LEGACY_SHUTDOWN}
      then 1 else 0)"

text \<open>The trap frame is in memory; \<open>frame\<close> is its address.\<close>

definition frame_reg :: "u32 \<Rightarrow> nat \<Rightarrow> u32 fw" where
  "frame_reg frame i = fw_load32 (frame + 4 * of_nat i)"

definition set_frame_reg :: "u32 \<Rightarrow> nat \<Rightarrow> u32 \<Rightarrow> unit fw" where
  "set_frame_reg frame i v = fw_store32 (frame + 4 * of_nat i) v"

text \<open>The deadline that rv32 splits over two registers.\<close>

definition frame_deadline :: "u32 \<Rightarrow> u64 fw" where
  "frame_deadline frame = fbind (frame_reg frame REG_A1) (\<lambda>a1. fbind (frame_reg frame REG_A0) (\<lambda>a0.
     fret (push_bit 32 (ucast a1) OR ucast a0)))"

text \<open>The instructions \<^verbatim>\<open>fence.i\<close> and \<^verbatim>\<open>sfence.vma\<close>.\<close>

definition on_hart :: "(hart \<Rightarrow> hart) \<Rightarrow> unit fw" where
  "on_hart f = on_platform (\<lambda>m. Ret () (m\<lparr>cpu := f (cpu m)\<rparr>))"

definition fence_i :: "unit fw" where
  "fence_i = on_hart flush_translation_cache"

definition sfence_vma :: "unit fw" where
  "sfence_vma = on_hart sfence_vma_callback"

definition sbi_legacy_call :: "u32 \<Rightarrow> u32 \<Rightarrow> unit fw" where
  "sbi_legacy_call frame extension_id = fbind
     (if extension_id = SBI_EXT_LEGACY_SET_TIMER then
        fbind (frame_deadline frame) (\<lambda>next. fbind (sbi_set_timer next) (\<lambda>_. fret 0))
      else if extension_id = SBI_EXT_LEGACY_CONSOLE_PUTCHAR then
        fbind (frame_reg frame REG_A0) (\<lambda>ch. fbind (uart16550_putchar (ucast ch)) (\<lambda>_. fret 0))
      else if extension_id = SBI_EXT_LEGACY_CONSOLE_GETCHAR then uart16550_getchar
      else if extension_id = SBI_EXT_LEGACY_CLEAR_IPI then
        fbind (clear_csr CSR_ADDRESS_MIP MIP_SSIP) (\<lambda>_. fret 0)
      else if extension_id = SBI_EXT_LEGACY_SEND_IPI then
        fbind current_hartid (\<lambda>id. fbind (sbi_send_ipi id) (\<lambda>_. fret 0))
      else if extension_id = SBI_EXT_LEGACY_REMOTE_FENCE_I then fbind fence_i (\<lambda>_. fret 0)
      else if extension_id = SBI_EXT_LEGACY_REMOTE_SFENCE_VMA \<or> extension_id = SBI_EXT_LEGACY_REMOTE_SFENCE_VMA_ASID then
        fbind sfence_vma (\<lambda>_. fret 0)
      else if extension_id = SBI_EXT_LEGACY_SHUTDOWN then fbind sbi_shutdown (\<lambda>_. fret 0)
      else fret SBI_ERR_NOT_SUPPORTED)
     (set_frame_reg frame REG_A0)"

text \<open>The error code and the value of a call.\<close>

definition sbi_base_call :: "u32 \<Rightarrow> u32 \<Rightarrow> (u32 \<times> u32) fw" where
  "sbi_base_call frame function_id =
     (if function_id = 0 then fret (0, SBI_SPEC_VERSION)
      else if function_id = 1 then fret (0, SBI_IMPL_ID)
      else if function_id = 2 then fret (0, SBI_IMPL_VERSION)
      else if function_id = 3 then fbind (frame_reg frame REG_A0) (\<lambda>ext. fret (0, sbi_probe_extension ext))
      else if function_id = 4 then fbind (read_csr CSR_MVENDORID) (\<lambda>v. fret (0, v))
      else if function_id = 5 then fbind (read_csr CSR_MARCHID) (\<lambda>v. fret (0, v))
      else if function_id = 6 then fbind (read_csr CSR_MIMPID) (\<lambda>v. fret (0, v))
      else fret (SBI_ERR_NOT_SUPPORTED, 0))"

definition sbi_ipi_loop :: "u32 \<Rightarrow> u32 \<Rightarrow> unit fw" where
  "sbi_ipi_loop hart_mask base =
     fseq (map (\<lambda>b. if hart_mask AND push_bit b 1 \<noteq> 0 then sbi_send_ipi (base + of_nat b) else fret ()) [0..<32])"

definition set_frame_result :: "u32 \<Rightarrow> u32 \<times> u32 \<Rightarrow> unit fw" where
  "set_frame_result frame r = fseq [set_frame_reg frame REG_A0 (fst r), set_frame_reg frame REG_A1 (snd r)]"

definition sbi_modern_call :: "u32 \<Rightarrow> u32 \<Rightarrow> u32 \<Rightarrow> unit fw" where
  "sbi_modern_call frame extension_id function_id = fbind
     (if extension_id = SBI_EXT_BASE then sbi_base_call frame function_id
      else if extension_id = SBI_EXT_TIME then
        if function_id = 0 then fbind (frame_deadline frame) (\<lambda>next. fbind (sbi_set_timer next) (\<lambda>_. fret (0, 0)))
        else fret (SBI_ERR_NOT_SUPPORTED, 0)
      else if extension_id = SBI_EXT_IPI then
        if function_id = 0 then
          fbind (frame_reg frame REG_A0) (\<lambda>hart_mask. fbind (frame_reg frame REG_A1) (\<lambda>base.
            fbind (sbi_ipi_loop hart_mask base) (\<lambda>_. fret (0, 0))))
        else fret (SBI_ERR_NOT_SUPPORTED, 0)
      else if extension_id = SBI_EXT_RFENCE then
        if function_id = 0 then fbind fence_i (\<lambda>_. fret (0, 0))
        else if function_id = 1 \<or> function_id = 2 then fbind sfence_vma (\<lambda>_. fret (0, 0))
        else fret (SBI_ERR_NOT_SUPPORTED, 0)
      else if extension_id = SBI_EXT_SRST then
        if function_id = 0 then fbind sbi_shutdown (\<lambda>_. fret (0, 0)) else fret (SBI_ERR_NOT_SUPPORTED, 0)
      else fret (SBI_ERR_NOT_SUPPORTED, 0))
     (set_frame_result frame)"

definition sbi_dispatch :: "u32 \<Rightarrow> unit fw" where
  "sbi_dispatch frame = fbind (frame_reg frame REG_A7) (\<lambda>extension_id. fbind (frame_reg frame REG_A6) (\<lambda>function_id.
     if extension_id \<le> SBI_EXT_LEGACY_SHUTDOWN then sbi_legacy_call frame extension_id
     else sbi_modern_call frame extension_id function_id))"

definition fw_fatal :: "string \<Rightarrow> u32 \<Rightarrow> u32 \<Rightarrow> u32 \<Rightarrow> unit fw" where
  "fw_fatal what mcause mepc mtval = fseq
     [printk (crlf @ ''[firmware] unhandled %s'' @ crlf) [Arg_string what],
      printk (''[firmware]   mcause 0x%x mepc 0x%x mtval 0x%x'' @ crlf) [Arg_word mcause, Arg_word mepc, Arg_word mtval],
      printk (''[firmware] halting.'' @ crlf) [],
      spin]"

definition fw_handle_interrupt :: "u32 \<Rightarrow> unit fw" where
  "fw_handle_interrupt cause =
     (if cause = IRQ_MACHINE_TIMER then
        fseq [clear_csr CSR_ADDRESS_MIE MIE_MTIE, set_csr_bits CSR_ADDRESS_MIP MIP_STIP]
      else if cause = IRQ_MACHINE_SOFTWARE then
        fbind current_hartid (\<lambda>id.
          fseq [fw_store32 (CLINT_BASE + CLINT_MSIP_OFFSET + 4 * id) 0, set_csr_bits CSR_ADDRESS_MIP MIP_SSIP])
      else fbind (read_csr CSR_ADDRESS_MEPC) (\<lambda>mepc. fw_fatal ''machine interrupt'' cause mepc 0))"

definition fw_trap_handler :: "u32 \<Rightarrow> unit fw" where
  "fw_trap_handler frame = fbind (read_csr CSR_ADDRESS_MCAUSE) (\<lambda>mcause.
     if mcause AND 0x80000000 \<noteq> 0 then fw_handle_interrupt (mcause AND 0xff)
     else if mcause = CAUSE_SUPERVISOR_ECALL then
       fseq [sbi_dispatch frame, fbind (read_csr CSR_ADDRESS_MEPC) (\<lambda>mepc. write_csr CSR_ADDRESS_MEPC (mepc + 4))]
     else fbind (read_csr CSR_ADDRESS_MEPC) (\<lambda>mepc. fbind (read_csr CSR_ADDRESS_MTVAL) (\<lambda>mtval.
       fw_fatal ''machine exception'' mcause mepc mtval)))"

text \<open>The address of the trap vector is fixed by the linker.\<close>

definition sbi_init :: "u32 \<Rightarrow> unit fw" where
  "sbi_init fw_trap_vector_address = fseq
     [write_csr CSR_ADDRESS_MTVEC fw_trap_vector_address,
      write_csr CSR_ADDRESS_MIE MIE_MSIE,
      write_csr CSR_ADDRESS_MIP 0]"

section \<open>Control registers\<close>

lemma csr_lookup:
  "csr_at csr_registery_head CSR_ADDRESS_MSTATUS = Some mstatus_csr_entry"
  "csr_at csr_registery_head CSR_ADDRESS_MEDELEG = Some medeleg_csr_entry"
  "csr_at csr_registery_head CSR_ADDRESS_MIDELEG = Some mideleg_csr_entry"
  "csr_at csr_registery_head CSR_ADDRESS_MIE = Some mie_csr_entry"
  "csr_at csr_registery_head CSR_ADDRESS_MTVEC = Some mtvec_csr_entry"
  "csr_at csr_registery_head CSR_ADDRESS_MSCRATCH = Some mscratch_csr_entry"
  "csr_at csr_registery_head CSR_ADDRESS_MEPC = Some mepc_csr_entry"
  "csr_at csr_registery_head CSR_ADDRESS_MCAUSE = Some mcause_csr_entry"
  "csr_at csr_registery_head CSR_ADDRESS_MTVAL = Some mtval_csr_entry"
  "csr_at csr_registery_head CSR_ADDRESS_MIP = Some mip_csr_entry"
  "csr_at csr_registery_head CSR_MVENDORID = Some mvendorid_csr_entry"
  "csr_at csr_registery_head CSR_MARCHID = Some (counter_csr_entry 0xF12 None csr_scratch_read)"
  "csr_at csr_registery_head CSR_MIMPID = Some (counter_csr_entry 0xF13 None csr_scratch_read)"
  "csr_at csr_registery_head CSR_MHARTID = Some mhartid_csr_entry"
  by (simp_all add: csr_at_def registery_head csr_entries counter_csr_entries_def upt_rec)

definition cpu_upd :: "(hart \<Rightarrow> hart) \<Rightarrow> firmware \<Rightarrow> firmware" where
  "cpu_upd f s = s\<lparr>platform := (platform s)\<lparr>cpu := f (cpu (platform s))\<rparr>\<rparr>"

abbreviation the_cpu :: "firmware \<Rightarrow> hart" where "the_cpu s \<equiv> cpu (platform s)"

lemma cpu_upd_sel [simp]:
  "the_cpu (cpu_upd f s) = f (the_cpu s)" "uart16550 (cpu_upd f s) = uart16550 s"
  "uart16550_reg_shift (cpu_upd f s) = uart16550_reg_shift s"
  "regions (platform (cpu_upd f s)) = regions (platform s)" "main_mem (platform (cpu_upd f s)) = main_mem (platform s)"
  "bootrom (platform (cpu_upd f s)) = bootrom (platform s)" "clint_dev (platform (cpu_upd f s)) = clint_dev (platform s)"
  "plic_dev (platform (cpu_upd f s)) = plic_dev (platform s)" "uart_dev (platform (cpu_upd f s)) = uart_dev (platform s)"
  by (simp_all add: cpu_upd_def)

lemma cpu_upd_upd [simp]: "cpu_upd f (cpu_upd g s) = cpu_upd (f \<circ> g) s"
  by (simp add: cpu_upd_def)

lemmas csr_run = read_csr_def write_csr_def on_platform_def csr_lookup csr_ops csr_handlers csr_entries WPRI_MASK_ALL_def

lemma read_csr_runs:
  "read_csr CSR_MHARTID s = Some (Ret (word_of_int (hart_id (the_cpu s))) s)"
  "read_csr CSR_ADDRESS_MCAUSE s = Some (Ret (csr_blob (the_cpu s) CSR_ADDRESS_MCAUSE) s)"
  "read_csr CSR_ADDRESS_MEPC s = Some (Ret (csr_blob (the_cpu s) CSR_ADDRESS_MEPC) s)"
  "read_csr CSR_ADDRESS_MTVAL s = Some (Ret (csr_blob (the_cpu s) CSR_ADDRESS_MTVAL) s)"
  "read_csr CSR_ADDRESS_MSCRATCH s = Some (Ret (csr_blob (the_cpu s) CSR_ADDRESS_MSCRATCH) s)"
  "read_csr CSR_MVENDORID s = Some (Ret (csr_blob (the_cpu s) CSR_MVENDORID) s)"
  "read_csr CSR_MARCHID s = Some (Ret (csr_blob (the_cpu s) CSR_MARCHID) s)"
  "read_csr CSR_MIMPID s = Some (Ret (csr_blob (the_cpu s) CSR_MIMPID) s)"
  "read_csr CSR_ADDRESS_MSTATUS s = Some (Ret (fst (csr_mstatus_read CSR_ADDRESS_MSTATUS (platform s)) AND 0x19aa) s)"
  by (simp_all add: csr_run Let_def)

lemma write_csr_runs:
  "write_csr CSR_ADDRESS_MEPC v s = Some (Ret () (cpu_upd (set_csr CSR_ADDRESS_MEPC v) s))"
  "write_csr CSR_ADDRESS_MSCRATCH v s = Some (Ret () (cpu_upd (set_csr CSR_ADDRESS_MSCRATCH v) s))"
  "write_csr CSR_ADDRESS_MTVEC v s = Some (Ret () (cpu_upd (set_csr CSR_ADDRESS_MTVEC (v AND 0xfffffffd)) s))"
  "write_csr CSR_ADDRESS_MEDELEG v s = Some (Ret () (cpu_upd (set_csr CSR_ADDRESS_MEDELEG (v AND 0xfffff7ff)) s))"
  "write_csr CSR_ADDRESS_MIDELEG v s = Some (Ret () (cpu_upd (\<lambda>h. h\<lparr>idelegation := v AND 0x222\<rparr>) s))"
  "write_csr CSR_ADDRESS_MIE v s = Some (Ret () (cpu_upd (\<lambda>h. h\<lparr>ienable := v AND 0xaaa\<rparr>) s))"
  "write_csr CSR_ADDRESS_MIP v s = Some (Ret () (cpu_upd (\<lambda>h. h\<lparr>ipending := (v AND 0x222) OR (ipending h AND 0x888)\<rparr>) s))"
proof -
  have "(v AND 0xaaa) AND NOT 0x888 = v AND 0x222" for v :: u32 by (simp add: and.assoc)
  then show "write_csr CSR_ADDRESS_MIP v s = Some (Ret () (cpu_upd (\<lambda>h. h\<lparr>ipending := (v AND 0x222) OR (ipending h AND 0x888)\<rparr>) s))"
    by (simp add: csr_run Let_def cpu_upd_def)
qed (simp_all add: csr_run Let_def cpu_upd_def)

text \<open>The firmware sets and clears one bit of \<^verbatim>\<open>mip\<close> and \<^verbatim>\<open>mie\<close> and leaves the others alone.\<close>

lemma interrupt_words:
  assumes "w AND NOT 0xaaa = (0 :: u32)"
  shows "w AND 0xaaa = w"
proof -
  have "w = (w AND 0xaaa) OR (w AND NOT 0xaaa)" by (rule bit_word_eqI) (simp only: bit_simps, auto)
  then show ?thesis using assms by (metis or.right_neutral)
qed

lemma csr_bits_run:
  assumes "wf_interrupts (the_cpu s)"
  shows "n \<in> {1, 5} \<Longrightarrow> clear_csr CSR_ADDRESS_MIP (push_bit n 1) s = Some (Ret () (cpu_upd (\<lambda>h. h\<lparr>ipending := unset_bit n (ipending h)\<rparr>) s))"
    "n \<in> {1, 5} \<Longrightarrow> set_csr_bits CSR_ADDRESS_MIP (push_bit n 1) s = Some (Ret () (cpu_upd (\<lambda>h. h\<lparr>ipending := set_bit n (ipending h)\<rparr>) s))"
    "clear_csr CSR_ADDRESS_MIE MIE_MTIE s = Some (Ret () (cpu_upd (\<lambda>h. h\<lparr>ienable := unset_bit 7 (ienable h)\<rparr>) s))"
    "set_csr_bits CSR_ADDRESS_MIE MIE_MTIE s = Some (Ret () (cpu_upd (\<lambda>h. h\<lparr>ienable := set_bit 7 (ienable h)\<rparr>) s))"
proof -
  have rd: "read_csr CSR_ADDRESS_MIP s = Some (Ret (ipending (the_cpu s)) s)" "read_csr CSR_ADDRESS_MIE s = Some (Ret (ienable (the_cpu s)) s)"
    using assms by (simp_all add: csr_run wf_interrupts_def interrupt_words)
  have ip: "\<And>n. bit (ipending (the_cpu s)) n \<Longrightarrow> n \<in> {1, 3, 5, 7, 9, 11}" and ie: "\<And>n. bit (ienable (the_cpu s)) n \<Longrightarrow> n \<in> {1, 3, 5, 7, 9, 11}"
    using assms unfolding wf_interrupts_bits by blast+
  note bs = bit_or_iff bit_and_iff bit_not_iff mask_bits bit_unset_bit_iff bit_set_bit_iff bit_push_bit_iff bit_1_iff
  have "(ienable (the_cpu s) AND NOT (push_bit 7 1)) AND 0xaaa = unset_bit 7 (ienable (the_cpu s))"
    "(ienable (the_cpu s) OR push_bit 7 1) AND 0xaaa = set_bit 7 (ienable (the_cpu s))"
    by (rule bit_word_eqI; simp only: bs; auto dest: ie)+
  then show "clear_csr CSR_ADDRESS_MIE MIE_MTIE s = Some (Ret () (cpu_upd (\<lambda>h. h\<lparr>ienable := unset_bit 7 (ienable h)\<rparr>) s))"
    "set_csr_bits CSR_ADDRESS_MIE MIE_MTIE s = Some (Ret () (cpu_upd (\<lambda>h. h\<lparr>ienable := set_bit 7 (ienable h)\<rparr>) s))"
    by (simp_all add: clear_csr_def set_csr_bits_def fbind_def rd write_csr_runs cpu_upd_def)
  assume n: "n \<in> {1, 5}"
  have "((ipending (the_cpu s) AND NOT (push_bit n 1)) AND 0x222) OR (ipending (the_cpu s) AND 0x888) = unset_bit n (ipending (the_cpu s))"
    "((ipending (the_cpu s) OR push_bit n 1) AND 0x222) OR (ipending (the_cpu s) AND 0x888) = set_bit n (ipending (the_cpu s))"
    by (rule bit_word_eqI; insert n; simp only: bs; auto dest: ip)+
  then show "clear_csr CSR_ADDRESS_MIP (push_bit n 1) s = Some (Ret () (cpu_upd (\<lambda>h. h\<lparr>ipending := unset_bit n (ipending h)\<rparr>) s))"
    "set_csr_bits CSR_ADDRESS_MIP (push_bit n 1) s = Some (Ret () (cpu_upd (\<lambda>h. h\<lparr>ipending := set_bit n (ipending h)\<rparr>) s))"
    by (simp_all add: clear_csr_def set_csr_bits_def fbind_def rd write_csr_runs cpu_upd_def)
qed

lemmas csr_bit_runs = csr_bits_run(3,4) csr_bits_run(1) [of _ 1, simplified] csr_bits_run(1) [of _ 5, simplified]
  csr_bits_run(2) [of _ 1, simplified] csr_bits_run(2) [of _ 5, simplified]

section \<open>Memory and devices as the firmware sees them\<close>

definition clint_mapped :: "machine \<Rightarrow> bool" where
  "clint_mapped m \<longleftrightarrow> (\<exists>pmr\<in>set (regions m). pmr_device pmr = Clint_mmio \<and> addr_low pmr = CLINT_BASE \<and> CLINT_BASE + 0xc000 \<le> addr_high pmr) \<and>
     clint_base (clint_dev m) = CLINT_BASE \<and> wf_clint (clint_dev m)"

text \<open>The first \<open>n\<close> bytes of the address space are ROM, which is writable memory on this machine.\<close>

definition rom_mapped :: "machine \<Rightarrow> nat \<Rightarrow> bool" where
  "rom_mapped m n \<longleftrightarrow> (\<exists>pmr\<in>set (regions m). pmr_device pmr = Bootrom \<and> addr_low pmr = 0 \<and> n \<le> unat (addr_high pmr) \<and>
     unat (addr_high pmr) \<le> mem_size (bootrom m))"

definition rom_put :: "u32 \<Rightarrow> u32 \<Rightarrow> host_memory \<Rightarrow> host_memory" where
  "rom_put a v mem = mem\<lparr>mem_bytes := le_write 4 (ucast v) (mem_bytes mem) (unat a)\<rparr>"

definition rom_get :: "u32 \<Rightarrow> host_memory \<Rightarrow> u32" where
  "rom_get a mem = ucast (le_read 4 (mem_bytes mem) (unat a))"

lemma rom_get_put [simp]: "rom_get a (rom_put a v mem) = v"
proof -
  have "ucast (take_bit 32 (ucast v :: u64)) = v" by (rule bit_word_eqI) (simp add: bit_simps)
  then show ?thesis by (simp add: rom_get_def rom_put_def le_read_write)
qed

lemma rom_get_other: "unat a + 4 \<le> unat b \<or> unat b + 4 \<le> unat a \<Longrightarrow> rom_get a (rom_put b v mem) = rom_get a mem"
  by (simp add: rom_get_def rom_put_def le_read_frame)

lemma rom_put_frame:
  "i < unat a \<or> unat a + 4 \<le> i \<Longrightarrow> mem_bytes (rom_put a v mem) i = mem_bytes mem i"
  "mem_size (rom_put a v mem) = mem_size mem"
  by (simp_all add: rom_put_def le_write_frame)

lemma rom_access:
  assumes m: "\<not> paging_enabled (cpu m)" "wf_regions (regions m)" "rom_mapped m n" and a: "unat a + 4 \<le> n"
  shows "mmu_write32 a v m = Ret () (m\<lparr>bootrom := rom_put a v (bootrom m)\<rparr>)"
    and "mmu_read32 a m = Ret (rom_get a (bootrom m)) m"
proof -
  obtain pmr where pmr: "pmr \<in> set (regions m)" "pmr_device pmr = Bootrom" "addr_low pmr = 0" "n \<le> unat (addr_high pmr)"
    "unat (addr_high pmr) \<le> mem_size (bootrom m)" using m(3) unfolding rom_mapped_def by blast
  have "in_region pmr a" using pmr(3,4) a by (simp add: in_region_def word_less_nat_alt)
  then have s: "search_pm_region_callback (regions m) (ucast a) = Some (Some pmr)" by (rule search_region [OF m(2) pmr(1)])
  have ua: "unat (ucast a :: u64) = unat a" by (rule unat_ucast_u64)
  have "backed pmr (ucast a) 4 (bootrom m)" using pmr a by (simp add: backed_def ua)
  from backed_offset(3) [OF this] have hi: "\<not> ucast (addr_high pmr) < (ucast a :: u64) + 4" by simp
  have fit: "unat a + 4 \<le> mem_size (bootrom m)" using a pmr(4,5) by linarith
  have rd: "ucast (take_bit 32 w) = (ucast w :: u32)" for w :: u64 by (rule bit_word_eqI) (simp add: bit_simps)
  show "mmu_write32 a v m = Ret () (m\<lparr>bootrom := rom_put a v (bootrom m)\<rparr>)"
    using m(1) s pmr(2,3) hi fit
    by (simp add: mmu_write32_def vmwrite_def direct_write_def pmr_write_def bootrom_write_def host_store_def ua rom_put_def)
  show "mmu_read32 a m = Ret (rom_get a (bootrom m)) m"
    using m(1) s pmr(2,3) hi fit
    by (simp add: mmu_read32_def vmread_def direct_read_def pmr_read_def bootrom_read_def host_load_def ua rom_get_def rd)
qed

lemma clint_access:
  assumes m: "\<not> paging_enabled (cpu m)" "wf_regions (regions m)" "clint_mapped m" and a: "off < 0xc000"
  shows "mmu_write32 (CLINT_BASE + off) v m = Ret () (m\<lparr>clint_dev := clint_write (ucast (CLINT_BASE + off)) 4 (ucast v) (clint_dev m)\<rparr>)"
proof -
  obtain pmr where pmr: "pmr \<in> set (regions m)" "pmr_device pmr = Clint_mmio" "addr_low pmr = CLINT_BASE" "CLINT_BASE + 0xc000 \<le> addr_high pmr"
    using m(3) unfolding clint_mapped_def by blast
  have "unat (CLINT_BASE + off) = 0x02000000 + unat off" using a by (simp add: unat_word_ariths word_less_nat_alt)
  then have "in_region pmr (CLINT_BASE + off)" using pmr(3,4) a by (simp add: in_region_def word_less_nat_alt word_le_nat_alt)
  then have s: "search_pm_region_callback (regions m) (ucast (CLINT_BASE + off)) = Some (Some pmr)" by (rule search_region [OF m(2) pmr(1)])
  then show ?thesis using m(1) pmr(2) unfolding mmu_write32_def vmwrite_def direct_write_def s by (simp add: pmr_write_def)
qed

lemma clint_registers:
  fixes hi lo v :: u32
  assumes c: "wf_clint c" "i < clint_nr_harts c"
  shows "clint_write (ucast (clint_base c + (0x4004 + 8 * of_nat i))) 4 (ucast hi) c =
      c\<lparr>mtimecmp := (mtimecmp c)[i := (mtimecmp c ! i AND 0xffffffff) OR push_bit 32 (ucast hi)]\<rparr>"
    and "clint_write (ucast (clint_base c + (0x4000 + 8 * of_nat i))) 4 (ucast lo) c =
      c\<lparr>mtimecmp := (mtimecmp c)[i := (mtimecmp c ! i AND NOT 0xffffffff) OR (ucast lo AND 0xffffffff)]\<rparr>"
    and "clint_write (ucast (clint_base c + 4 * of_nat i)) 4 (ucast v) c = c\<lparr>msip := (msip c)[i := v AND 1]\<rparr>"
proof -
  have i: "i < 64" using c by (auto simp: wf_clint_def MAX_NR_HARTS_def)
  have off: "clint_base c + x - clint_base c = x" for x by simp
  show "clint_write (ucast (clint_base c + (0x4004 + 8 * of_nat i))) 4 (ucast hi) c =
      c\<lparr>mtimecmp := (mtimecmp c)[i := (mtimecmp c ! i AND 0xffffffff) OR push_bit 32 (ucast hi)]\<rparr>"
    "clint_write (ucast (clint_base c + (0x4000 + 8 * of_nat i))) 4 (ucast lo) c =
      c\<lparr>mtimecmp := (mtimecmp c)[i := (mtimecmp c ! i AND NOT 0xffffffff) OR (ucast lo AND 0xffffffff)]\<rparr>"
    unfolding clint_write_def ucast_addr off Let_def using c(2) mtimecmp_select [OF i] mtimecmp_offset [OF i] by simp_all
  have u: "unat (4 * of_nat i :: u32) = 4 * i" using i by (simp add: unat_word_ariths unsigned_of_nat take_bit_nat_eq_self)
  then have "(4 * of_nat i :: u32) < 4 * 64" "unat ((4 * of_nat i :: u32) div 4) = i" using i by (simp_all add: word_less_nat_alt unat_div)
  moreover have "ucast (ucast v AND 1 :: u64) = v AND 1" by (rule bit_word_eqI) (simp add: bit_simps)
  ultimately show "clint_write (ucast (clint_base c + 4 * of_nat i)) 4 (ucast v) c = c\<lparr>msip := (msip c)[i := v AND 1]\<rparr>"
    unfolding clint_write_def ucast_addr off Let_def using c(2) by simp
qed

section \<open>The state in which the services run\<close>

text \<open>The frame of a trap lies below the top \<open>T\<close> of the machine mode stack.\<close>

definition slot :: "u32 \<Rightarrow> nat \<Rightarrow> u32" where
  "slot T i = T - 128 + 4 * of_nat i"

lemma unat_slot: "128 \<le> T \<Longrightarrow> i < 32 \<Longrightarrow> unat (slot T i) = unat T - 128 + 4 * i"
proof -
  assume a: "128 \<le> T" "i < 32"
  have "unat (4 * of_nat i :: u32) = 4 * i" using a(2) by (simp add: unat_word_ariths unsigned_of_nat take_bit_nat_eq_self)
  moreover have "unat (T - 128) = unat T - 128" using a(1) by (simp add: unat_sub)
  moreover have "unat T < 2 ^ 32" using unsigned_less [of T] by simp
  ultimately show ?thesis unfolding slot_def using a by (subst unat_word_ariths(1)) (simp add: word_le_nat_alt)
qed

lemma slot_get_put:
  assumes "128 \<le> T" and "i < 32" and "j < 32"
  shows "rom_get (slot T i) (rom_put (slot T j) v mem) = (if i = j then v else rom_get (slot T i) mem)"
  using assms by (auto intro!: rom_get_other simp: unat_slot)

definition services_ready :: "u32 \<Rightarrow> firmware \<Rightarrow> bool" where
  "services_ready T s \<longleftrightarrow> console_ready s \<and> privilege_level (the_cpu s) = PRIVILEGE_LEVEL_MACHINE \<and> wf_interrupts (the_cpu s) \<and>
     clint_mapped (platform s) \<and> 0 \<le> hart_id (the_cpu s) \<and> hart_id (the_cpu s) < int (clint_nr_harts (clint_dev (platform s))) \<and>
     128 \<le> T \<and> rom_mapped (platform s) (unat T) \<and>
     \<lparr>addr_low = syscon_base, addr_high = syscon_base + syscon_size, pmr_device = Syscon_mmio\<rparr> \<in> set (regions (platform s))"

lemma services_unpaged: "services_ready T s \<Longrightarrow> \<not> paging_enabled (the_cpu s) \<and> wf_regions (regions (platform s))"
  by (simp add: services_ready_def paging_enabled_def console_ready_def uart_mapped_def)

abbreviation this_hart :: "firmware \<Rightarrow> nat" where "this_hart s \<equiv> nat (hart_id (the_cpu s))"

lemma this_hart_id:
  assumes "services_ready T s"
  shows "current_hartid s = Some (Ret (of_nat (this_hart s)) s)" "this_hart s < clint_nr_harts (clint_dev (platform s))" "this_hart s < 64"
proof -
  have *: "0 \<le> hart_id (the_cpu s)" "wf_clint (clint_dev (platform s))" "hart_id (the_cpu s) < int (clint_nr_harts (clint_dev (platform s)))"
    using assms by (simp_all add: services_ready_def clint_mapped_def)
  then show "current_hartid s = Some (Ret (of_nat (this_hart s)) s)" by (simp add: current_hartid_def read_csr_runs)
  show "this_hart s < clint_nr_harts (clint_dev (platform s))" using * by linarith
  then show "this_hart s < 64" using *(2) by (simp add: wf_clint_def MAX_NR_HARTS_def)
qed

definition clint_upd :: "(clint_state \<Rightarrow> clint_state) \<Rightarrow> firmware \<Rightarrow> firmware" where
  "clint_upd f s = s\<lparr>platform := (platform s)\<lparr>clint_dev := f (clint_dev (platform s))\<rparr>\<rparr>"

definition rom_upd :: "(host_memory \<Rightarrow> host_memory) \<Rightarrow> firmware \<Rightarrow> firmware" where
  "rom_upd f s = s\<lparr>platform := (platform s)\<lparr>bootrom := f (bootrom (platform s))\<rparr>\<rparr>"

lemma upd_sel [simp]:
  "the_cpu (clint_upd f s) = the_cpu s" "the_cpu (rom_upd g s) = the_cpu s"
  "clint_dev (platform (clint_upd f s)) = f (clint_dev (platform s))" "clint_dev (platform (rom_upd g s)) = clint_dev (platform s)"
  "bootrom (platform (rom_upd g s)) = g (bootrom (platform s))" "bootrom (platform (clint_upd f s)) = bootrom (platform s)"
  "regions (platform (clint_upd f s)) = regions (platform s)" "regions (platform (rom_upd g s)) = regions (platform s)"
  "main_mem (platform (clint_upd f s)) = main_mem (platform s)" "main_mem (platform (rom_upd g s)) = main_mem (platform s)"
  "uart_dev (platform (clint_upd f s)) = uart_dev (platform s)" "uart_dev (platform (rom_upd g s)) = uart_dev (platform s)"
  "plic_dev (platform (clint_upd f s)) = plic_dev (platform s)" "plic_dev (platform (rom_upd g s)) = plic_dev (platform s)"
  "uart16550 (clint_upd f s) = uart16550 s" "uart16550 (rom_upd g s) = uart16550 s"
  "uart16550_reg_shift (clint_upd f s) = uart16550_reg_shift s" "uart16550_reg_shift (rom_upd g s) = uart16550_reg_shift s"
  by (simp_all add: clint_upd_def rom_upd_def)

lemma upd_commute [simp]:
  "rom_upd g (clint_upd f s) = clint_upd f (rom_upd g s)" "cpu_upd h (clint_upd f s) = clint_upd f (cpu_upd h s)"
  "cpu_upd h (rom_upd g s) = rom_upd g (cpu_upd h s)"
  "clint_upd f (clint_upd f' s) = clint_upd (f \<circ> f') s" "rom_upd g (rom_upd g' s) = rom_upd (g \<circ> g') s"
  by (simp_all add: clint_upd_def rom_upd_def cpu_upd_def)

text \<open>Which changes keep the services running.\<close>

lemma services_ready_upd:
  assumes "services_ready T s"
  shows "(\<And>mem. mem_size (g mem) = mem_size mem) \<Longrightarrow> services_ready T (rom_upd g s)"
    "(\<And>c. wf_clint c \<Longrightarrow> wf_clint (f c)) \<Longrightarrow> (\<And>c. clint_base (f c) = clint_base c) \<Longrightarrow> (\<And>c. clint_nr_harts (f c) = clint_nr_harts c) \<Longrightarrow>
       services_ready T (clint_upd f s)"
    "privilege_level (k (the_cpu s)) = PRIVILEGE_LEVEL_MACHINE \<Longrightarrow> hart_id (k (the_cpu s)) = hart_id (the_cpu s) \<Longrightarrow>
       wf_interrupts (k (the_cpu s)) \<Longrightarrow> services_ready T (cpu_upd k s)"
  using assms
  by (auto simp: services_ready_def console_ready_def uart_mapped_def paging_enabled_def clint_mapped_def rom_mapped_def)

lemma frame_access:
  assumes "services_ready T s" and "i < 32"
  shows "frame_reg (T - 128) i s = Some (Ret (rom_get (slot T i) (bootrom (platform s))) s)"
    and "set_frame_reg (T - 128) i v s = Some (Ret () (rom_upd (rom_put (slot T i) v) s))"
proof -
  have T: "128 \<le> T" "rom_mapped (platform s) (unat T)" using assms(1) by (simp_all add: services_ready_def)
  have "unat (slot T i) + 4 \<le> unat T" using assms(2) T(1) by (simp add: unat_slot word_le_nat_alt)
  note acc = rom_access [OF _ _ T(2) this, OF services_unpaged [OF assms(1), THEN conjunct1] services_unpaged [OF assms(1), THEN conjunct2]]
  show "frame_reg (T - 128) i s = Some (Ret (rom_get (slot T i) (bootrom (platform s))) s)"
    "set_frame_reg (T - 128) i v s = Some (Ret () (rom_upd (rom_put (slot T i) v) s))"
    using acc [unfolded slot_def]
    by (simp_all add: frame_reg_def set_frame_reg_def fw_load32_def fw_store32_def on_platform_def slot_def rom_upd_def)
qed

section \<open>The services\<close>

lemma clint_store:
  assumes "services_ready T s" and "off < 0xc000"
  shows "fw_store32 (CLINT_BASE + off) v s = Some (Ret () (clint_upd (clint_write (ucast (CLINT_BASE + off)) 4 (ucast v)) s))"
proof -
  have "clint_mapped (platform s)" using assms(1) by (simp add: services_ready_def)
  from clint_access [OF _ _ this assms(2), OF services_unpaged [OF assms(1), THEN conjunct1] services_unpaged [OF assms(1), THEN conjunct2]]
  show ?thesis by (simp add: fw_store32_def on_platform_def clint_upd_def)
qed

lemma services_clint_write: "services_ready T s \<Longrightarrow> services_ready T (clint_upd (clint_write a n v) s)"
  by (rule services_ready_upd(2)) (auto simp: wf_clint_write, simp_all add: clint_write_def Let_def)

lemma clint_upd_cong: "f (clint_dev (platform s)) = g (clint_dev (platform s)) \<Longrightarrow> clint_upd f s = clint_upd g s"
  by (simp add: clint_upd_def)

lemma cpu_upd_cong: "f (the_cpu s) = g (the_cpu s) \<Longrightarrow> cpu_upd f s = cpu_upd g s"
  by (simp add: cpu_upd_def)

definition timer_set :: "u64 \<Rightarrow> firmware \<Rightarrow> firmware" where
  "timer_set next s = clint_upd (\<lambda>c. c\<lparr>mtimecmp := (mtimecmp c)[this_hart s := next]\<rparr>)
     (cpu_upd (\<lambda>h. h\<lparr>ipending := unset_bit 5 (ipending h), ienable := set_bit 7 (ienable h)\<rparr>) s)"

definition ring_doorbell :: "nat \<Rightarrow> firmware \<Rightarrow> firmware" where
  "ring_doorbell i = clint_upd (\<lambda>c. c\<lparr>msip := (msip c)[i := 1]\<rparr>)"

lemma word_halves:
  fixes d x :: u64
  shows "((((x AND 0xffffffff) OR push_bit 32 (ucast y)) AND NOT 0xffffffff) OR (ucast (ucast d :: u32) AND 0xffffffff)) AND 0xffffffff OR
      push_bit 32 (ucast (ucast (drop_bit 32 d) :: u32)) = d"
proof -
  have m: "(0xffffffff :: u64) = mask 32" by (simp add: mask_eq_exp_minus_1)
  show ?thesis unfolding m by (rule bit_word_eqI) (auto simp: bit_simps)
qed

lemma timer_words:
  fixes d :: u64
  assumes c: "wf_clint c" "i < clint_nr_harts c"
  defines "lo \<equiv> clint_base c + (0x4000 + 8 * of_nat i)" and "hi \<equiv> clint_base c + (0x4004 + 8 * of_nat i)"
  shows "clint_write (ucast hi) 4 (ucast (ucast (drop_bit 32 d) :: u32)) (clint_write (ucast lo) 4 (ucast (ucast d :: u32))
      (clint_write (ucast hi) 4 (ucast (0xffffffff :: u32)) c)) = c\<lparr>mtimecmp := (mtimecmp c)[i := d]\<rparr>"
proof -
  have len: "i < length (mtimecmp c)" "length (mtimecmp c) = MAX_NR_HARTS" using c by (auto simp: wf_clint_def)
  have w: "clint_write (ucast hi) 4 (ucast v) (c\<lparr>mtimecmp := (mtimecmp c)[i := x]\<rparr>) =
      c\<lparr>mtimecmp := (mtimecmp c)[i := (x AND 0xffffffff) OR push_bit 32 (ucast v)]\<rparr>"
    "clint_write (ucast lo) 4 (ucast v) (c\<lparr>mtimecmp := (mtimecmp c)[i := x]\<rparr>) =
      c\<lparr>mtimecmp := (mtimecmp c)[i := (x AND NOT 0xffffffff) OR (ucast v AND 0xffffffff)]\<rparr>" for v :: u32 and x
  proof -
    let ?c = "c\<lparr>mtimecmp := (mtimecmp c)[i := x]\<rparr>"
    have "wf_clint ?c" "i < clint_nr_harts ?c" using c by (simp_all add: wf_clint_def)
    note r = clint_registers(1,2) [OF this]
    have "clint_base ?c = clint_base c" "mtimecmp ?c ! i = x" "?c\<lparr>mtimecmp := (mtimecmp ?c)[i := y]\<rparr> = c\<lparr>mtimecmp := (mtimecmp c)[i := y]\<rparr>" for y
      using len by simp_all
    with r show "clint_write (ucast hi) 4 (ucast v) ?c = c\<lparr>mtimecmp := (mtimecmp c)[i := (x AND 0xffffffff) OR push_bit 32 (ucast v)]\<rparr>"
      "clint_write (ucast lo) 4 (ucast v) ?c = c\<lparr>mtimecmp := (mtimecmp c)[i := (x AND NOT 0xffffffff) OR (ucast v AND 0xffffffff)]\<rparr>"
      unfolding lo_def hi_def by metis+
  qed
  show ?thesis
    unfolding clint_registers(1) [OF c, folded hi_def] w word_halves ..
qed

lemma sbi_set_timer_runs:
  assumes s: "services_ready T s"
  shows "sbi_set_timer next s = Some (Ret () (timer_set next s))"
proof -
  let ?i = "this_hart s" and ?c = "clint_dev (platform s)"
  let ?lo = "0x4000 + 8 * of_nat ?i :: u32" and ?hi = "0x4004 + 8 * of_nat ?i :: u32"
  let ?W = "\<lambda>off v. clint_write (ucast (CLINT_BASE + off)) 4 (ucast (v :: u32))"
  let ?w = "\<lambda>off v. clint_upd (?W off v)"
  let ?s3 = "?w ?hi (ucast (drop_bit 32 next)) (?w ?lo (ucast next) (?w ?hi 0xffffffff s))"
  note i = this_hart_id [OF s]
  have c: "wf_clint ?c" "clint_base ?c = CLINT_BASE" using s by (simp_all add: services_ready_def clint_mapped_def)
  have ui: "unat ?lo = 0x4000 + 8 * ?i" "unat ?hi = 0x4004 + 8 * ?i"
    using i(3) by (simp_all add: unat_word_ariths unsigned_of_nat take_bit_nat_eq_self)
  have off: "?lo < 0xc000" "?hi < 0xc000" using i(3) by (simp_all add: word_less_nat_alt ui)
  have s1: "services_ready T (?w ?hi 0xffffffff s)" by (rule services_clint_write [OF s])
  have s2: "services_ready T (?w ?lo (ucast next) (?w ?hi 0xffffffff s))" by (rule services_clint_write [OF s1])
  have s3: "services_ready T ?s3" by (rule services_clint_write [OF s2])
  have adr: "CLINT_BASE + ?lo + 4 = CLINT_BASE + ?hi" "CLINT_BASE + CLINT_MTIMECMP_OFFSET + 8 * of_nat ?i = CLINT_BASE + ?lo"
    by simp_all
  note val = timer_words [OF c(1) i(2), of "next", unfolded c(2)]
  have wf4: "wf_interrupts (h\<lparr>ipending := unset_bit 5 (ipending h)\<rparr>)" if "wf_interrupts h" for h
    using that by (auto simp: wf_interrupts_bits bit_unset_bit_iff)
  have s4: "services_ready T (cpu_upd (\<lambda>h. h\<lparr>ipending := unset_bit 5 (ipending h)\<rparr>) ?s3)"
    using s3 by (intro services_ready_upd(3)) (auto simp: services_ready_def wf4)
  have "sbi_set_timer next s = fseq [clear_csr CSR_ADDRESS_MIP MIP_STIP, set_csr_bits CSR_ADDRESS_MIE MIE_MTIE] ?s3"
    using clint_store [OF s off(2)] clint_store [OF s1 off(1)] clint_store [OF s2 off(2)]
    by (simp only: sbi_set_timer_def adr Let_def fseq.simps fbind_def i(1) option.case result.case)
  also have "\<dots> = Some (Ret () (cpu_upd (\<lambda>h. h\<lparr>ienable := set_bit 7 (ienable h)\<rparr>) (cpu_upd (\<lambda>h. h\<lparr>ipending := unset_bit 5 (ipending h)\<rparr>) ?s3)))"
    using csr_bit_runs(4) [of ?s3] csr_bit_runs(2) [of "cpu_upd (\<lambda>h. h\<lparr>ipending := unset_bit 5 (ipending h)\<rparr>) ?s3"] s3 s4
    by (simp only: fseq.simps fbind_def services_ready_def fret_def option.case result.case)
  also have "\<dots> = Some (Ret () (timer_set next s))"
    unfolding timer_set_def option.inject result.inject upd_commute comp_apply
    using val by (auto simp: comp_def intro!: clint_upd_cong)
  finally show ?thesis .
qed

lemma sbi_send_ipi_runs:
  assumes s: "services_ready T s" and i: "unat t < clint_nr_harts (clint_dev (platform s))"
  shows "sbi_send_ipi t s = Some (Ret () (ring_doorbell (unat t) s))"
proof -
  have c: "wf_clint (clint_dev (platform s))" "clint_base (clint_dev (platform s)) = CLINT_BASE"
    using s by (simp_all add: services_ready_def clint_mapped_def)
  have t: "unat t < 64" using c(1) i by (simp add: wf_clint_def MAX_NR_HARTS_def)
  then have off: "4 * t < 0xc000" by (simp add: word_less_nat_alt unat_word_ariths)
  have "clint_write (ucast (CLINT_BASE + 4 * t)) 4 (ucast (1 :: u32)) (clint_dev (platform s)) = (clint_dev (platform s))\<lparr>msip := (msip (clint_dev (platform s)))[unat t := 1]\<rparr>"
    using clint_registers(3) [OF c(1) i, of 1] by (simp add: c(2))
  then show ?thesis
    using clint_store [OF s off, of 1] by (simp add: sbi_send_ipi_def ring_doorbell_def) (rule clint_upd_cong, simp)
qed

lemma services_doorbell: "services_ready T s \<Longrightarrow> services_ready T (ring_doorbell i s)"
proof -
  assume s: "services_ready T s"
  have "wf_clint c \<Longrightarrow> wf_clint (c\<lparr>msip := (msip c)[i := 1]\<rparr>)" for c
    by (auto simp: wf_clint_def dest!: set_update_subset_insert [THEN subsetD])
  then show ?thesis unfolding ring_doorbell_def by (intro services_ready_upd(2) [OF s]) simp_all
qed

lemma sbi_ipi_loop_runs:
  fixes w :: u32
  assumes "services_ready T s" and "\<forall>b\<in>set bs. bit w b \<longrightarrow> unat (base + of_nat b) < clint_nr_harts (clint_dev (platform s))"
  shows "fseq (map (\<lambda>b. if w AND push_bit b 1 \<noteq> 0 then sbi_send_ipi (base + of_nat b) else fret ()) bs) s =
    Some (Ret () (fold ring_doorbell (map (\<lambda>b. unat (base + of_nat b)) (filter (bit w) bs)) s))"
  using assms
proof (induction bs arbitrary: s)
  case Nil
  then show ?case by (simp add: fret_def)
next
  case (Cons b bs)
  show ?case
  proof (cases "bit w b")
    case True
    have n: "clint_nr_harts (clint_dev (platform (ring_doorbell i s))) = clint_nr_harts (clint_dev (platform s))" for i
      by (simp add: ring_doorbell_def)
    show ?thesis
      using True Cons.prems Cons.IH [OF services_doorbell [OF Cons.prems(1)], unfolded n] sbi_send_ipi_runs [OF Cons.prems(1), of "base + of_nat b"]
      by (simp add: fbind_def and_exp_eq_0_iff_not_bit)
  next
    case False
    then show ?thesis using Cons by (simp add: fbind_def fret_def and_exp_eq_0_iff_not_bit)
  qed
qed

lemma sbi_shutdown_runs:
  assumes s: "services_ready T s"
  shows "sbi_shutdown s = Some (Stop (Exit 0))"
proof -
  let ?p = "\<lparr>addr_low = syscon_base, addr_high = syscon_base + syscon_size, pmr_device = Syscon_mmio\<rparr>"
  have con: "console_ready s" and reg: "?p \<in> set (regions (platform s))" using s by (simp_all add: services_ready_def)
  note up = services_unpaged [OF s]
  obtain bytes where "render (''BOOTROM: '' @ crlf @ ''zelda: system halted'' @ crlf) [] = Some bytes" by simp
  from printk_says [OF con this] have pr: "printk (crlf @ ''zelda: system halted'' @ crlf) [] s = Some (Ret () (say bytes s))" .
  have "search_pm_region_callback (regions (platform s)) (ucast SYSCON_BASE) = Some (Some ?p)"
    by (rule search_region [OF up [THEN conjunct2] reg]) (simp add: in_region_def)
  then have "mmu_write32 SYSCON_BASE SYSCON_POWEROFF (platform (say bytes s)) = Stop (Exit 0)"
    using up by (simp add: mmu_write32_def vmwrite_def direct_write_def pmr_write_def syscon_write_def)
  then show ?thesis using pr by (simp add: sbi_shutdown_def fbind_def fw_store32_def on_platform_def)
qed

text \<open>The console input call, on the receive queue of the device.\<close>

definition console_input :: "firmware \<Rightarrow> u32 \<times> firmware" where
  "console_input s = (let m = platform s in
     if uart_rx_empty (uart_dev m) then (- 1, s)
     else case uart_rx_pop (uart_dev m) of (ch, u) \<Rightarrow>
       (ucast ch, s\<lparr>platform := m\<lparr>uart_dev := u, plic_dev := the (uart_refresh_interrupt u (plic_dev m))\<rparr>\<rparr>))"

lemma getchar_runs:
  assumes "console_ready s"
  shows "uart16550_getchar s = Some (case console_input s of (v, t) \<Rightarrow> Ret v t)"
proof -
  let ?m = "platform s"
  have m: "uart_mapped ?m" "lcr (uart_dev ?m) AND 0x80 = 0" "uart_refresh_interrupt (uart_dev ?m) (plic_dev ?m) = Some (plic_dev ?m)"
    using assms by (simp_all add: console_ready_def)
  have lsr: "uart_load UART_REG_LSR s = Some (Ret (0x40 OR 0x20 OR (if \<not> uart_rx_empty (uart_dev ?m) then 0x01 else 0)) s)"
    using uart_access(1) [OF m(1), of 5] m(3) by (simp add: uart_load_def on_platform_def console_address [OF assms] uart_register_read_def)
  have ex: "\<exists>p. uart_refresh_interrupt u (plic_dev ?m) = Some p" for u
    by (simp add: uart_refresh_interrupt_def plic_set_pending_def PLIC_IRQ_UART0_def PLIC_NR_SOURCES_def)
  have queue: "uart_load UART_REG_QUEUE s = Some (case uart_rx_pop (uart_dev ?m) of (ch, u) \<Rightarrow>
      Ret ch (s\<lparr>platform := ?m\<lparr>uart_dev := u, plic_dev := the (uart_refresh_interrupt u (plic_dev ?m))\<rparr>\<rparr>))"
    using uart_access(1) [OF m(1), of 0] m(2) ex [of "snd (uart_rx_pop (uart_dev ?m))"]
    by (auto simp: uart_load_def on_platform_def console_address [OF assms] uart_register_read_def split: prod.splits)
  show ?thesis
    using lsr queue by (auto simp: uart16550_getchar_def fbind_def console_input_def fret_def Let_def split: prod.splits)
qed

section \<open>The call table\<close>

text \<open>
  What every call does and answers. \<open>None\<close>: the machine is switched off. Otherwise the value for
  \<^verbatim>\<open>a0\<close>, the value for \<^verbatim>\<open>a1\<close> (the calls of the old style leave it), and the machine after the call.
\<close>

definition sbi_spec :: "u32 \<Rightarrow> u32 \<Rightarrow> u32 \<Rightarrow> u32 \<Rightarrow> firmware \<Rightarrow> (u32 \<times> u32 option \<times> firmware) option" where
  "sbi_spec ext fn a0 a1 s = (
     let deadline = push_bit 32 (ucast a1) OR ucast a0 in
     if ext = SBI_EXT_LEGACY_SET_TIMER then Some (0, None, timer_set deadline s)
     else if ext = SBI_EXT_LEGACY_CONSOLE_PUTCHAR then Some (0, None, say [ucast a0] s)
     else if ext = SBI_EXT_LEGACY_CONSOLE_GETCHAR then (case console_input s of (v, t) \<Rightarrow> Some (v, None, t))
     else if ext = SBI_EXT_LEGACY_CLEAR_IPI then Some (0, None, cpu_upd (\<lambda>h. h\<lparr>ipending := unset_bit 1 (ipending h)\<rparr>) s)
     else if ext = SBI_EXT_LEGACY_SEND_IPI then Some (0, None, ring_doorbell (this_hart s) s)
     else if ext = SBI_EXT_LEGACY_REMOTE_FENCE_I then Some (0, None, cpu_upd flush_translation_cache s)
     else if ext \<in> {SBI_EXT_LEGACY_REMOTE_SFENCE_VMA, SBI_EXT_LEGACY_REMOTE_SFENCE_VMA_ASID} then Some (0, None, cpu_upd sfence_vma_callback s)
     else if ext = SBI_EXT_LEGACY_SHUTDOWN then None
     else if ext = SBI_EXT_BASE \<and> fn \<le> 6 then
       Some (0, Some ([SBI_SPEC_VERSION, SBI_IMPL_ID, SBI_IMPL_VERSION, sbi_probe_extension a0, csr_blob (the_cpu s) CSR_MVENDORID,
         csr_blob (the_cpu s) CSR_MARCHID, csr_blob (the_cpu s) CSR_MIMPID] ! unat fn), s)
     else if ext = SBI_EXT_TIME \<and> fn = 0 then Some (0, Some 0, timer_set deadline s)
     else if ext = SBI_EXT_IPI \<and> fn = 0 then
       Some (0, Some 0, fold ring_doorbell (map (\<lambda>b. unat (a1 + of_nat b)) (filter (bit a0) [0..<32])) s)
     else if ext = SBI_EXT_RFENCE \<and> fn = 0 then Some (0, Some 0, cpu_upd flush_translation_cache s)
     else if ext = SBI_EXT_RFENCE \<and> fn \<le> 2 then Some (0, Some 0, cpu_upd sfence_vma_callback s)
     else if ext = SBI_EXT_SRST \<and> fn = 0 then None
     else Some (SBI_ERR_NOT_SUPPORTED, Some 0, s))"

text \<open>An inter-processor interrupt goes to harts that exist.\<close>

definition ipi_targets_exist :: "u32 \<Rightarrow> u32 \<Rightarrow> u32 \<Rightarrow> firmware \<Rightarrow> bool" where
  "ipi_targets_exist ext a0 a1 s \<longleftrightarrow>
     (ext = SBI_EXT_IPI \<longrightarrow> (\<forall>b<32. bit a0 b \<longrightarrow> unat (a1 + of_nat b) < clint_nr_harts (clint_dev (platform s))))"

definition answer :: "u32 \<Rightarrow> u32 \<Rightarrow> u32 option \<Rightarrow> host_memory \<Rightarrow> host_memory" where
  "answer T v0 v1 = (case v1 of None \<Rightarrow> id | Some v \<Rightarrow> rom_put (slot T REG_A1) v) \<circ> rom_put (slot T REG_A0) v0"

lemma services_kept:
  assumes "services_ready T s"
  shows "services_ready T (timer_set d s)" "services_ready T (say b s)" "services_ready T (snd (console_input s))"
    "services_ready T (cpu_upd (\<lambda>h. h\<lparr>ipending := unset_bit n (ipending h)\<rparr>) s)" "services_ready T (cpu_upd flush_translation_cache s)"
    "services_ready T (cpu_upd sfence_vma_callback s)" "services_ready T (fold ring_doorbell is s)"
    "services_ready T (rom_upd (rom_put a v) s)"
proof -
  have wf: "wf_interrupts (h\<lparr>ipending := unset_bit n (ipending h)\<rparr>)" "wf_interrupts (h\<lparr>ipending := unset_bit 5 (ipending h), ienable := set_bit 7 (ienable h)\<rparr>)"
    "wf_interrupts (flush_translation_cache h)" "wf_interrupts (sfence_vma_callback h)" if "wf_interrupts h" for h n
    using that by (auto simp: wf_interrupts_bits bit_unset_bit_iff bit_set_bit_iff flush_translation_cache_def sfence_vma_callback_def)
  have keep: "privilege_level (flush_translation_cache h) = privilege_level h" "hart_id (flush_translation_cache h) = hart_id h"
    "privilege_level (sfence_vma_callback h) = privilege_level h" "hart_id (sfence_vma_callback h) = hart_id h" for h
    by (simp_all add: flush_translation_cache_def sfence_vma_callback_def)
  have cpu: "privilege_level (the_cpu s) = PRIVILEGE_LEVEL_MACHINE" "wf_interrupts (the_cpu s)" using assms by (simp_all add: services_ready_def)
  show "services_ready T (cpu_upd (\<lambda>h. h\<lparr>ipending := unset_bit n (ipending h)\<rparr>) s)" "services_ready T (cpu_upd flush_translation_cache s)"
    "services_ready T (cpu_upd sfence_vma_callback s)"
    using cpu by (auto intro!: services_ready_upd(3) [OF assms] simp: wf keep)
  have t: "services_ready T (cpu_upd (\<lambda>h. h\<lparr>ipending := unset_bit 5 (ipending h), ienable := set_bit 7 (ienable h)\<rparr>) s)"
    using cpu by (auto intro!: services_ready_upd(3) [OF assms] simp: wf)
  show "services_ready T (timer_set d s)" unfolding timer_set_def
    by (rule services_ready_upd(2) [OF t]) (auto simp: wf_clint_def)
  show "services_ready T (say b s)" using assms
    by (simp add: services_ready_def clint_mapped_def rom_mapped_def)
  show "services_ready T (fold ring_doorbell is s)" using assms by (induction "is" arbitrary: s) (simp_all add: services_doorbell)
  show "services_ready T (rom_upd (rom_put a v) s)" by (rule services_ready_upd(1) [OF assms]) (simp add: rom_put_def)
  show "services_ready T (snd (console_input s))"
  proof -
    let ?u = "snd (uart_rx_pop (uart_dev (platform s)))" and ?p = "plic_dev (platform s)"
    have twice: "uart_refresh_interrupt u (the (uart_refresh_interrupt u p)) = Some (the (uart_refresh_interrupt u p))" for u p
      by (auto simp: uart_refresh_interrupt_def plic_set_pending_def PLIC_IRQ_UART0_def PLIC_NR_SOURCES_def or.assoc and.assoc)
    have "lcr ?u = lcr (uart_dev (platform s))" by (simp add: uart_rx_pop_def)
    then show ?thesis using assms twice
      by (auto simp: console_input_def Let_def services_ready_def console_ready_def uart_mapped_def clint_mapped_def rom_mapped_def split: prod.splits)
  qed
qed

lemma frame_answers:
  assumes "services_ready T t"
  shows "set_frame_reg (T - 128) REG_A0 v t = Some (Ret () (rom_upd (answer T v None) t))"
    and "set_frame_result (T - 128) r t = Some (Ret () (rom_upd (answer T (fst r) (Some (snd r))) t))"
  using frame_access(2) [OF assms, of REG_A0] frame_access(2) [OF services_kept(8) [OF assms], of REG_A1 "snd r"]
  by (simp_all add: set_frame_result_def fbind_def answer_def fret_def comp_def)

lemma word_le_8: "w \<le> 8 \<Longrightarrow> w \<in> {0, 1, 2, 3, 4, 5, 6, 7, 8}" for w :: u32
proof -
  assume "w \<le> 8"
  then have "unat w \<le> 8" by (simp add: word_le_nat_alt)
  then have "unat w \<in> {0, 1, 2, 3, 4, 5, 6, 7, 8}" by auto
  then have "of_nat (unat w) \<in> (of_nat ` {0, 1, 2, 3, 4, 5, 6, 7, 8} :: u32 set)" by (rule imageI)
  then show ?thesis by simp
qed

lemma frame_deadline_runs:
  assumes s: "services_ready T s" and r: "rom_get (slot T REG_A0) (bootrom (platform s)) = a0" "rom_get (slot T REG_A1) (bootrom (platform s)) = a1"
  shows "frame_deadline (T - 128) s = Some (Ret (push_bit 32 (ucast a1) OR ucast a0) s)"
  using r by (simp add: frame_deadline_def fbind_def fret_def frame_access [OF s])

lemma sbi_legacy_call_runs:
  assumes s: "services_ready T s" and r: "rom_get (slot T REG_A0) (bootrom (platform s)) = a0" "rom_get (slot T REG_A1) (bootrom (platform s)) = a1"
    and ext: "ext \<le> SBI_EXT_LEGACY_SHUTDOWN"
  shows "sbi_legacy_call (T - 128) ext s =
    Some (case sbi_spec ext fn a0 a1 s of None \<Rightarrow> Stop (Exit 0) | Some (v0, v1, t) \<Rightarrow> Ret () (rom_upd (answer T v0 v1) t))"
proof -
  have con: "console_ready s" and wf: "wf_interrupts (the_cpu s)" using s by (simp_all add: services_ready_def)
  note i = this_hart_id [OF s]
  note run = fbind_def fret_def frame_deadline_runs [OF s r] frame_access(1) [OF s] r sbi_set_timer_runs [OF s] putchar_says [OF con]
    getchar_runs [OF con] csr_bit_runs(3) [OF wf] fence_i_def sfence_vma_def on_hart_def on_platform_def cpu_upd_def [symmetric] sbi_shutdown_runs [OF s]
  have ipi: "sbi_send_ipi (of_nat (this_hart s)) s = Some (Ret () (ring_doorbell (this_hart s) s))"
    using sbi_send_ipi_runs [OF s, of "of_nat (this_hart s)"] i(2,3) by (simp add: unsigned_of_nat take_bit_nat_eq_self)
  obtain v t where input: "console_input s = (v, t)" by fastforce
  then have t: "services_ready T t" using services_kept(3) [OF s] by simp
  have k: "services_ready T (ring_doorbell j s)" for j by (rule services_doorbell [OF s])
  from word_le_8 [OF ext] show ?thesis
    unfolding sbi_legacy_call_def
    by (elim insertE emptyE; hypsubst)
      (simp_all add: sbi_spec_def run i(1) ipi input k t frame_answers(1) s services_kept [OF s])
qed

lemma sbi_base_call_runs:
  assumes s: "services_ready T s" and r: "rom_get (slot T REG_A0) (bootrom (platform s)) = a0"
  shows "sbi_base_call (T - 128) fn s = Some (Ret (if fn \<le> 6 then
      (0, [SBI_SPEC_VERSION, SBI_IMPL_ID, SBI_IMPL_VERSION, sbi_probe_extension a0, csr_blob (the_cpu s) CSR_MVENDORID,
         csr_blob (the_cpu s) CSR_MARCHID, csr_blob (the_cpu s) CSR_MIMPID] ! unat fn) else (SBI_ERR_NOT_SUPPORTED, 0)) s)"
proof (cases "fn \<le> 6")
  case True
  then have "fn \<le> 8" by (rule order_trans) simp
  from word_le_8 [OF this] True show ?thesis
    by (elim insertE emptyE; hypsubst) (simp_all add: sbi_base_call_def fret_def fbind_def frame_access(1) [OF s] r read_csr_runs)
next
  case False
  then have "fn \<noteq> k" if "k \<le> 6" for k using that by auto
  then show ?thesis using False by (simp add: sbi_base_call_def fret_def)
qed

lemma sbi_modern_call_runs:
  assumes s: "services_ready T s" and r: "rom_get (slot T REG_A0) (bootrom (platform s)) = a0" "rom_get (slot T REG_A1) (bootrom (platform s)) = a1"
    and ext: "\<not> ext \<le> SBI_EXT_LEGACY_SHUTDOWN" and ipi: "ipi_targets_exist ext a0 a1 s"
  shows "sbi_modern_call (T - 128) ext fn s =
    Some (case sbi_spec ext fn a0 a1 s of None \<Rightarrow> Stop (Exit 0) | Some (v0, v1, t) \<Rightarrow> Ret () (rom_upd (answer T v0 v1) t))"
proof -
  have old: "ext \<noteq> 0" "ext \<noteq> 1" "ext \<noteq> 2" "ext \<noteq> 3" "ext \<noteq> 4" "ext \<noteq> 5" "ext \<noteq> 6" "ext \<noteq> 7" "ext \<noteq> 8" using ext by auto
  note run = fbind_def fret_def frame_deadline_runs [OF s r] frame_access(1) [OF s] r sbi_set_timer_runs [OF s]
    fence_i_def sfence_vma_def on_hart_def on_platform_def cpu_upd_def [symmetric] sbi_shutdown_runs [OF s] sbi_base_call_runs [OF s r(1)]
  have le2: "fn \<le> 2 \<longleftrightarrow> fn = 0 \<or> fn = 1 \<or> fn = 2"
  proof
    assume "fn \<le> 2"
    then have "fn \<le> 8" by (rule order_trans) simp
    from word_le_8 [OF this] \<open>fn \<le> 2\<close> show "fn = 0 \<or> fn = 1 \<or> fn = 2" by auto
  qed auto
  have bells: "sbi_ipi_loop a0 a1 s = Some (Ret () (fold ring_doorbell (map (\<lambda>b. unat (a1 + of_nat b)) (filter (bit a0) [0..<32])) s))"
    if "ext = SBI_EXT_IPI"
    unfolding sbi_ipi_loop_def using ipi that by (intro sbi_ipi_loop_runs [OF s]) (simp add: ipi_targets_exist_def)
  consider "ext = SBI_EXT_BASE" | "ext = SBI_EXT_TIME" | "ext = SBI_EXT_IPI" | "ext = SBI_EXT_RFENCE" | "ext = SBI_EXT_SRST"
    | "ext \<notin> {SBI_EXT_BASE, SBI_EXT_TIME, SBI_EXT_IPI, SBI_EXT_RFENCE, SBI_EXT_SRST}" by blast
  then show ?thesis
  proof cases
    case 1
    then show ?thesis using s by (simp add: sbi_modern_call_def sbi_spec_def run frame_answers(2))
  next
    case 2
    then show ?thesis using s by (simp add: sbi_modern_call_def sbi_spec_def run frame_answers(2) services_kept)
  next
    case 3
    then show ?thesis using s bells by (simp add: sbi_modern_call_def sbi_spec_def run frame_answers(2) services_kept)
  next
    case 4
    then show ?thesis using s by (auto simp: sbi_modern_call_def sbi_spec_def run le2 frame_answers(2) services_kept)
  next
    case 5
    then show ?thesis using s by (simp add: sbi_modern_call_def sbi_spec_def run frame_answers(2) services_kept)
  next
    case 6
    then show ?thesis using s old by (simp add: sbi_modern_call_def sbi_spec_def run frame_answers(2))
  qed
qed

lemma sbi_dispatch_runs:
  assumes s: "services_ready T s"
    and r: "rom_get (slot T REG_A0) (bootrom (platform s)) = a0" "rom_get (slot T REG_A1) (bootrom (platform s)) = a1"
      "rom_get (slot T REG_A6) (bootrom (platform s)) = fn" "rom_get (slot T REG_A7) (bootrom (platform s)) = ext"
    and ipi: "ipi_targets_exist ext a0 a1 s"
  shows "sbi_dispatch (T - 128) s =
    Some (case sbi_spec ext fn a0 a1 s of None \<Rightarrow> Stop (Exit 0) | Some (v0, v1, t) \<Rightarrow> Ret () (rom_upd (answer T v0 v1) t))"
  using sbi_legacy_call_runs [OF s r(1,2), of ext fn] sbi_modern_call_runs [OF s r(1,2) _ ipi, of fn]
  by (simp add: sbi_dispatch_def fbind_def frame_access(1) [OF s] r)

section \<open>The trap handler\<close>

definition call_keeps :: "firmware \<Rightarrow> firmware \<Rightarrow> bool" where
  "call_keeps s t \<longleftrightarrow> csr_blob (the_cpu t) = csr_blob (the_cpu s) \<and> registers (the_cpu t) = registers (the_cpu s) \<and>
     status (the_cpu t) = status (the_cpu s) \<and> bootrom (platform t) = bootrom (platform s) \<and>
     idelegation (the_cpu t) = idelegation (the_cpu s) \<and> main_mem (platform t) = main_mem (platform s)"

lemma call_keeps_services:
  "call_keeps s s" "call_keeps s (timer_set d s)" "call_keeps s (say b s)" "call_keeps s (snd (console_input s))"
  "call_keeps s (cpu_upd (\<lambda>h. h\<lparr>ipending := w h\<rparr>) s)" "call_keeps s (cpu_upd flush_translation_cache s)"
  "call_keeps s (cpu_upd sfence_vma_callback s)" "call_keeps s (fold ring_doorbell is s)" "call_keeps s (ring_doorbell i s)"
proof -
  show bell: "call_keeps s (ring_doorbell i s)" for s i by (simp add: call_keeps_def ring_doorbell_def)
  show "call_keeps s (fold ring_doorbell is s)"
    by (induction "is" arbitrary: s) (use bell in \<open>auto simp: call_keeps_def\<close>)
qed (simp_all add: call_keeps_def timer_set_def console_input_def Let_def flush_translation_cache_def sfence_vma_callback_def split: prod.split)

lemma sbi_spec_kept:
  assumes s: "services_ready T s" and "sbi_spec ext fn a0 a1 s = Some (v0, v1, t)"
  shows "services_ready T t \<and> call_keeps s t"
proof -
  obtain v u where input: "console_input s = (v, u)" by fastforce
  define P where "P = (\<lambda>t. services_ready T t \<and> call_keeps s t)"
  have "P s" "\<And>d. P (timer_set d s)" "\<And>b. P (say b s)" "P u" "\<And>n. P (cpu_upd (\<lambda>h. h\<lparr>ipending := unset_bit n (ipending h)\<rparr>) s)"
    "P (cpu_upd flush_translation_cache s)" "P (cpu_upd sfence_vma_callback s)" "\<And>is. P (fold ring_doorbell is s)" "\<And>i. P (ring_doorbell i s)"
    unfolding P_def using s services_kept [OF s] services_doorbell [OF s] call_keeps_services [of s] input by simp_all
  then have "P t" using assms(2) unfolding sbi_spec_def Let_def input prod.case
    by (auto split: if_split_asm)
  then show ?thesis by (simp add: P_def)
qed

lemma fw_trap_handler_ecall:
  assumes s: "services_ready T s" and cause: "csr_blob (the_cpu s) CSR_ADDRESS_MCAUSE = CAUSE_SUPERVISOR_ECALL"
    and r: "rom_get (slot T REG_A0) (bootrom (platform s)) = a0" "rom_get (slot T REG_A1) (bootrom (platform s)) = a1"
      "rom_get (slot T REG_A6) (bootrom (platform s)) = fn" "rom_get (slot T REG_A7) (bootrom (platform s)) = ext"
    and ipi: "ipi_targets_exist ext a0 a1 s"
  shows "fw_trap_handler (T - 128) s = Some (case sbi_spec ext fn a0 a1 s of None \<Rightarrow> Stop (Exit 0)
    | Some (v0, v1, t) \<Rightarrow> Ret () (cpu_upd (set_csr CSR_ADDRESS_MEPC (csr_blob (the_cpu s) CSR_ADDRESS_MEPC + 4)) (rom_upd (answer T v0 v1) t)))"
proof -
  have "fw_trap_handler (T - 128) s = fseq [sbi_dispatch (T - 128), fbind (read_csr CSR_ADDRESS_MEPC) (\<lambda>mepc. write_csr CSR_ADDRESS_MEPC (mepc + 4))] s"
    using cause by (simp add: fw_trap_handler_def fbind_def read_csr_runs)
  then show ?thesis
    using sbi_dispatch_runs [OF s r ipi] sbi_spec_kept [OF s]
    by (auto simp: call_keeps_def fbind_def read_csr_runs write_csr_runs fret_def split: option.splits)
qed

lemma fw_trap_handler_timer:
  assumes s: "services_ready T s" and cause: "csr_blob (the_cpu s) CSR_ADDRESS_MCAUSE = 0x80000007"
  shows "fw_trap_handler frame s = Some (Ret () (cpu_upd (\<lambda>h. h\<lparr>ienable := unset_bit 7 (ienable h), ipending := set_bit 5 (ipending h)\<rparr>) s))"
proof -
  let ?t = "cpu_upd (\<lambda>h. h\<lparr>ienable := unset_bit 7 (ienable h)\<rparr>) s"
  have wf: "wf_interrupts (the_cpu s)" using s by (simp add: services_ready_def)
  then have "wf_interrupts (the_cpu ?t)" by (auto simp: wf_interrupts_bits bit_unset_bit_iff)
  then show ?thesis
    using csr_bit_runs(1) [OF wf] csr_bit_runs(6) [of ?t]
    by (simp add: fw_trap_handler_def fw_handle_interrupt_def fbind_def read_csr_runs cause fret_def comp_def)
qed

lemma fw_trap_handler_software:
  assumes s: "services_ready T s" and cause: "csr_blob (the_cpu s) CSR_ADDRESS_MCAUSE = 0x80000003"
  shows "fw_trap_handler frame s = Some (Ret () (clint_upd (\<lambda>c. c\<lparr>msip := (msip c)[this_hart s := 0]\<rparr>)
    (cpu_upd (\<lambda>h. h\<lparr>ipending := set_bit 1 (ipending h)\<rparr>) s)))"
proof -
  let ?off = "4 * of_nat (this_hart s) :: u32"
  note i = this_hart_id [OF s]
  have c: "wf_clint (clint_dev (platform s))" "clint_base (clint_dev (platform s)) = CLINT_BASE" and wf: "wf_interrupts (the_cpu s)"
    using s by (simp_all add: services_ready_def clint_mapped_def)
  have "unat ?off = 4 * this_hart s" using i(3) by (simp add: unat_word_ariths unsigned_of_nat take_bit_nat_eq_self)
  then have off: "?off < 0xc000" using i(3) by (simp add: word_less_nat_alt)
  have eq: "clint_upd (clint_write (ucast (CLINT_BASE + ?off)) 4 (ucast (0 :: u32))) x = clint_upd (\<lambda>c. c\<lparr>msip := (msip c)[this_hart s := 0]\<rparr>) x"
    if "clint_dev (platform x) = clint_dev (platform s)" for x
    using clint_registers(3) [OF c(1) i(2), of 0] that by (intro clint_upd_cong) (simp add: c(2))
  show ?thesis
    using clint_store [OF s off, of 0] csr_bit_runs(5) [of "clint_upd (clint_write (ucast (CLINT_BASE + ?off)) 4 (ucast (0 :: u32))) s"] wf eq
    by (simp add: fw_trap_handler_def fw_handle_interrupt_def fbind_def read_csr_runs cause fret_def i(1))
qed

lemma fw_fatal_halts: "console_ready s \<Longrightarrow> fw_fatal what c e v s = None"
proof -
  assume s: "console_ready s"
  obtain b1 b2 b3 where "render (''BOOTROM: '' @ crlf @ ''[firmware] unhandled %s'' @ crlf) [Arg_string what] = Some b1"
    "render (''BOOTROM: '' @ ''[firmware]   mcause 0x%x mepc 0x%x mtval 0x%x'' @ crlf) [Arg_word c, Arg_word e, Arg_word v] = Some b2"
    "render (''BOOTROM: '' @ ''[firmware] halting.'' @ crlf) [] = Some b3"
    by simp
  from this(1,2,3) [THEN printk_says [rotated]] s show ?thesis
    by (simp only: fw_fatal_def fseq.simps fbind_def console_ready_say option.case result.case) (simp add: spin_def)
qed

text \<open>
  The hart number of an inter-processor interrupt is not checked: a number outside the machine reaches
  other addresses than the doorbells, for example the memory of the firmware.
\<close>

lemma sbi_send_ipi_anywhere:
  assumes s: "services_ready T s" and a: "CLINT_BASE + 4 * t = a" "unat a + 4 \<le> unat T"
  shows "sbi_send_ipi t s = Some (Ret () (rom_upd (rom_put a 1) s))"
proof -
  have "rom_mapped (platform s) (unat T)" using s by (simp add: services_ready_def)
  from rom_access(1) [OF _ _ this a(2), OF services_unpaged [OF s, THEN conjunct1] services_unpaged [OF s, THEN conjunct2]]
  show ?thesis using a(1) by (simp add: sbi_send_ipi_def fw_store32_def on_platform_def rom_upd_def)
qed

section \<open>Properties\<close>

text \<open>
  C10. The calls of the supervisor binary interface do what the call table says, for all extensions and
  functions: with the arguments in the trap frame, \<^verbatim>\<open>sbi_dispatch\<close> returns with exactly the
  machine of the table (a timer armed at the 64-bit deadline of \<^verbatim>\<open>a1\<close> and \<^verbatim>\<open>a0\<close>, a byte printed or read,
  doorbells rung, caches flushed, or nothing changed and \<^verbatim>\<open>SBI_ERR_NOT_SUPPORTED\<close>), the answer is in the
  frame, and a shutdown ends the emulator with status zero.
\<close>

theorem sbi_dispatch_implements:
  assumes "services_ready T s"
    and "rom_get (slot T REG_A0) (bootrom (platform s)) = a0" and "rom_get (slot T REG_A1) (bootrom (platform s)) = a1"
    and "rom_get (slot T REG_A6) (bootrom (platform s)) = fn" and "rom_get (slot T REG_A7) (bootrom (platform s)) = ext"
    and "ipi_targets_exist ext a0 a1 s"
  shows "sbi_dispatch (T - 128) s =
    Some (case sbi_spec ext fn a0 a1 s of None \<Rightarrow> Stop (Exit 0) | Some (v0, v1, t) \<Rightarrow> Ret () (rom_upd (answer T v0 v1) t))"
  using sbi_dispatch_runs [OF assms] .

definition example_regions :: "pm_region_operation list" where
  "example_regions = [\<lparr>addr_low = 0, addr_high = 0x400000, pmr_device = Bootrom\<rparr>,
     \<lparr>addr_low = syscon_base, addr_high = syscon_base + syscon_size, pmr_device = Syscon_mmio\<rparr>,
     \<lparr>addr_low = CLINT_BASE, addr_high = 0x02010000, pmr_device = Clint_mmio\<rparr>, uart_region]"

text \<open>A supervisor call with its trap frame below 0x8000.\<close>

definition example_call :: "u32 \<Rightarrow> u32 \<Rightarrow> u32 \<Rightarrow> u32 \<Rightarrow> firmware" where
  "example_call ext fn a0 a1 = example_firmware\<lparr>platform := (platform example_firmware)\<lparr>
     cpu := zeroed_hart\<lparr>privilege_level := PRIVILEGE_LEVEL_MACHINE,
       csr_blob := (\<lambda>_. 0)(CSR_ADDRESS_MCAUSE := CAUSE_SUPERVISOR_ECALL, CSR_ADDRESS_MEPC := 0x80400000, CSR_ADDRESS_MSCRATCH := 0x8000),
       registers := (\<lambda>_. 0)(REG_A0 := a0, REG_A1 := a1, REG_A6 := fn, REG_A7 := ext),
       status := (status zeroed_hart)\<lparr>mpp := PRIVILEGE_LEVEL_SUPERVISOR\<rparr>\<rparr>,
     regions := example_regions,
     bootrom := rom_put (slot 0x8000 REG_A7) ext (rom_put (slot 0x8000 REG_A6) fn (rom_put (slot 0x8000 REG_A1) a1
       (rom_put (slot 0x8000 REG_A0) a0 \<lparr>mem_bytes = \<lambda>_. 0, mem_size = 0x400000\<rparr>)))\<rparr>\<rparr>"

lemma example_services: "services_ready 0x8000 (example_call ext fn a0 a1)"
proof -
  have "wf_regions example_regions"
    by (simp add: example_regions_def wf_regions_def nonempty_region_def region_before_def uart_region_def)
  then show ?thesis
    using example_console
    by (simp add: services_ready_def console_ready_def example_call_def uart_mapped_def paging_enabled_def zeroed_hart_def wf_interrupts_def
        clint_mapped_def rom_mapped_def rom_put_frame(2) wf_clint_def MAX_NR_HARTS_def)
      (simp add: example_regions_def example_firmware_def example_machine_def)
qed

lemma example_frame:
  "rom_get (slot 0x8000 REG_A0) (bootrom (platform (example_call ext fn a0 a1))) = a0"
  "rom_get (slot 0x8000 REG_A1) (bootrom (platform (example_call ext fn a0 a1))) = a1"
  "rom_get (slot 0x8000 REG_A6) (bootrom (platform (example_call ext fn a0 a1))) = fn"
  "rom_get (slot 0x8000 REG_A7) (bootrom (platform (example_call ext fn a0 a1))) = ext"
  by (simp_all add: example_call_def slot_get_put)

text \<open>C10 for a query of the implementation id, an unknown extension, and a shutdown.\<close>

theorem sbi_dispatch_implements_witness:
  "sbi_dispatch (0x8000 - 128) (example_call SBI_EXT_BASE 1 0 0) = Some (Ret () (rom_upd (answer 0x8000 0 (Some 8)) (example_call SBI_EXT_BASE 1 0 0))) \<and>
   sbi_dispatch (0x8000 - 128) (example_call 0x99 0 0 0) = Some (Ret () (rom_upd (answer 0x8000 (- 2) (Some 0)) (example_call 0x99 0 0 0))) \<and>
   sbi_dispatch (0x8000 - 128) (example_call SBI_EXT_SRST 0 0 0) = Some (Stop (Exit 0))"
proof -
  note call = sbi_dispatch_implements [OF example_services example_frame]
  have spec: "sbi_spec SBI_EXT_BASE 1 0 0 s = Some (0, Some 8, s)" "sbi_spec 0x99 0 0 0 s = Some (- 2, Some 0, s)" "sbi_spec SBI_EXT_SRST 0 0 0 s = None" for s
    by (simp_all add: sbi_spec_def)
  show ?thesis
    using call [of SBI_EXT_BASE 0 0 1] call [of "0x99" 0 0 0] call [of SBI_EXT_SRST 0 0 0]
    by (simp only: spec ipi_targets_exist_def) simp
qed

text \<open>
  C11. The firmware does not resume what it cannot handle: for every exception other than a supervisor
  call, and every interrupt other than the machine timer and the machine software interrupt, the trap
  handler reports the trap on the console and never returns.
\<close>

theorem fw_trap_handler_halts:
  assumes "services_ready T s" and "csr_blob (the_cpu s) CSR_ADDRESS_MCAUSE = cause"
    and "if cause AND 0x80000000 = 0 then cause \<noteq> CAUSE_SUPERVISOR_ECALL else cause AND 0xff \<notin> {IRQ_MACHINE_SOFTWARE, IRQ_MACHINE_TIMER}"
  shows "fw_trap_handler frame s = None"
proof -
  have "console_ready s" using assms(1) by (simp add: services_ready_def)
  then show ?thesis using assms(2,3) fw_fatal_halts [of s]
    by (auto simp: fw_trap_handler_def fw_handle_interrupt_def fbind_def read_csr_runs split: if_splits)
qed

text \<open>C11 for an illegal instruction in machine mode.\<close>

theorem fw_trap_handler_halts_witness:
  "fw_trap_handler 0x7f80 (cpu_upd (set_csr CSR_ADDRESS_MCAUSE 2) (example_call 0 0 0 0)) = None"
proof -
  have "services_ready 0x8000 (cpu_upd (set_csr CSR_ADDRESS_MCAUSE 2) (example_call 0 0 0 0))"
    by (rule services_ready_upd(3) [OF example_services]) (simp_all add: example_call_def zeroed_hart_def wf_interrupts_def)
  from fw_trap_handler_halts [OF this, of 2] show ?thesis by simp
qed

end
