(* ===== verification/Trap_Vector.thy ===== *)
theory Trap_Vector
  imports Sbi
begin

text \<open>
  The trap vector of the firmware (\<open>fw_trap_vector\<close>, \<^verbatim>\<open>bootrom/entry.S\<close>) and the ways through it: the
  interrupted registers are saved in a frame on the machine mode stack, the handler of \<^verbatim>\<open>sbi.c\<close> runs,
  the registers are restored from the frame and \<^verbatim>\<open>mret\<close> returns. What the compiled handler leaves in
  the registers other than the stack pointer is a parameter, on which nothing depends.
\<close>

section \<open>Operations (entry.S)\<close>

definition get_reg :: "nat \<Rightarrow> u32 fw" where
  "get_reg i s = fret (registers (the_cpu s) i) s"

definition put_reg :: "nat \<Rightarrow> u32 \<Rightarrow> unit fw" where
  "put_reg i v = on_hart (set_reg i v)"

definition add_sp :: "u32 \<Rightarrow> unit fw" where
  "add_sp k = fbind (get_reg 2) (\<lambda>sp. put_reg 2 (sp + k))"

text \<open>\<^verbatim>\<open>csrrw sp, mscratch, sp\<close>\<close>

definition swap_sp :: "unit fw" where
  "swap_sp = fbind (read_csr CSR_ADDRESS_MSCRATCH) (\<lambda>v. fbind (get_reg 2) (\<lambda>sp.
     fseq [put_reg 2 v, write_csr CSR_ADDRESS_MSCRATCH sp]))"

text \<open>\<^verbatim>\<open>sw xi, 4*i(sp)\<close> and \<^verbatim>\<open>lw xi, 4*i(sp)\<close>\<close>

definition save_reg :: "nat \<Rightarrow> unit fw" where
  "save_reg i = fbind (get_reg 2) (\<lambda>sp. fbind (get_reg i) (\<lambda>v. set_frame_reg sp i v))"

definition load_reg :: "nat \<Rightarrow> unit fw" where
  "load_reg i = fbind (get_reg 2) (\<lambda>sp. fbind (frame_reg sp i) (put_reg i))"

definition saved_regs :: "nat list" where
  "saved_regs = 1 # [3..<32]"

definition clobber_regs :: "(nat \<Rightarrow> u32) \<Rightarrow> unit fw" where
  "clobber_regs junk = on_hart (\<lambda>h. h\<lparr>registers := \<lambda>i. if i \<in> set saved_regs then junk i else registers h i\<rparr>)"

text \<open>The number of \<^verbatim>\<open>t0\<close> is 5, that of \<^verbatim>\<open>a0\<close> is 10.\<close>

definition fw_trap_vector :: "(nat \<Rightarrow> u32) \<Rightarrow> unit fw" where
  "fw_trap_vector junk = fseq (
     [swap_sp, add_sp (- 128)] @
     map save_reg saved_regs @
     [fbind (read_csr CSR_ADDRESS_MSCRATCH) (put_reg 5),
      fbind (get_reg 2) (\<lambda>sp. fbind (get_reg 5) (set_frame_reg sp 2)),
      fbind (get_reg 2) (\<lambda>sp. put_reg 5 (sp + 128)),
      fbind (get_reg 5) (write_csr CSR_ADDRESS_MSCRATCH),
      fbind (get_reg 2) (put_reg REG_A0),
      fbind (get_reg REG_A0) fw_trap_handler,
      clobber_regs junk,
      fbind (get_reg 2) (\<lambda>sp. fbind (frame_reg sp 2) (put_reg 5)),
      fbind (get_reg 5) (write_csr CSR_ADDRESS_MSCRATCH)] @
     map load_reg saved_regs @
     [add_sp 128, swap_sp, on_platform (on_cpu mret_callback)])"

section \<open>The way in and out\<close>

lemma fseq_append: "fseq (fs @ gs) s = fbind (fseq fs) (\<lambda>_. fseq gs) s"
  by (induction fs arbitrary: s) (simp_all add: fret_run fbind_def split: option.split result.split)

lemma fseq_step: "f s = Some (Ret u t) \<Longrightarrow> fseq (f # fs) s = fseq fs t"
  by (simp add: fbind_def)

definition regs_upd :: "(nat \<Rightarrow> u32) \<Rightarrow> u32 \<Rightarrow> firmware \<Rightarrow> firmware" where
  "regs_upd r ms = cpu_upd (\<lambda>h. h\<lparr>registers := r, csr_blob := (csr_blob h)(CSR_ADDRESS_MSCRATCH := ms)\<rparr>)"

lemma services_regs [simp]: "services_ready T (regs_upd r ms s) = services_ready T s"
  by (auto simp: regs_upd_def services_ready_def console_ready_def uart_mapped_def paging_enabled_def clint_mapped_def rom_mapped_def wf_interrupts_def)

lemma regs_upd_sel [simp]:
  "registers (the_cpu (regs_upd r ms s)) = r" "csr_blob (the_cpu (regs_upd r ms s)) = (csr_blob (the_cpu s))(CSR_ADDRESS_MSCRATCH := ms)"
  "bootrom (platform (regs_upd r ms s)) = bootrom (platform s)"
  "regs_upd r ms (regs_upd r' ms' s) = regs_upd r ms s"
  "rom_upd g (regs_upd r ms s) = regs_upd r ms (rom_upd g s)"
  by (simp_all add: regs_upd_def comp_def rom_upd_def cpu_upd_def)

lemma regs_upd_same: "regs_upd (registers (the_cpu s)) (csr_blob (the_cpu s) CSR_ADDRESS_MSCRATCH) s = s"
  by (simp add: regs_upd_def cpu_upd_def)

text \<open>The instructions on a state whose registers and \<^verbatim>\<open>mscratch\<close> are known.\<close>

lemma reg_runs:
  "get_reg i (regs_upd r ms s) = Some (Ret (r i) (regs_upd r ms s))"
  "put_reg i v (regs_upd r ms s) = Some (Ret () (regs_upd (r(i := v)) ms s))"
  "write_csr CSR_ADDRESS_MSCRATCH v (regs_upd r ms s) = Some (Ret () (regs_upd r v s))"
  "read_csr CSR_ADDRESS_MSCRATCH (regs_upd r ms s) = Some (Ret ms (regs_upd r ms s))"
  "swap_sp (regs_upd r ms s) = Some (Ret () (regs_upd (r(2 := ms)) (r 2) s))"
  "add_sp k (regs_upd r ms s) = Some (Ret () (regs_upd (r(2 := r 2 + k)) ms s))"
proof -
  show g: "get_reg i (regs_upd r ms s) = Some (Ret (r i) (regs_upd r ms s))" for i r ms by (simp add: get_reg_def fret_def)
  show p: "put_reg i v (regs_upd r ms s) = Some (Ret () (regs_upd (r(i := v)) ms s))" for i v r ms
    by (simp add: put_reg_def on_hart_def on_platform_def regs_upd_def cpu_upd_def set_reg_def)
  show w: "write_csr CSR_ADDRESS_MSCRATCH v (regs_upd r ms s) = Some (Ret () (regs_upd r v s))" for v r ms
    by (simp add: write_csr_runs regs_upd_def cpu_upd_def set_csr_def)
  show rd: "read_csr CSR_ADDRESS_MSCRATCH (regs_upd r ms s) = Some (Ret ms (regs_upd r ms s))"
    by (simp add: read_csr_runs)
  show "swap_sp (regs_upd r ms s) = Some (Ret () (regs_upd (r(2 := ms)) (r 2) s))"
    by (simp add: swap_sp_def fbind_def g p w rd fret_def)
  show "add_sp k (regs_upd r ms s) = Some (Ret () (regs_upd (r(2 := r 2 + k)) ms s))"
    by (simp add: add_sp_def fbind_def g p)
qed

definition save_frame :: "u32 \<Rightarrow> (nat \<Rightarrow> u32) \<Rightarrow> nat list \<Rightarrow> host_memory \<Rightarrow> host_memory" where
  "save_frame T r is = fold (\<lambda>i. rom_put (slot T i) (r i)) is"

lemma save_frame_size [simp]: "mem_size (save_frame T r is mem) = mem_size mem"
  unfolding save_frame_def by (induction "is" arbitrary: mem) (simp_all add: rom_put_frame(2))

lemma services_save [simp]: "services_ready T s \<Longrightarrow> services_ready T (rom_upd (save_frame T r is) s)"
  by (rule services_ready_upd(1)) simp_all

lemma save_runs:
  "services_ready T s \<Longrightarrow> r 2 = T - 128 \<Longrightarrow> \<forall>i\<in>set is. i < 32 \<Longrightarrow>
     fseq (map save_reg is) (regs_upd r ms s) = Some (Ret () (regs_upd r ms (rom_upd (save_frame T r is) s)))"
proof (induction "is" arbitrary: s)
  case Nil
  then show ?case by (simp add: fret_def save_frame_def rom_upd_def)
next
  case (Cons i "is")
  have f: "set_frame_reg (T - 128) i (r i) (regs_upd r ms s) = Some (Ret () (regs_upd r ms (rom_upd (rom_put (slot T i) (r i)) s)))"
    using frame_access(2) [of T "regs_upd r ms s" i "r i"] Cons.prems by simp
  have "save_reg i (regs_upd r ms s) = Some (Ret () (regs_upd r ms (rom_upd (rom_put (slot T i) (r i)) s)))"
    using f Cons.prems(2) by (simp add: save_reg_def fbind_def reg_runs)
  moreover have "services_ready T (rom_upd (rom_put (slot T i) (r i)) s)" by (rule services_kept(8) [OF Cons.prems(1)])
  ultimately show ?case
    using Cons.IH [of "rom_upd (rom_put (slot T i) (r i)) s"] Cons.prems(2,3) fseq_step [of "save_reg i"]
    by (simp add: save_frame_def comp_def fbind_def)
qed

lemma load_runs:
  "services_ready T s \<Longrightarrow> r 2 = T - 128 \<Longrightarrow> 2 \<notin> set is \<Longrightarrow> \<forall>i\<in>set is. i < 32 \<Longrightarrow>
     fseq (map load_reg is) (regs_upd r ms s) =
     Some (Ret () (regs_upd (\<lambda>i. if i \<in> set is then rom_get (slot T i) (bootrom (platform s)) else r i) ms s))"
proof (induction "is" arbitrary: r)
  case Nil
  then show ?case by (simp add: fret_def)
next
  case (Cons i "is")
  let ?r = "r(i := rom_get (slot T i) (bootrom (platform s)))"
  have "load_reg i (regs_upd r ms s) = Some (Ret () (regs_upd ?r ms s))"
    using frame_access(1) [of T "regs_upd r ms s" i] Cons.prems by (simp add: load_reg_def fbind_def reg_runs)
  then have "fseq (map load_reg (i # is)) (regs_upd r ms s) = fseq (map load_reg is) (regs_upd ?r ms s)" by (simp add: fbind_def)
  also have "\<dots> = Some (Ret () (regs_upd (\<lambda>j. if j \<in> set is then rom_get (slot T j) (bootrom (platform s)) else ?r j) ms s))"
    using Cons.prems by (intro Cons.IH) simp_all
  also have "(\<lambda>j. if j \<in> set is then rom_get (slot T j) (bootrom (platform s)) else ?r j) =
      (\<lambda>j. if j \<in> set (i # is) then rom_get (slot T j) (bootrom (platform s)) else r j)" by auto
  finally show ?case .
qed

text \<open>The state in which the handler starts, and the registers with which the trap returns.\<close>

definition entered :: "u32 \<Rightarrow> firmware \<Rightarrow> firmware" where
  "entered T s = (let r = registers (the_cpu s) in
     regs_upd (r(2 := T - 128, 5 := T, REG_A0 := T - 128)) T (rom_upd (save_frame T r (saved_regs @ [2])) s))"

definition restored :: "u32 \<Rightarrow> firmware \<Rightarrow> nat \<Rightarrow> u32" where
  "restored T t i = (if 0 < i \<and> i < 32 then rom_get (slot T i) (bootrom (platform t)) else registers (the_cpu t) i)"

lemma saved_regs_set: "i \<in> set saved_regs \<longleftrightarrow> 0 < i \<and> i < 32 \<and> i \<noteq> 2"
  unfolding saved_regs_def set_simps set_upt by auto

lemma save_frame_cong: "(\<And>i. i \<in> set is \<Longrightarrow> r i = r' i) \<Longrightarrow> save_frame T r is = save_frame T r' is"
  unfolding save_frame_def by (rule ext, rule fold_cong) simp_all

lemma vector_in:
  assumes s: "services_ready T s" and ms: "csr_blob (the_cpu s) CSR_ADDRESS_MSCRATCH = T"
  shows "fseq ([swap_sp, add_sp (- 128)] @ map save_reg saved_regs @
     [fbind (read_csr CSR_ADDRESS_MSCRATCH) (put_reg 5), fbind (get_reg 2) (\<lambda>sp. fbind (get_reg 5) (set_frame_reg sp 2)),
      fbind (get_reg 2) (\<lambda>sp. put_reg 5 (sp + 128)), fbind (get_reg 5) (write_csr CSR_ADDRESS_MSCRATCH), fbind (get_reg 2) (put_reg REG_A0)]) s =
    Some (Ret () (entered T s))"
proof -
  let ?r = "registers (the_cpu s)"
  let ?r1 = "?r(2 := T - 128)"
  let ?s1 = "rom_upd (save_frame T ?r saved_regs) s"
  have s0: "s = regs_upd ?r T s" using regs_upd_same [of s] ms by simp
  have first: "fseq [swap_sp, add_sp (- 128)] s = Some (Ret () (regs_upd ?r1 (?r 2) s))"
    by (subst s0) (simp add: fbind_def reg_runs fret_def)
  have eq: "save_frame T ?r1 saved_regs = save_frame T ?r saved_regs" by (rule save_frame_cong) (simp add: saved_regs_set)
  have saved: "fseq (map save_reg saved_regs) (regs_upd ?r1 (?r 2) s) = Some (Ret () (regs_upd ?r1 (?r 2) ?s1))"
    using save_runs [OF s, of ?r1 saved_regs "?r 2"] by (simp add: saved_regs_set eq)
  have s1: "services_ready T ?s1" using s by simp
  have put: "set_frame_reg (T - 128) 2 v (regs_upd r m ?s1) = Some (Ret () (regs_upd r m (rom_upd (rom_put (slot T 2) v) ?s1)))" for v r m
    using frame_access(2) [of T "regs_upd r m ?s1" 2 v] s1 by simp
  have last: "fseq [fbind (read_csr CSR_ADDRESS_MSCRATCH) (put_reg 5), fbind (get_reg 2) (\<lambda>sp. fbind (get_reg 5) (set_frame_reg sp 2)),
      fbind (get_reg 2) (\<lambda>sp. put_reg 5 (sp + 128)), fbind (get_reg 5) (write_csr CSR_ADDRESS_MSCRATCH), fbind (get_reg 2) (put_reg REG_A0)]
      (regs_upd ?r1 (?r 2) ?s1) = Some (Ret () (regs_upd (?r1(5 := T, REG_A0 := T - 128)) T (rom_upd (rom_put (slot T 2) (?r 2)) ?s1)))"
    by (simp add: fbind_def reg_runs put fret_def del: upd_commute)
  have "rom_upd (rom_put (slot T 2) (?r 2)) ?s1 = rom_upd (save_frame T ?r (saved_regs @ [2])) s"
    by (simp add: save_frame_def comp_def)
  then show ?thesis
    unfolding fseq_append by (simp only: fbind_def first saved last option.case result.case entered_def Let_def)
qed

lemma vector_out:
  assumes t: "services_ready T t" and sp: "registers (the_cpu t) 2 = T - 128"
  shows "fseq ([clobber_regs junk, fbind (get_reg 2) (\<lambda>sp. fbind (frame_reg sp 2) (put_reg 5)), fbind (get_reg 5) (write_csr CSR_ADDRESS_MSCRATCH)] @
      map load_reg saved_regs @ [add_sp 128, swap_sp]) t = Some (Ret () (regs_upd (restored T t) T t))"
proof -
  let ?r = "registers (the_cpu t)" and ?m = "csr_blob (the_cpu t) CSR_ADDRESS_MSCRATCH" and ?g = "\<lambda>i. rom_get (slot T i) (bootrom (platform t))"
  let ?j = "\<lambda>i. if i \<in> set saved_regs then junk i else ?r i"
  let ?l = "\<lambda>i. if i \<in> set saved_regs then ?g i else (?j(5 := ?g 2)) i"
  have clob: "clobber_regs junk t = Some (Ret () (regs_upd ?j ?m t))"
    by (simp add: clobber_regs_def on_hart_def on_platform_def regs_upd_def cpu_upd_def)
  have sp': "2 \<notin> set saved_regs" by (simp add: saved_regs_set)
  have fr: "frame_reg (T - 128) 2 (regs_upd ?j ?m t) = Some (Ret (?g 2) (regs_upd ?j ?m t))"
    using frame_access(1) [of T "regs_upd ?j ?m t" 2] t by simp
  have first: "fseq [clobber_regs junk, fbind (get_reg 2) (\<lambda>sp. fbind (frame_reg sp 2) (put_reg 5)), fbind (get_reg 5) (write_csr CSR_ADDRESS_MSCRATCH)] t =
      Some (Ret () (regs_upd (?j(5 := ?g 2)) (?g 2) t))"
    by (simp add: fbind_def clob reg_runs sp sp' fr fret_def)
  have loads: "fseq (map load_reg saved_regs) (regs_upd (?j(5 := ?g 2)) (?g 2) t) = Some (Ret () (regs_upd ?l (?g 2) t))"
    using load_runs [OF t, of "?j(5 := ?g 2)" saved_regs "?g 2"] sp sp' by (simp add: saved_regs_set)
  have "?l 2 = T - 128" using sp sp' by simp
  then have last: "fseq [add_sp 128, swap_sp] (regs_upd ?l (?g 2) t) = Some (Ret () (regs_upd (?l(2 := ?g 2)) T t))"
    by (simp add: fbind_def reg_runs fret_def)
  have "?l(2 := ?g 2) = restored T t" by (auto simp: restored_def saved_regs_set)
  then show ?thesis
    unfolding fseq_append by (simp only: fbind_def first loads last option.case result.case)
qed

lemma trap_vector_runs:
  assumes s: "services_ready T s" and ms: "csr_blob (the_cpu s) CSR_ADDRESS_MSCRATCH = T"
    and h: "fw_trap_handler (T - 128) (entered T s) = Some (Ret () t)" and t: "services_ready T t" and sp: "registers (the_cpu t) 2 = T - 128"
  shows "fw_trap_vector junk s = on_platform (on_cpu mret_callback) (regs_upd (restored T t) T t)"
proof -
  have "get_reg REG_A0 (entered T s) = Some (Ret (T - 128) (entered T s))"
    by (simp add: get_reg_def fret_def entered_def Let_def)
  then have mid: "fseq [fbind (get_reg REG_A0) fw_trap_handler] (entered T s) = Some (Ret () t)"
    using h by (simp add: fbind_def fret_def)
  have last: "fseq [on_platform (on_cpu mret_callback)] = on_platform (on_cpu mret_callback)"
    by (rule ext) (simp add: fbind_ret)
  let ?in = "[swap_sp, add_sp (- 128)] @ map save_reg saved_regs @
     [fbind (read_csr CSR_ADDRESS_MSCRATCH) (put_reg 5), fbind (get_reg 2) (\<lambda>sp. fbind (get_reg 5) (set_frame_reg sp 2)),
      fbind (get_reg 2) (\<lambda>sp. put_reg 5 (sp + 128)), fbind (get_reg 5) (write_csr CSR_ADDRESS_MSCRATCH), fbind (get_reg 2) (put_reg REG_A0)]"
  let ?out = "[clobber_regs junk, fbind (get_reg 2) (\<lambda>sp. fbind (frame_reg sp 2) (put_reg 5)), fbind (get_reg 5) (write_csr CSR_ADDRESS_MSCRATCH)] @
      map load_reg saved_regs @ [add_sp 128, swap_sp]"
  have split: "fw_trap_vector junk = fseq (?in @ [fbind (get_reg REG_A0) fw_trap_handler] @ ?out @ [on_platform (on_cpu mret_callback)])"
    unfolding fw_trap_vector_def by (rule arg_cong [of _ _ fseq]) simp
  show ?thesis
    unfolding split fseq_append [of ?in] fseq_append [of "[fbind (get_reg REG_A0) fw_trap_handler]"] fseq_append [of ?out]
    by (simp only: fbind_def vector_in [OF s ms] mid vector_out [OF t sp] last option.case result.case)
qed

section \<open>The frame\<close>

lemma save_frame_get:
  assumes "128 \<le> T" and "i < 32"
  shows "\<forall>j\<in>set is. j < 32 \<Longrightarrow> rom_get (slot T i) (save_frame T r is mem) = (if i \<in> set is then r i else rom_get (slot T i) mem)"
proof (induction "is" rule: rev_induct)
  case (snoc j "is")
  then show ?case using slot_get_put [OF assms, of j] by (simp add: save_frame_def)
qed (simp add: save_frame_def)

definition outside_frame :: "u32 \<Rightarrow> nat \<Rightarrow> bool" where
  "outside_frame T k \<longleftrightarrow> k < unat T - 128 \<or> unat T \<le> k"

lemma slot_put_outside: "128 \<le> T \<Longrightarrow> i < 32 \<Longrightarrow> outside_frame T k \<Longrightarrow> mem_bytes (rom_put (slot T i) v mem) k = mem_bytes mem k"
  using unat_slot [of T i] by (intro rom_put_frame(1)) (auto simp: outside_frame_def word_le_nat_alt)

lemma save_frame_outside:
  "128 \<le> T \<Longrightarrow> \<forall>j\<in>set is. j < 32 \<Longrightarrow> outside_frame T k \<Longrightarrow> mem_bytes (save_frame T r is mem) k = mem_bytes mem k"
  unfolding save_frame_def by (induction "is" arbitrary: mem) (simp_all add: slot_put_outside)

lemma entered_frame:
  assumes "services_ready T s" and "0 < i" and "i < 32"
  shows "rom_get (slot T i) (bootrom (platform (entered T s))) = registers (the_cpu s) i"
proof -
  have "128 \<le> T" using assms(1) by (simp add: services_ready_def)
  then show ?thesis using save_frame_get [of T i "saved_regs @ [2]"] assms(2,3) by (auto simp: entered_def Let_def saved_regs_set)
qed

lemma entered_ready: "services_ready T s \<Longrightarrow> services_ready T (entered T s)"
  by (simp add: entered_def Let_def)

lemma entered_outside:
  "services_ready T s \<Longrightarrow> outside_frame T k \<Longrightarrow> mem_bytes (bootrom (platform (entered T s))) k = mem_bytes (bootrom (platform s)) k"
  by (auto simp: entered_def Let_def services_ready_def saved_regs_set intro!: save_frame_outside)

section \<open>Return from the trap\<close>

definition returns_to :: "hart \<Rightarrow> hart \<Rightarrow> bool" where
  "returns_to h h' \<longleftrightarrow> pc h' = csr_blob h CSR_ADDRESS_MEPC \<and> privilege_level h' = mpp (status h) \<and> registers h' = registers h \<and>
     csr_blob h' = csr_blob h \<and> ipending h' = ipending h \<and> ienable h' = ienable h \<and> idelegation h' = idelegation h \<and> hart_id h' = hart_id h \<and>
     status h' = (status h)\<lparr>mpp := PRIVILEGE_LEVEL_USER, mie := mpie (status h), mpie := True\<rparr>"

lemma mret_returns:
  assumes "privilege_level h = PRIVILEGE_LEVEL_MACHINE" and "mpp (status h) = PRIVILEGE_LEVEL_SUPERVISOR"
  shows "\<exists>h'. mret_callback h = Ret () h' \<and> returns_to h h'"
proof -
  have "\<exists>h'. flush_translation_cache_on_address_space_change h'' tag = h' \<and> pc h' = pc h'' \<and> privilege_level h' = privilege_level h'' \<and>
      registers h' = registers h'' \<and> csr_blob h' = csr_blob h'' \<and> ipending h' = ipending h'' \<and> ienable h' = ienable h'' \<and>
      idelegation h' = idelegation h'' \<and> hart_id h' = hart_id h'' \<and> status h' = status h''" for h'' tag
    by (simp add: flush_translation_cache_on_address_space_change_def flush_translation_cache_def)
  then show ?thesis
    using assms by (simp add: mret_callback_def assert_hart_running_in_mmode_def adjust_mstatus_upon_mret_def adjust_pc_upon_mret_def
        returns_to_def Let_def flush_translation_cache_on_address_space_change_def flush_translation_cache_def)
qed

text \<open>The whole way through the vector, with an arbitrary handler result.\<close>

lemma vector_returns:
  assumes s: "services_ready T s" "csr_blob (the_cpu s) CSR_ADDRESS_MSCRATCH = T"
    and h: "fw_trap_handler (T - 128) (entered T s) = Some (Ret () t)" "services_ready T t" "registers (the_cpu t) 2 = T - 128"
    and mpp: "mpp (status (the_cpu t)) = PRIVILEGE_LEVEL_SUPERVISOR"
  shows "\<exists>h'. fw_trap_vector junk s = Some (Ret () (t\<lparr>platform := (platform t)\<lparr>cpu := h'\<rparr>\<rparr>)) \<and> returns_to (the_cpu (regs_upd (restored T t) T t)) h'"
proof -
  let ?t = "regs_upd (restored T t) T t"
  have "privilege_level (the_cpu ?t) = PRIVILEGE_LEVEL_MACHINE" "mpp (status (the_cpu ?t)) = PRIVILEGE_LEVEL_SUPERVISOR"
    using h(2) mpp by (simp_all add: regs_upd_def services_ready_def)
  from mret_returns [OF this] obtain h' where h': "mret_callback (the_cpu ?t) = Ret () h'" "returns_to (the_cpu ?t) h'" by blast
  have "fw_trap_vector junk s = on_platform (on_cpu mret_callback) ?t" by (rule trap_vector_runs [OF s h])
  also have "\<dots> = Some (Ret () (?t\<lparr>platform := (platform ?t)\<lparr>cpu := h'\<rparr>\<rparr>))" using h'(1) by (simp add: on_platform_def on_cpu_def)
  also have "?t\<lparr>platform := (platform ?t)\<lparr>cpu := h'\<rparr>\<rparr> = t\<lparr>platform := (platform t)\<lparr>cpu := h'\<rparr>\<rparr>" by (simp add: regs_upd_def cpu_upd_def)
  finally show ?thesis using h'(2) by blast
qed

section \<open>Calls\<close>

lemma sbi_spec_entered:
  "sbi_spec ext fn a0 a1 (regs_upd R ms (rom_upd G s)) =
     map_option (\<lambda>(v0, v1, t). (v0, v1, regs_upd R ms (rom_upd G t))) (sbi_spec ext fn a0 a1 s)"
proof -
  let ?F = "\<lambda>s. regs_upd R ms (rom_upd G s)"
  note defs = regs_upd_def cpu_upd_def rom_upd_def clint_upd_def
  have "timer_set d (?F s) = ?F (timer_set d s)" for d by (simp add: timer_set_def defs)
  moreover have "say b (?F s) = ?F (say b s)" for b by (simp add: say_def Let_def defs)
  moreover have "console_input (?F s) = map_prod id ?F (console_input s)"
    by (simp add: console_input_def Let_def defs split: prod.split)
  moreover have "cpu_upd (\<lambda>h. h\<lparr>ipending := unset_bit n (ipending h)\<rparr>) (?F s) = ?F (cpu_upd (\<lambda>h. h\<lparr>ipending := unset_bit n (ipending h)\<rparr>) s)" for n
    by (simp add: defs)
  moreover have "cpu_upd flush_translation_cache (?F s) = ?F (cpu_upd flush_translation_cache s)"
    "cpu_upd sfence_vma_callback (?F s) = ?F (cpu_upd sfence_vma_callback s)"
    by (simp_all add: defs flush_translation_cache_def sfence_vma_callback_def)
  moreover have bell: "ring_doorbell i (?F s) = ?F (ring_doorbell i s)" for i s by (simp add: ring_doorbell_def defs)
  moreover have "fold ring_doorbell is (?F s) = ?F (fold ring_doorbell is s)" for "is"
    by (induction "is" arbitrary: s) (simp_all add: bell)
  moreover have "hart_id (the_cpu (?F s)) = hart_id (the_cpu s)" by (simp add: defs)
  ultimately show ?thesis
    unfolding sbi_spec_def Let_def by (simp add: case_prod_beta)
qed

lemma answer_restored:
  assumes "128 \<le> T" and "\<And>i. 0 < i \<Longrightarrow> i < 32 \<Longrightarrow> rom_get (slot T i) mem = r i" and "0 < i" and "i < 32"
  shows "rom_get (slot T i) (answer T v0 v1 mem) = (r(REG_A0 := v0, REG_A1 := case v1 of None \<Rightarrow> r REG_A1 | Some v \<Rightarrow> v)) i"
  using assms by (cases v1) (simp_all add: answer_def slot_get_put)

lemma answer_outside: "128 \<le> T \<Longrightarrow> outside_frame T k \<Longrightarrow> mem_bytes (answer T v0 v1 mem) k = mem_bytes mem k"
  by (cases v1) (simp_all add: answer_def slot_put_outside)

lemma answer_size: "mem_size (answer T v0 v1 mem) = mem_size mem"
  by (cases v1) (simp_all add: answer_def rom_put_frame(2))

text \<open>
  C8. A supervisor call is answered and nothing else of the caller changes: for every call of the table
  that does not switch the machine off, the whole trap path (saving the registers, dispatching the call,
  restoring them, \<^verbatim>\<open>mret\<close>) returns to the instruction behind the call in supervisor mode, with
  the answer in \<^verbatim>\<open>a0\<close> and, for the calls of the new style, in \<^verbatim>\<open>a1\<close>, every other register as it was, the
  devices, the main memory and the interrupt state as the call table says, the trap stack back in
  \<^verbatim>\<open>mscratch\<close>, and no byte of the ROM changed outside the trap frame.
\<close>

theorem sbi_call_returns:
  assumes s: "services_ready T s" "csr_blob (the_cpu s) CSR_ADDRESS_MSCRATCH = T"
    and cause: "csr_blob (the_cpu s) CSR_ADDRESS_MCAUSE = CAUSE_SUPERVISOR_ECALL" "mpp (status (the_cpu s)) = PRIVILEGE_LEVEL_SUPERVISOR"
    and r: "registers (the_cpu s) = r" and ipi: "ipi_targets_exist (r REG_A7) (r REG_A0) (r REG_A1) s"
    and spec: "sbi_spec (r REG_A7) (r REG_A6) (r REG_A0) (r REG_A1) s = Some (v0, v1, t)"
  shows "\<exists>s'. fw_trap_vector junk s = Some (Ret () s') \<and>
    registers (the_cpu s') = r(REG_A0 := v0, REG_A1 := case v1 of None \<Rightarrow> r REG_A1 | Some v \<Rightarrow> v) \<and>
    pc (the_cpu s') = csr_blob (the_cpu s) CSR_ADDRESS_MEPC + 4 \<and> privilege_level (the_cpu s') = PRIVILEGE_LEVEL_SUPERVISOR \<and>
    csr_blob (the_cpu s') CSR_ADDRESS_MSCRATCH = T \<and> ipending (the_cpu s') = ipending (the_cpu t) \<and> ienable (the_cpu s') = ienable (the_cpu t) \<and>
    clint_dev (platform s') = clint_dev (platform t) \<and> uart_dev (platform s') = uart_dev (platform t) \<and>
    plic_dev (platform s') = plic_dev (platform t) \<and> main_mem (platform s') = main_mem (platform t) \<and>
    (\<forall>k. outside_frame T k \<longrightarrow> mem_bytes (bootrom (platform s')) k = mem_bytes (bootrom (platform s)) k)"
proof -
  let ?F = "\<lambda>x. regs_upd (r(2 := T - 128, 5 := T, REG_A0 := T - 128)) T (rom_upd (save_frame T r (saved_regs @ [2])) x)"
  let ?A = "answer T v0 v1" and ?mepc = "csr_blob (the_cpu s) CSR_ADDRESS_MEPC + 4"
  have T: "128 \<le> T" using s(1) by (simp add: services_ready_def)
  have e: "entered T s = ?F s" by (simp add: entered_def r)
  have csr: "csr_blob (the_cpu (entered T s)) a = (if a = CSR_ADDRESS_MSCRATCH then T else csr_blob (the_cpu s) a)" for a by (simp add: e)
  have spec': "sbi_spec (r REG_A7) (r REG_A6) (r REG_A0) (r REG_A1) (entered T s) = Some (v0, v1, ?F t)"
    unfolding e sbi_spec_entered spec by simp
  have ipi': "ipi_targets_exist (r REG_A7) (r REG_A0) (r REG_A1) (entered T s)"
    using ipi by (simp add: e ipi_targets_exist_def regs_upd_def)
  note kept = sbi_spec_kept [OF s(1) spec]
  let ?t = "cpu_upd (set_csr CSR_ADDRESS_MEPC ?mepc) (rom_upd ?A (?F t))"
  have h: "fw_trap_handler (T - 128) (entered T s) = Some (Ret () ?t)"
    using fw_trap_handler_ecall [OF entered_ready [OF s(1)] _ _ _ _ _ ipi', of "r REG_A6"] entered_frame [OF s(1)] cause(1) spec' by (simp add: csr r del: upd_commute regs_upd_sel(5))
  have A: "services_ready T (rom_upd ?A (?F t))" using kept by (intro services_ready_upd(1)) (simp_all add: answer_size)
  have t: "services_ready T ?t"
    by (rule services_ready_upd(3) [OF A]) (use A in \<open>simp_all add: services_ready_def wf_interrupts_def\<close>)
  have "registers (the_cpu ?t) 2 = T - 128" "mpp (status (the_cpu ?t)) = PRIVILEGE_LEVEL_SUPERVISOR"
    using kept cause(2) by (simp_all add: call_keeps_def) (simp_all add: regs_upd_def)
  from vector_returns [OF s h t this] obtain h' where h': "fw_trap_vector junk s = Some (Ret () (?t\<lparr>platform := (platform ?t)\<lparr>cpu := h'\<rparr>\<rparr>))"
    "returns_to (the_cpu (regs_upd (restored T ?t) T ?t)) h'" by blast
  have rom: "bootrom (platform ?t) = ?A (bootrom (platform (entered T s)))" using kept by (simp add: e call_keeps_def)
  have "restored T ?t = r(REG_A0 := v0, REG_A1 := case v1 of None \<Rightarrow> r REG_A1 | Some v \<Rightarrow> v)"
    using answer_restored [OF T, of "bootrom (platform (entered T s))" r] entered_frame [OF s(1)] rom
    by (auto simp: restored_def r fun_eq_iff)
  moreover have "outside_frame T k \<Longrightarrow> mem_bytes (bootrom (platform ?t)) k = mem_bytes (bootrom (platform s)) k" for k
    unfolding rom using answer_outside [OF T] entered_outside [OF s(1)] by simp
  ultimately show ?thesis
    using h' kept cause(2)
    by (intro exI [of _ "?t\<lparr>platform := (platform ?t)\<lparr>cpu := h'\<rparr>\<rparr>"]) (simp add: returns_to_def call_keeps_def, simp add: regs_upd_def)
qed

text \<open>C8 for a call that sets the timer to the tick 0x100001388.\<close>

theorem sbi_call_returns_witness:
  "\<exists>s'. fw_trap_vector (\<lambda>_. 0xdead) (example_call SBI_EXT_TIME 0 0x1388 1) = Some (Ret () s') \<and>
     registers (the_cpu s') REG_A0 = 0 \<and> registers (the_cpu s') REG_A7 = SBI_EXT_TIME \<and> pc (the_cpu s') = 0x80400004 \<and>
     mtimecmp (clint_dev (platform s')) ! 0 = 0x100001388 \<and> ienable (the_cpu s') = 0x80"
proof -
  let ?s = "example_call SBI_EXT_TIME 0 0x1388 1"
  let ?r = "registers (the_cpu ?s)"
  have "csr_blob (the_cpu ?s) CSR_ADDRESS_MSCRATCH = 0x8000" "csr_blob (the_cpu ?s) CSR_ADDRESS_MCAUSE = CAUSE_SUPERVISOR_ECALL"
    "mpp (status (the_cpu ?s)) = PRIVILEGE_LEVEL_SUPERVISOR" by (simp_all add: example_call_def)
  note call = sbi_call_returns [OF example_services this refl, where ?v0.0 = 0 and ?v1.0 = "Some 0" and t = "timer_set 0x100001388 ?s" and junk = "\<lambda>_. 0xdead"]
  have "ipi_targets_exist (?r REG_A7) (?r REG_A0) (?r REG_A1) ?s" by (simp add: ipi_targets_exist_def example_call_def)
  moreover have "sbi_spec (?r REG_A7) (?r REG_A6) (?r REG_A0) (?r REG_A1) ?s = Some (0, Some 0, timer_set 0x100001388 ?s)"
    by (simp add: sbi_spec_def example_call_def)
  ultimately obtain s' where s': "fw_trap_vector (\<lambda>_. 0xdead) ?s = Some (Ret () s')" "registers (the_cpu s') = ?r(REG_A0 := 0, REG_A1 := 0)"
    "pc (the_cpu s') = csr_blob (the_cpu ?s) CSR_ADDRESS_MEPC + 4" "ienable (the_cpu s') = ienable (the_cpu (timer_set 0x100001388 ?s))"
    "clint_dev (platform s') = clint_dev (platform (timer_set 0x100001388 ?s))"
    using call by auto
  have "set_bit 7 0 = (0x80 :: u32)" by (simp add: set_bit_eq_or)
  then have "ienable (the_cpu (timer_set 0x100001388 ?s)) = 0x80" "mtimecmp (clint_dev (platform (timer_set 0x100001388 ?s))) ! 0 = 0x100001388"
    by (simp_all add: timer_set_def example_call_def example_firmware_def example_machine_def zeroed_hart_def)
  then show ?thesis using s' by (intro exI [of _ s']) (simp add: example_call_def)
qed

section \<open>The timer\<close>

text \<open>A supervisor that runs with the firmware behind it.\<close>

definition supervisor_running :: "u32 \<Rightarrow> firmware \<Rightarrow> bool" where
  "supervisor_running T s \<longleftrightarrow> services_ready T (cpu_upd (\<lambda>h. h\<lparr>privilege_level := PRIVILEGE_LEVEL_MACHINE\<rparr>) s) \<and>
     privilege_level (the_cpu s) = PRIVILEGE_LEVEL_SUPERVISOR \<and> csr_blob (the_cpu s) CSR_ADDRESS_MSCRATCH = T"

definition with_cpu :: "hart \<Rightarrow> firmware \<Rightarrow> firmware" where
  "with_cpu h s = s\<lparr>platform := (platform s)\<lparr>cpu := h\<rparr>\<rparr>"

text \<open>The interrupt that the pump delivers next, after the CLINT has driven its pending bits.\<close>

definition next_interrupt :: "firmware \<Rightarrow> (hart, unit) result" where
  "next_interrupt s = deliver_first (clint_refresh_pending (clint_dev (platform s)) (the_cpu s)) delivery_order"

definition quiet :: "hart \<Rightarrow> nat \<Rightarrow> bool" where
  "quiet h n \<longleftrightarrow> \<not> (bit (ipending h) n \<and> bit (ienable h) n)"

lemma deliverable_bits:
  assumes "privilege_level h = PRIVILEGE_LEVEL_SUPERVISOR" and "v < 12"
  shows "is_interrupt_deliverable h v =
    Some (bit (ipending h) (unat v) \<and> bit (ienable h) (unat v) \<and> (bit (idelegation h) (unat v) \<longrightarrow> sie (status h)))"
  unfolding is_interrupt_deliverable_def interrupt_target_privilege_level_def and_push_bit_1_eq_0 Let_def using assms by auto

lemma refreshed:
  fixes c :: clint_state
  shows "ienable (clint_refresh_pending c h) = ienable h" "idelegation (clint_refresh_pending c h) = idelegation h"
    "status (clint_refresh_pending c h) = status h" "privilege_level (clint_refresh_pending c h) = privilege_level h"
    "registers (clint_refresh_pending c h) = registers h" "pc (clint_refresh_pending c h) = pc h" "csr_blob (clint_refresh_pending c h) = csr_blob h"
    "hart_id (clint_refresh_pending c h) = hart_id h"
    "bit (ipending (clint_refresh_pending c h)) n = (if n = 7 then mtimecmp c ! nat (hart_id h) \<le> mtime c
      else if n = 3 then msip c ! nat (hart_id h) \<noteq> 0 else bit (ipending h) n)"
    "wf_interrupts h \<Longrightarrow> wf_interrupts (clint_refresh_pending c h)"
  by (simp_all add: clint_refresh_pending_def Let_def wf_interrupts_bits) blast

lemma deliver_target:
  "v < 12 \<Longrightarrow> deliver_interrupt h v =
     raise_trap_raw h (if bit (idelegation h) (unat v) then PRIVILEGE_LEVEL_SUPERVISOR else PRIVILEGE_LEVEL_MACHINE) (0x80000000 OR ucast v) 0"
  unfolding deliver_interrupt_def interrupt_target_privilege_level_def and_push_bit_1_eq_0 by simp

lemma quiet_undeliverable:
  "privilege_level h = PRIVILEGE_LEVEL_SUPERVISOR \<Longrightarrow> v < 12 \<Longrightarrow> quiet h (unat v) \<Longrightarrow> is_interrupt_deliverable h v = Some False"
  by (auto simp: deliverable_bits quiet_def)

lemma deliver_machine_timer:
  assumes h: "privilege_level h = PRIVILEGE_LEVEL_SUPERVISOR" "wf_interrupts h" and due: "bit (ipending h) 7" "bit (ienable h) 7" and q: "quiet h 11" "quiet h 3"
  shows "deliver_first h delivery_order =
    Trap (flush_translation_cache_on_address_space_change (setup_mmode_trap h 0x80000007 0) (address_space_tag h))"
proof -
  have d: "\<not> bit (idelegation h) 7" using h(2) by (auto simp: wf_interrupts_bits)
  then have "is_interrupt_deliverable h 7 = Some True" using due by (simp add: deliverable_bits [OF h(1)])
  moreover have "deliver_interrupt h 7 = raise_trap_raw h PRIVILEGE_LEVEL_MACHINE 0x80000007 0" using d by (simp add: deliver_target)
  ultimately show ?thesis
    using quiet_undeliverable [OF h(1), of "0xb"] quiet_undeliverable [OF h(1), of "0x3"] q
    by (simp add: delivery_order_def raise_trap_raw_def Let_def)
qed

lemma deliver_supervisor_timer:
  assumes h: "privilege_level h = PRIVILEGE_LEVEL_SUPERVISOR" "sie (status h)"
    and due: "bit (ipending h) 5" "bit (ienable h) 5" "bit (idelegation h) 5" and q: "quiet h 11" "quiet h 3" "quiet h 7" "quiet h 9" "quiet h 1"
  shows "deliver_first h delivery_order =
    Trap (flush_translation_cache_on_address_space_change (setup_smode_trap h 0x80000005 0) (address_space_tag h))"
proof -
  have "is_interrupt_deliverable h 5 = Some True" using due h(2) by (simp add: deliverable_bits [OF h(1)])
  moreover have "deliver_interrupt h 5 = raise_trap_raw h PRIVILEGE_LEVEL_SUPERVISOR 0x80000005 0" using due(3) by (simp add: deliver_target)
  ultimately show ?thesis
    using quiet_undeliverable [OF h(1), of "0xb"] quiet_undeliverable [OF h(1), of "0x3"] quiet_undeliverable [OF h(1), of "0x7"]
      quiet_undeliverable [OF h(1), of "0x9"] quiet_undeliverable [OF h(1), of "0x1"] q
    by (simp add: delivery_order_def raise_trap_raw_def Let_def)
qed

lemma flushed_sel:
  fixes h :: hart and tag :: u32
  defines "h' \<equiv> flush_translation_cache_on_address_space_change h tag"
  shows "registers h' = registers h" "pc h' = pc h" "hart_id h' = hart_id h" "csr_blob h' = csr_blob h" "idelegation h' = idelegation h"
    "ienable h' = ienable h" "ipending h' = ipending h" "status h' = status h" "privilege_level h' = privilege_level h"
  unfolding h'_def by (simp_all add: flush_translation_cache_on_address_space_change_def flush_translation_cache_def)

text \<open>The hart in the machine trap that the timer raises.\<close>

definition timer_trap :: "firmware \<Rightarrow> hart" where
  "timer_trap s = (let h = clint_refresh_pending (clint_dev (platform s)) (the_cpu s) in
     flush_translation_cache_on_address_space_change (setup_mmode_trap h 0x80000007 0) (address_space_tag h))"

lemma timer_trap_sel:
  "registers (timer_trap s) = registers (the_cpu s)" "hart_id (timer_trap s) = hart_id (the_cpu s)"
  "privilege_level (timer_trap s) = PRIVILEGE_LEVEL_MACHINE" "idelegation (timer_trap s) = idelegation (the_cpu s)"
  "ienable (timer_trap s) = ienable (the_cpu s)" "ipending (timer_trap s) = ipending (clint_refresh_pending (clint_dev (platform s)) (the_cpu s))"
  "csr_blob (timer_trap s) = (csr_blob (the_cpu s))(CSR_ADDRESS_MCAUSE := 0x80000007, CSR_ADDRESS_MTVAL := 0, CSR_ADDRESS_MEPC := pc (the_cpu s))"
  "mpp (status (timer_trap s)) = privilege_level (the_cpu s)" "sie (status (timer_trap s)) = sie (status (the_cpu s))"
  "pc (timer_trap s) = trap_vector (csr_blob (the_cpu s) CSR_ADDRESS_MTVEC) 0x80000007"
  by (simp_all add: timer_trap_def Let_def flushed_sel setup_mmode_trap_def refreshed)

lemma timer_trap_ready:
  assumes "supervisor_running T s"
  shows "services_ready T (with_cpu (timer_trap s) s)"
proof -
  let ?s = "cpu_upd (\<lambda>h. h\<lparr>privilege_level := PRIVILEGE_LEVEL_MACHINE\<rparr>) s"
  have ready: "services_ready T ?s" using assms by (simp add: supervisor_running_def)
  then have "wf_interrupts (the_cpu s)" by (simp add: services_ready_def wf_interrupts_def)
  then have "wf_interrupts (timer_trap s)"
    using refreshed(10) [of "the_cpu s" "clint_dev (platform s)"] by (simp add: wf_interrupts_def timer_trap_sel refreshed)
  then have "services_ready T (cpu_upd (\<lambda>_. timer_trap s) ?s)" by (intro services_ready_upd(3) [OF ready]) (simp_all add: timer_trap_sel)
  then show ?thesis by (simp add: with_cpu_def cpu_upd_def comp_def)
qed

lemma timer_trap_returns:
  assumes run: "supervisor_running T s"
  shows "\<exists>h'. fw_trap_vector junk (with_cpu (timer_trap s) s) = Some (Ret () (with_cpu h' (rom_upd (save_frame T (registers (the_cpu s)) (saved_regs @ [2])) s))) \<and>
    registers h' = registers (the_cpu s) \<and> pc h' = pc (the_cpu s) \<and> privilege_level h' = PRIVILEGE_LEVEL_SUPERVISOR \<and>
    csr_blob h' = csr_blob (timer_trap s) \<and> ienable h' = unset_bit 7 (ienable (the_cpu s)) \<and> ipending h' = set_bit 5 (ipending (timer_trap s)) \<and>
    idelegation h' = idelegation (the_cpu s) \<and> hart_id h' = hart_id (the_cpu s) \<and> sie (status h') = sie (status (the_cpu s))"
proof -
  let ?s = "with_cpu (timer_trap s) s"
  let ?e = "entered T ?s"
  let ?t = "cpu_upd (\<lambda>h. h\<lparr>ienable := unset_bit 7 (ienable h), ipending := set_bit 5 (ipending h)\<rparr>) ?e"
  have ready: "services_ready T ?s" by (rule timer_trap_ready [OF run])
  have S: "privilege_level (the_cpu s) = PRIVILEGE_LEVEL_SUPERVISOR" and ms: "csr_blob (the_cpu ?s) CSR_ADDRESS_MSCRATCH = T"
    using run by (simp_all add: supervisor_running_def with_cpu_def timer_trap_sel)
  have e: "services_ready T ?e" by (rule entered_ready [OF ready])
  have csr: "csr_blob (the_cpu ?e) = csr_blob (timer_trap s)" using ms by (simp add: entered_def Let_def with_cpu_def fun_upd_idem)
  have h: "fw_trap_handler (T - 128) ?e = Some (Ret () ?t)"
    using fw_trap_handler_timer [OF e] csr by (simp add: timer_trap_sel)
  have "wf_interrupts (the_cpu ?t)" using e by (auto simp: services_ready_def wf_interrupts_bits bit_unset_bit_iff bit_set_bit_iff)
  then have t: "services_ready T ?t" using e by (intro services_ready_upd(3) [OF e]) (simp_all add: services_ready_def)
  have "registers (the_cpu ?t) 2 = T - 128" "mpp (status (the_cpu ?t)) = PRIVILEGE_LEVEL_SUPERVISOR"
    using S by (simp_all add: entered_def Let_def) (simp_all add: regs_upd_def with_cpu_def timer_trap_sel)
  from vector_returns [OF ready ms h t this] obtain h' where
    h': "fw_trap_vector junk ?s = Some (Ret () (?t\<lparr>platform := (platform ?t)\<lparr>cpu := h'\<rparr>\<rparr>))" "returns_to (the_cpu (regs_upd (restored T ?t) T ?t)) h'" by blast
  have "?t\<lparr>platform := (platform ?t)\<lparr>cpu := h'\<rparr>\<rparr> = with_cpu h' (rom_upd (save_frame T (registers (the_cpu s)) (saved_regs @ [2])) s)"
    by (simp add: entered_def Let_def regs_upd_def cpu_upd_def rom_upd_def with_cpu_def timer_trap_sel)
  moreover have "restored T ?t = registers (the_cpu s)"
    using entered_frame [OF ready] by (auto simp: restored_def fun_eq_iff with_cpu_def timer_trap_sel entered_def Let_def)
  moreover have "csr_blob (the_cpu (regs_upd r T ?t)) = csr_blob (timer_trap s)" for r
    using csr ms by (simp add: with_cpu_def fun_upd_idem)
  ultimately show ?thesis
    using h' S unfolding returns_to_def
    by (intro exI [of _ h']) (simp, simp add: regs_upd_def entered_def Let_def with_cpu_def timer_trap_sel)
qed

text \<open>
  C9. The timer tick reaches the kernel: when the clock passes the deadline that the kernel has set, the
  next interrupt enters the firmware in machine mode; the firmware's trap path returns to the interrupted
  instruction with all registers as they were, with the machine timer masked (so that it does not fire
  again), and with the supervisor timer pending; and the next interrupt then enters the kernel's own trap
  vector with the cause of a supervisor timer interrupt.
\<close>

theorem timer_tick_reaches_supervisor:
  assumes run: "supervisor_running T s"
    and due: "mtimecmp (clint_dev (platform s)) ! this_hart s \<le> mtime (clint_dev (platform s))" "bit (ienable (the_cpu s)) 7"
    and handled: "bit (ienable (the_cpu s)) 5" "bit (idelegation (the_cpu s)) 5" "sie (status (the_cpu s))"
    and others: "quiet (the_cpu s) 1" "quiet (the_cpu s) 9" "quiet (the_cpu s) 11" "msip (clint_dev (platform s)) ! this_hart s = 0"
  shows "\<exists>s' h. next_interrupt s = Trap (timer_trap s) \<and> privilege_level (timer_trap s) = PRIVILEGE_LEVEL_MACHINE \<and>
    fw_trap_vector junk (with_cpu (timer_trap s) s) = Some (Ret () s') \<and>
    registers (the_cpu s') = registers (the_cpu s) \<and> pc (the_cpu s') = pc (the_cpu s) \<and> \<not> bit (ienable (the_cpu s')) 7 \<and>
    next_interrupt s' = Trap h \<and> csr_blob h CSR_ADDRESS_SCAUSE = 0x80000005 \<and> csr_blob h CSR_ADDRESS_SEPC = pc (the_cpu s) \<and>
    pc h = trap_vector (csr_blob (the_cpu s) CSR_ADDRESS_STVEC) 0x80000005 \<and> privilege_level h = PRIVILEGE_LEVEL_SUPERVISOR"
proof -
  let ?c = "clint_dev (platform s)"
  let ?h = "clint_refresh_pending ?c (the_cpu s)"
  have S: "privilege_level (the_cpu s) = PRIVILEGE_LEVEL_SUPERVISOR" and wf: "wf_interrupts (the_cpu s)"
    using run by (simp_all add: supervisor_running_def services_ready_def wf_interrupts_def)
  have first: "next_interrupt s = Trap (timer_trap s)"
    unfolding next_interrupt_def timer_trap_def Let_def
    by (rule deliver_machine_timer) (use S wf due others in \<open>simp_all add: refreshed quiet_def\<close>)
  obtain h' where h': "fw_trap_vector junk (with_cpu (timer_trap s) s) =
      Some (Ret () (with_cpu h' (rom_upd (save_frame T (registers (the_cpu s)) (saved_regs @ [2])) s)))"
    "registers h' = registers (the_cpu s)" "pc h' = pc (the_cpu s)" "privilege_level h' = PRIVILEGE_LEVEL_SUPERVISOR"
    "csr_blob h' = csr_blob (timer_trap s)" "ienable h' = unset_bit 7 (ienable (the_cpu s))" "ipending h' = set_bit 5 (ipending (timer_trap s))"
    "idelegation h' = idelegation (the_cpu s)" "hart_id h' = hart_id (the_cpu s)" "sie (status h') = sie (status (the_cpu s))"
    using timer_trap_returns [OF run] by blast
  let ?s' = "with_cpu h' (rom_upd (save_frame T (registers (the_cpu s)) (saved_regs @ [2])) s)" and ?h2 = "clint_refresh_pending ?c h'"
  have dev: "clint_dev (platform ?s') = ?c" "the_cpu ?s' = h'" by (simp_all add: with_cpu_def)
  let ?h3 = "flush_translation_cache_on_address_space_change (setup_smode_trap ?h2 0x80000005 0) (address_space_tag ?h2)"
  have "next_interrupt ?s' = Trap ?h3"
    unfolding next_interrupt_def dev
    by (rule deliver_supervisor_timer)
      (use h' handled others in \<open>simp_all add: refreshed quiet_def timer_trap_sel bit_set_bit_iff bit_unset_bit_iff\<close>)
  then show ?thesis
    using first h' by (intro exI [of _ ?s'] exI [of _ ?h3]) (simp add: dev timer_trap_sel flushed_sel setup_smode_trap_def Let_def refreshed bit_unset_bit_iff)
qed

text \<open>C9 for a kernel at 0x80400000 whose deadline is due.\<close>

definition example_tick :: firmware where
  "example_tick = (example_call 0 0 0 0)\<lparr>platform := (platform (example_call 0 0 0 0))\<lparr>
     cpu := zeroed_hart\<lparr>privilege_level := PRIVILEGE_LEVEL_SUPERVISOR, pc := 0x80400000, ienable := 0xa0, idelegation := 0x222,
       csr_blob := (\<lambda>_. 0)(CSR_ADDRESS_MSCRATCH := 0x8000, CSR_ADDRESS_STVEC := 0x80401000), status := (status zeroed_hart)\<lparr>sie := True\<rparr>\<rparr>,
     clint_dev := (clint_dev example_machine)\<lparr>mtime := 100, mtimecmp := 100 # replicate 63 (- 1)\<rparr>\<rparr>\<rparr>"

theorem timer_tick_reaches_supervisor_witness:
  "\<exists>s' h. next_interrupt example_tick = Trap (timer_trap example_tick) \<and>
     fw_trap_vector (\<lambda>_. 0) (with_cpu (timer_trap example_tick) example_tick) = Some (Ret () s') \<and> next_interrupt s' = Trap h \<and> pc h = 0x80401000"
proof -
  have "services_ready 0x8000 (cpu_upd (\<lambda>h. h\<lparr>privilege_level := PRIVILEGE_LEVEL_MACHINE\<rparr>) example_tick)"
    using example_services [of 0 0 0 0]
    by (simp add: services_ready_def console_ready_def uart_mapped_def paging_enabled_def clint_mapped_def rom_mapped_def example_tick_def
        wf_interrupts_def zeroed_hart_def wf_clint_def MAX_NR_HARTS_def)
      (simp add: example_machine_def)
  then have "supervisor_running 0x8000 example_tick" by (simp add: supervisor_running_def example_tick_def)
  moreover have "bit (0xa0 :: u32) 7" "bit (0xa0 :: u32) 5" "bit (0x222 :: u32) 5" by simp_all
  ultimately show ?thesis
    using timer_tick_reaches_supervisor [of "0x8000" example_tick "\<lambda>_. 0"]
    by (auto simp: example_tick_def quiet_def zeroed_hart_def example_machine_def trap_vector_def)
qed

end
