(* ===== verification/Sha1.thy ===== *)
theory Sha1
  imports Prelude
begin

text \<open>
  The SHA-1 implementation of the firmware (\<^verbatim>\<open>bootrom/sha1.c\<close>, \<^verbatim>\<open>bootrom/sha1.h\<close>) with which it prints the
  checksum of the device tree: the unrolled rounds over a circular buffer of 16 words, the streaming
  interface with its partial block, and the padding. The reference is the hash function of FIPS 180,
  with its message schedule of 80 words, on the padded message.
\<close>

section \<open>The block transform\<close>

definition rol :: "u32 \<Rightarrow> nat \<Rightarrow> u32" where
  "rol value bits = push_bit bits value OR drop_bit (32 - bits) value"

text \<open>The words of a block of 64 bytes on a little-endian hart.\<close>

definition block_words :: "u8 list \<Rightarrow> u32 list" where
  "block_words buffer = map (\<lambda>i. ucast (buffer ! (4 * i)) OR push_bit 8 (ucast (buffer ! (4 * i + 1))) OR
     push_bit 16 (ucast (buffer ! (4 * i + 2))) OR push_bit 24 (ucast (buffer ! (4 * i + 3)))) [0..<16]"

definition blk0 :: "nat \<Rightarrow> u32 list \<Rightarrow> u32" where
  "blk0 i l = (rol (l ! i) 24 AND 0xFF00FF00) OR (rol (l ! i) 8 AND 0x00FF00FF)"

definition blk :: "nat \<Rightarrow> u32 list \<Rightarrow> u32" where
  "blk i l = rol (l ! ((i + 13) mod 16) XOR l ! ((i + 8) mod 16) XOR l ! ((i + 2) mod 16) XOR l ! (i mod 16)) 1"

text \<open>
  One of the 80 macro calls \<open>R0\<close> to \<open>R4\<close>. The calls name the five variables rotated by one
  position from call to call; here the tuple rotates instead, so that after 80 calls every variable
  is in its own position again.
\<close>

definition R :: "nat \<Rightarrow> (u32 \<times> u32 \<times> u32 \<times> u32 \<times> u32) \<times> u32 list \<Rightarrow> (u32 \<times> u32 \<times> u32 \<times> u32 \<times> u32) \<times> u32 list" where
  "R i s = (case s of ((v, w, x, y, z), l) \<Rightarrow>
     let word = (if i < 16 then blk0 i l else blk i l);
         f = (if i < 20 then ((w AND (x XOR y)) XOR y)
              else if i < 40 then w XOR x XOR y
              else if i < 60 then (((w OR x) AND y) OR (w AND x))
              else w XOR x XOR y);
         k = (if i < 20 then 0x5A827999 else if i < 40 then 0x6ED9EBA1 else if i < 60 then 0x8F1BBCDC else 0xCA62C1D6)
     in ((z + (f + word + k + rol v 5), v, rol w 30, x, y), l[i mod 16 := word]))"

text \<open>The five words of the state as a tuple.\<close>

type_synonym sha_state = "u32 \<times> u32 \<times> u32 \<times> u32 \<times> u32"

definition add_state :: "sha_state \<Rightarrow> sha_state \<Rightarrow> sha_state" where
  "add_state s t = (case (s, t) of ((a, b, c, d, e), (a', b', c', d', e')) \<Rightarrow> (a + a', b + b', c + c', d + d', e + e'))"

definition SHA1Transform :: "sha_state \<Rightarrow> u8 list \<Rightarrow> sha_state" where
  "SHA1Transform state buffer = add_state state (fst (fold R [0..<80] (state, block_words buffer)))"

section \<open>The streaming interface\<close>

record sha1_ctx =
  sha_words :: sha_state
  count0 :: u32
  count1 :: u32
  sha_buffer :: "u8 list"

text \<open>The buffer is not initialised.\<close>

definition SHA1Init :: "u8 list \<Rightarrow> sha1_ctx" where
  "SHA1Init garbage = \<lparr>sha_words = (0x67452301, 0xEFCDAB89, 0x98BADCFE, 0x10325476, 0xC3D2E1F0), count0 = 0, count1 = 0, sha_buffer = garbage\<rparr>"

definition copy_at :: "nat \<Rightarrow> u8 list \<Rightarrow> u8 list \<Rightarrow> u8 list" where
  "copy_at j data buffer = take j buffer @ data @ drop (j + length data) buffer"

text \<open>The loop over the whole blocks of the data, and the index where it ends.\<close>

function update_blocks :: "sha_state \<Rightarrow> u8 list \<Rightarrow> nat \<Rightarrow> sha_state \<times> nat" where
  "update_blocks st data i =
     (if i + 63 < length data then update_blocks (SHA1Transform st (take 64 (drop i data))) data (i + 64) else (st, i))"
  by pat_completeness auto
termination
  by (relation "measure (\<lambda>(st, data, i). length data - i)") auto

declare update_blocks.simps [simp del]

definition SHA1Update :: "u8 list \<Rightarrow> sha1_ctx \<Rightarrow> sha1_ctx" where
  "SHA1Update data ctx = (
     let len = of_nat (length data) :: u32;
         c0 = count0 ctx + push_bit 3 len;
         c1 = count1 ctx + (if c0 < count0 ctx then 1 else 0) + drop_bit 29 len;
         j = unat (drop_bit 3 (count0 ctx) AND 63) in
     if 63 < j + length data then
       let i = 64 - j;
           buf = copy_at j (take i data) (sha_buffer ctx);
           (st, i') = update_blocks (SHA1Transform (sha_words ctx) buf) data i
       in \<lparr>sha_words = st, count0 = c0, count1 = c1, sha_buffer = copy_at 0 (drop i' data) buf\<rparr>
     else \<lparr>sha_words = sha_words ctx, count0 = c0, count1 = c1, sha_buffer = copy_at j data (sha_buffer ctx)\<rparr>)"

definition finalcount :: "sha1_ctx \<Rightarrow> u8 list" where
  "finalcount ctx = map (\<lambda>i. ucast (drop_bit ((3 - i mod 4) * 8) (if 4 \<le> i then count0 ctx else count1 ctx) AND 255)) [0..<8]"

text \<open>The loop that appends zeros; the number of bytes to come decreases.\<close>

lemma byte_index: "unat (drop_bit 3 w AND 63) = unat w div 8 mod 64" for w :: u32
proof -
  have "(63 :: u32) = mask 6" by (simp add: mask_eq_exp_minus_1)
  then have "drop_bit 3 w AND 63 = take_bit 6 (drop_bit 3 w)" by (simp only: take_bit_eq_mask)
  then show ?thesis by (simp only: unsigned_take_bit_eq unat_drop_bit_eq) (simp add: take_bit_eq_mod drop_bit_eq_div)
qed

lemma byte_index_mod: "(x mod 2 ^ 32) div 8 mod 64 = x div 8 mod (64 :: nat)"
proof -
  have "take_bit 6 (drop_bit 3 (take_bit 32 x)) = take_bit 6 (drop_bit 3 x)" by (rule bit_eqI) (auto simp: bit_simps)
  then show ?thesis by (simp add: take_bit_eq_mod drop_bit_eq_div)
qed

lemma padded_iff: "c0 AND 504 = 448 \<longleftrightarrow> unat c0 div 8 mod 64 = 56" for c0 :: u32
proof -
  have m: "(504 :: u32) = push_bit 3 (mask 6)" "(448 :: u32) = push_bit 3 56" "(63 :: u32) = mask 6" by (simp_all add: mask_eq_exp_minus_1)
  have "c0 AND 504 = push_bit 3 (drop_bit 3 c0 AND 63)"
    unfolding m(1,3) by (rule bit_word_eqI) (auto simp: bit_simps)
  moreover have "push_bit 3 x = push_bit 3 y \<longleftrightarrow> x = y" if "x = take_bit 6 x" "y = take_bit 6 y" for x y :: u32
  proof
    assume "push_bit 3 x = push_bit 3 y"
    then have "drop_bit 3 (push_bit 3 x) = drop_bit 3 (push_bit 3 y)" by simp
    moreover have "drop_bit 3 (push_bit 3 z) = z" if "z = take_bit 6 z" for z :: u32
      by (subst (1 2) that) (auto intro!: bit_word_eqI simp: bit_simps)
    ultimately show "x = y" using that by metis
  qed simp
  moreover have "drop_bit 3 c0 AND 63 = take_bit 6 (drop_bit 3 c0 AND 63)"
    unfolding m(3) by (simp add: take_bit_eq_mask ac_simps)
  moreover have "56 = take_bit 6 (56 :: u32)" by simp
  ultimately have "c0 AND 504 = 448 \<longleftrightarrow> drop_bit 3 c0 AND 63 = 56" unfolding m(2) by metis
  also have "\<dots> \<longleftrightarrow> unat (drop_bit 3 c0 AND 63) = 56" by (simp only: word_unat_eq_iff) simp
  finally show ?thesis by (simp only: byte_index)
qed

lemma count_step:
  assumes "c0 AND 504 \<noteq> (448 :: u32)"
  shows "(120 - unat (c0 + 8) div 8 mod 64) mod 64 < (120 - unat c0 div 8 mod 64) mod (64 :: nat)"
proof -
  have "unat (c0 + 8) div 8 mod 64 = (unat c0 + 8) div 8 mod 64"
    unfolding unat_word_ariths(1) using byte_index_mod [of "unat c0 + 8"] by simp
  also have "(unat c0 + 8) div 8 = Suc (unat c0 div 8)" by simp
  also have "Suc (unat c0 div 8) mod 64 = (if unat c0 div 8 mod 64 = 63 then 0 else Suc (unat c0 div 8 mod 64))" by (simp add: mod_Suc)
  finally have step: "unat (c0 + 8) div 8 mod 64 = (if unat c0 div 8 mod 64 = 63 then 0 else Suc (unat c0 div 8 mod 64))" .
  define k where "k = unat c0 div 8 mod 64"
  have k: "k < 64" "k \<noteq> 56" using assms by (simp_all add: k_def padded_iff)
  have "(120 - k) mod 64 = (if k \<le> 56 then 56 - k else 120 - k)" "k \<noteq> 63 \<Longrightarrow> (120 - Suc k) mod 64 = (if k < 56 then 55 - k else 119 - k)"
    using k by (auto simp: mod_if)
  then show ?thesis unfolding step k_def [symmetric] using k by auto
qed

lemma count0_update: "count0 (SHA1Update data ctx) = count0 ctx + push_bit 3 (of_nat (length data))"
  by (simp add: SHA1Update_def Let_def case_prod_beta)

function final_pad :: "sha1_ctx \<Rightarrow> sha1_ctx" where
  "final_pad ctx = (if count0 ctx AND 504 \<noteq> 448 then final_pad (SHA1Update [0] ctx) else ctx)"
  by pat_completeness auto
termination
proof (relation "measure (\<lambda>ctx. (120 - unat (count0 ctx) div 8 mod 64) mod 64)")
  fix ctx :: sha1_ctx
  assume "count0 ctx AND 504 \<noteq> 448"
  moreover have "count0 (SHA1Update [0] ctx) = count0 ctx + 8" by (simp add: count0_update)
  ultimately show "(SHA1Update [0] ctx, ctx) \<in> measure (\<lambda>ctx. (120 - unat (count0 ctx) div 8 mod 64) mod 64)"
    using count_step by simp
qed simp

declare final_pad.simps [simp del]

definition SHA1Final :: "sha1_ctx \<Rightarrow> u8 list" where
  "SHA1Final ctx = (
     let ctx' = SHA1Update (finalcount ctx) (final_pad (SHA1Update [0x80] ctx));
         (a, b, c, d, e) = sha_words ctx' in
     map (\<lambda>i. ucast (drop_bit ((3 - i mod 4) * 8) ([a, b, c, d, e] ! (i div 4)) AND 255)) [0..<20])"

text \<open>The terminator that the code stores behind the hash is left out.\<close>

definition SHA1 :: "u8 list \<Rightarrow> u8 list \<Rightarrow> u8 list" where
  "SHA1 garbage str = SHA1Final (fold (\<lambda>ch. SHA1Update [ch]) str (SHA1Init garbage))"

section \<open>The reference (FIPS 180)\<close>

definition be_word :: "u8 list \<Rightarrow> nat \<Rightarrow> u32" where
  "be_word block t = push_bit 24 (ucast (block ! (4 * t))) OR push_bit 16 (ucast (block ! (4 * t + 1))) OR
     push_bit 8 (ucast (block ! (4 * t + 2))) OR ucast (block ! (4 * t + 3))"

function schedule :: "u8 list \<Rightarrow> nat \<Rightarrow> u32" where
  "schedule block t = (if t < 16 then be_word block t
     else rol (schedule block (t - 3) XOR schedule block (t - 8) XOR schedule block (t - 14) XOR schedule block (t - 16)) 1)"
  by pat_completeness auto
termination
  by (relation "measure snd") auto

declare schedule.simps [simp del]

definition sha_f :: "nat \<Rightarrow> u32 \<Rightarrow> u32 \<Rightarrow> u32 \<Rightarrow> u32" where
  "sha_f t b c d = (if t < 20 then (b AND c) OR (NOT b AND d)
     else if t < 40 then b XOR c XOR d
     else if t < 60 then (b AND c) OR (b AND d) OR (c AND d)
     else b XOR c XOR d)"

definition sha_k :: "nat \<Rightarrow> u32" where
  "sha_k t = (if t < 20 then 0x5A827999 else if t < 40 then 0x6ED9EBA1 else if t < 60 then 0x8F1BBCDC else 0xCA62C1D6)"

definition sha_round :: "u8 list \<Rightarrow> nat \<Rightarrow> sha_state \<Rightarrow> sha_state" where
  "sha_round block t s = (case s of (a, b, c, d, e) \<Rightarrow> (rol a 5 + sha_f t b c d + e + sha_k t + schedule block t, a, rol b 30, c, d))"

definition compress :: "sha_state \<Rightarrow> u8 list \<Rightarrow> sha_state" where
  "compress s block = add_state s (fold (sha_round block) [0..<80] s)"

text \<open>The whole blocks of a message, and what is left after them.\<close>

function hash_blocks :: "sha_state \<Rightarrow> u8 list \<Rightarrow> sha_state" where
  "hash_blocks s xs = (if length xs < 64 then s else hash_blocks (compress s (take 64 xs)) (drop 64 xs))"
  by pat_completeness auto
termination
  by (relation "measure (length \<circ> snd)") auto

declare hash_blocks.simps [simp del]

definition be_bytes :: "nat \<Rightarrow> nat \<Rightarrow> u8 list" where
  "be_bytes n v = map (\<lambda>i. of_nat (v div 256 ^ (n - 1 - i))) [0..<n]"

definition sha_padding :: "nat \<Rightarrow> u8 list" where
  "sha_padding n = 0x80 # replicate ((119 - n mod 64) mod 64) 0 @ be_bytes 8 (8 * n)"

definition sha1_initial :: sha_state where
  "sha1_initial = (0x67452301, 0xEFCDAB89, 0x98BADCFE, 0x10325476, 0xC3D2E1F0)"

definition sha1_reference :: "u8 list \<Rightarrow> u8 list" where
  "sha1_reference msg = (case hash_blocks sha1_initial (msg @ sha_padding (length msg)) of
     (a, b, c, d, e) \<Rightarrow> concat (map (\<lambda>w. be_bytes 4 (unat w)) [a, b, c, d, e]))"

section \<open>The transform computes the compression function\<close>

lemma round_functions:
  "((w AND (x XOR y)) XOR y) = (w AND x) OR (NOT w AND y)"
  "(((w OR x) AND y) OR (w AND x)) = (w AND x) OR (w AND y) OR (x AND y)" for w x y :: u32
  by (rule bit_word_eqI; auto simp: bit_simps)+

lemma bit_rol: "0 < k \<Longrightarrow> k < 32 \<Longrightarrow> n < 32 \<Longrightarrow> bit (rol w k) n \<longleftrightarrow> bit w (if n < k then n + (32 - k) else n - k)"
  by (auto simp: rol_def bit_or_iff bit_push_bit_iff bit_drop_bit_eq add.commute)

definition pack :: "u8 \<Rightarrow> u8 \<Rightarrow> u8 \<Rightarrow> u8 \<Rightarrow> u32" where
  "pack p q r t = ucast p OR push_bit 8 (ucast q) OR push_bit 16 (ucast r) OR push_bit 24 (ucast t)"

lemma bit_pack:
  "bit (pack p q r t) n \<longleftrightarrow> (if n < 8 then bit p n else if n < 16 then bit q (n - 8) else if n < 24 then bit r (n - 16) else n < 32 \<and> bit t (n - 24))"
  by (auto simp: pack_def bit_or_iff bit_push_bit_iff bit_unsigned_iff)

lemma swap_bytes: "(rol (pack p q r t) 24 AND 0xFF00FF00) OR (rol (pack p q r t) 8 AND 0x00FF00FF) = pack t r q p"
proof (rule bit_word_eqI)
  fix n :: nat
  assume "n < LENGTH(32)"
  then have n: "n < 32" by simp
  have m: "(0xFF00FF00 :: u32) = pack 0 0xff 0 0xff" "(0x00FF00FF :: u32) = pack 0xff 0 0xff 0" by (simp_all add: pack_def)
  have ff: "bit (0xff :: u8) k \<longleftrightarrow> k < 8" for k
  proof -
    have "(0xff :: u8) = mask 8" by (simp add: mask_eq_exp_minus_1)
    then show ?thesis by (simp only: bit_mask_iff) simp
  qed
  consider "n < 8" | "8 \<le> n" "n < 16" | "16 \<le> n" "n < 24" | "24 \<le> n" by linarith
  then show "bit ((rol (pack p q r t) 24 AND 0xFF00FF00) OR (rol (pack p q r t) 8 AND 0x00FF00FF)) n = bit (pack t r q p) n"
    unfolding m by cases (use n in \<open>auto simp: bit_or_iff bit_and_iff bit_rol bit_pack ff simp del: bit_numeral_word_iff\<close>)
qed

lemma blk0_word:
  assumes "i < 16" and "l ! i = block_words b ! i"
  shows "blk0 i l = be_word b i"
proof -
  have "l ! i = pack (b ! (4 * i)) (b ! (4 * i + 1)) (b ! (4 * i + 2)) (b ! (4 * i + 3))"
    using assms by (simp add: block_words_def pack_def)
  then show ?thesis by (simp only: blk0_def swap_bytes) (simp add: pack_def be_word_def or.commute or.left_commute or.assoc)
qed

text \<open>Before round \<open>i\<close> the circular buffer holds the last 16 words of the schedule, and the raw words that are still to come.\<close>

definition window :: "u8 list \<Rightarrow> nat \<Rightarrow> u32 list \<Rightarrow> bool" where
  "window b i l \<longleftrightarrow> length l = 16 \<and> (\<forall>t<i. i \<le> t + 16 \<longrightarrow> l ! (t mod 16) = schedule b t) \<and>
     (\<forall>k<16. i \<le> k \<longrightarrow> l ! k = block_words b ! k)"

lemma window_word:
  assumes "window b i l"
  shows "(if i < 16 then blk0 i l else blk i l) = schedule b i"
proof (cases "i < 16")
  case True
  then show ?thesis using assms blk0_word [of i l b] by (simp add: window_def schedule.simps [of b i])
next
  case False
  have w: "l ! (t mod 16) = schedule b t" if "t < i" "i \<le> t + 16" for t using assms that by (simp add: window_def)
  have "i + 13 = i - 3 + 16" "i + 8 = i - 8 + 16" "i + 2 = i - 14 + 16" "i = i - 16 + 16" using False by simp_all
  then have "(i + 13) mod 16 = (i - 3) mod 16" "(i + 8) mod 16 = (i - 8) mod 16" "(i + 2) mod 16 = (i - 14) mod 16" "i mod 16 = (i - 16) mod 16"
    by (metis mod_add_self2)+
  note mods = this
  have "blk i l = rol (schedule b (i - 3) XOR schedule b (i - 8) XOR schedule b (i - 14) XOR schedule b (i - 16)) 1"
    unfolding blk_def mods using False by (simp add: w)
  then show ?thesis using False by (simp add: schedule.simps [of b i])
qed

lemma window_step: "window b i l \<Longrightarrow> window b (Suc i) (l[i mod 16 := schedule b i])"
proof -
  assume w: "window b i l"
  have "i mod 16 \<noteq> t mod 16" if "t < i" "Suc i \<le> t + 16" for t
  proof
    assume "i mod 16 = t mod 16"
    then have "16 dvd i - t" using that(1) by (simp add: mod_eq_dvd_iff_nat)
    then show False using that by (auto dest: dvd_imp_le)
  qed
  then show ?thesis using w by (auto simp: window_def less_Suc_eq nth_list_update)
qed

lemma R_round:
  assumes "window b i l"
  shows "R i (s, l) = (sha_round b i s, l[i mod 16 := schedule b i])"
proof -
  obtain v w x y z where s: "s = (v, w, x, y, z)" by (cases s)
  show ?thesis
    unfolding R_def s prod.case Let_def window_word [OF assms] sha_round_def
    by (simp add: sha_f_def sha_k_def round_functions add_ac)
qed

lemma rounds: "window b i l \<Longrightarrow> \<exists>l'. fold R [i..<i + n] (s, l) = (fold (sha_round b) [i..<i + n] s, l')"
proof (induction n arbitrary: i l s)
  case (Suc n)
  have "[i..<i + Suc n] = i # [Suc i..<Suc i + n]" by (simp add: upt_conv_Cons)
  then show ?case using Suc.IH [OF window_step [OF Suc.prems]] by (simp add: R_round [OF Suc.prems])
qed simp

lemma transform_compress: "SHA1Transform s b = compress s b"
proof -
  have "window b 0 (block_words b)" by (simp add: window_def block_words_def)
  from rounds [OF this, of 80 s] show ?thesis by (auto simp: SHA1Transform_def compress_def)
qed

section \<open>Streaming\<close>

definition rest :: "u8 list \<Rightarrow> u8 list" where
  "rest xs = drop (64 * (length xs div 64)) xs"

lemma length_rest [simp]: "length (rest xs) = length xs mod 64"
  by (simp add: rest_def minus_mult_div_eq_mod)

lemma rest_short: "length xs < 64 \<Longrightarrow> rest xs = xs"
  by (simp add: rest_def)

lemma rest_long: "64 \<le> length xs \<Longrightarrow> rest xs = rest (drop 64 xs)"
proof -
  assume "64 \<le> length xs"
  then have "length xs div 64 = Suc ((length xs - 64) div 64)" by (simp add: le_div_geq)
  then show ?thesis by (simp add: rest_def add.commute)
qed

lemma hash_blocks_append:
  "hash_blocks s (xs @ ys) = hash_blocks (hash_blocks s xs) (rest xs @ ys) \<and> rest (xs @ ys) = rest (rest xs @ ys)"
proof (induction s xs rule: hash_blocks.induct)
  case (1 s xs)
  show ?case
  proof (cases "length xs < 64")
    case True
    then show ?thesis by (simp add: rest_short hash_blocks.simps [of s xs])
  next
    case False
    have "hash_blocks s (xs @ ys) = hash_blocks (compress s (take 64 xs)) (drop 64 xs @ ys)" "rest (xs @ ys) = rest (drop 64 xs @ ys)"
      using False rest_long [of "xs @ ys"] by (simp_all add: hash_blocks.simps [of s "xs @ ys"])
    then show ?thesis using 1 False rest_long [of xs] by (simp add: hash_blocks.simps [of s xs])
  qed
qed

lemma update_blocks_run:
  "i \<le> length data \<Longrightarrow> fst (update_blocks st data i) = hash_blocks st (drop i data) \<and> drop (snd (update_blocks st data i)) data = rest (drop i data)"
proof (induction st data i rule: update_blocks.induct)
  case (1 st data i)
  show ?case
  proof (cases "i + 63 < length data")
    case True
    then have "update_blocks st data i = update_blocks (compress st (take 64 (drop i data))) data (i + 64)"
      by (simp add: update_blocks.simps [of st data i] transform_compress)
    moreover have "\<not> length (drop i data) < 64" using True by simp
    ultimately show ?thesis using 1 True rest_long [of "drop i data"]
      by (simp add: transform_compress hash_blocks.simps [of st "drop i data"] add.commute)
  next
    case False
    then have "length (drop i data) < 64" by simp
    with False show ?thesis by (simp add: update_blocks.simps [of st data i] hash_blocks.simps [of st "drop i data"] rest_short)
  qed
qed

definition ctx_for :: "u8 list \<Rightarrow> sha1_ctx \<Rightarrow> bool" where
  "ctx_for msg ctx \<longleftrightarrow> sha_words ctx = hash_blocks sha1_initial msg \<and> unat (count1 ctx) * 2 ^ 32 + unat (count0 ctx) = 8 * length msg \<and>
     length (sha_buffer ctx) = 64 \<and> take (length msg mod 64) (sha_buffer ctx) = rest msg"

lemma add_with_carry:
  fixes c0 c1 len :: u32
  assumes "unat c1 * 2 ^ 32 + unat c0 + 8 * unat len < 2 ^ 64"
  defines "c \<equiv> c0 + push_bit 3 len"
  shows "unat (c1 + (if c < c0 then 1 else 0) + drop_bit 29 len) * 2 ^ 32 + unat c = unat c1 * 2 ^ 32 + unat c0 + 8 * unat len"
proof -
  have len: "unat len < 2 ^ 32" and c0: "unat c0 < 2 ^ 32" using unsigned_less [of len] unsigned_less [of c0] by simp_all
  have p: "unat (push_bit 3 len) = 8 * unat len mod 2 ^ 32" by (simp add: push_bit_eq_mult unat_word_ariths mult.commute)
  have d: "unat (drop_bit 29 len) = 8 * unat len div 2 ^ 32" by (simp add: unat_drop_bit_eq) (simp add: drop_bit_eq_div)
  define x where "x = 8 * unat len"
  have c: "unat c = (unat c0 + x mod 2 ^ 32) mod 2 ^ 32" unfolding c_def x_def p [symmetric] by (simp add: unat_word_ariths)
  have carry: "(if c < c0 then 1 else 0) = (of_nat ((unat c0 + x mod 2 ^ 32) div 2 ^ 32) :: u32)"
  proof (cases "unat c0 + x mod 2 ^ 32 < 2 ^ 32")
    case True
    then show ?thesis by (simp add: word_less_nat_alt c)
  next
    case False
    define y where "y = unat c0 + x mod 2 ^ 32 - 2 ^ 32"
    have y: "unat c0 + x mod 2 ^ 32 = y + 2 ^ 32" "y < 2 ^ 32" "y < unat c0" using False c0 mod_less_divisor [of "2 ^ 32" x] by (simp_all add: y_def)
    then have "unat c = y" unfolding c by simp
    moreover have "(y + 2 ^ 32) div 2 ^ 32 = 1" using y(2) by (subst div_add_self2) simp_all
    ultimately show ?thesis using y(1,3) by (simp only: word_less_nat_alt) simp
  qed
  let ?n = "unat c1 + (unat c0 + x mod 2 ^ 32) div 2 ^ 32 + x div 2 ^ 32"
  have sum: "?n * 2 ^ 32 + unat c = unat c1 * 2 ^ 32 + unat c0 + x"
  proof -
    have "(unat c0 + x mod 2 ^ 32) div 2 ^ 32 * 2 ^ 32 + (unat c0 + x mod 2 ^ 32) mod 2 ^ 32 = unat c0 + x mod 2 ^ 32"
      and "x div 2 ^ 32 * 2 ^ 32 + x mod 2 ^ 32 = x" by (rule div_mult_mod_eq)+
    then show ?thesis unfolding c by algebra
  qed
  then have "?n * 2 ^ 32 < 2 ^ 64" using assms(1) unfolding x_def [symmetric] by linarith
  then have small: "?n < 2 ^ 32" by simp
  have "drop_bit 29 len = of_nat (unat (drop_bit 29 len))" by simp
  then have "drop_bit 29 len = of_nat (x div 2 ^ 32)" unfolding d x_def .
  then have "c1 + (if c < c0 then 1 else 0) + drop_bit 29 len = of_nat ?n" unfolding carry by simp
  moreover have "unat (of_nat ?n :: u32) = ?n" using small by (simp only: unat_of_nat) simp
  ultimately have "unat (c1 + (if c < c0 then 1 else 0) + drop_bit 29 len) = ?n" by (simp only:)
  then show ?thesis using sum by (simp only: x_def)
qed

lemma update_ctx:
  assumes ctx: "ctx_for msg ctx" and len: "length (msg @ data) < 2 ^ 61" "length data < 2 ^ 32"
  shows "ctx_for (msg @ data) (SHA1Update data ctx)"
proof -
  let ?len = "of_nat (length data) :: u32" and ?j = "length msg mod 64" and ?total = "rest msg @ data"
  have inv: "sha_words ctx = hash_blocks sha1_initial msg" "unat (count1 ctx) * 2 ^ 32 + unat (count0 ctx) = 8 * length msg"
    "length (sha_buffer ctx) = 64" "take ?j (sha_buffer ctx) = rest msg" using ctx by (simp_all add: ctx_for_def)
  have ul: "unat ?len = length data" using len(2) by (simp add: unsigned_of_nat take_bit_nat_eq_self)
  define c0 c1 where "c0 = count0 ctx + push_bit 3 ?len" and "c1 = count1 ctx + (if c0 < count0 ctx then 1 else 0) + drop_bit 29 ?len"
  have counts: "unat c1 * 2 ^ 32 + unat c0 = 8 * length (msg @ data)"
    using add_with_carry [of "count1 ctx" "count0 ctx" ?len] len(1) unfolding ul inv(2) c0_def c1_def by simp
  have "8 * length msg mod 2 ^ 32 = unat (count0 ctx) mod 2 ^ 32" unfolding inv(2) [symmetric] by (simp only: mod_mult_self3)
  then have "unat (count0 ctx) div 8 mod 64 = ?j"
    using byte_index_mod [of "unat (count0 ctx)"] byte_index_mod [of "8 * length msg"] by simp
  then have j: "unat (drop_bit 3 (count0 ctx) AND 63) = ?j" by (simp only: byte_index)
  note app = hash_blocks_append [of sha1_initial msg data]
  show ?thesis
  proof (cases "63 < ?j + length data")
    case True
    let ?i = "64 - ?j"
    let ?buf = "copy_at ?j (take ?i data) (sha_buffer ctx)"
    have i: "?i \<le> length data" using True by linarith
    have buf: "?buf = take 64 ?total" "length ?buf = 64"
      using i inv(3,4) by (simp_all add: copy_at_def)
    have long: "\<not> length ?total < 64" "drop 64 ?total = drop ?i data" using True by simp_all
    define buf where "buf = ?buf"
    define u where "u = update_blocks (SHA1Transform (sha_words ctx) buf) data ?i"
    have u: "fst u = hash_blocks sha1_initial (msg @ data)" "drop (snd u) data = rest (msg @ data)"
      using update_blocks_run [OF i, of "SHA1Transform (sha_words ctx) buf", folded u_def] app long buf(1) [folded buf_def] rest_long [of ?total]
      by (simp_all add: transform_compress inv(1) hash_blocks.simps [of _ ?total])
    have "SHA1Update data ctx = \<lparr>sha_words = fst u, count0 = c0, count1 = c1, sha_buffer = copy_at 0 (drop (snd u) data) buf\<rparr>"
      unfolding SHA1Update_def Let_def j c0_def c1_def u_def buf_def using True by (simp add: case_prod_beta)
    moreover have "length buf = 64" "length (rest (msg @ data)) \<le> 64" using buf(2) by (simp_all add: buf_def)
    ultimately show ?thesis using counts by (simp add: ctx_for_def copy_at_def u)
  next
    case False
    have short: "length ?total < 64" using False by simp
    have "SHA1Update data ctx = \<lparr>sha_words = sha_words ctx, count0 = c0, count1 = c1, sha_buffer = copy_at ?j data (sha_buffer ctx)\<rparr>"
      unfolding SHA1Update_def Let_def j c0_def c1_def using False by simp
    moreover have "rest (msg @ data) = ?total" "hash_blocks sha1_initial (msg @ data) = sha_words ctx"
      using app short inv(1) by (simp_all add: rest_short hash_blocks.simps [of _ ?total])
    moreover have "length (msg @ data) mod 64 = length ?total" using calculation(2) by (metis length_rest)
    ultimately show ?thesis using counts inv(3,4) False by (simp add: ctx_for_def copy_at_def)
  qed
qed

lemma updates_ctx:
  "ctx_for msg ctx \<Longrightarrow> length (msg @ str) < 2 ^ 61 \<Longrightarrow> ctx_for (msg @ str) (fold (\<lambda>ch. SHA1Update [ch]) str ctx)"
proof (induction str arbitrary: msg ctx)
  case (Cons ch str)
  have "ctx_for (msg @ [ch]) (SHA1Update [ch] ctx)" using Cons.prems by (intro update_ctx) simp_all
  from Cons.IH [OF this] show ?case using Cons.prems by simp
qed simp

section \<open>Padding\<close>

lemma padded_ctx: "ctx_for msg ctx \<Longrightarrow> count0 ctx AND 504 = 448 \<longleftrightarrow> length msg mod 64 = 56"
proof -
  assume ctx: "ctx_for msg ctx"
  have "8 * length msg mod 2 ^ 32 = unat (count0 ctx) mod 2 ^ 32"
    using ctx unfolding ctx_for_def by (metis mod_mult_self3)
  then show ?thesis
    using byte_index_mod [of "unat (count0 ctx)"] byte_index_mod [of "8 * length msg"] by (simp add: padded_iff)
qed

lemma zeros_left: "(120 - k) mod 64 = (if k \<le> 56 then 56 - k else 120 - k)" if "k < 64" for k :: nat
  using that by (auto simp: mod_if)

lemma final_pad_ctx:
  "ctx_for msg ctx \<Longrightarrow> length msg + n < 2 ^ 61 \<Longrightarrow> n = (120 - length msg mod 64) mod 64 \<Longrightarrow> ctx_for (msg @ replicate n 0) (final_pad ctx)"
proof (induction n arbitrary: msg ctx)
  case 0
  then have "length msg mod 64 = 56" using zeros_left [of "length msg mod 64"] by (simp split: if_splits)
  then show ?case using 0 padded_ctx [OF 0(1)] by (simp add: final_pad.simps [of ctx])
next
  case (Suc n)
  have k: "length msg mod 64 \<noteq> 56" "length msg mod 64 < 64" using Suc.prems(3) by auto
  then have "final_pad ctx = final_pad (SHA1Update [0] ctx)" using padded_ctx [OF Suc.prems(1)] by (simp add: final_pad.simps [of ctx])
  moreover have "ctx_for (msg @ [0]) (SHA1Update [0] ctx)" using Suc.prems by (intro update_ctx) simp_all
  moreover have "n = (120 - length (msg @ [0]) mod 64) mod 64"
  proof -
    define k where "k = length msg mod 64"
    have k: "k < 64" "k \<noteq> 56" "Suc n = (if k \<le> 56 then 56 - k else 120 - k)" using k Suc.prems(3) zeros_left [OF k(2)] by (simp_all add: k_def)
    have eq: "length (msg @ [0]) mod 64 = (if k = 63 then 0 else Suc k)" by (simp add: k_def mod_Suc)
    consider "k = 63" | "k < 56" | "56 < k" "k < 63" using k by linarith
    then show ?thesis unfolding eq by cases (use k zeros_left [of "Suc k"] in \<open>simp_all\<close>)
  qed
  ultimately show ?case using Suc.IH [of "msg @ [0]" "SHA1Update [0] ctx"] Suc.prems(2) by (simp add: replicate_app_Cons_same)
qed

section \<open>The digest\<close>

lemma be_bytes_word: "map (\<lambda>i. ucast (drop_bit ((3 - i) * 8) w AND 255)) [0..<4] = be_bytes 4 (unat w)" for w :: u32
proof -
  have "ucast (drop_bit (8 * k) w AND 255) = (of_nat (unat w div 256 ^ k) :: u8)" for k
  proof -
    have "drop_bit (8 * k) w AND 255 = take_bit 8 (drop_bit (8 * k) w)" by (simp add: take_bit_eq_mask mask_eq_exp_minus_1)
    moreover have "ucast (take_bit 8 v) = (of_nat (unat v) :: u8)" for v :: u32 by (simp add: unsigned_take_bit_eq take_bit_word_eq_self)
    moreover have "unat (drop_bit (8 * k) w) = unat w div 256 ^ k" by (simp add: unat_drop_bit_eq) (simp add: drop_bit_eq_div power_mult)
    ultimately show ?thesis by (simp only:)
  qed
  then show ?thesis unfolding be_bytes_def by (simp add: mult.commute)
qed

lemma finalcount_bytes:
  assumes "ctx_for msg ctx" and "length msg < 2 ^ 61"
  shows "finalcount ctx = be_bytes 8 (8 * length msg)"
proof -
  let ?c0 = "unat (count0 ctx)" and ?c1 = "unat (count1 ctx)"
  have n: "8 * length msg = ?c1 * 2 ^ 32 + ?c0" using assms(1) by (simp add: ctx_for_def)
  have c0: "?c0 < 2 ^ 32" using unsigned_less [of "count0 ctx"] by simp
  have hi: "(?c1 * 2 ^ 32 + ?c0) div 256 ^ (4 + k) = ?c1 div 256 ^ k" for k
  proof -
    have "(256 :: nat) ^ (4 + k) = 2 ^ 32 * 256 ^ k" by (simp add: power_add)
    then have "(?c1 * 2 ^ 32 + ?c0) div 256 ^ (4 + k) = (?c1 * 2 ^ 32 + ?c0) div 2 ^ 32 div 256 ^ k" by (simp only: div_mult2_eq)
    also have "(?c1 * 2 ^ 32 + ?c0) div 2 ^ 32 = ?c1" using c0 by simp
    finally show ?thesis .
  qed
  have lo: "(of_nat ((?c1 * 2 ^ 32 + ?c0) div 256 ^ k) :: u8) = of_nat (?c0 div 256 ^ k)" if "k < 4" for k
  proof -
    have "256 ^ k * (256 * 256 ^ (3 - k)) = (256 :: nat) ^ (k + Suc (3 - k))" by (simp only: power_add power_Suc)
    also have "k + Suc (3 - k) = 4" using that by simp
    finally have "(2 :: nat) ^ 32 = 256 ^ k * (256 * 256 ^ (3 - k))" by simp
    then have "?c1 * 2 ^ 32 + ?c0 = ?c0 + 256 ^ k * (256 * (256 ^ (3 - k) * ?c1))" by (simp only: mult_ac add.commute)
    then have "(?c1 * 2 ^ 32 + ?c0) div 256 ^ k = 256 * (256 ^ (3 - k) * ?c1) + ?c0 div 256 ^ k" by (simp only:) simp
    moreover have "(of_nat (256 * x + y) :: u8) = of_nat y" for x y
      by (subst word_unat_eq_iff) (simp only: unat_of_nat, simp)
    ultimately show ?thesis by (simp only:)
  qed
  have "finalcount ctx = map (\<lambda>i. ucast (drop_bit ((3 - i) * 8) (count1 ctx) AND 255)) [0..<4] @ map (\<lambda>i. ucast (drop_bit ((3 - i) * 8) (count0 ctx) AND 255)) [0..<4]"
    by (simp add: finalcount_def upt_rec)
  also have "\<dots> = be_bytes 4 ?c1 @ be_bytes 4 ?c0" by (simp only: be_bytes_word)
  also have "\<dots> = be_bytes 8 (8 * length msg)"
    unfolding n be_bytes_def using hi [of 0] hi [of 1] hi [of 2] hi [of 3] lo [of 0] lo [of 1] lo [of 2] lo [of 3] by (simp add: upt_rec)
  finally show ?thesis .
qed

lemma sha1_final:
  assumes ctx: "ctx_for msg ctx" and len: "length msg + 73 < 2 ^ 61"
  shows "SHA1Final ctx = sha1_reference msg"
proof -
  let ?m1 = "msg @ [0x80]" and ?n = "(119 - length msg mod 64) mod 64"
  have c1: "ctx_for ?m1 (SHA1Update [0x80] ctx)" using len by (intro update_ctx [OF ctx]) simp_all
  have "?n = (120 - length ?m1 mod 64) mod 64"
  proof (cases "length msg mod 64 = 63")
    case True
    then show ?thesis by (simp add: mod_Suc)
  next
    case False
    then show ?thesis by (simp add: mod_Suc)
  qed
  moreover have "?n < 64" by simp
  ultimately have c2: "ctx_for (?m1 @ replicate ?n 0) (final_pad (SHA1Update [0x80] ctx))"
    using len by (intro final_pad_ctx [OF c1]) simp_all
  have f: "finalcount ctx = be_bytes 8 (8 * length msg)" "length (be_bytes 8 (8 * length msg)) = 8"
    using finalcount_bytes [OF ctx] len by (simp_all add: be_bytes_def)
  let ?ctx = "SHA1Update (finalcount ctx) (final_pad (SHA1Update [0x80] ctx))"
  have "ctx_for ((?m1 @ replicate ?n 0) @ finalcount ctx) ?ctx"
    using len f \<open>?n < 64\<close> by (intro update_ctx [OF c2]) simp_all
  then have w: "sha_words ?ctx = hash_blocks sha1_initial (msg @ sha_padding (length msg))"
    by (simp add: ctx_for_def sha_padding_def f(1))
  obtain a b c d e where words: "sha_words ?ctx = (a, b, c, d, e)" by (cases "sha_words ?ctx")
  have "SHA1Final ctx = concat (map (\<lambda>w. map (\<lambda>i. ucast (drop_bit ((3 - i) * 8) w AND 255)) [0..<4]) [a, b, c, d, e])"
    unfolding SHA1Final_def Let_def words prod.case by (simp add: upt_rec)
  also have "\<dots> = sha1_reference msg" unfolding be_bytes_word sha1_reference_def w [symmetric] words prod.case ..
  finally show ?thesis .
qed

lemma sha1_digest:
  assumes "length garbage = 64" and "length str < 2 ^ 31"
  shows "SHA1 garbage str = sha1_reference str"
proof -
  have "ctx_for [] (SHA1Init garbage)"
    using assms(1) by (simp add: ctx_for_def SHA1Init_def hash_blocks.simps [of _ "[]"] sha1_initial_def rest_def)
  then have "ctx_for ([] @ str) (fold (\<lambda>ch. SHA1Update [ch]) str (SHA1Init garbage))" using assms(2) by (intro updates_ctx) simp_all
  then show ?thesis unfolding SHA1_def using assms(2) by (intro sha1_final) simp_all
qed

section \<open>Properties\<close>

text \<open>
  C12. The firmware's SHA-1 is SHA-1: for every message shorter than 2 to the 31 bytes, whatever the
  context's buffer holds at first, feeding the message byte by byte and finishing gives the digest that
  FIPS 180 defines for the padded message; the loops of the implementation terminate.
\<close>

theorem sha1_correct:
  assumes "length garbage = 64" and "length str < 2 ^ 31"
  shows "SHA1 garbage str = sha1_reference str"
  using sha1_digest [OF assms] .

text \<open>C12 on the message \<open>abc\<close>, which fits in one block.\<close>

theorem sha1_correct_witness:
  "SHA1 (replicate 64 7) [0x61, 0x62, 0x63] = sha1_reference [0x61, 0x62, 0x63] \<and>
   sha_padding (length [0x61 :: u8, 0x62, 0x63]) = 0x80 # replicate 52 0 @ [0, 0, 0, 0, 0, 0, 0, 24]"
  using sha1_correct [of "replicate 64 7" "[0x61, 0x62, 0x63]"] by (simp add: sha_padding_def be_bytes_def upt_rec)

end
