(* ===== verification/Boot_Firmware.thy ===== *)
theory Boot_Firmware
  imports Trap_Vector Sha1
begin

text \<open>
  The machine mode firmware from the reset vector to the kernel: \<open>rom_entry\<close> and \<open>enter_supervisor\<close>
  (\<^verbatim>\<open>bootrom/entry.S\<close>), \<open>fw_main\<close> (\<^verbatim>\<open>bootrom/init.c\<close>) and \<open>validate_dtb\<close> (\<^verbatim>\<open>bootrom/fdt.c\<close>). The
  addresses that the linker fixes are a parameter. The last theorem composes this with the set-up of the
  machine by the emulator.
\<close>

section \<open>Device tree (fdt.c)\<close>

abbreviation lf :: string where "lf \<equiv> [CHR 0x0A]"

primrec load_bytes :: "u32 \<Rightarrow> nat \<Rightarrow> u8 list fw" where
  "load_bytes a 0 = fret []"
| "load_bytes a (Suc n) = fbind (on_platform (mmu_read8 a)) (\<lambda>b. fbind (load_bytes (a + 1) n) (\<lambda>bs. fret (b # bs)))"

definition hex_result :: "u8 list \<Rightarrow> string" where
  "hex_result result = concat (map (\<lambda>b. [''0123456789abcdef'' ! unat (drop_bit 4 b AND 0xf), ''0123456789abcdef'' ! unat (b AND 0xf)]) result)"

abbreviation ANSI_COLOR_RED :: string where "ANSI_COLOR_RED \<equiv> CHR 0x1B # ''[31m''"
abbreviation ANSI_COLOR_RESET :: string where "ANSI_COLOR_RESET \<equiv> CHR 0x1B # ''[0m''"

text \<open>\<open>garbage\<close> is the uninitialised buffer of the hash context.\<close>

definition validate_dtb :: "u8 list \<Rightarrow> u32 \<Rightarrow> unit fw" where
  "validate_dtb garbage dtb_address = fbind (fw_load32 dtb_address) (\<lambda>magic.
     if magic = BIG_ENDIAN32 FDT_MAGIC then
       fbind (fw_load32 (dtb_address + 4)) (\<lambda>totalsize.
         fseq [printk (''device tree detected at 0x%x'' @ lf) [Arg_word dtb_address],
               printk (''device tree blob size: %d bytes'' @ lf) [Arg_word (LITTLE_ENDIAN32 totalsize)],
               fbind (load_bytes dtb_address (unat (LITTLE_ENDIAN32 totalsize))) (\<lambda>dtb.
                 printk (''device tree blob sha1 checksum: %s'' @ lf) [Arg_string (hex_result (SHA1 garbage dtb))])])
     else printk (ANSI_COLOR_RED @ ''device tree not detected'' @ lf @ ANSI_COLOR_RESET) [])"

section \<open>Initialisation (init.c)\<close>

text \<open>
  The set bits are the causes 0 to 8 without the supervisor call, 12, 13 and 15.
\<close>

definition MEDELEG_TO_SUPERVISOR :: u32 where
  "MEDELEG_TO_SUPERVISOR = push_bit 0 1 OR push_bit 1 1 OR push_bit 2 1 OR push_bit 3 1 OR push_bit 4 1 OR push_bit 5 1 OR
     push_bit 6 1 OR push_bit 7 1 OR push_bit 8 1 OR push_bit 12 1 OR push_bit 13 1 OR push_bit 15 1"

definition MIDELEG_TO_SUPERVISOR :: u32 where
  "MIDELEG_TO_SUPERVISOR = MIP_SSIP OR MIP_STIP OR MIP_SEIP"

definition boot_info :: u32 where
  "boot_info = 0x3000"

text \<open>The fields of \<^verbatim>\<open>struct zelda_boot_info\<close> by their index.\<close>

definition info_word :: "nat \<Rightarrow> u32 fw" where
  "info_word k = fw_load32 (boot_info + 4 * of_nat k)"

definition banner :: "unit fw" where
  "banner = fseq
     [printk crlf [],
      printk (''zelda machine mode firmware'' @ crlf) [],
      fbind (info_word 7) (\<lambda>nr. printk (''  platform    : rv32ima, %d hart(s)'' @ crlf) [Arg_word nr]),
      fbind (info_word 5) (\<lambda>start. fbind (info_word 6) (\<lambda>sz.
        printk (''  memory      : 0x%x + %d MiB'' @ crlf) [Arg_word start, Arg_word (drop_bit 20 sz)])),
      fbind (info_word 2) (\<lambda>dtb. printk (''  device tree : 0x%x'' @ crlf) [Arg_word dtb]),
      fbind (info_word 1) (\<lambda>entry. printk (''  kernel      : 0x%x'' @ crlf) [Arg_word entry]),
      fbind (info_word 3) (\<lambda>start. fbind (info_word 4) (\<lambda>fin.
        if start < fin then printk (''  initrd      : 0x%x - 0x%x'' @ crlf) [Arg_word start, Arg_word fin] else fret ())),
      printk (''  sbi         : v0.3, extensions base/time/ipi/rfence/srst'' @ crlf) [],
      printk crlf []]"

text \<open>What the linker fixes (\<^verbatim>\<open>bootrom/linker.ld\<close>).\<close>

record fw_layout =
  fw_stack_top :: u32
  bss_start :: u32
  bss_end :: u32
  fw_trap_vector_address :: u32

definition enter_supervisor :: "fw_layout \<Rightarrow> u32 \<Rightarrow> u32 \<Rightarrow> u32 \<Rightarrow> unit fw" where
  "enter_supervisor L hartid dtb entry = fseq
     [put_reg 10 hartid, put_reg 11 dtb, put_reg 12 entry,
      fbind (get_reg 12) (write_csr CSR_ADDRESS_MEPC),
      put_reg 5 (fw_stack_top L),
      fbind (read_csr CSR_MHARTID) (put_reg 6),
      fbind (get_reg 6) (\<lambda>t1. put_reg 6 (push_bit 13 t1)),
      fbind (get_reg 5) (\<lambda>t0. fbind (get_reg 6) (\<lambda>t1. put_reg 5 (t0 - t1))),
      fbind (get_reg 5) (write_csr CSR_ADDRESS_MSCRATCH),
      on_platform (on_cpu mret_callback)]"

text \<open>
  Return to supervisor mode: the mode in \<open>MPP\<close>, and \<open>MPIE\<close> set. \<open>junk\<close> is what the compiled code leaves in the
  registers, on which nothing depends.
\<close>

definition supervisor_mstatus :: "u32 \<Rightarrow> u32" where
  "supervisor_mstatus mstatus = ((mstatus AND NOT (push_bit 11 3)) OR push_bit 11 1) OR push_bit 7 1"

definition fw_main :: "(nat \<Rightarrow> u32) \<Rightarrow> u8 list \<Rightarrow> fw_layout \<Rightarrow> unit fw" where
  "fw_main junk garbage L = fseq
     [uart16550_init,
      fbind (info_word 0) (\<lambda>magic.
        if magic \<noteq> ZELDA_BOOT_INFO_MAGIC then
          fseq [printk (''[firmware] no boot info at 0x%x, cannot continue'' @ crlf) [Arg_word boot_info], spin]
        else fret ()),
      banner,
      fbind (info_word 2) (validate_dtb garbage),
      sbi_init (fw_trap_vector_address L),
      write_csr CSR_ADDRESS_MEDELEG MEDELEG_TO_SUPERVISOR,
      write_csr CSR_ADDRESS_MIDELEG MIDELEG_TO_SUPERVISOR,
      fbind (read_csr CSR_ADDRESS_MSTATUS) (\<lambda>mstatus. write_csr CSR_ADDRESS_MSTATUS (supervisor_mstatus mstatus)),
      fbind (info_word 1) (\<lambda>entry. printk (''[firmware] entering supervisor at 0x%x'' @ crlf @ crlf) [Arg_word entry]),
      clobber_regs junk,
      fbind (read_csr CSR_MHARTID) (\<lambda>hartid. fbind (info_word 2) (\<lambda>dtb. fbind (info_word 1) (\<lambda>entry.
        enter_supervisor L hartid dtb entry)))]"

section \<open>Reset vector (entry.S)\<close>

text \<open>The loop that clears the uninitialised data, which includes the two variables of the console driver.\<close>

partial_function (option) clear_bss :: "firmware \<Rightarrow> (firmware, unit) result option" where
  "clear_bss s = (let t0 = registers (the_cpu s) 5; t1 = registers (the_cpu s) 6 in
     if t1 \<le> t0 then Some (Ret () s)
     else case mmu_write32 t0 0 (platform s) of
       Ret _ m \<Rightarrow> clear_bss (s\<lparr>platform := m\<lparr>cpu := set_reg 5 (t0 + 4) (cpu m)\<rparr>\<rparr>)
     | Trap m \<Rightarrow> Some (Trap (s\<lparr>platform := m\<rparr>))
     | Stop e \<Rightarrow> Some (Stop e))"

text \<open>
  \<open>fw_main\<close> ends with the \<^verbatim>\<open>mret\<close> of \<open>enter_supervisor\<close>: the state it returns is the one in which the kernel
  runs, and the instructions behind the call are not reached.
\<close>

definition rom_entry :: "(nat \<Rightarrow> u32) \<Rightarrow> u8 list \<Rightarrow> fw_layout \<Rightarrow> unit fw" where
  "rom_entry junk garbage L = fseq
     [fbind (read_csr CSR_MHARTID) (put_reg 10),
      put_reg 5 (fw_stack_top L),
      fbind (get_reg 10) (\<lambda>a0. put_reg 6 (push_bit 13 a0)),
      fbind (get_reg 5) (\<lambda>t0. fbind (get_reg 6) (\<lambda>t1. put_reg 2 (t0 - t1))),
      put_reg 5 (bss_start L),
      put_reg 6 (bss_end L),
      clear_bss,
      \<lambda>s. fret () (s\<lparr>uart16550 := 0, uart16550_reg_shift := 0\<rparr>),
      fw_main junk garbage L]"

section \<open>The firmware at work\<close>

definition booting :: "nat \<Rightarrow> firmware \<Rightarrow> bool" where
  "booting n s \<longleftrightarrow> console_ready s \<and> privilege_level (the_cpu s) = PRIVILEGE_LEVEL_MACHINE \<and> rom_mapped (platform s) n"

lemma booting_say [simp]: "booting n (say b s) = booting n s"
  by (simp add: booting_def rom_mapped_def)

lemma booting_cpu:
  "booting n s \<Longrightarrow> privilege_level (f (the_cpu s)) = PRIVILEGE_LEVEL_MACHINE \<Longrightarrow> booting n (cpu_upd f s)"
  by (simp add: booting_def rom_mapped_def console_ready_def uart_mapped_def paging_enabled_def)

lemma booting_unpaged: "booting n s \<Longrightarrow> \<not> paging_enabled (the_cpu s) \<and> wf_regions (regions (platform s))"
  by (simp add: booting_def console_ready_def uart_mapped_def)

lemma boot_load:
  assumes "booting n s" and "unat a + 4 \<le> n"
  shows "fw_load32 a s = Some (Ret (rom_get a (bootrom (platform s))) s)"
proof -
  have "rom_mapped (platform s) n" using assms(1) by (simp add: booting_def)
  from rom_access(2) [OF _ _ this assms(2), OF booting_unpaged [OF assms(1), THEN conjunct1] booting_unpaged [OF assms(1), THEN conjunct2]]
  show ?thesis by (simp add: fw_load32_def on_platform_def)
qed

lemma rom_read8:
  assumes m: "\<not> paging_enabled (cpu m)" "wf_regions (regions m)" "rom_mapped m n" and a: "unat a < n"
  shows "mmu_read8 a m = Ret (mem_bytes (bootrom m) (unat a)) m"
proof -
  obtain pmr where pmr: "pmr \<in> set (regions m)" "pmr_device pmr = Bootrom" "addr_low pmr = 0" "n \<le> unat (addr_high pmr)"
    "unat (addr_high pmr) \<le> mem_size (bootrom m)" using m(3) unfolding rom_mapped_def by blast
  have "in_region pmr a" using pmr(3,4) a by (simp add: in_region_def word_less_nat_alt)
  then have s: "search_pm_region_callback (regions m) (ucast a) = Some (Some pmr)" by (rule search_region [OF m(2) pmr(1)])
  have ua: "unat (ucast a :: u64) = unat a" by (rule unat_ucast_u64)
  have "backed pmr (ucast a) 1 (bootrom m)" using pmr a by (simp add: backed_def ua)
  from backed_offset(3) [OF this] have hi: "\<not> ucast (addr_high pmr) < (ucast a :: u64) + 1" by simp
  have fit: "Suc (unat a) \<le> mem_size (bootrom m)" using a pmr(4,5) by linarith
  have rd: "ucast (take_bit 8 (ucast b OR push_bit 8 0) :: u64) = b" for b :: u8 by (rule bit_word_eqI) (simp add: bit_simps)
  show ?thesis
    using m(1) s pmr(2,3) hi fit rd [of "mem_bytes (bootrom m) (unat a)"]
    by (simp add: mmu_read8_def vmread_def direct_read_def pmr_read_def bootrom_read_def host_load_def ua le_read.simps(2))
qed

lemma rom_mapped_bound: "rom_mapped m n \<Longrightarrow> n < 2 ^ 32"
proof -
  assume "rom_mapped m n"
  then obtain w :: u32 where "n \<le> unat w" unfolding rom_mapped_def by blast
  moreover have "unat w < 2 ^ 32" using unsigned_less [of w] by simp
  ultimately show ?thesis by linarith
qed

lemma load_bytes_runs:
  "booting n s \<Longrightarrow> unat a + k \<le> n \<Longrightarrow>
     load_bytes a k s = Some (Ret (map (mem_bytes (bootrom (platform s))) [unat a..<unat a + k]) s)"
proof (induction k arbitrary: a)
  case 0
  then show ?case by (simp add: fret_def)
next
  case (Suc k)
  have rom: "rom_mapped (platform s) n" using Suc.prems by (simp add: booting_def)
  from rom_read8 [OF _ _ this, OF booting_unpaged [OF Suc.prems(1), THEN conjunct1] booting_unpaged [OF Suc.prems(1), THEN conjunct2]]
  have b: "on_platform (mmu_read8 a) s = Some (Ret (mem_bytes (bootrom (platform s)) (unat a)) s)"
    using Suc.prems(2) by (simp add: on_platform_def)
  have "unat (a + 1) = Suc (unat a)" if "k \<noteq> 0"
    using rom_mapped_bound [OF rom] Suc.prems(2) that by (simp add: unat_word_ariths)
  then have "load_bytes (a + 1) k s = Some (Ret (map (mem_bytes (bootrom (platform s))) [Suc (unat a)..<Suc (unat a) + k]) s)"
    using Suc.IH [of "a + 1"] Suc.prems by (cases k) (simp_all add: fret_def)
  then show ?case using b by (simp add: fbind_def fret_def upt_rec [of "unat a"])
qed

text \<open>What one call of \<^verbatim>\<open>printk\<close> prints.\<close>

definition line :: "string \<Rightarrow> printk_arg list \<Rightarrow> u8 list" where
  "line fmt args = the (render (''BOOTROM: '' @ fmt) args)"

lemma line_says:
  "booting n s \<Longrightarrow> render (''BOOTROM: '' @ fmt) args \<noteq> None \<Longrightarrow> printk fmt args s = Some (Ret () (say (line fmt args) s))"
  unfolding line_def by (intro printk_says) (auto simp: booting_def)

lemma info_word_runs:
  assumes "booting n s" and "0x3020 \<le> n" and "k < 8"
  shows "info_word k s = Some (Ret (rom_get (0x3000 + 4 * of_nat k) (bootrom (platform s))) s)"
proof -
  have "unat (0x3000 + 4 * of_nat k :: u32) = 0x3000 + 4 * k"
    using assms(3) by (simp add: unat_word_ariths unsigned_of_nat take_bit_nat_eq_self)
  then show ?thesis using assms boot_load [OF assms(1), of "0x3000 + 4 * of_nat k"] by (simp add: info_word_def boot_info_def)
qed

text \<open>A statement that only prints.\<close>

definition says :: "unit fw \<Rightarrow> firmware \<Rightarrow> bool" where
  "says f s \<longleftrightarrow> (\<exists>out. f s = Some (Ret () (say out s)))"

lemma fseq_says: "list_all (\<lambda>f. \<forall>out. says f (say out s)) fs \<Longrightarrow> says (fseq fs) s"
proof (induction fs arbitrary: s)
  case Nil
  then show ?case by (auto simp: says_def fret_def intro: exI [of _ "[]"])
next
  case (Cons f fs)
  have "\<forall>out. says f (say out s)" using Cons.prems by simp
  then have "says f (say [] s)" by (rule spec)
  then obtain out where f: "f s = Some (Ret () (say out s))" by (auto simp: says_def)
  have "says (fseq fs) (say out s)" by (rule Cons.IH) (use Cons.prems in \<open>simp add: list_all_iff\<close>)
  then show ?case using f by (auto simp: says_def fbind_def)
qed

lemma says_nothing: "says (fret ()) s"
  by (auto simp: says_def fret_def intro: exI [of _ "[]"])

lemma says_line: "booting n s \<Longrightarrow> render (''BOOTROM: '' @ fmt) args \<noteq> None \<Longrightarrow> says (printk fmt args) s"
  using line_says by (auto simp: says_def)

lemma says_info:
  assumes "booting n s" and "0x3020 \<le> n" and "k < 8" and "\<And>w. says (g w) s"
  shows "says (fbind (info_word k) g) s"
  using assms(4) by (simp add: says_def fbind_def info_word_runs [OF assms(1-3)])

lemma banner_says:
  assumes "booting n s" and "0x3020 \<le> n"
  shows "says banner s"
proof -
  have b: "booting n (say out s)" for out using assms(1) by simp
  note info = says_info [OF b assms(2)] and line = says_line [OF b]
  show ?thesis
    unfolding banner_def
  proof (rule fseq_says, unfold list.pred_inject, intro conjI allI)
    fix out
    show "says (printk crlf []) (say out s)" by (rule line) simp
    show "says (printk (''zelda machine mode firmware'' @ crlf) []) (say out s)" by (rule line) simp
    show "says (fbind (info_word 7) (\<lambda>nr. printk (''  platform    : rv32ima, %d hart(s)'' @ crlf) [Arg_word nr])) (say out s)"
      by (rule info, simp, rule line) simp
    show "says (fbind (info_word 5) (\<lambda>start. fbind (info_word 6) (\<lambda>sz.
        printk (''  memory      : 0x%x + %d MiB'' @ crlf) [Arg_word start, Arg_word (drop_bit 20 sz)]))) (say out s)"
      by (rule info, simp, rule info, simp, rule line) simp
    show "says (fbind (info_word 2) (\<lambda>dtb. printk (''  device tree : 0x%x'' @ crlf) [Arg_word dtb])) (say out s)"
      by (rule info, simp, rule line) simp
    show "says (fbind (info_word 1) (\<lambda>entry. printk (''  kernel      : 0x%x'' @ crlf) [Arg_word entry])) (say out s)"
      by (rule info, simp, rule line) simp
    have "says (if start < fin then printk (''  initrd      : 0x%x - 0x%x'' @ crlf) [Arg_word start, Arg_word fin] else fret ()) (say out s)" for start fin
      by (cases "start < fin"; simp only: if_True if_False says_nothing; rule line) simp
    then show "says (fbind (info_word 3) (\<lambda>start. fbind (info_word 4) (\<lambda>fin.
        if start < fin then printk (''  initrd      : 0x%x - 0x%x'' @ crlf) [Arg_word start, Arg_word fin] else fret ()))) (say out s)"
      by (intro info) simp_all
    show "says (printk (''  sbi         : v0.3, extensions base/time/ipi/rfence/srst'' @ crlf) []) (say out s)" by (rule line) simp
    show "says (printk crlf []) (say out s)" by (rule line) simp
  qed simp
qed

text \<open>The device tree is announced with its checksum.\<close>

definition checksum_line :: "u8 list \<Rightarrow> u8 list" where
  "checksum_line dtb = chars (''BOOTROM: device tree blob sha1 checksum: '' @ hex_result (sha1_reference dtb) @ lf)"

lemma checksum_rendered: "line (''device tree blob sha1 checksum: %s'' @ lf) [Arg_string str] =
    chars (''BOOTROM: device tree blob sha1 checksum: '' @ str @ lf)"
  by (simp add: line_def chars_def)

lemma validate_dtb_says:
  assumes b: "booting n s" and g: "length garbage = 64"
    and magic: "rom_get a (bootrom (platform s)) = BIG_ENDIAN32 FDT_MAGIC" and sz: "unat (LITTLE_ENDIAN32 (rom_get (a + 4) (bootrom (platform s)))) = k"
    and fit: "unat a + k \<le> n" "8 \<le> k" "k < 2 ^ 31"
  shows "\<exists>out. validate_dtb garbage a s =
    Some (Ret () (say (out @ checksum_line (map (mem_bytes (bootrom (platform s))) [unat a..<unat a + k])) s))"
proof -
  let ?w = "LITTLE_ENDIAN32 (rom_get (a + 4) (bootrom (platform s)))" and ?dtb = "map (mem_bytes (bootrom (platform s))) [unat a..<unat a + k]"
  have bo: "booting n (say out s)" for out using b by simp
  have "rom_mapped (platform s) n" using b by (simp add: booting_def)
  from rom_mapped_bound [OF this] have "unat (a + 4) = unat a + 4" using fit by (simp add: unat_word_ariths)
  then have l: "fw_load32 a s = Some (Ret (BIG_ENDIAN32 FDT_MAGIC) s)" "fw_load32 (a + 4) s = Some (Ret (rom_get (a + 4) (bootrom (platform s))) s)"
    using boot_load [OF b, of a] boot_load [OF b, of "a + 4"] fit magic by simp_all
  have p: "printk (''device tree detected at 0x%x'' @ lf) [Arg_word a] s = Some (Ret () (say (line (''device tree detected at 0x%x'' @ lf) [Arg_word a]) s))"
    by (rule line_says [OF b]) simp
  have q: "printk (''device tree blob size: %d bytes'' @ lf) [Arg_word ?w] (say out s) =
      Some (Ret () (say (line (''device tree blob size: %d bytes'' @ lf) [Arg_word ?w]) (say out s)))" for out
    by (rule line_says [OF bo]) simp
  have r: "printk (''device tree blob sha1 checksum: %s'' @ lf) [Arg_string str] (say out s) =
      Some (Ret () (say (line (''device tree blob sha1 checksum: %s'' @ lf) [Arg_string str]) (say out s)))" for str out
    by (rule line_says [OF bo]) simp
  have bytes: "load_bytes a (unat ?w) (say out s) = Some (Ret ?dtb (say out s))" for out
    using load_bytes_runs [OF bo [of out] fit(1)] by (simp add: sz)
  have digest: "SHA1 garbage ?dtb = sha1_reference ?dtb" using g fit(3) by (intro sha1_digest) simp_all
  let ?out = "line (''device tree detected at 0x%x'' @ lf) [Arg_word a] @ line (''device tree blob size: %d bytes'' @ lf) [Arg_word ?w]"
  have "validate_dtb garbage a s = Some (Ret () (say (?out @ checksum_line ?dtb) s))"
    by (simp only: validate_dtb_def fbind_def l option.case result.case if_True refl fseq.simps p q bytes digest r checksum_rendered
        checksum_line_def fret_def say_say append_assoc)
  then show ?thesis by (rule exI)
qed

section \<open>Entering the kernel\<close>

definition supervisor_status :: "status_control_blob \<Rightarrow> status_control_blob" where
  "supervisor_status st = st\<lparr>uie := False, upie := False, mpie := True, mpp := PRIVILEGE_LEVEL_SUPERVISOR\<rparr>"

lemma supervisor_mstatus_bits:
  fixes w :: u32
  defines "v \<equiv> supervisor_mstatus (w AND 0x19aa) AND 0x19aa"
  shows "\<not> bit v 0" "bit v 1 = bit w 1" "bit v 3 = bit w 3" "\<not> bit v 4" "bit v 5 = bit w 5" "bit v 7"
    "drop_bit 8 v AND 1 = drop_bit 8 w AND 1" "drop_bit 11 v AND 3 = 1"
proof -
  have "(3 :: u32) = mask 2" by (simp add: mask_eq_exp_minus_1)
  then have three: "bit (3 :: u32) n \<longleftrightarrow> n = 0 \<or> n = 1" for n unfolding \<open>3 = mask 2\<close> bit_mask_iff by auto
  have v: "bit v n \<longleftrightarrow> (n \<in> {1, 3, 5, 7, 8} \<and> (bit w n \<or> n = 7)) \<or> n = 11" for n
  proof (cases "n < 32")
    case True
    then show ?thesis
      unfolding v_def supervisor_mstatus_def
      by (simp only: bit_and_iff bit_or_iff bit_not_iff bit_push_bit_iff mask_bits three bit_1_iff) auto
  qed (auto simp: bit_word_def dest: bit_imp_le_length)
  show "\<not> bit v 0" "bit v 1 = bit w 1" "bit v 3 = bit w 3" "\<not> bit v 4" "bit v 5 = bit w 5" "bit v 7"
    unfolding v by simp_all
  show "drop_bit 8 v AND 1 = drop_bit 8 w AND 1" "drop_bit 11 v AND 3 = 1"
    by (rule bit_word_eqI; simp only: bit_and_iff bit_drop_bit_eq v bit_1_iff three comp_def; auto)+
qed

lemma supervisor_mstatus_written:
  "fbind (read_csr CSR_ADDRESS_MSTATUS) (\<lambda>mstatus. write_csr CSR_ADDRESS_MSTATUS (supervisor_mstatus mstatus)) s =
     Some (Ret () (cpu_upd (\<lambda>h. h\<lparr>status := supervisor_status (status h)\<rparr>) s))"
proof -
  let ?w = "fst (csr_mstatus_read CSR_ADDRESS_MSTATUS (platform s))"
  let ?v = "supervisor_mstatus (?w AND 0x19aa) AND 0x19aa"
  have w: "bit ?w 1 = sie (status (the_cpu s))" "bit ?w 3 = mie (status (the_cpu s))" "bit ?w 5 = spie (status (the_cpu s))"
    by (simp_all add: bit_mstatus_read Let_def)
  have "ucast (drop_bit 8 ?w AND 1) = spp (status (the_cpu s))"
    by (rule bit_word_eqI) (auto simp: bit_unsigned_iff bit_and_iff bit_drop_bit_eq bit_mstatus_read Let_def bit_1_iff less_Suc_eq)
  moreover have "(ucast (1 :: u32) :: 2 word) = PRIVILEGE_LEVEL_SUPERVISOR" by simp
  ultimately have "csr_mstatus_write CSR_ADDRESS_MSTATUS ?v (platform s) =
      (platform s)\<lparr>cpu := (the_cpu s)\<lparr>status := supervisor_status (status (the_cpu s))\<rparr>\<rparr>"
    by (simp only: csr_mstatus_write_def supervisor_mstatus_bits w supervisor_status_def) simp
  then show ?thesis
    unfolding fbind_def read_csr_runs option.case result.case write_csr_def csr_lookup
    by (simp add: csr_ops mstatus_csr_entry_def on_platform_def cpu_upd_def)
qed

text \<open>The control registers as the firmware leaves them for the kernel.\<close>

definition delegated :: "fw_layout \<Rightarrow> hart \<Rightarrow> hart" where
  "delegated L h = h\<lparr>csr_blob := (csr_blob h)(CSR_ADDRESS_MTVEC := fw_trap_vector_address L AND 0xfffffffd, CSR_ADDRESS_MEDELEG := 0xb1ff),
     ienable := 0x8, ipending := ipending h AND 0x888, idelegation := 0x222, status := supervisor_status (status h)\<rparr>"

lemma delegation_runs:
  "fseq [sbi_init (fw_trap_vector_address L), write_csr CSR_ADDRESS_MEDELEG MEDELEG_TO_SUPERVISOR, write_csr CSR_ADDRESS_MIDELEG MIDELEG_TO_SUPERVISOR,
     fbind (read_csr CSR_ADDRESS_MSTATUS) (\<lambda>mstatus. write_csr CSR_ADDRESS_MSTATUS (supervisor_mstatus mstatus))] s =
   Some (Ret () (cpu_upd (delegated L) s))"
proof -
  have c: "MEDELEG_TO_SUPERVISOR AND 0xfffff7ff = 0xb1ff" "MIDELEG_TO_SUPERVISOR AND 0x222 = 0x222"
    by (simp_all add: MEDELEG_TO_SUPERVISOR_def MIDELEG_TO_SUPERVISOR_def)
  have i: "sbi_init v s = Some (Ret () (cpu_upd (\<lambda>h. h\<lparr>csr_blob := (csr_blob h)(CSR_ADDRESS_MTVEC := v AND 0xfffffffd), ienable := 0x8, ipending := ipending h AND 0x888\<rparr>) s))" for v
    by (simp add: sbi_init_def fbind_def write_csr_runs fret_def comp_def set_csr_def)
  have last: "fseq [f] s = f s" for f s by (simp add: fbind_ret)
  show ?thesis
    by (simp only: fseq_step [of "sbi_init v" for v, OF i] fseq_step [of "write_csr CSR_ADDRESS_MEDELEG v" for v, OF write_csr_runs(4)]
        fseq_step [of "write_csr CSR_ADDRESS_MIDELEG v" for v, OF write_csr_runs(5)] last supervisor_mstatus_written c)
      (simp add: set_csr_def delegated_def cpu_upd_def)
qed

definition handed_over :: "u32 \<Rightarrow> u32 \<Rightarrow> u32 \<Rightarrow> u32 \<Rightarrow> hart \<Rightarrow> hart" where
  "handed_over T hartid dtb entry h = h\<lparr>registers := (registers h)(10 := hartid, 11 := dtb, 12 := entry, 6 := push_bit 13 (word_of_int (hart_id h)), 5 := T),
     csr_blob := (csr_blob h)(CSR_ADDRESS_MEPC := entry, CSR_ADDRESS_MSCRATCH := T)\<rparr>"

definition stack_of :: "fw_layout \<Rightarrow> hart \<Rightarrow> u32" where
  "stack_of L h = fw_stack_top L - push_bit 13 (word_of_int (hart_id h))"

lemma enter_supervisor_runs:
  "enter_supervisor L hartid dtb entry s =
     on_platform (on_cpu mret_callback) (cpu_upd (handed_over (stack_of L (the_cpu s)) hartid dtb entry) s)"
proof -
  have g: "get_reg i s = Some (Ret (registers (the_cpu s) i) s)" for i s by (simp add: get_reg_def fret_def)
  have p: "put_reg i v s = Some (Ret () (cpu_upd (set_reg i v) s))" for i v s
    by (simp add: put_reg_def on_hart_def on_platform_def cpu_upd_def)
  show ?thesis
    unfolding enter_supervisor_def
    by (simp add: fbind_def g p read_csr_runs write_csr_runs comp_def fbind_ret stack_of_def set_csr_def set_reg_def handed_over_def cpu_upd_def)
qed

text \<open>The console driver's initialisation.\<close>

definition uart_ready :: "uart_state \<Rightarrow> uart_state" where
  "uart_ready u = u\<lparr>ier := 0, lcr := 0x03, fcr := 0xC7, dll := 0x03, dlm := 0, rx_head := 0, rx_tail := 0\<rparr>"

definition console_set :: "firmware \<Rightarrow> firmware" where
  "console_set s = s\<lparr>platform := (platform s)\<lparr>uart_dev := uart_ready (uart_dev (platform s))\<rparr>, uart16550 := 0x10000000, uart16550_reg_shift := 0\<rparr>"

lemma uart_init_runs:
  assumes m: "uart_mapped (platform s)" and u: "lcr (uart_dev (platform s)) AND 0x80 = 0"
    and p: "plic_set_pending PLIC_IRQ_UART0 False (plic_dev (platform s)) = Some (plic_dev (platform s))"
  shows "uart16550_init s = Some (Ret () (console_set s))" and "console_ready (console_set s)"
proof -
  have m': "uart_mapped ((platform s)\<lparr>uart_dev := v\<rparr>)" for v using m by (simp add: uart_mapped_def)
  have st: "uart_store reg x (s\<lparr>platform := (platform s)\<lparr>uart_dev := v\<rparr>, uart16550 := 0x10000000, uart16550_reg_shift := 0\<rparr>) =
      Some (Ret () (s\<lparr>platform := (platform s)\<lparr>uart_dev := uart_register_write reg x v\<rparr>, uart16550 := 0x10000000, uart16550_reg_shift := 0\<rparr>))"
    if "reg < 0x100" "ier (uart_register_write reg x v) = 0" for reg x v
  proof -
    have "uart_refresh_interrupt (uart_register_write reg x v) (plic_dev (platform s)) = Some (plic_dev (platform s))"
      using that(2) p by (simp add: uart_refresh_interrupt_def uart_interrupt_pending_def)
    then show ?thesis
      using uart_access(2) [OF m' [of v] that(1), of x] by (simp add: uart_store_def uart_register_def on_platform_def)
  qed
  let ?s = "\<lambda>v. s\<lparr>platform := (platform s)\<lparr>uart_dev := v\<rparr>, uart16550 := 0x10000000, uart16550_reg_shift := 0\<rparr>"
  have s1: "uart_store UART_REG_IER 0 (s\<lparr>uart16550 := 0x10000000, uart16550_reg_shift := 0\<rparr>) = Some (Ret () (?s ((uart_dev (platform s))\<lparr>ier := 0\<rparr>)))"
    using st [of 1 0 "uart_dev (platform s)"] u by (simp add: uart_register_write_def)
  show "uart16550_init s = Some (Ret () (console_set s))"
    unfolding uart16550_init_def fseq.simps fbind_def fret_def option.case result.case
    by (simp add: s1 st uart_register_write_def console_set_def uart_ready_def)
  show "console_ready (console_set s)"
    using m p by (simp add: console_ready_def console_set_def uart_mapped_def uart_ready_def uart_refresh_interrupt_def uart_interrupt_pending_def)
qed

section \<open>Clearing the data\<close>

definition cleared :: "nat \<Rightarrow> nat \<Rightarrow> host_memory \<Rightarrow> host_memory" where
  "cleared a b mem = mem\<lparr>mem_bytes := \<lambda>i. if a \<le> i \<and> i < b then 0 else mem_bytes mem i\<rparr>"

lemma cleared_nothing: "cleared a a mem = mem"
proof -
  have "(\<lambda>i. if a \<le> i \<and> i < a then 0 else mem_bytes mem i) = mem_bytes mem" by (rule ext) auto
  then show ?thesis by (simp add: cleared_def)
qed

lemma cleared_put: "a + 4 \<le> b \<Longrightarrow> unat w = a \<Longrightarrow> cleared (a + 4) b (rom_put w 0 mem) = cleared a b mem"
proof -
  assume a: "a + 4 \<le> b" "unat w = a"
  have "le_write n 0 m a i = (if a \<le> i \<and> i < a + n then 0 else m i)" for n m a i
    by (induction n arbitrary: m a) (auto simp: le_write.simps)
  then show ?thesis using a by (auto simp: cleared_def rom_put_def fun_eq_iff)
qed

lemma rom_mapped_put: "rom_mapped (platform (rom_upd (rom_put a v) s)) n = rom_mapped (platform s) n" "rom_mapped (platform (cpu_upd f s)) n = rom_mapped (platform s) n"
  by (simp_all add: rom_mapped_def rom_put_frame)

lemma clear_bss_runs:
  "privilege_level (the_cpu s) = PRIVILEGE_LEVEL_MACHINE \<Longrightarrow> wf_regions (regions (platform s)) \<Longrightarrow> rom_mapped (platform s) n \<Longrightarrow>
   registers (the_cpu s) 5 = t0 \<Longrightarrow> registers (the_cpu s) 6 = t1 \<Longrightarrow> unat t1 \<le> n \<Longrightarrow> unat t1 = unat t0 + 4 * k \<Longrightarrow>
     clear_bss s = Some (Ret () (rom_upd (cleared (unat t0) (unat t1)) (cpu_upd (set_reg 5 t1) s)))"
proof (induction k arbitrary: t0 s)
  case 0
  then have "t1 = t0" by (simp add: word_unat_eq_iff)
  moreover have "set_reg 5 t0 (the_cpu s) = the_cpu s" using 0 by (auto simp: set_reg_def)
  ultimately show ?case using 0 by (simp add: clear_bss.simps [of s] rom_upd_def cpu_upd_def cleared_nothing)
next
  case (Suc k)
  have lt: "\<not> t1 \<le> t0" using Suc.prems(7) by (simp add: word_le_nat_alt)
  have w: "mmu_write32 t0 0 (platform s) = Ret () ((platform s)\<lparr>bootrom := rom_put t0 0 (bootrom (platform s))\<rparr>)"
    using Suc.prems by (intro rom_access(1) [of _ n]) (simp_all add: paging_enabled_def)
  let ?s = "rom_upd (rom_put t0 0) (cpu_upd (set_reg 5 (t0 + 4)) s)"
  have u: "unat (t0 + 4) = unat t0 + 4" using rom_mapped_bound [OF Suc.prems(3)] Suc.prems(6,7) by (simp add: unat_word_ariths)
  have "clear_bss ?s = Some (Ret () (rom_upd (cleared (unat (t0 + 4)) (unat t1)) (cpu_upd (set_reg 5 t1) ?s)))"
    by (rule Suc.IH) (use Suc.prems in \<open>simp_all add: set_reg_def rom_mapped_put u del: upd_commute\<close>)
  moreover have "rom_upd (cleared (unat t0 + 4) (unat t1)) (cpu_upd (set_reg 5 t1) ?s) = rom_upd (cleared (unat t0) (unat t1)) (cpu_upd (set_reg 5 t1) s)"
    using Suc.prems(7) by (simp add: rom_upd_def cpu_upd_def cleared_put set_reg_def)
  moreover have "s\<lparr>platform := (platform s)\<lparr>bootrom := rom_put t0 0 (bootrom (platform s)), cpu := set_reg 5 (t0 + 4) (the_cpu s)\<rparr>\<rparr> = ?s"
    by (simp add: rom_upd_def cpu_upd_def)
  ultimately show ?case using w lt Suc.prems(4,5) by (simp add: clear_bss.simps [of s] u del: upd_commute)
qed

section \<open>From the reset vector to the kernel\<close>

lemma with_cpu_say: "with_cpu h (say out s) = say out (with_cpu h s)" and with_cpu_upd: "with_cpu h (cpu_upd f s) = with_cpu h s"
  by (simp_all add: with_cpu_def say_def Let_def cpu_upd_def)

text \<open>The three parts of \<open>fw_main\<close>: what it prints, how it delegates, and how it leaves.\<close>

definition fw_greets :: "u8 list \<Rightarrow> unit fw list" where
  "fw_greets garbage =
     [uart16550_init,
      fbind (info_word 0) (\<lambda>magic.
        if magic \<noteq> ZELDA_BOOT_INFO_MAGIC then
          fseq [printk (''[firmware] no boot info at 0x%x, cannot continue'' @ crlf) [Arg_word boot_info], spin]
        else fret ()),
      banner,
      fbind (info_word 2) (validate_dtb garbage)]"

definition fw_delegates :: "fw_layout \<Rightarrow> unit fw list" where
  "fw_delegates L = [sbi_init (fw_trap_vector_address L), write_csr CSR_ADDRESS_MEDELEG MEDELEG_TO_SUPERVISOR,
     write_csr CSR_ADDRESS_MIDELEG MIDELEG_TO_SUPERVISOR,
     fbind (read_csr CSR_ADDRESS_MSTATUS) (\<lambda>mstatus. write_csr CSR_ADDRESS_MSTATUS (supervisor_mstatus mstatus))]"

definition fw_leaves :: "(nat \<Rightarrow> u32) \<Rightarrow> fw_layout \<Rightarrow> unit fw list" where
  "fw_leaves junk L =
     [fbind (info_word 1) (\<lambda>entry. printk (''[firmware] entering supervisor at 0x%x'' @ crlf @ crlf) [Arg_word entry]),
      clobber_regs junk,
      fbind (read_csr CSR_MHARTID) (\<lambda>hartid. fbind (info_word 2) (\<lambda>dtb. fbind (info_word 1) (\<lambda>entry.
        enter_supervisor L hartid dtb entry)))]"

lemma fw_main_parts: "fw_main junk garbage L = fseq (fw_greets garbage @ fw_delegates L @ fw_leaves junk L)"
  unfolding fw_main_def fw_greets_def fw_delegates_def fw_leaves_def append.simps ..

definition clobbered :: "(nat \<Rightarrow> u32) \<Rightarrow> hart \<Rightarrow> hart" where
  "clobbered junk h = h\<lparr>registers := \<lambda>i. if i \<in> set saved_regs then junk i else registers h i\<rparr>"

lemma fw_leaves_runs:
  assumes t: "booting n t" "0x3020 \<le> n" and rom: "bootrom (platform t) = mem" and info: "rom_get 0x3004 mem = entry" "rom_get 0x3008 mem = dtb"
    and mpp: "mpp (status (the_cpu t)) = PRIVILEGE_LEVEL_SUPERVISOR"
  shows "\<exists>out h'. fseq (fw_leaves junk L) t = Some (Ret () (with_cpu h' (say out t))) \<and>
    returns_to (handed_over (stack_of L (the_cpu t)) (word_of_int (hart_id (the_cpu t))) dtb entry (clobbered junk (the_cpu t))) h'"
proof -
  let ?h = "handed_over (stack_of L (the_cpu t)) (word_of_int (hart_id (the_cpu t))) dtb entry (clobbered junk (the_cpu t))"
  let ?line = "line (''[firmware] entering supervisor at 0x%x'' @ crlf @ crlf) [Arg_word entry]"
  let ?u = "cpu_upd (clobbered junk) (say ?line t)"
  have i: "info_word 1 t = Some (Ret entry t)" using info_word_runs [OF t, of 1] rom info by simp
  have p: "printk (''[firmware] entering supervisor at 0x%x'' @ crlf @ crlf) [Arg_word entry] t = Some (Ret () (say ?line t))"
    by (rule line_says [OF t(1)]) simp
  have "privilege_level (the_cpu t) = PRIVILEGE_LEVEL_MACHINE" using t(1) by (simp add: booting_def)
  then have "booting n ?u" using t(1) by (intro booting_cpu) (simp_all add: clobbered_def)
  then have iu: "info_word 1 ?u = Some (Ret entry ?u)" "info_word 2 ?u = Some (Ret dtb ?u)"
    using info_word_runs [of n ?u 1] info_word_runs [of n ?u 2] t(2) rom info by simp_all
  have c: "clobber_regs junk v = Some (Ret () (cpu_upd (clobbered junk) v))" for v
    by (simp add: clobber_regs_def on_hart_def on_platform_def cpu_upd_def clobbered_def)
  have "privilege_level ?h = PRIVILEGE_LEVEL_MACHINE" "mpp (status ?h) = PRIVILEGE_LEVEL_SUPERVISOR"
    using t(1) mpp by (simp_all add: booting_def handed_over_def clobbered_def)
  from mret_returns [OF this] obtain h' where h': "mret_callback ?h = Ret () h'" "returns_to ?h h'" by blast
  have hid: "hart_id (the_cpu ?u) = hart_id (the_cpu t)" "the_cpu ?u = clobbered junk (the_cpu t)" "stack_of L (clobbered junk (the_cpu t)) = stack_of L (the_cpu t)"
    by (simp_all add: clobbered_def stack_of_def)
  have e: "enter_supervisor L (word_of_int (hart_id (the_cpu t))) dtb entry ?u = Some (Ret () (with_cpu h' (say ?line t)))"
    unfolding enter_supervisor_runs on_platform_def on_cpu_def by (simp only: cpu_upd_sel(1) say_sel hid(3) h'(1)) (simp add: with_cpu_def cpu_upd_def)
  have "fseq (fw_leaves junk L) t = Some (Ret () (with_cpu h' (say ?line t)))"
    by (simp only: fw_leaves_def fseq.simps fbind_def i p c read_csr_runs(1) hid(1) iu e option.case result.case fret_def)
  then show ?thesis using h'(2) by blast
qed

lemma fw_greets_runs:
  assumes m: "uart_mapped (platform s)" "lcr (uart_dev (platform s)) AND 0x80 = 0"
      "plic_set_pending PLIC_IRQ_UART0 False (plic_dev (platform s)) = Some (plic_dev (platform s))"
    and b: "booting n (console_set s)" "0x3020 \<le> n" and rom: "bootrom (platform s) = mem"
    and info: "rom_get 0x3000 mem = ZELDA_BOOT_INFO_MAGIC" "rom_get 0x3008 mem = dtb"
    and tree: "rom_get dtb mem = BIG_ENDIAN32 FDT_MAGIC" "unat (LITTLE_ENDIAN32 (rom_get (dtb + 4) mem)) = k" "unat dtb + k \<le> n" "8 \<le> k" "k < 2 ^ 31"
    and g: "length garbage = 64"
  shows "\<exists>out. fseq (fw_greets garbage) s =
    Some (Ret () (say (out @ checksum_line (map (mem_bytes mem) [unat dtb..<unat dtb + k])) (console_set s)))"
proof -
  let ?s = "console_set s"
  have mem: "bootrom (platform ?s) = mem" using rom by (simp add: console_set_def)
  have bo: "booting n (say out ?s)" for out using b(1) by simp
  have i: "info_word 2 (say out ?s) = Some (Ret dtb (say out ?s))" for out using info_word_runs [OF bo b(2), of 2] info(2) mem by simp
  have i0: "info_word 0 ?s = Some (Ret ZELDA_BOOT_INFO_MAGIC ?s)" using info_word_runs [OF b, of 0] info(1) mem by simp
  obtain o1 where o1: "banner ?s = Some (Ret () (say o1 ?s))" using banner_says [OF b] by (auto simp: says_def)
  obtain o2 where "validate_dtb garbage dtb (say o1 ?s) =
      Some (Ret () (say (o2 @ checksum_line (map (mem_bytes mem) [unat dtb..<unat dtb + k])) (say o1 ?s)))"
    using validate_dtb_says [OF bo [of o1] g, of dtb k] tree mem by auto
  then have "fseq (fw_greets garbage) s = Some (Ret () (say ((o1 @ o2) @ checksum_line (map (mem_bytes mem) [unat dtb..<unat dtb + k])) ?s))"
    by (simp only: fw_greets_def fseq.simps fbind_def uart_init_runs(1) [OF m] i0 i o1 option.case result.case fret_def refl simp_thms if_False say_say append_assoc)
  then show ?thesis by (rule exI)
qed

lemma fw_main_enters:
  assumes m: "uart_mapped (platform s)" "lcr (uart_dev (platform s)) AND 0x80 = 0"
      "plic_set_pending PLIC_IRQ_UART0 False (plic_dev (platform s)) = Some (plic_dev (platform s))"
    and h: "privilege_level (the_cpu s) = PRIVILEGE_LEVEL_MACHINE" and rom: "rom_mapped (platform s) n" "0x3020 \<le> n" "bootrom (platform s) = mem"
    and info: "rom_get 0x3000 mem = ZELDA_BOOT_INFO_MAGIC" "rom_get 0x3004 mem = entry" "rom_get 0x3008 mem = dtb"
    and tree: "rom_get dtb mem = BIG_ENDIAN32 FDT_MAGIC" "unat (LITTLE_ENDIAN32 (rom_get (dtb + 4) mem)) = k" "unat dtb + k \<le> n" "8 \<le> k" "k < 2 ^ 31"
    and g: "length garbage = 64"
  shows "\<exists>pre post h'. fw_main junk garbage L s =
      Some (Ret () (with_cpu h' (say (pre @ checksum_line (map (mem_bytes mem) [unat dtb..<unat dtb + k]) @ post) (console_set s)))) \<and>
    returns_to (handed_over (stack_of L (the_cpu s)) (word_of_int (hart_id (the_cpu s))) dtb entry (clobbered junk (delegated L (the_cpu s)))) h'"
proof -
  let ?s = "console_set s" and ?sum = "checksum_line (map (mem_bytes mem) [unat dtb..<unat dtb + k])"
  have cs: "the_cpu ?s = the_cpu s" "bootrom (platform ?s) = mem" "rom_mapped (platform ?s) n"
    using rom by (simp_all add: console_set_def rom_mapped_def)
  have b: "booting n ?s" using uart_init_runs(2) [OF m] h cs by (simp add: booting_def)
  from fw_greets_runs [OF m b rom(2,3) info(1,3) tree g] obtain pre where
    pre: "fseq (fw_greets garbage) s = Some (Ret () (say (pre @ ?sum) ?s))" by blast
  let ?t = "cpu_upd (delegated L) (say (pre @ ?sum) ?s)"
  have "booting n ?t" using b h cs by (intro booting_cpu) (simp_all add: delegated_def)
  then obtain post h' where "fseq (fw_leaves junk L) ?t = Some (Ret () (with_cpu h' (say post ?t)))"
    "returns_to (handed_over (stack_of L (the_cpu ?t)) (word_of_int (hart_id (the_cpu ?t))) dtb entry (clobbered junk (the_cpu ?t))) h'"
    using fw_leaves_runs [of n ?t mem entry dtb junk L] rom(2) info(2,3) cs by (auto simp: delegated_def supervisor_status_def)
  moreover have "fseq (fw_delegates L) (say (pre @ ?sum) ?s) = Some (Ret () ?t)" unfolding fw_delegates_def by (rule delegation_runs)
  moreover have "the_cpu ?t = delegated L (the_cpu s)" "stack_of L (the_cpu ?t) = stack_of L (the_cpu s)" "hart_id (the_cpu ?t) = hart_id (the_cpu s)"
    by (simp_all add: cs stack_of_def delegated_def)
  moreover have "with_cpu h' (say post ?t) = with_cpu h' (say (pre @ ?sum @ post) ?s)" by (simp add: with_cpu_say with_cpu_upd)
  ultimately show ?thesis unfolding fw_main_parts fseq_append fbind_def pre by (auto simp only: option.case result.case)
qed

text \<open>The hart and the memory with which \<open>fw_main\<close> is called.\<close>

definition started :: "fw_layout \<Rightarrow> (nat \<Rightarrow> u32) \<Rightarrow> firmware \<Rightarrow> firmware" where
  "started L r s = (rom_upd (cleared (unat (bss_start L)) (unat (bss_end L))) (cpu_upd (\<lambda>h. h\<lparr>registers := r\<rparr>) s))\<lparr>uart16550 := 0, uart16550_reg_shift := 0\<rparr>"

definition fw_fits :: "fw_layout \<Rightarrow> nat \<Rightarrow> nat \<Rightarrow> bool" where
  "fw_fits L hart n \<longleftrightarrow> 0x4000 \<le> bss_start L \<and> bss_start L \<le> bss_end L \<and> 4 dvd unat (bss_end L) - unat (bss_start L) \<and> unat (bss_end L) \<le> n \<and>
     8192 * hart + 128 \<le> unat (fw_stack_top L) \<and> unat (fw_stack_top L) \<le> n"

lemma fseq_then: "fseq fs s = Some (Ret () t) \<Longrightarrow> fseq (fs @ gs) s = fseq gs t"
  by (simp add: fseq_append fbind_def)

lemma rom_entry_runs:
  assumes s: "privilege_level (the_cpu s) = PRIVILEGE_LEVEL_MACHINE" "wf_regions (regions (platform s))" "rom_mapped (platform s) n" and L: "fw_fits L i n"
  shows "\<exists>r. rom_entry junk garbage L s = fw_main junk garbage L (started L r s)"
proof -
  have g: "get_reg i s = Some (Ret (registers (the_cpu s) i) s)" for i s by (simp add: get_reg_def fret_def)
  have p: "put_reg i v s = Some (Ret () (cpu_upd (set_reg i v) s))" for i v s
    by (simp add: put_reg_def on_hart_def on_platform_def cpu_upd_def)
  let ?r = "(registers (the_cpu s))(10 := word_of_int (hart_id (the_cpu s)), 2 := stack_of L (the_cpu s), 5 := bss_start L, 6 := bss_end L)"
  let ?s = "cpu_upd (\<lambda>h. h\<lparr>registers := ?r\<rparr>) s"
  have before: "fseq [fbind (read_csr CSR_MHARTID) (put_reg 10), put_reg 5 (fw_stack_top L), fbind (get_reg 10) (\<lambda>a0. put_reg 6 (push_bit 13 a0)),
      fbind (get_reg 5) (\<lambda>t0. fbind (get_reg 6) (\<lambda>t1. put_reg 2 (t0 - t1))), put_reg 5 (bss_start L), put_reg 6 (bss_end L)] s = Some (Ret () ?s)"
    by (simp add: fbind_def g p read_csr_runs comp_def fret_def set_reg_def stack_of_def cpu_upd_def)
  obtain k where "unat (bss_end L) - unat (bss_start L) = 4 * k" using L by (auto simp: fw_fits_def)
  then have k: "unat (bss_end L) = unat (bss_start L) + 4 * k" "unat (bss_end L) \<le> n"
    using L unfolding fw_fits_def word_le_nat_alt by linarith+
  have clear: "clear_bss ?s = Some (Ret () (rom_upd (cleared (unat (bss_start L)) (unat (bss_end L))) (cpu_upd (set_reg 5 (bss_end L)) ?s)))"
    by (rule clear_bss_runs [where n = n and k = k]) (use s k in \<open>simp_all add: rom_mapped_put\<close>)
  have "rom_entry junk garbage L = fseq ([fbind (read_csr CSR_MHARTID) (put_reg 10), put_reg 5 (fw_stack_top L), fbind (get_reg 10) (\<lambda>a0. put_reg 6 (push_bit 13 a0)),
      fbind (get_reg 5) (\<lambda>t0. fbind (get_reg 6) (\<lambda>t1. put_reg 2 (t0 - t1))), put_reg 5 (bss_start L), put_reg 6 (bss_end L)] @
      [clear_bss, \<lambda>s. fret () (s\<lparr>uart16550 := 0, uart16550_reg_shift := 0\<rparr>), fw_main junk garbage L])"
    unfolding rom_entry_def append.simps ..
  then have "rom_entry junk garbage L s =
      fw_main junk garbage L ((rom_upd (cleared (unat (bss_start L)) (unat (bss_end L))) (cpu_upd (set_reg 5 (bss_end L)) ?s))\<lparr>uart16550 := 0, uart16550_reg_shift := 0\<rparr>)"
    by (simp only: fseq_then [OF before]) (simp only: fseq.simps fbind_ret, simp only: fbind_def clear option.case result.case fret_def, simp split: option.split result.split)
  also have "(rom_upd (cleared (unat (bss_start L)) (unat (bss_end L))) (cpu_upd (set_reg 5 (bss_end L)) ?s))\<lparr>uart16550 := 0, uart16550_reg_shift := 0\<rparr> =
      started L (?r(5 := bss_end L)) s"
    by (simp add: started_def cpu_upd_def rom_upd_def set_reg_def)
  finally show ?thesis by blast
qed

text \<open>Words of the ROM from its bytes.\<close>

lemma rom_get_bytes: "rom_get a mem = le_word32 (map (mem_bytes mem) [unat a..<unat a + 4])"
proof -
  have "ucast (ucast a OR push_bit 8 (ucast b OR push_bit 8 (ucast c OR push_bit 8 (ucast d :: u64)))) =
      (ucast a OR push_bit 8 (ucast b) OR push_bit 16 (ucast c) OR push_bit 24 (ucast d) :: u32)" for a b c d :: u8
    by (rule bit_word_eqI) (auto simp: bit_simps)
  then show ?thesis by (simp add: rom_get_def le_word32_def le_read_4 upt_rec)
qed

lemma rom_get_list:
  assumes "map (mem_bytes mem) [a..<a + length bs] = bs" and "off + 4 \<le> length bs" and "unat w = a + off"
  shows "rom_get w mem = le_word32 (drop off bs)"
proof -
  have "bs ! (off + j) = mem_bytes mem (a + off + j)" if "j < 4" for j
  proof -
    have "bs ! (off + j) = map (mem_bytes mem) [a..<a + length bs] ! (off + j)" using assms(1) by simp
    also have "\<dots> = mem_bytes mem (a + off + j)" using that assms(2) by (subst nth_map) (simp_all add: add.assoc)
    finally show ?thesis .
  qed
  from this [of 0] this [of 1] this [of 2] this [of 3] show ?thesis
    unfolding rom_get_bytes assms(3) using assms(2) by (simp add: le_word32_def upt_rec numeral_3_eq_3)
qed

text \<open>What the firmware reads in the hand-over block and in the header of the device tree.\<close>

lemma booted_rom_words:
  assumes "map (mem_bytes mem) [0x3000..<0x3020] = boot_info_of c"
  shows "rom_get 0x3000 mem = ZELDA_BOOT_INFO_MAGIC" "rom_get 0x3004 mem = kernel_base c" "rom_get 0x3008 mem = 0x1000"
proof -
  have len: "length (boot_info_of c) = 32" by (simp add: boot_info_of_def)
  have "map (mem_bytes mem) [0x3000..<0x3000 + length (boot_info_of c)] = boot_info_of c" using assms by (simp add: len)
  from rom_get_list [OF this, of 0 "0x3000"] rom_get_list [OF this, of 4 "0x3004"] rom_get_list [OF this, of 8 "0x3008"]
  show "rom_get 0x3000 mem = ZELDA_BOOT_INFO_MAGIC" "rom_get 0x3004 mem = kernel_base c" "rom_get 0x3008 mem = 0x1000"
    unfolding len by (simp_all add: boot_info_of_def load_le_bytes)
qed

lemma tree_words:
  assumes "holds_tree mem tree"
  obtains dtb where "map (mem_bytes mem) [0x1000..<0x1000 + length dtb] = dtb" "12 \<le> length dtb" "length dtb \<le> 0x2000"
    "rom_get 0x1000 mem = BIG_ENDIAN32 FDT_MAGIC" "unat (LITTLE_ENDIAN32 (rom_get 0x1004 mem)) = length dtb"
proof -
  from assms obtain dtb log where d: "map (mem_bytes mem) [0x1000..<0x1000 + length dtb] = dtb" "length dtb \<le> 0x2000" "field32 dtb 0 = FDT_MAGIC"
    "uint (field32 dtb 4) = int (length dtb)" "scan_fdt_tokens dtb = Some (Ret () log)"
    unfolding holds_tree_def by blast
  have len: "12 \<le> length dtb" using d(5) by (auto simp: scan_fdt_tokens_def Fdt.load32_def get32_def split: option.splits if_splits)
  have "rom_get 0x1000 mem = le_word32 (drop 0 dtb)" "rom_get 0x1004 mem = le_word32 (drop 4 dtb)"
    using rom_get_list [OF d(1), of 0 "0x1000"] rom_get_list [OF d(1), of 4 "0x1004"] len by simp_all
  then have "rom_get 0x1000 mem = BIG_ENDIAN32 FDT_MAGIC" "LITTLE_ENDIAN32 (rom_get 0x1004 mem) = field32 dtb 4"
    using d(3) swap_swap by (metis field32_def BIG_ENDIAN32_def, simp add: field32_def)
  moreover from this(2) d(4) have "unat (LITTLE_ENDIAN32 (rom_get 0x1004 mem)) = length dtb" by (simp add: unat_eq_nat_uint)
  ultimately show thesis using that d(1,2) len by blast
qed

text \<open>A machine fresh from the set-up of the emulator, on which the firmware starts.\<close>

definition reset_ready :: "nat \<Rightarrow> vm_config \<Rightarrow> firmware \<Rightarrow> bool" where
  "reset_ready n c s \<longleftrightarrow> privilege_level (the_cpu s) = PRIVILEGE_LEVEL_MACHINE \<and> hart_id (the_cpu s) = int (boot_cpu c) \<and> boot_cpu c < 4 \<and>
     wf_interrupts (the_cpu s) \<and> uart_mapped (platform s) \<and> lcr (uart_dev (platform s)) = 0 \<and>
     plic_set_pending PLIC_IRQ_UART0 False (plic_dev (platform s)) = Some (plic_dev (platform s)) \<and> rom_mapped (platform s) n \<and> 0x4000 \<le> n \<and>
     map (mem_bytes (bootrom (platform s))) [0x3000..<0x3020] = boot_info_of c"

lemma started_sel [simp]:
  "the_cpu (started L r s) = (the_cpu s)\<lparr>registers := r\<rparr>" "regions (platform (started L r s)) = regions (platform s)"
  "uart_dev (platform (started L r s)) = uart_dev (platform s)" "plic_dev (platform (started L r s)) = plic_dev (platform s)"
  "clint_dev (platform (started L r s)) = clint_dev (platform s)" "main_mem (platform (started L r s)) = main_mem (platform s)"
  "bootrom (platform (started L r s)) = cleared (unat (bss_start L)) (unat (bss_end L)) (bootrom (platform s))"
  by (simp_all add: started_def cpu_upd_def rom_upd_def)

lemma firmware_reaches_kernel:
  assumes s: "reset_ready n c s" and L: "fw_fits L (boot_cpu c) n" and tree: "holds_tree (bootrom (platform s)) tree" and g: "length garbage = 64"
  shows "\<exists>r dtb pre post h'. rom_entry junk garbage L s = Some (Ret () (with_cpu h' (say (pre @ checksum_line dtb @ post) (console_set (started L r s))))) \<and>
    map (mem_bytes (bootrom (platform s))) [0x1000..<0x1000 + length dtb] = dtb \<and> console_ready (console_set (started L r s)) \<and>
    returns_to (handed_over (stack_of L (the_cpu s)) (of_nat (boot_cpu c)) 0x1000 (kernel_base c) (clobbered junk (delegated L ((the_cpu s)\<lparr>registers := r\<rparr>)))) h'"
proof -
  let ?mem = "cleared (unat (bss_start L)) (unat (bss_end L)) (bootrom (platform s))"
  have m: "privilege_level (the_cpu s) = PRIVILEGE_LEVEL_MACHINE" "wf_regions (regions (platform s))" "rom_mapped (platform s) n" "0x3020 \<le> n"
    and hid: "word_of_int (hart_id (the_cpu s)) = (of_nat (boot_cpu c) :: u32)"
    using s by (simp_all add: reset_ready_def uart_mapped_def)
  from rom_entry_runs [OF m(1-3) L] obtain r where r: "rom_entry junk garbage L s = fw_main junk garbage L (started L r s)" by blast
  let ?s = "started L r s"
  have low: "mem_bytes ?mem i = mem_bytes (bootrom (platform s)) i" if "i < 0x4000" for i
    using L that by (auto simp: fw_fits_def cleared_def word_le_nat_alt)
  have "map (mem_bytes ?mem) [0x3000..<0x3020] = map (mem_bytes (bootrom (platform s))) [0x3000..<0x3020]" by (simp add: low)
  then have info: "map (mem_bytes ?mem) [0x3000..<0x3020] = boot_info_of c" using s by (simp only: reset_ready_def)
  have "holds_tree ?mem tree" by (rule holds_tree_kept [OF tree]) (simp add: low)
  then obtain dtb where dtb: "map (mem_bytes ?mem) [0x1000..<0x1000 + length dtb] = dtb" "12 \<le> length dtb" "length dtb \<le> 0x2000"
    "rom_get 0x1000 ?mem = BIG_ENDIAN32 FDT_MAGIC" "unat (LITTLE_ENDIAN32 (rom_get 0x1004 ?mem)) = length dtb" by (rule tree_words)
  have u: "uart_mapped (platform ?s)" "lcr (uart_dev (platform ?s)) AND 0x80 = 0"
    "plic_set_pending PLIC_IRQ_UART0 False (plic_dev (platform ?s)) = Some (plic_dev (platform ?s))"
    using s by (simp_all add: reset_ready_def uart_mapped_def paging_enabled_def)
  have p: "privilege_level (the_cpu ?s) = PRIVILEGE_LEVEL_MACHINE" "rom_mapped (platform ?s) n"
    using m(1,3) by (simp_all add: rom_mapped_def cleared_def)
  have size: "unat (0x1000 :: u32) + length dtb \<le> n" "8 \<le> length dtb" "length dtb < 2 ^ 31" "unat (LITTLE_ENDIAN32 (rom_get (0x1000 + 4) ?mem)) = length dtb"
    using dtb(2,3,5) s by (simp_all add: reset_ready_def)
  have st: "stack_of L (the_cpu ?s) = stack_of L (the_cpu s)" by (simp add: stack_of_def)
  have bytes: "map (mem_bytes ?mem) [unat (0x1000 :: u32)..<unat (0x1000 :: u32) + length dtb] = dtb" using dtb(1) by simp
  from fw_main_enters [OF u p m(4) started_sel(7) booted_rom_words [OF info] dtb(4) size(4,1,2,3) g, where L = L and junk = junk, unfolded bytes st]
  obtain pre post h' where out: "fw_main junk garbage L ?s = Some (Ret () (with_cpu h' (say (pre @ checksum_line dtb @ post) (console_set ?s))))"
    "returns_to (handed_over (stack_of L (the_cpu s)) (of_nat (boot_cpu c)) 0x1000 (kernel_base c) (clobbered junk (delegated L ((the_cpu s)\<lparr>registers := r\<rparr>)))) h'"
    using hid by auto
  have "map (mem_bytes (bootrom (platform s))) [0x1000..<0x1000 + length dtb] = map (mem_bytes ?mem) [0x1000..<0x1000 + length dtb]"
    using dtb(3) by (simp add: low)
  then show ?thesis using r out dtb(1) uart_init_runs(2) [OF u] by metis
qed

lemma stack_top_bounds:
  assumes "fw_fits L i n" and "hart_id h = int i" and "i < 4"
  shows "128 \<le> stack_of L h" and "unat (stack_of L h) \<le> n"
proof -
  have "unat (push_bit 13 (of_nat i) :: u32) = 8192 * i"
    using assms(3) by (simp add: push_bit_eq_mult unat_word_ariths unsigned_of_nat take_bit_nat_eq_self)
  moreover have "push_bit 13 (of_nat i) \<le> fw_stack_top L" using assms(1) calculation by (simp add: fw_fits_def word_le_nat_alt)
  ultimately have "unat (stack_of L h) = unat (fw_stack_top L) - 8192 * i" using assms(2) by (simp add: stack_of_def unat_sub)
  then show "128 \<le> stack_of L h" "unat (stack_of L h) \<le> n"
    using assms(1) unfolding fw_fits_def word_le_nat_alt by (simp, linarith)+
qed

lemma kernel_running:
  assumes s: "reset_ready n c s" and L: "fw_fits L (boot_cpu c) n" and ready: "console_ready (console_set (started L r s))"
    and clint: "clint_mapped (platform s)" "boot_cpu c < clint_nr_harts (clint_dev (platform s))"
    and syscon: "\<lparr>addr_low = syscon_base, addr_high = syscon_base + syscon_size, pmr_device = Syscon_mmio\<rparr> \<in> set (regions (platform s))"
    and h: "returns_to (handed_over (stack_of L (the_cpu s)) a b e (clobbered junk (delegated L ((the_cpu s)\<lparr>registers := r\<rparr>)))) h'"
  shows "supervisor_running (stack_of L (the_cpu s)) (with_cpu h' (say out (console_set (started L r s))))"
proof -
  have hid: "hart_id (the_cpu s) = int (boot_cpu c)" "boot_cpu c < 4" "rom_mapped (platform s) n" "wf_interrupts (the_cpu s)" using s by (simp_all add: reset_ready_def)
  note T = stack_top_bounds [OF L hid(1,2)]
  have h': "privilege_level h' = PRIVILEGE_LEVEL_SUPERVISOR" "csr_blob h' CSR_ADDRESS_MSCRATCH = stack_of L (the_cpu s)" "hart_id h' = hart_id (the_cpu s)"
    "ipending h' = ipending (the_cpu s) AND 0x888" "ienable h' = 0x8" "idelegation h' = 0x222"
    using h by (simp_all add: returns_to_def handed_over_def clobbered_def delegated_def supervisor_status_def)
  have wf: "wf_interrupts (h'\<lparr>privilege_level := PRIVILEGE_LEVEL_MACHINE\<rparr>)"
    using hid(4) by (auto simp: wf_interrupts_def h' and.assoc)
  have "rom_mapped (platform s) (unat (stack_of L (the_cpu s)))" using hid(3) T(2) unfolding rom_mapped_def by (meson order_trans)
  then have "services_ready (stack_of L (the_cpu s)) (cpu_upd (\<lambda>h. h\<lparr>privilege_level := PRIVILEGE_LEVEL_MACHINE\<rparr>) (with_cpu h' (say out (console_set (started L r s)))))"
    using ready clint syscon T(1) wf h' hid(1)
    by (simp add: services_ready_def console_ready_def uart_mapped_def paging_enabled_def clint_mapped_def rom_mapped_def with_cpu_def console_set_def
        say_def Let_def cpu_upd_def cleared_def refresh_output)
  then show ?thesis using h' by (simp add: supervisor_running_def with_cpu_def)
qed

lemma boot_reset_ready:
  assumes c: "boots_with H ini c" and rom: "rom_len c < 2 ^ 32" and clint: "clint_at c = CLINT_BASE" "CLINT_BASE + 0xc000 \<le> CLINT_BASE + clint_len c"
  shows "\<exists>m v. boot H ini = Ret m v \<and> reset_ready (nat (rom_len c)) c \<lparr>platform = m, uart16550 = u, uart16550_reg_shift = k\<rparr> \<and>
    clint_mapped m \<and> boot_cpu c < clint_nr_harts (clint_dev m) \<and> console_output (uart_dev m) = [] \<and> \<not> sie (status (cpu m)) \<and>
    \<lparr>addr_low = syscon_base, addr_high = syscon_base + syscon_size, pmr_device = Syscon_mmio\<rparr> \<in> set (regions m) \<and>
    holds_tree (bootrom m) (device_tree (the_vm v) (image_file_size H) (clint_dev m) (plic_dev m))"
proof -
  have n: "cpus c \<le> 4" "boot_cpu c < cpus c" "itlb_log c < 32" "dtlb_log c < 32" "ZELDA_ROM_MIN_SIZE \<le> rom_len c"
    using c by (simp_all add: boots_with_def cpu_config_def rom_config_def)
  obtain mem t j bps where init: "virtual_machine_init H ini = Ret () (booted H ini c mem t j bps)" "table_ok c 6 t"
    and mem: "mem_size mem = nat (rom_len c)" "map (mem_bytes mem) [0x3000..<0x3020] = boot_info_of c"
      "holds_tree mem (device_tree (booted_vm H ini c mem) (image_file_size H) (reset_clint c) (reset_plic c))"
    using virtual_machine_init_stages [OF c] by blast
  let ?v = "booted H ini c mem t j bps" and ?h = "reset_hart H c (boot_cpu c)"
  let ?m = "machine_of H ?v ?h"
  have boot: "boot H ini = Ret ?m ?v" using init(1) n(2) by (simp add: boot_def hart_by_id_def booted_def booted_vm_def)
  have sel: "cpu ?m = ?h" "regions ?m = t" "bootrom ?m = mem" "clint_dev ?m = reset_clint c" "plic_dev ?m = (reset_plic c)\<lparr>phandle := 1\<rparr>" "uart_dev ?m = reset_uart H"
    "the_vm ?v = booted_vm H ini c mem" by (simp_all add: machine_of_def booted_def booted_vm_def)
  have t: "wf_regions t" "set t = set (config_regions c)"
    using init(2) mset_eq_setD [of t "config_regions c"] by (simp_all add: table_ok_def config_regions_def)
  have h: "privilege_level ?h = PRIVILEGE_LEVEL_MACHINE" "hart_id ?h = int (boot_cpu c)" "\<not> sie (status ?h)"
    by (simp_all add: reset_hart_def hart_tlb_init_def zeroed_hart_def)
  have r: "unat (word_of_int (rom_len c) :: u32) = nat (rom_len c)"
    using rom n(5) by (simp add: unat_eq_nat_uint unsigned_of_int take_bit_int_eq_self)
  have "reset_ready (nat (rom_len c)) c \<lparr>platform = ?m, uart16550 = u, uart16550_reg_shift = k\<rparr>"
    using t h r n mem(1,2) reset_hart_ready(3) [OF n(3,4), of H "boot_cpu c"]
    by (auto simp: reset_ready_def sel uart_mapped_def paging_enabled_def uart_region_def config_regions_def rom_mapped_def reset_uart_def reset_plic_def
        plic_set_pending_def PLIC_NR_SOURCES_def PLIC_IRQ_UART0_def)
  moreover have "clint_mapped ?m"
    using t(2) clint reset_devices_wf(1) [OF n(1)] by (simp add: clint_mapped_def sel config_regions_def) (simp add: reset_clint_def)
  moreover have "device_tree (booted_vm H ini c mem) (image_file_size H) (reset_clint c) ((reset_plic c)\<lparr>phandle := 1\<rparr>) =
      device_tree (booted_vm H ini c mem) (image_file_size H) (reset_clint c) (reset_plic c)" by (simp add: device_tree_def soc_tree_def)
  ultimately show ?thesis
    using boot mem(3) t(2) n(2) h(3) by (intro exI [of _ ?m] exI [of _ ?v]) (simp add: sel, simp add: reset_uart_def reset_clint_def config_regions_def)
qed

section \<open>Properties\<close>

text \<open>
  C7. The machine boots into the kernel: for every configuration with which the emulator sets up a machine,
  and every linker layout that keeps the firmware's data and stacks in the ROM above the hand-over areas,
  the firmware run from the reset vector on that machine returns from machine mode at the kernel's entry
  point in supervisor mode, with the hart number in \<^verbatim>\<open>a0\<close> and the address of the device tree in \<^verbatim>\<open>a1\<close>. The
  exceptions and interrupts of the supervisor are delegated to it, the trap vector of the firmware is
  installed and its stack is in \<^verbatim>\<open>mscratch\<close>, so that the services of the firmware are ready for the kernel. The
  device tree in the ROM and the main memory are as the emulator left them, and the SHA-1 digest of
  the tree is on the console. The interrupts of the kernel stay disabled until it enables them.
\<close>

theorem firmware_enters_kernel:
  assumes c: "boots_with H ini c" "rom_len c < 2 ^ 32" "clint_at c = CLINT_BASE" "CLINT_BASE + 0xc000 \<le> CLINT_BASE + clint_len c"
    and L: "fw_fits L (boot_cpu c) (nat (rom_len c))" and g: "length garbage = 64"
  shows "\<exists>m v s' dtb pre post. boot H ini = Ret m v \<and>
    rom_entry junk garbage L \<lparr>platform = m, uart16550 = u, uart16550_reg_shift = k\<rparr> = Some (Ret () s') \<and>
    pc (the_cpu s') = kernel_base c \<and> registers (the_cpu s') 10 = of_nat (boot_cpu c) \<and> registers (the_cpu s') 11 = 0x1000 \<and>
    supervisor_running (fw_stack_top L - push_bit 13 (of_nat (boot_cpu c))) s' \<and>
    csr_blob (the_cpu s') CSR_ADDRESS_MTVEC = fw_trap_vector_address L AND 0xfffffffd \<and> csr_blob (the_cpu s') CSR_ADDRESS_MEDELEG = 0xb1ff \<and>
    idelegation (the_cpu s') = 0x222 \<and> ienable (the_cpu s') = 0x8 \<and> \<not> sie (status (the_cpu s')) \<and>
    main_mem (platform s') = main_mem m \<and> holds_tree (bootrom (platform s')) (device_tree (the_vm v) (image_file_size H) (clint_dev m) (plic_dev m)) \<and>
    map (mem_bytes (bootrom m)) [0x1000..<0x1000 + length dtb] = dtb \<and>
    console_output (uart_dev (platform s')) = pre @ checksum_line dtb @ post"
proof -
  from boot_reset_ready [OF c, of u k] obtain m v where boot: "boot H ini = Ret m v"
    and s: "reset_ready (nat (rom_len c)) c \<lparr>platform = m, uart16550 = u, uart16550_reg_shift = k\<rparr>" (is "reset_ready _ _ ?s")
    and dev: "clint_mapped m" "boot_cpu c < clint_nr_harts (clint_dev m)"
      "\<lparr>addr_low = syscon_base, addr_high = syscon_base + syscon_size, pmr_device = Syscon_mmio\<rparr> \<in> set (regions m)"
    and m: "console_output (uart_dev m) = []" "\<not> sie (status (cpu m))"
      "holds_tree (bootrom m) (device_tree (the_vm v) (image_file_size H) (clint_dev m) (plic_dev m))" by blast
  let ?T = "stack_of L (cpu m)"
  have T: "?T = fw_stack_top L - push_bit 13 (of_nat (boot_cpu c))" using s by (simp add: reset_ready_def stack_of_def)
  have tree: "holds_tree (bootrom (platform ?s)) (device_tree (the_vm v) (image_file_size H) (clint_dev m) (plic_dev m))" using m(3) by simp
  from firmware_reaches_kernel [OF s L tree g, where junk = junk, unfolded firmware.select_convs] obtain r dtb pre post h' where
    run: "rom_entry junk garbage L ?s = Some (Ret () (with_cpu h' (say (pre @ checksum_line dtb @ post) (console_set (started L r ?s)))))"
    and dtb: "map (mem_bytes (bootrom m)) [0x1000..<0x1000 + length dtb] = dtb" and ready: "console_ready (console_set (started L r ?s))"
    and h: "returns_to (handed_over ?T (of_nat (boot_cpu c)) 0x1000 (kernel_base c) (clobbered junk (delegated L ((cpu m)\<lparr>registers := r\<rparr>)))) h'"
    by blast
  let ?s' = "with_cpu h' (say (pre @ checksum_line dtb @ post) (console_set (started L r ?s)))"
  have run': "supervisor_running ?T ?s'"
    using kernel_running [OF s L ready, unfolded firmware.select_convs, OF dev h] .
  have h': "pc h' = kernel_base c" "registers h' 10 = of_nat (boot_cpu c)" "registers h' 11 = 0x1000" "\<not> sie (status h')" "idelegation h' = 0x222" "ienable h' = 0x8"
    "csr_blob h' CSR_ADDRESS_MTVEC = fw_trap_vector_address L AND 0xfffffffd" "csr_blob h' CSR_ADDRESS_MEDELEG = 0xb1ff"
    using h m(2) by (simp_all add: returns_to_def handed_over_def clobbered_def delegated_def supervisor_status_def)
  have s': "the_cpu ?s' = h'" "main_mem (platform ?s') = main_mem m" "console_output (uart_dev (platform ?s')) = pre @ checksum_line dtb @ post"
    "bootrom (platform ?s') = cleared (unat (bss_start L)) (unat (bss_end L)) (bootrom m)"
    by (simp_all add: with_cpu_def console_set_def say_def Let_def uart_ready_def m(1))
  have "holds_tree (bootrom (platform ?s')) (device_tree (the_vm v) (image_file_size H) (clint_dev m) (plic_dev m))"
    using L by (intro holds_tree_kept [OF m(3)]) (simp add: s' cleared_def fw_fits_def word_le_nat_alt)
  then show ?thesis using boot run run' [unfolded T] h' s' dtb
    by (intro exI [of _ m] exI [of _ v] exI [of _ ?s'] exI [of _ dtb] exI [of _ pre] exI [of _ post]) (simp only: simp_thms)
qed

text \<open>C7 for the configuration of the repository's test machine and a firmware that is linked behind 0x4000.\<close>

definition example_fw_layout :: fw_layout where
  "example_fw_layout = \<lparr>fw_stack_top = 0x10000, bss_start = 0x8000, bss_end = 0x10000, fw_trap_vector_address = 0x4100\<rparr>"

theorem firmware_enters_kernel_witness:
  "\<exists>m v s'. boot example_host test_vm_ini = Ret m v \<and>
     rom_entry (\<lambda>_. 0xdead) (replicate 64 0xff) example_fw_layout \<lparr>platform = m, uart16550 = 7, uart16550_reg_shift = 9\<rparr> = Some (Ret () s') \<and>
     pc (the_cpu s') = 0x80400000 \<and> registers (the_cpu s') 10 = 0 \<and> registers (the_cpu s') 11 = 0x1000 \<and> supervisor_running 0x10000 s'"
proof -
  have "rom_len test_config < 2 ^ 32" "clint_at test_config = CLINT_BASE" "CLINT_BASE + 0xc000 \<le> CLINT_BASE + clint_len test_config"
    "fw_fits example_fw_layout (boot_cpu test_config) (nat (rom_len test_config))"
    by (simp_all add: test_config_def fw_fits_def example_fw_layout_def)
  from firmware_enters_kernel [OF test_boots this, of "replicate 64 0xff" "\<lambda>_. 0xdead" 7 9]
  obtain m v s' where "boot example_host test_vm_ini = Ret m v"
    "rom_entry (\<lambda>_. 0xdead) (replicate 64 0xff) example_fw_layout \<lparr>platform = m, uart16550 = 7, uart16550_reg_shift = 9\<rparr> = Some (Ret () s')"
    "pc (the_cpu s') = kernel_base test_config" "registers (the_cpu s') 10 = of_nat (boot_cpu test_config)" "registers (the_cpu s') 11 = 0x1000"
    "supervisor_running (fw_stack_top example_fw_layout - push_bit 13 (of_nat (boot_cpu test_config))) s'"
    by auto
  then show ?thesis by (intro exI [of _ m] exI [of _ v] exI [of _ s']) (simp add: test_config_def example_fw_layout_def)
qed

end
