(* ===== verification/Spec2Isabelle.thy ===== *)
theory Spec2Isabelle
  imports Boot_Firmware
begin

text \<open>
  A verification library for the Zelda RISC-V emulator (\<^verbatim>\<open>src/vmm\<close>): an RV32IMA machine with
  machine, supervisor and user mode, Sv32 paging, a CLINT, a PLIC and a 16550 UART, whose guest code
  is executed by binary translation into x86 templates; and for the machine mode firmware that comes
  with it (\<^verbatim>\<open>src/bootrom\<close>), which starts the kernel and serves its SBI calls.

  \<^bold>\<open>The program and the theories.\<close> Every theory opens with a text that names its source files.

  \<^item> \<open>Prelude\<close>: the result type \<open>('s, 'a) result\<close> of code that may return, unwind to the vmm
    (\<open>Trap\<close>, a \<^verbatim>\<open>vmm_jumper\<close> out of a callback) or end the process (\<open>Stop\<close>: \<^verbatim>\<open>ASSERT\<close>, \<^verbatim>\<open>PANIC\<close>,
    \<^verbatim>\<open>exit\<close>, a host fault), its bind, and shared lemmas on lists and words.
  \<^item> \<open>Sort_Search\<close>: the macros of \<^verbatim>\<open>sort.h\<close> and \<^verbatim>\<open>search.h\<close>, with a comparison as a function that may
    fail an assertion. \<open>Address_Order\<close>: the comparison by the sign of a 32-bit difference, and the
    windows of the address space on which it is an order.
  \<^item> \<open>Pm_Region\<close>: the table of physical memory regions (\<^verbatim>\<open>pm_region.c\<close>). \<open>Memory\<close>: main memory, boot
    rom and power switch (\<^verbatim>\<open>emulate_ram.c\<close>, \<^verbatim>\<open>emulate_rom.c\<close>, \<^verbatim>\<open>emulate_syscon.c\<close>). \<open>Clint\<close>, \<open>Plic\<close>, \<open>Uart\<close>:
    the devices (\<^verbatim>\<open>emulate_clint.c\<close>, \<^verbatim>\<open>emulate_plic.c\<close>, \<^verbatim>\<open>emulate_uart.c\<close>).
  \<^item> \<open>Hart\<close>: \<^verbatim>\<open>struct hart\<close> as a record (\<^verbatim>\<open>hart.h\<close>, \<^verbatim>\<open>hart_def.h\<close>). \<open>Translation_Cache\<close>: the sorted
    table of translated instructions and the code buffer (\<^verbatim>\<open>hart.c\<close>), with the macros
    \<open>PRECHECK_TRANSLATION_CACHE\<close> and \<open>COMMIT_TRANSLATION\<close>. \<open>Trap\<close>: trap entry, delegation,
    interrupt delivery and trap return (\<^verbatim>\<open>hart_trap.c\<close>, \<^verbatim>\<open>hart_exception.c\<close>, \<^verbatim>\<open>hart_interrupt.c\<close>,
    \<^verbatim>\<open>hart_util.h\<close>).
  \<^item> \<open>Machine\<close>: the machine around the hart, and the device pump of \<^verbatim>\<open>hart_interrupt.c\<close>. \<open>Mmu\<close>: TLBs,
    page table walk, loads, stores and fetches (\<^verbatim>\<open>mmu.c\<close>, \<^verbatim>\<open>mmu.h\<close>, \<^verbatim>\<open>mmu_pagewalker.c\<close>,
    \<^verbatim>\<open>mmu_tlb.h\<close>). \<open>Csr_Registers\<close> and \<open>Csr\<close>: the table of control and status registers with
    their handlers, \<^verbatim>\<open>hart_init\<close>, and the callback of the CSR instructions. \<open>Amo\<close>: the A extension
    and the reservation table (\<^verbatim>\<open>translate_amo.c\<close>). \<open>Breakpoints\<close>: \<^verbatim>\<open>debug_breakpoint.c\<close>.
  \<^item> \<open>Decode\<close>: the decoder (\<^verbatim>\<open>translation.c\<close>) and the immediates of the instruction formats. \<open>Isa\<close>:
    the instruction set the emulator has to implement, as a function of the instruction word
    (\<open>isa_step\<close>), independent of decoder, templates and translators.
  \<^item> \<open>X86\<close>: the host instructions that templates use, on a register file, flags and a stack, over an
    abstract host. \<open>Host_Code\<close>: the machine as that host, the vmm functions that templates call with
    the calling convention, and the macros of \<^verbatim>\<open>translation.h\<close>. \<open>Templates\<close>: all 55 assembly
    templates, instruction by instruction, with a lemma on what each does. \<open>Translate\<close>: every
    translator, the handler tables and the dispatch. \<open>Code_Frame\<close>: what continuing instructions
    leave alone.
  \<^item> \<open>Vmm\<close>: prefetch, \<open>vmresume\<close>, \<open>run_blocks\<close> (control flow inside the code buffer) and \<open>vmexit\<close>.
    \<open>Execution\<close>: translation units and their correctness.
  \<^item> \<open>Fdt\<close>: the builder and the scanner of the flattened device tree (\<^verbatim>\<open>fdt.c\<close>, \<^verbatim>\<open>fdt.h\<close>).
    \<open>Device_Tree\<close>: the nodes of the machine and of its devices, and \<open>fdt_init\<close>. \<open>Tree_Contents\<close>: the
    abstract tree that they have to produce.
  \<^item> \<open>Setup\<close>: from the configuration and the image files to the machine that \<^verbatim>\<open>main\<close> resumes (\<^verbatim>\<open>vm.c\<close>,
    \<^verbatim>\<open>util.c\<close>, \<^verbatim>\<open>physical_memory.c\<close>, \<^verbatim>\<open>main.c\<close> and the \<^verbatim>\<open>init\<close> functions of memories and devices).

  \<^item> \<open>Firmware\<close>: the console driver and \<^verbatim>\<open>printk\<close> of the firmware (\<^verbatim>\<open>bootrom/uart.c\<close>, \<^verbatim>\<open>printk.c\<close>,
    \<^verbatim>\<open>csr.h\<close>) as programs over the machine of the other theories: every load, store and CSR access
    goes through \<open>Mmu\<close> and \<open>Csr\<close>. \<open>Sbi\<close>: the calls of the kernel and the machine traps
    (\<^verbatim>\<open>bootrom/sbi.c\<close>), with the call table \<open>sbi_spec\<close>. \<open>Trap_Vector\<close>: the trap vector
    (\<^verbatim>\<open>bootrom/entry.S\<close>). \<open>Sha1\<close>: the hash (\<^verbatim>\<open>bootrom/sha1.c\<close>) and its reference.
    \<open>Boot_Firmware\<close>: from the reset vector to the kernel (\<^verbatim>\<open>bootrom/entry.S\<close>, \<^verbatim>\<open>init.c\<close>, \<^verbatim>\<open>fdt.c\<close>).

  \<^bold>\<open>How the parts interact.\<close> \<open>boot\<close> sets up regions, harts, devices and ROM. \<open>vmm_entry_point\<close> calls \<open>vmexit\<close>, which pumps the devices, delivers an
  interrupt if one is due, and resumes the guest: \<open>prefetch_instructions\<close> fetches words through the
  MMU, translates them and commits the code to the cache; \<open>vmresume\<close> jumps to the block of the pc.
  Blocks call back into the MMU, the CSR, AMO and trap functions, and leave by the jumper, by a branch
  or by a trap. One round is \<open>vmm_round\<close>.

  \<^bold>\<open>What is shown.\<close> The theorems marked \<open>C1\<close>, \<open>C2\<close> and so on:

  \<^item> Execution: running translated units is running \<open>isa_step\<close> on the guest's words; resuming always
    reaches the block of the pc; the prefetch stays in its buffers and ends; each single translation
    is right, with the divisions that fault on the host as the stated exception.
  \<^item> Cache, regions, breakpoints: the sorted tables implement maps and sets; where the comparison is
    no order, the failure is exhibited.
  \<^item> MMU: a TLB miss is the Sv32 walk; loads read back stores; the missing tag check is exhibited.
  \<^item> Traps, CSRs, AMO, devices: entry and return round trips, interrupt priority, views of the
    supervisor registers, flushes on a change of the address space, reservation semantics,
    arbitration of the PLIC, deadlines of the CLINT, the receive queue of the UART.
  \<^item> Set-up: a valid configuration gives a machine that meets the invariants the other theorems
    assume; images load however the host cuts its reads. Device tree: scanning a built tree gives back
    its properties, the ROM holds the tree of the machine for up to four harts, and the strings block
    allows no more.

  \<^item> Firmware: on every machine that the set-up produces, the firmware enters the kernel with the traps
    delegated and its services ready; in that state every supervisor call is answered as the call table
    says and returns with the caller's registers intact, and a timer deadline of the kernel reaches it as
    an interrupt; unexpected traps stop the hart; \<^verbatim>\<open>printk\<close> prints its format; the hash is SHA-1.

  Interfaces are locales interpreted on the model: the comparison contract of the sort and search
  macros, the memory contract of RAM and ROM, the map contract of the translation cache and the
  others in their theories.

  \<^bold>\<open>Loops.\<close> No fuel is used. Loops are recursive functions with termination proofs; the guard of
  \<open>run_blocks\<close> that makes it total is never taken on a well formed layout (\<open>wf_layout\<close>: positive
  block sizes that fit in the cache). The scanner of device trees need not end on bytes that are no
  device tree, so it is a \<open>partial_function\<close> into options; the round trip shows that it ends on built
  ones. The firmware's loops that wait for a device or clear memory are \<open>partial_function\<close>s too, with
  \<open>None\<close> for a hart that spins for ever; the theorems show that they return, or, for fatal traps, that they do not.

  \<^bold>\<open>Parameters.\<close> Sizes of the assembled templates (\<open>code_layout\<close>), link addresses and registers left
  by compiled functions (\<open>vmm_env\<close>), the interactive shell, the parsed configuration (a lookup
  function: the parser \<^verbatim>\<open>ini.c\<close> is vendored), and the host (\<open>host_env\<close>: files and how a \<^verbatim>\<open>read\<close> cuts
  them, mappable memory, terminal, contents of fresh allocations), which are decided outside the
  sources; for the firmware the addresses that the linker fixes (\<open>fw_layout\<close>), the registers that its
  compiled code leaves behind and the contents of an uninitialised buffer. Theorems that load a file assume that a \<^verbatim>\<open>read\<close> before the end of a file delivers a byte.

  \<^bold>\<open>Not modelled.\<close> The \<open>DEBUG_TRACE\<close> variants of macros and all log output; the host terminal; the
  vendored parser \<^verbatim>\<open>ini.c\<close>; writing the device tree to a host file; the interactive
  commands of \<^verbatim>\<open>debug.c\<close>; the self tests of the firmware (\<^verbatim>\<open>unittest.c\<close>), which test the emulator and
  are not compiled in by default; the guest program under \<^verbatim>\<open>guest\<close>. The firmware is modelled at the
  level of its sources, statement by statement, not as the instructions of its image: time does not
  pass and no device acts between two of its statements, and its C variables are not in guest memory.
\<close>

end
